(* ===== verification/Prelude.thy ===== *)
theory Prelude
  imports Main
begin

text \<open>
  What every component of the development shares: the exceptions the PHP services raise and the
  result type that carries them, PHP's 64-bit integer division and range, database tables as lists
  of rows with a key, half-open time intervals, and the lemma collections the component proofs use.
  Nothing here is specific to one service; the rows themselves are declared in the component
  theories.
\<close>

subsection \<open>Lemma collections\<close>

named_theorems res_simps \<open>inversion rules for successful results\<close>
named_theorems table_simps \<open>rules about lookup and update of table rows\<close>
named_theorems frame_simps \<open>what an operation leaves unchanged\<close>

subsection \<open>Basic types\<close>

type_synonym id = nat
type_synonym user_id = nat
type_synonym money = int
type_synonym instant = int
type_synonym day = int

text \<open>
  Row ids are UUIDs in the program; the model only compares them, so they are natural numbers.
  Instants are seconds since the epoch (the code stores UTC), days are whole days since the epoch
  in the property's time zone. Amounts are integer minor units.
\<close>

subsection \<open>Exceptions and results\<close>

text \<open>
  One constructor per exception class the modelled services throw. \<open>BadTransition a b\<close> is
  \<open>InvalidReservationTransition\<close> between the stored values \<open>a\<close> and \<open>b\<close>. \<open>Validation k\<close> is
  \<open>ValidationException::withMessages([k => ...])\<close> with its message key; \<open>Commercial s\<close>
  is a \<open>CommercialWorkflowException\<close> and \<open>Domain s\<close> a \<open>\DomainException\<close>, where the slug
  \<open>s\<close> names the message; \<open>NotFound t\<close> is \<open>findOrFail\<close> or \<open>firstOrFail\<close> on table \<open>t\<close>. \<open>Contract t k\<close> is the
  \<open>QueryException\<close> of a write to table \<open>t\<close> that breaks its index or check \<open>k\<close>.
\<close>

datatype failure =
    Validation string
  | Commercial string
  | Domain string
  | Conflict string "id option" "id option"
  | NotFound string
  | Logic string
  | BadTransition string string
  | Contract string string
  | Type_Error

type_synonym 'a res = "failure + 'a"

definition bindE :: "'e + 'a \<Rightarrow> ('a \<Rightarrow> 'e + 'b) \<Rightarrow> 'e + 'b" where
  "bindE m f = (case m of Inl e \<Rightarrow> Inl e | Inr x \<Rightarrow> f x)"

lemma bindE_simps [simp]:
  "bindE (Inl e) f = Inl e"
  "bindE (Inr x) f = f x"
  by (simp_all add: bindE_def)

lemma bindE_eq_Inr [res_simps]: "bindE m f = Inr y \<longleftrightarrow> (\<exists>x. m = Inr x \<and> f x = Inr y)"
  by (cases m) simp_all

lemma if_Inl_eq_Inr [res_simps]: "(if b then Inl e else r) = Inr y \<longleftrightarrow> \<not> b \<and> r = Inr y"
  by simp

lemma if_then_Inl_eq_Inr [res_simps]: "(if b then r else Inl e) = Inr y \<longleftrightarrow> b \<and> r = Inr y"
  by simp

lemma prod_case_Inr: "(case p of (x, y) \<Rightarrow> f x y) = Inr z \<longleftrightarrow> (\<exists>x y. p = (x, y) \<and> f x y = Inr z)"
  by (cases p) simp

lemma option_case_Inl_eq_Inr [res_simps]:
  "(case x of None \<Rightarrow> Inl e | Some v \<Rightarrow> f v) = Inr y \<longleftrightarrow> (\<exists>v. x = Some v \<and> f v = Inr y)"
  by (cases x) simp_all

text \<open>A \<open>foreach\<close> whose body may throw, threading the state it changes.\<close>

fun foldE :: "('a \<Rightarrow> 's \<Rightarrow> 'e + 's) \<Rightarrow> 'a list \<Rightarrow> 's \<Rightarrow> 'e + 's" where
  "foldE f [] s = Inr s"
| "foldE f (x # xs) s = (case f x s of Inl e \<Rightarrow> Inl e | Inr s' \<Rightarrow> foldE f xs s')"

lemma foldE_invariant:
  assumes "foldE f xs s = Inr t" and "P s"
    and "\<And>x s s'. x \<in> set xs \<Longrightarrow> P s \<Longrightarrow> f x s = Inr s' \<Longrightarrow> P s'"
  shows "P t"
  using assms
proof (induction xs arbitrary: s)
  case (Cons x xs)
  then obtain s' where "f x s = Inr s'" and "foldE f xs s' = Inr t"
    by (auto split: sum.splits)
  with Cons.prems show ?case by (intro Cons.IH [of s']) auto
qed simp

text \<open>A \<open>foreach\<close> that only checks.\<close>

fun allE :: "('a \<Rightarrow> 'e + unit) \<Rightarrow> 'a list \<Rightarrow> 'e + unit" where
  "allE f [] = Inr ()"
| "allE f (x # xs) = (case f x of Inl e \<Rightarrow> Inl e | Inr _ \<Rightarrow> allE f xs)"

lemma allE_eq_Inr [res_simps]: "allE f xs = Inr () \<longleftrightarrow> (\<forall>x \<in> set xs. f x = Inr ())"
  by (induction xs) (auto split: sum.splits)

text \<open>A result that is a success with a given property; concrete runs are evaluated through it.\<close>

definition succeeds_with :: "('a \<Rightarrow> bool) \<Rightarrow> 'e + 'a \<Rightarrow> bool" where
  "succeeds_with P m = (case m of Inl _ \<Rightarrow> False | Inr x \<Rightarrow> P x)"

lemma succeeds_with_simps [simp]:
  "succeeds_with P (Inr x) = P x"
  "\<not> succeeds_with P (Inl e)"
  by (simp_all add: succeeds_with_def)

lemma succeeds_withE:
  assumes "succeeds_with P m"
  obtains x where "m = Inr x" and "P x"
  using assms by (cases m) simp_all

lemma fold_frame: "(\<And>x s. g (f x s) = g s) \<Longrightarrow> g (fold f xs s) = g s"
  by (induction xs arbitrary: s) simp_all

subsection \<open>PHP integers\<close>

definition php_int_max :: int where
  "php_int_max = 9223372036854775807"

definition fits :: "int \<Rightarrow> bool" where
  "fits n \<longleftrightarrow> - php_int_max - 1 \<le> n \<and> n \<le> php_int_max"

lemma php_int_max_pos [simp]: "0 < php_int_max" "0 \<le> php_int_max"
  by (simp_all add: php_int_max_def)

text \<open>\<open>intdiv\<close> truncates towards zero; the callers here never divide by zero.\<close>

definition intdiv :: "int \<Rightarrow> int \<Rightarrow> int" where
  "intdiv a b = sgn a * sgn b * (\<bar>a\<bar> div \<bar>b\<bar>)"

lemma intdiv_nonneg: "0 \<le> a \<Longrightarrow> 0 < b \<Longrightarrow> intdiv a b = a div b"
  by (cases "a = 0") (simp_all add: intdiv_def)

lemma intdiv_numeral_nonneg [simp]: "0 \<le> a \<Longrightarrow> intdiv a (numeral k) = a div numeral k"
  by (simp add: intdiv_nonneg)

text \<open>
  An integer expression that leaves the 64-bit range becomes a float in PHP, and \<open>intdiv\<close> or an
  \<open>int\<close> return type then refuses it with a \<open>TypeError\<close>.
\<close>

definition int_or_type_error :: "int \<Rightarrow> int res" where
  "int_or_type_error n = (if fits n then Inr n else Inl Type_Error)"

lemma int_or_type_error_Inr [res_simps]: "int_or_type_error n = Inr m \<longleftrightarrow> fits n \<and> m = n"
  by (auto simp: int_or_type_error_def)

subsection \<open>Decimal text\<close>

definition decimal_digit :: "nat \<Rightarrow> char" where
  "decimal_digit n = ''0123456789'' ! (n mod 10)"

fun decimal :: "nat \<Rightarrow> string" where
  "decimal n = (if n < 10 then [decimal_digit n] else decimal (n div 10) @ [decimal_digit n])"

definition int_text :: "int \<Rightarrow> string" where
  "int_text n = (if n < 0 then CHR ''-'' # decimal (nat (- n)) else decimal (nat n))"

subsection \<open>Tables\<close>

text \<open>
  A table is the list of its rows in insertion order. \<open>find_row\<close> is a lookup by primary key,
  \<open>upd_row\<close> an update of one row, \<open>upd_where\<close> a bulk update, \<open>sum_where\<close> a \<open>sum\<close> query.
\<close>

definition find_row :: "('r \<Rightarrow> id) \<Rightarrow> id \<Rightarrow> 'r list \<Rightarrow> 'r option" where
  "find_row key i tbl = find (\<lambda>r. key r = i) tbl"

definition upd_where :: "('r \<Rightarrow> bool) \<Rightarrow> ('r \<Rightarrow> 'r) \<Rightarrow> 'r list \<Rightarrow> 'r list" where
  "upd_where P f tbl = map (\<lambda>r. if P r then f r else r) tbl"

definition upd_row :: "('r \<Rightarrow> id) \<Rightarrow> id \<Rightarrow> ('r \<Rightarrow> 'r) \<Rightarrow> 'r list \<Rightarrow> 'r list" where
  "upd_row key i f tbl = upd_where (\<lambda>r. key r = i) f tbl"

definition sum_where :: "('r \<Rightarrow> bool) \<Rightarrow> ('r \<Rightarrow> int) \<Rightarrow> 'r list \<Rightarrow> int" where
  "sum_where P f tbl = sum_list (map f (filter P tbl))"

definition find_or_fail :: "string \<Rightarrow> ('r \<Rightarrow> id) \<Rightarrow> id \<Rightarrow> 'r list \<Rightarrow> 'r res" where
  "find_or_fail t key i tbl = (case find_row key i tbl of None \<Rightarrow> Inl (NotFound t) | Some r \<Rightarrow> Inr r)"

lemma find_row_Some: "find_row key i tbl = Some r \<Longrightarrow> r \<in> set tbl \<and> key r = i"
  by (auto simp: find_row_def find_Some_iff)

lemma find_row_key: "find_row key i tbl = Some r \<Longrightarrow> find_row key (key r) tbl = Some r"
  by (auto dest: find_row_Some)

lemma find_row_None_iff: "find_row key i tbl = None \<longleftrightarrow> (\<forall>r \<in> set tbl. key r \<noteq> i)"
  by (auto simp: find_row_def find_None_iff)

lemma find_or_fail_Inr [res_simps]:
  "find_or_fail t key i tbl = Inr r \<longleftrightarrow> find_row key i tbl = Some r"
  by (auto simp: find_or_fail_def split: option.splits)

lemma find_row_unique:
  assumes "distinct (map key tbl)" and "r \<in> set tbl"
  shows "find_row key (key r) tbl = Some r"
  using assms by (induction tbl) (auto simp: find_row_def image_iff)

lemma set_upd_where [table_simps]:
  "set (upd_where P f tbl) = (\<lambda>r. if P r then f r else r) ` set tbl"
  by (simp add: upd_where_def)

lemma map_key_upd_where [table_simps]:
  "(\<And>r. key (f r) = key r) \<Longrightarrow> map key (upd_where P f tbl) = map key tbl"
  by (simp add: upd_where_def)

lemma map_key_upd_row [table_simps]:
  "(\<And>r. key (f r) = key r) \<Longrightarrow> map key (upd_row key i f tbl) = map key tbl"
  by (simp add: upd_row_def map_key_upd_where)

lemma length_upd_where [simp]: "length (upd_where P f tbl) = length tbl"
  by (simp add: upd_where_def)

lemma length_upd_row [simp]: "length (upd_row key i f tbl) = length tbl"
  by (simp add: upd_row_def)

lemma find_row_upd_same [table_simps]:
  "(\<And>r. key (f r) = key r) \<Longrightarrow>
     find_row key i (upd_row key i f tbl) = map_option f (find_row key i tbl)"
  by (induction tbl) (auto simp: find_row_def upd_row_def upd_where_def)

lemma find_row_upd_other [table_simps]:
  "i \<noteq> j \<Longrightarrow> (\<And>r. key (f r) = key r) \<Longrightarrow>
     find_row key i (upd_row key j f tbl) = find_row key i tbl"
  by (induction tbl) (auto simp: find_row_def upd_row_def upd_where_def)

lemma find_SomeD: "find P xs = Some x \<Longrightarrow> x \<in> set xs \<and> P x"
  by (induction xs) (auto split: if_splits)

lemma find_append:
  "find P (xs @ ys) = (case find P xs of None \<Rightarrow> find P ys | Some r \<Rightarrow> Some r)"
  by (induction xs) simp_all

lemma find_row_append:
  "find_row key i (xs @ ys) = (case find_row key i xs of None \<Rightarrow> find_row key i ys | Some r \<Rightarrow> Some r)"
  by (induction xs) (auto simp: find_row_def)

lemma sum_where_Nil [simp]: "sum_where P f [] = 0"
  by (simp add: sum_where_def)

lemma sum_where_Cons [simp]:
  "sum_where P f (x # xs) = (if P x then f x else 0) + sum_where P f xs"
  by (simp add: sum_where_def)

lemma sum_where_append [simp]: "sum_where P f (xs @ ys) = sum_where P f xs + sum_where P f ys"
  by (simp add: sum_where_def)

lemma sum_where_nonneg: "(\<And>x. x \<in> set xs \<Longrightarrow> P x \<Longrightarrow> 0 \<le> f x) \<Longrightarrow> 0 \<le> sum_where P f xs"
  by (induction xs) auto

lemma sum_where_mono:
  assumes "\<And>x. x \<in> set xs \<Longrightarrow> P x \<Longrightarrow> Q x" and "\<And>x. x \<in> set xs \<Longrightarrow> Q x \<Longrightarrow> 0 \<le> f x"
  shows "sum_where P f xs \<le> sum_where Q f xs"
  using assms by (induction xs) (auto, fastforce)

lemma sum_where_cong:
  "(\<And>x. x \<in> set xs \<Longrightarrow> P x = Q x) \<Longrightarrow> (\<And>x. x \<in> set xs \<Longrightarrow> P x \<Longrightarrow> f x = g x) \<Longrightarrow>
     sum_where P f xs = sum_where Q g xs"
  by (induction xs) auto

lemma sum_where_upd_where:
  "(\<And>r. r \<in> set tbl \<Longrightarrow> Q r \<Longrightarrow> P (f r) = P r) \<Longrightarrow> (\<And>r. r \<in> set tbl \<Longrightarrow> Q r \<Longrightarrow> g (f r) = g r) \<Longrightarrow>
     sum_where P g (upd_where Q f tbl) = sum_where P g tbl"
  by (induction tbl) (auto simp: upd_where_def)

lemma upd_where_idle: "(\<And>r. r \<in> set tbl \<Longrightarrow> \<not> P r) \<Longrightarrow> upd_where P f tbl = tbl"
  by (simp add: upd_where_def map_idI)

lemma sum_where_map: "sum_where P f (map h xs) = sum_where (\<lambda>x. P (h x)) (\<lambda>x. f (h x)) xs"
  by (simp add: sum_where_def comp_def filter_map)

lemma sum_where_upd_where_le:
  assumes "\<And>r. r \<in> set tbl \<Longrightarrow> Q r \<Longrightarrow> P (g r) \<Longrightarrow> P r"
    and "\<And>r. f (g r) = f r" and "\<And>r. r \<in> set tbl \<Longrightarrow> 0 \<le> f r"
  shows "sum_where P f (upd_where Q g tbl) \<le> sum_where P f tbl"
proof -
  have "sum_where P f (upd_where Q g tbl) = sum_where (\<lambda>r. P (if Q r then g r else r)) f tbl"
    unfolding upd_where_def sum_where_map by (rule sum_where_cong) (simp_all add: assms(2))
  also have "\<dots> \<le> sum_where P f tbl"
    using assms(1,3) by (intro sum_where_mono) (auto split: if_splits)
  finally show ?thesis .
qed

lemma sum_where_add: "sum_where P (\<lambda>x. f x + g x) xs = sum_where P f xs + sum_where P g xs"
  by (induction xs) auto

lemma sum_where_zero [simp]: "sum_where P (\<lambda>x. 0) xs = 0"
  by (induction xs) auto

lemma sum_where_none: "(\<And>x. x \<in> set xs \<Longrightarrow> \<not> P x) \<Longrightarrow> sum_where P f xs = 0"
  by (induction xs) auto

text \<open>A query that loses one row loses its value; a query by foreign key groups a table by its owners.\<close>

lemma sum_where_except:
  assumes "distinct (map key xs)" and "q \<in> set xs" and "P q" and "\<not> P' q"
    and "\<And>x. x \<in> set xs \<Longrightarrow> key x \<noteq> key q \<Longrightarrow> P' x = P x"
  shows "sum_where P f xs = sum_where P' f xs + f q"
  using assms
proof (induction xs)
  case (Cons x xs)
  show ?case
  proof (cases "x = q")
    case True
    then have "key y \<noteq> key q" if "y \<in> set xs" for y
      using Cons.prems(1) that by (auto simp: image_iff)
    then have "sum_where P f xs = sum_where P' f xs"
      using Cons.prems(5) by (intro sum_where_cong) auto
    with True Cons.prems show ?thesis by simp
  next
    case False
    then have "key x \<noteq> key q" using Cons.prems(1,2) by force
    with False Cons show ?thesis by simp
  qed
qed simp

lemma sum_where_single:
  "distinct (map key ps) \<Longrightarrow> sum_where R (\<lambda>p. if key p = k then a else 0) ps
     = (if \<exists>p \<in> set ps. key p = k \<and> R p then a else 0)"
proof (induction ps)
  case (Cons p ps)
  have "sum_where R (\<lambda>p. if key p = k then a else 0) ps = 0" if "key p = k"
    using Cons.prems that by (intro trans [OF sum_where_cong sum_where_zero]) (auto simp: image_iff)
  with Cons show ?case by (auto simp: image_iff)
qed simp

lemma sum_where_by_owner:
  assumes "distinct (map key ps)"
    and "\<And>x. x \<in> set xs \<Longrightarrow> P x \<longleftrightarrow> (\<exists>p \<in> set ps. R p \<and> link x (key p))"
    and "\<And>x k k'. link x k \<Longrightarrow> link x k' \<Longrightarrow> k = k'"
  shows "sum_where P f xs = sum_where R (\<lambda>p. sum_where (\<lambda>x. link x (key p)) f xs) ps"
  using assms(2)
proof (induction xs)
  case (Cons x xs)
  have "sum_where R (\<lambda>p. if link x (key p) then f x else 0) ps = (if P x then f x else 0)"
  proof (cases "\<exists>k. link x k")
    case True
    then obtain k where "link x k" by blast
    then have "link x j \<longleftrightarrow> j = k" for j using assms(3) by blast
    with Cons.prems [of x] sum_where_single [OF assms(1), of R k "f x"] show ?thesis by auto
  next
    case False
    with Cons.prems [of x] show ?thesis by simp
  qed
  with Cons show ?case by (simp add: sum_where_add)
qed simp

lemma sum_where_set: "distinct xs \<Longrightarrow> sum_where P f xs = (\<Sum>x \<in> {x \<in> set xs. P x}. f x)"
  by (simp add: sum_where_def sum_list_distinct_conv_sum_set)

text \<open>Two tables whose rows are matched one to one have the same sum.\<close>

lemma sum_where_matched:
  assumes "distinct xs" and "distinct ys"
    and total: "\<And>x. x \<in> set xs \<Longrightarrow> P x \<Longrightarrow> \<exists>y \<in> set ys. link x y \<and> f x = g y"
    and left: "\<And>x x' y. x \<in> set xs \<Longrightarrow> x' \<in> set xs \<Longrightarrow> P x \<Longrightarrow> P x' \<Longrightarrow> link x y \<Longrightarrow> link x' y \<Longrightarrow> x = x'"
    and right: "\<And>x y y'. y \<in> set ys \<Longrightarrow> y' \<in> set ys \<Longrightarrow> link x y \<Longrightarrow> link x y' \<Longrightarrow> y = y'"
  shows "sum_where P f xs = sum_where (\<lambda>y. \<exists>x \<in> set xs. P x \<and> link x y) g ys"
proof -
  let ?A = "{x \<in> set xs. P x}" and ?B = "{y \<in> set ys. \<exists>x \<in> set xs. P x \<and> link x y}"
  have "\<forall>x \<in> ?A. \<exists>y. y \<in> set ys \<and> link x y \<and> f x = g y" using total by auto
  from bchoice [OF this] obtain h where h: "\<forall>x \<in> ?A. h x \<in> set ys \<and> link x (h x) \<and> f x = g (h x)" by blast
  have "inj_on h ?A"
  proof (rule inj_onI)
    fix x x' assume "x \<in> ?A" "x' \<in> ?A" "h x = h x'"
    with h left [of x x' "h x"] show "x = x'" by auto
  qed
  moreover have "h ` ?A = ?B"
  proof
    show "h ` ?A \<subseteq> ?B" using h by auto
    show "?B \<subseteq> h ` ?A"
    proof
      fix y assume "y \<in> ?B"
      then obtain x where "x \<in> ?A" "y \<in> set ys" "link x y" by auto
      with h right [of y "h x" x] show "y \<in> h ` ?A" by blast
    qed
  qed
  ultimately have "bij_betw h ?A ?B" by (simp add: bij_betw_def)
  then have "(\<Sum>x \<in> ?A. g (h x)) = (\<Sum>y \<in> ?B. g y)" by (rule sum.reindex_bij_betw)
  moreover have "(\<Sum>x \<in> ?A. f x) = (\<Sum>x \<in> ?A. g (h x))" using h by (intro sum.cong) auto
  ultimately show ?thesis by (simp add: sum_where_set assms(1,2))
qed

subsection \<open>Half-open intervals\<close>

text \<open>
  Every interval query of the code is \<open>starts_at < b\<close> and \<open>ends_at > a\<close>: two half-open
  intervals overlap when they share an instant, and touching ones do not.
\<close>

definition overlaps :: "instant \<Rightarrow> instant \<Rightarrow> instant \<Rightarrow> instant \<Rightarrow> bool" where
  "overlaps a b c d \<longleftrightarrow> a < d \<and> c < b"

lemma overlaps_sym: "overlaps a b c d \<longleftrightarrow> overlaps c d a b"
  by (auto simp: overlaps_def)

lemma overlaps_iff_common_instant:
  "a < b \<Longrightarrow> c < d \<Longrightarrow> overlaps a b c d \<longleftrightarrow> (\<exists>t. a \<le> t \<and> t < b \<and> c \<le> t \<and> t < d)"
  unfolding overlaps_def
  by (rule iffI, rule exI [of _ "max a c"]) auto

lemma touching_do_not_overlap: "\<not> overlaps a b b c"
  by (simp add: overlaps_def)

subsection \<open>Append-only logs\<close>

text \<open>
  The folio, the change log, the cash ledger and the command log are tables that operations only
  append to. \<open>append_log\<close> is that contract: \<open>log s\<close> is the table in state \<open>s\<close> and no step changes or
  drops what it holds.
\<close>

locale append_log =
  fixes step :: "'s \<Rightarrow> 's \<Rightarrow> bool" and log :: "'s \<Rightarrow> 'r list"
  assumes extends: "step s t \<Longrightarrow> \<exists>new. log t = log s @ new"
begin

lemma run_extends: "step\<^sup>*\<^sup>* s t \<Longrightarrow> \<exists>new. log t = log s @ new"
  by (induction rule: rtranclp_induct) (auto dest: extends)

lemma entry_stays: "step\<^sup>*\<^sup>* s t \<Longrightarrow> r \<in> set (log s) \<Longrightarrow> r \<in> set (log t)"
  by (auto dest: run_extends)

lemma entry_keeps_place:
  "step\<^sup>*\<^sup>* s t \<Longrightarrow> i < length (log s) \<Longrightarrow> i < length (log t) \<and> log t ! i = log s ! i"
  by (auto dest!: run_extends simp: nth_append)

end

subsection \<open>Invariants of runs\<close>

text \<open>\<open>guarded_run\<close> is the contract of a component whose every step keeps an invariant.\<close>

locale guarded_run =
  fixes step :: "'s \<Rightarrow> 's \<Rightarrow> bool" and inv :: "'s \<Rightarrow> bool"
  assumes keeps: "step s t \<Longrightarrow> inv s \<Longrightarrow> inv t"
begin

lemma run_keeps: "step\<^sup>*\<^sup>* s t \<Longrightarrow> inv s \<Longrightarrow> inv t"
  by (induction rule: rtranclp_induct) (auto intro: keeps)

lemma never_breaks: "inv s \<Longrightarrow> \<not> inv t \<Longrightarrow> \<not> step\<^sup>*\<^sup>* s t"
  by (blast dest: run_keeps)

end

text \<open>\<open>growing_run\<close> adds that every step extends the state it starts from.\<close>

locale growing_run = guarded_run step inv for step :: "'s \<Rightarrow> 's \<Rightarrow> bool" and inv +
  fixes extends :: "'s \<Rightarrow> 's \<Rightarrow> bool"
  assumes unchanged: "extends s s"
    and chained: "extends s t \<Longrightarrow> extends t u \<Longrightarrow> extends s u"
    and step_extends: "step s t \<Longrightarrow> inv s \<Longrightarrow> extends s t"
begin

lemma run_extends: "step\<^sup>*\<^sup>* s t \<Longrightarrow> inv s \<Longrightarrow> extends s t"
  by (induction rule: rtranclp_induct) (auto intro: unchanged chained step_extends run_keeps)

end

end
