(* ===== verification/Enums.thy ===== *)
theory Enums
  imports Prelude
begin

text \<open>
  The backed enums of \<^verbatim>\<open>apps/api/app/Enums\<close>: one datatype per enum, one constructor per case
  (prefixed, since many enums share case names), the stored string of each case, and the
  predicates the enums define. The locale \<open>backed_enum\<close> is PHP's contract of a backed enum: parsing
  a stored value (\<open>tryFrom\<close>) inverts \<open>->value\<close>; it is interpreted for every enum below.
\<close>

locale backed_enum =
  fixes cases :: "'c list" and "value" :: "'c \<Rightarrow> string"
  assumes all_cases: "c \<in> set cases"
    and distinct_values: "distinct (map value cases)"
begin

lemma inj_value: "inj value"
proof -
  have "inj_on value (set cases)"
    using distinct_values by (simp add: distinct_map)
  then show ?thesis using all_cases by (auto simp: inj_on_def)
qed

lemma find_value: "find (\<lambda>c. value c = value d) cases = Some d"
proof (cases "find (\<lambda>c. value c = value d) cases")
  case None
  then show ?thesis using all_cases [of d] by (auto simp: find_None_iff)
next
  case (Some c)
  then have "value c = value d" by (auto simp: find_Some_iff)
  with Some show ?thesis using inj_value by (simp add: inj_eq)
qed

lemma find_value_Some: "find (\<lambda>c. value c = s) cases = Some d \<longleftrightarrow> s = value d"
proof
  assume "find (\<lambda>c. value c = s) cases = Some d"
  then show "s = value d" by (auto simp: find_Some_iff)
qed (use find_value in simp)

end

text \<open>\<open>Enum::tryFrom($s)\<close>.\<close>

definition try_from :: "'c list \<Rightarrow> ('c \<Rightarrow> string) \<Rightarrow> string \<Rightarrow> 'c option" where
  "try_from cases val s = find (\<lambda>c. val c = s) cases"

subsection \<open>The enums and their stored values\<close>

datatype reservation_status =
    R_Draft
  | R_Hold
  | R_Confirmed
  | R_Checked_in
  | R_Checked_out
  | R_Cancelled
  | R_No_show

fun reservation_status_value :: "reservation_status \<Rightarrow> string" where
  "reservation_status_value R_Draft = ''draft''"
| "reservation_status_value R_Hold = ''hold''"
| "reservation_status_value R_Confirmed = ''confirmed''"
| "reservation_status_value R_Checked_in = ''checked_in''"
| "reservation_status_value R_Checked_out = ''checked_out''"
| "reservation_status_value R_Cancelled = ''cancelled''"
| "reservation_status_value R_No_show = ''no_show''"

definition reservation_status_cases :: "reservation_status list" where
  "reservation_status_cases = [R_Draft, R_Hold, R_Confirmed, R_Checked_in, R_Checked_out, R_Cancelled, R_No_show]"

interpretation reservation_status_enum: backed_enum reservation_status_cases reservation_status_value
proof
  show "c \<in> set reservation_status_cases" for c
    by (cases c) (simp_all add: reservation_status_cases_def)
  show "distinct (map reservation_status_value reservation_status_cases)"
    by (simp add: reservation_status_cases_def)
qed

datatype allocation_status =
    A_Tentative
  | A_Confirmed
  | A_Released

fun allocation_status_value :: "allocation_status \<Rightarrow> string" where
  "allocation_status_value A_Tentative = ''tentative''"
| "allocation_status_value A_Confirmed = ''confirmed''"
| "allocation_status_value A_Released = ''released''"

definition allocation_status_cases :: "allocation_status list" where
  "allocation_status_cases = [A_Tentative, A_Confirmed, A_Released]"

interpretation allocation_status_enum: backed_enum allocation_status_cases allocation_status_value
proof
  show "c \<in> set allocation_status_cases" for c
    by (cases c) (simp_all add: allocation_status_cases_def)
  show "distinct (map allocation_status_value allocation_status_cases)"
    by (simp add: allocation_status_cases_def)
qed

datatype folio_status =
    F_Open
  | F_Closed

fun folio_status_value :: "folio_status \<Rightarrow> string" where
  "folio_status_value F_Open = ''open''"
| "folio_status_value F_Closed = ''closed''"

definition folio_status_cases :: "folio_status list" where
  "folio_status_cases = [F_Open, F_Closed]"

interpretation folio_status_enum: backed_enum folio_status_cases folio_status_value
proof
  show "c \<in> set folio_status_cases" for c
    by (cases c) (simp_all add: folio_status_cases_def)
  show "distinct (map folio_status_value folio_status_cases)"
    by (simp add: folio_status_cases_def)
qed

datatype folio_line_type =
    L_Charge
  | L_Payment
  | L_Refund
  | L_Adjustment

fun folio_line_type_value :: "folio_line_type \<Rightarrow> string" where
  "folio_line_type_value L_Charge = ''charge''"
| "folio_line_type_value L_Payment = ''payment''"
| "folio_line_type_value L_Refund = ''refund''"
| "folio_line_type_value L_Adjustment = ''adjustment''"

definition folio_line_type_cases :: "folio_line_type list" where
  "folio_line_type_cases = [L_Charge, L_Payment, L_Refund, L_Adjustment]"

interpretation folio_line_type_enum: backed_enum folio_line_type_cases folio_line_type_value
proof
  show "c \<in> set folio_line_type_cases" for c
    by (cases c) (simp_all add: folio_line_type_cases_def)
  show "distinct (map folio_line_type_value folio_line_type_cases)"
    by (simp add: folio_line_type_cases_def)
qed

datatype payment_status =
    P_Pending
  | P_Succeeded
  | P_Failed
  | P_Refunded
  | P_Reversed

fun payment_status_value :: "payment_status \<Rightarrow> string" where
  "payment_status_value P_Pending = ''pending''"
| "payment_status_value P_Succeeded = ''succeeded''"
| "payment_status_value P_Failed = ''failed''"
| "payment_status_value P_Refunded = ''refunded''"
| "payment_status_value P_Reversed = ''reversed''"

definition payment_status_cases :: "payment_status list" where
  "payment_status_cases = [P_Pending, P_Succeeded, P_Failed, P_Refunded, P_Reversed]"

interpretation payment_status_enum: backed_enum payment_status_cases payment_status_value
proof
  show "c \<in> set payment_status_cases" for c
    by (cases c) (simp_all add: payment_status_cases_def)
  show "distinct (map payment_status_value payment_status_cases)"
    by (simp add: payment_status_cases_def)
qed

datatype payment_channel =
    Ch_Bank_transfer
  | Ch_Cash
  | Ch_External_terminal
  | Ch_Manual_other
  | Ch_Online_checkout
  | Ch_Integrated_terminal
  | Ch_Qr

fun payment_channel_value :: "payment_channel \<Rightarrow> string" where
  "payment_channel_value Ch_Bank_transfer = ''bank_transfer''"
| "payment_channel_value Ch_Cash = ''cash''"
| "payment_channel_value Ch_External_terminal = ''external_terminal''"
| "payment_channel_value Ch_Manual_other = ''manual_other''"
| "payment_channel_value Ch_Online_checkout = ''online_checkout''"
| "payment_channel_value Ch_Integrated_terminal = ''integrated_terminal''"
| "payment_channel_value Ch_Qr = ''qr''"

definition payment_channel_cases :: "payment_channel list" where
  "payment_channel_cases = [Ch_Bank_transfer, Ch_Cash, Ch_External_terminal, Ch_Manual_other, Ch_Online_checkout, Ch_Integrated_terminal, Ch_Qr]"

interpretation payment_channel_enum: backed_enum payment_channel_cases payment_channel_value
proof
  show "c \<in> set payment_channel_cases" for c
    by (cases c) (simp_all add: payment_channel_cases_def)
  show "distinct (map payment_channel_value payment_channel_cases)"
    by (simp add: payment_channel_cases_def)
qed

datatype payment_origin =
    Origin_Manual
  | Origin_Provider

fun payment_origin_value :: "payment_origin \<Rightarrow> string" where
  "payment_origin_value Origin_Manual = ''manual''"
| "payment_origin_value Origin_Provider = ''provider''"

definition payment_origin_cases :: "payment_origin list" where
  "payment_origin_cases = [Origin_Manual, Origin_Provider]"

interpretation payment_origin_enum: backed_enum payment_origin_cases payment_origin_value
proof
  show "c \<in> set payment_origin_cases" for c
    by (cases c) (simp_all add: payment_origin_cases_def)
  show "distinct (map payment_origin_value payment_origin_cases)"
    by (simp add: payment_origin_cases_def)
qed

datatype payment_entry_mode =
    Entry_Staff_recorded
  | Entry_Provider_reported

fun payment_entry_mode_value :: "payment_entry_mode \<Rightarrow> string" where
  "payment_entry_mode_value Entry_Staff_recorded = ''staff_recorded''"
| "payment_entry_mode_value Entry_Provider_reported = ''provider_reported''"

definition payment_entry_mode_cases :: "payment_entry_mode list" where
  "payment_entry_mode_cases = [Entry_Staff_recorded, Entry_Provider_reported]"

interpretation payment_entry_mode_enum: backed_enum payment_entry_mode_cases payment_entry_mode_value
proof
  show "c \<in> set payment_entry_mode_cases" for c
    by (cases c) (simp_all add: payment_entry_mode_cases_def)
  show "distinct (map payment_entry_mode_value payment_entry_mode_cases)"
    by (simp add: payment_entry_mode_cases_def)
qed

datatype payment_request_state =
    Req_Draft
  | Req_Open
  | Req_Processing
  | Req_Paid
  | Req_Expired
  | Req_Revoked
  | Req_Superseded

fun payment_request_state_value :: "payment_request_state \<Rightarrow> string" where
  "payment_request_state_value Req_Draft = ''draft''"
| "payment_request_state_value Req_Open = ''open''"
| "payment_request_state_value Req_Processing = ''processing''"
| "payment_request_state_value Req_Paid = ''paid''"
| "payment_request_state_value Req_Expired = ''expired''"
| "payment_request_state_value Req_Revoked = ''revoked''"
| "payment_request_state_value Req_Superseded = ''superseded''"

definition payment_request_state_cases :: "payment_request_state list" where
  "payment_request_state_cases = [Req_Draft, Req_Open, Req_Processing, Req_Paid, Req_Expired, Req_Revoked, Req_Superseded]"

interpretation payment_request_state_enum: backed_enum payment_request_state_cases payment_request_state_value
proof
  show "c \<in> set payment_request_state_cases" for c
    by (cases c) (simp_all add: payment_request_state_cases_def)
  show "distinct (map payment_request_state_value payment_request_state_cases)"
    by (simp add: payment_request_state_cases_def)
qed

datatype payment_attempt_state =
    Att_Creating
  | Att_Checkout_ready
  | Att_Pending
  | Att_Approved
  | Att_Rejected
  | Att_Cancelled
  | Att_Expired
  | Att_Mismatched
  | Att_Failed

fun payment_attempt_state_value :: "payment_attempt_state \<Rightarrow> string" where
  "payment_attempt_state_value Att_Creating = ''creating''"
| "payment_attempt_state_value Att_Checkout_ready = ''checkout_ready''"
| "payment_attempt_state_value Att_Pending = ''pending''"
| "payment_attempt_state_value Att_Approved = ''approved''"
| "payment_attempt_state_value Att_Rejected = ''rejected''"
| "payment_attempt_state_value Att_Cancelled = ''cancelled''"
| "payment_attempt_state_value Att_Expired = ''expired''"
| "payment_attempt_state_value Att_Mismatched = ''mismatched''"
| "payment_attempt_state_value Att_Failed = ''failed''"

definition payment_attempt_state_cases :: "payment_attempt_state list" where
  "payment_attempt_state_cases = [Att_Creating, Att_Checkout_ready, Att_Pending, Att_Approved, Att_Rejected, Att_Cancelled, Att_Expired, Att_Mismatched, Att_Failed]"

interpretation payment_attempt_state_enum: backed_enum payment_attempt_state_cases payment_attempt_state_value
proof
  show "c \<in> set payment_attempt_state_cases" for c
    by (cases c) (simp_all add: payment_attempt_state_cases_def)
  show "distinct (map payment_attempt_state_value payment_attempt_state_cases)"
    by (simp add: payment_attempt_state_cases_def)
qed

datatype deposit_status =
    D_Due
  | D_Paid
  | D_Waived
  | D_Refunded

fun deposit_status_value :: "deposit_status \<Rightarrow> string" where
  "deposit_status_value D_Due = ''due''"
| "deposit_status_value D_Paid = ''paid''"
| "deposit_status_value D_Waived = ''waived''"
| "deposit_status_value D_Refunded = ''refunded''"

definition deposit_status_cases :: "deposit_status list" where
  "deposit_status_cases = [D_Due, D_Paid, D_Waived, D_Refunded]"

interpretation deposit_status_enum: backed_enum deposit_status_cases deposit_status_value
proof
  show "c \<in> set deposit_status_cases" for c
    by (cases c) (simp_all add: deposit_status_cases_def)
  show "distinct (map deposit_status_value deposit_status_cases)"
    by (simp add: deposit_status_cases_def)
qed

datatype booking_quote_status =
    Q_Pending
  | Q_Committed
  | Q_Expired
  | Q_Superseded

fun booking_quote_status_value :: "booking_quote_status \<Rightarrow> string" where
  "booking_quote_status_value Q_Pending = ''pending''"
| "booking_quote_status_value Q_Committed = ''committed''"
| "booking_quote_status_value Q_Expired = ''expired''"
| "booking_quote_status_value Q_Superseded = ''superseded''"

definition booking_quote_status_cases :: "booking_quote_status list" where
  "booking_quote_status_cases = [Q_Pending, Q_Committed, Q_Expired, Q_Superseded]"

interpretation booking_quote_status_enum: backed_enum booking_quote_status_cases booking_quote_status_value
proof
  show "c \<in> set booking_quote_status_cases" for c
    by (cases c) (simp_all add: booking_quote_status_cases_def)
  show "distinct (map booking_quote_status_value booking_quote_status_cases)"
    by (simp add: booking_quote_status_cases_def)
qed

datatype cash_shift_state =
    Shift_Open
  | Shift_Closed
  | Shift_Variance_review

fun cash_shift_state_value :: "cash_shift_state \<Rightarrow> string" where
  "cash_shift_state_value Shift_Open = ''open''"
| "cash_shift_state_value Shift_Closed = ''closed''"
| "cash_shift_state_value Shift_Variance_review = ''variance_review''"

definition cash_shift_state_cases :: "cash_shift_state list" where
  "cash_shift_state_cases = [Shift_Open, Shift_Closed, Shift_Variance_review]"

interpretation cash_shift_state_enum: backed_enum cash_shift_state_cases cash_shift_state_value
proof
  show "c \<in> set cash_shift_state_cases" for c
    by (cases c) (simp_all add: cash_shift_state_cases_def)
  show "distinct (map cash_shift_state_value cash_shift_state_cases)"
    by (simp add: cash_shift_state_cases_def)
qed

datatype cash_movement_type =
    Move_Opening_float
  | Move_Payment
  | Move_Refund
  | Move_Pay_in
  | Move_Pay_out
  | Move_Correction

fun cash_movement_type_value :: "cash_movement_type \<Rightarrow> string" where
  "cash_movement_type_value Move_Opening_float = ''opening_float''"
| "cash_movement_type_value Move_Payment = ''payment''"
| "cash_movement_type_value Move_Refund = ''refund''"
| "cash_movement_type_value Move_Pay_in = ''pay_in''"
| "cash_movement_type_value Move_Pay_out = ''pay_out''"
| "cash_movement_type_value Move_Correction = ''correction''"

definition cash_movement_type_cases :: "cash_movement_type list" where
  "cash_movement_type_cases = [Move_Opening_float, Move_Payment, Move_Refund, Move_Pay_in, Move_Pay_out, Move_Correction]"

interpretation cash_movement_type_enum: backed_enum cash_movement_type_cases cash_movement_type_value
proof
  show "c \<in> set cash_movement_type_cases" for c
    by (cases c) (simp_all add: cash_movement_type_cases_def)
  show "distinct (map cash_movement_type_value cash_movement_type_cases)"
    by (simp add: cash_movement_type_cases_def)
qed

datatype task_status =
    T_Todo
  | T_In_progress
  | T_Blocked
  | T_Failed
  | T_Done
  | T_Cancelled
  | T_Superseded

fun task_status_value :: "task_status \<Rightarrow> string" where
  "task_status_value T_Todo = ''todo''"
| "task_status_value T_In_progress = ''in_progress''"
| "task_status_value T_Blocked = ''blocked''"
| "task_status_value T_Failed = ''failed''"
| "task_status_value T_Done = ''done''"
| "task_status_value T_Cancelled = ''cancelled''"
| "task_status_value T_Superseded = ''superseded''"

definition task_status_cases :: "task_status list" where
  "task_status_cases = [T_Todo, T_In_progress, T_Blocked, T_Failed, T_Done, T_Cancelled, T_Superseded]"

interpretation task_status_enum: backed_enum task_status_cases task_status_value
proof
  show "c \<in> set task_status_cases" for c
    by (cases c) (simp_all add: task_status_cases_def)
  show "distinct (map task_status_value task_status_cases)"
    by (simp add: task_status_cases_def)
qed

datatype housekeeping_status =
    Hk_Clean
  | Hk_Dirty
  | Hk_In_progress
  | Hk_Inspected
  | Hk_Out_of_service

fun housekeeping_status_value :: "housekeeping_status \<Rightarrow> string" where
  "housekeeping_status_value Hk_Clean = ''clean''"
| "housekeeping_status_value Hk_Dirty = ''dirty''"
| "housekeeping_status_value Hk_In_progress = ''in_progress''"
| "housekeeping_status_value Hk_Inspected = ''inspected''"
| "housekeeping_status_value Hk_Out_of_service = ''out_of_service''"

definition housekeeping_status_cases :: "housekeeping_status list" where
  "housekeeping_status_cases = [Hk_Clean, Hk_Dirty, Hk_In_progress, Hk_Inspected, Hk_Out_of_service]"

interpretation housekeeping_status_enum: backed_enum housekeeping_status_cases housekeeping_status_value
proof
  show "c \<in> set housekeeping_status_cases" for c
    by (cases c) (simp_all add: housekeeping_status_cases_def)
  show "distinct (map housekeeping_status_value housekeeping_status_cases)"
    by (simp add: housekeeping_status_cases_def)
qed

datatype resource_kind =
    Kind_Place
  | Kind_Asset
  | Kind_Crew

fun resource_kind_value :: "resource_kind \<Rightarrow> string" where
  "resource_kind_value Kind_Place = ''place''"
| "resource_kind_value Kind_Asset = ''asset''"
| "resource_kind_value Kind_Crew = ''crew''"

definition resource_kind_cases :: "resource_kind list" where
  "resource_kind_cases = [Kind_Place, Kind_Asset, Kind_Crew]"

interpretation resource_kind_enum: backed_enum resource_kind_cases resource_kind_value
proof
  show "c \<in> set resource_kind_cases" for c
    by (cases c) (simp_all add: resource_kind_cases_def)
  show "distinct (map resource_kind_value resource_kind_cases)"
    by (simp add: resource_kind_cases_def)
qed

datatype order_state =
    O_Started
  | O_Quoted
  | O_Held
  | O_Payment_pending
  | O_Awaiting_manual_payment
  | O_Evidence_pending
  | O_Finance_review
  | O_Paid_pending_confirmation
  | O_Confirmed
  | O_Expired
  | O_Payment_failed
  | O_Paid_needs_review
  | O_Evidence_rejected
  | O_Canceled
  | O_Refunded

fun order_state_value :: "order_state \<Rightarrow> string" where
  "order_state_value O_Started = ''started''"
| "order_state_value O_Quoted = ''quoted''"
| "order_state_value O_Held = ''held''"
| "order_state_value O_Payment_pending = ''payment_pending''"
| "order_state_value O_Awaiting_manual_payment = ''awaiting_manual_payment''"
| "order_state_value O_Evidence_pending = ''evidence_pending''"
| "order_state_value O_Finance_review = ''finance_review''"
| "order_state_value O_Paid_pending_confirmation = ''paid_pending_confirmation''"
| "order_state_value O_Confirmed = ''confirmed''"
| "order_state_value O_Expired = ''expired''"
| "order_state_value O_Payment_failed = ''payment_failed''"
| "order_state_value O_Paid_needs_review = ''paid_needs_review''"
| "order_state_value O_Evidence_rejected = ''evidence_rejected''"
| "order_state_value O_Canceled = ''canceled''"
| "order_state_value O_Refunded = ''refunded''"

definition order_state_cases :: "order_state list" where
  "order_state_cases = [O_Started, O_Quoted, O_Held, O_Payment_pending, O_Awaiting_manual_payment, O_Evidence_pending, O_Finance_review, O_Paid_pending_confirmation, O_Confirmed, O_Expired, O_Payment_failed, O_Paid_needs_review, O_Evidence_rejected, O_Canceled, O_Refunded]"

interpretation order_state_enum: backed_enum order_state_cases order_state_value
proof
  show "c \<in> set order_state_cases" for c
    by (cases c) (simp_all add: order_state_cases_def)
  show "distinct (map order_state_value order_state_cases)"
    by (simp add: order_state_cases_def)
qed

datatype authority =
    By_Pricing
  | By_Inventory
  | By_Payment_orchestrator
  | By_Provider_lookup
  | By_Guest_evidence
  | By_Evidence_scanner
  | By_Finance
  | By_Reservation
  | By_Scheduler
  | By_Recovery
  | By_Refund
  | By_Cancellation

fun authority_value :: "authority \<Rightarrow> string" where
  "authority_value By_Pricing = ''pricing_service''"
| "authority_value By_Inventory = ''inventory_service''"
| "authority_value By_Payment_orchestrator = ''payment_orchestrator''"
| "authority_value By_Provider_lookup = ''provider_authoritative_lookup''"
| "authority_value By_Guest_evidence = ''guest_evidence_service''"
| "authority_value By_Evidence_scanner = ''evidence_scanner''"
| "authority_value By_Finance = ''finance_review''"
| "authority_value By_Reservation = ''reservation_service''"
| "authority_value By_Scheduler = ''scheduler''"
| "authority_value By_Recovery = ''recovery_service''"
| "authority_value By_Refund = ''refund_service''"
| "authority_value By_Cancellation = ''cancellation_service''"

definition authority_cases :: "authority list" where
  "authority_cases = [By_Pricing, By_Inventory, By_Payment_orchestrator, By_Provider_lookup, By_Guest_evidence, By_Evidence_scanner, By_Finance, By_Reservation, By_Scheduler, By_Recovery, By_Refund, By_Cancellation]"

interpretation authority_enum: backed_enum authority_cases authority_value
proof
  show "c \<in> set authority_cases" for c
    by (cases c) (simp_all add: authority_cases_def)
  show "distinct (map authority_value authority_cases)"
    by (simp add: authority_cases_def)
qed

datatype error_code =
    Err_Validation
  | Err_Unavailable
  | Err_Quote_stale
  | Err_Hold_expired
  | Err_Conflict
  | Err_Idempotency_conflict
  | Err_Rate_limited
  | Err_Bot_rejected
  | Err_Payment_pending
  | Err_Payment_failed
  | Err_Paid_needs_review
  | Err_Not_found
  | Err_Booking_unavailable

fun error_code_value :: "error_code \<Rightarrow> string" where
  "error_code_value Err_Validation = ''validation_error''"
| "error_code_value Err_Unavailable = ''unavailable''"
| "error_code_value Err_Quote_stale = ''quote_stale''"
| "error_code_value Err_Hold_expired = ''hold_expired''"
| "error_code_value Err_Conflict = ''conflict''"
| "error_code_value Err_Idempotency_conflict = ''idempotency_conflict''"
| "error_code_value Err_Rate_limited = ''rate_limited''"
| "error_code_value Err_Bot_rejected = ''bot_rejected''"
| "error_code_value Err_Payment_pending = ''payment_pending''"
| "error_code_value Err_Payment_failed = ''payment_failed''"
| "error_code_value Err_Paid_needs_review = ''paid_needs_review''"
| "error_code_value Err_Not_found = ''not_found''"
| "error_code_value Err_Booking_unavailable = ''booking_unavailable''"

definition error_code_cases :: "error_code list" where
  "error_code_cases = [Err_Validation, Err_Unavailable, Err_Quote_stale, Err_Hold_expired, Err_Conflict, Err_Idempotency_conflict, Err_Rate_limited, Err_Bot_rejected, Err_Payment_pending, Err_Payment_failed, Err_Paid_needs_review, Err_Not_found, Err_Booking_unavailable]"

interpretation error_code_enum: backed_enum error_code_cases error_code_value
proof
  show "c \<in> set error_code_cases" for c
    by (cases c) (simp_all add: error_code_cases_def)
  show "distinct (map error_code_value error_code_cases)"
    by (simp add: error_code_cases_def)
qed

datatype publication_kind =
    Pub_Property
  | Pub_Category
  | Pub_Program
  | Pub_Terms
  | Pub_Privacy
  | Pub_Cancellation
  | Pub_No_show
  | Pub_Marketing_consent
  | Pub_Bank_transfer_instructions

fun publication_kind_value :: "publication_kind \<Rightarrow> string" where
  "publication_kind_value Pub_Property = ''property''"
| "publication_kind_value Pub_Category = ''category''"
| "publication_kind_value Pub_Program = ''program''"
| "publication_kind_value Pub_Terms = ''terms''"
| "publication_kind_value Pub_Privacy = ''privacy''"
| "publication_kind_value Pub_Cancellation = ''cancellation''"
| "publication_kind_value Pub_No_show = ''no_show''"
| "publication_kind_value Pub_Marketing_consent = ''marketing_consent''"
| "publication_kind_value Pub_Bank_transfer_instructions = ''bank_transfer_instructions''"

definition publication_kind_cases :: "publication_kind list" where
  "publication_kind_cases = [Pub_Property, Pub_Category, Pub_Program, Pub_Terms, Pub_Privacy, Pub_Cancellation, Pub_No_show, Pub_Marketing_consent, Pub_Bank_transfer_instructions]"

interpretation publication_kind_enum: backed_enum publication_kind_cases publication_kind_value
proof
  show "c \<in> set publication_kind_cases" for c
    by (cases c) (simp_all add: publication_kind_cases_def)
  show "distinct (map publication_kind_value publication_kind_cases)"
    by (simp add: publication_kind_cases_def)
qed

datatype evidence_status =
    Ev_Pending
  | Ev_Approved
  | Ev_Rejected
  | Ev_More_information_required

fun evidence_status_value :: "evidence_status \<Rightarrow> string" where
  "evidence_status_value Ev_Pending = ''review_pending''"
| "evidence_status_value Ev_Approved = ''approved''"
| "evidence_status_value Ev_Rejected = ''rejected''"
| "evidence_status_value Ev_More_information_required = ''more_information_required''"

definition evidence_status_cases :: "evidence_status list" where
  "evidence_status_cases = [Ev_Pending, Ev_Approved, Ev_Rejected, Ev_More_information_required]"

interpretation evidence_status_enum: backed_enum evidence_status_cases evidence_status_value
proof
  show "c \<in> set evidence_status_cases" for c
    by (cases c) (simp_all add: evidence_status_cases_def)
  show "distinct (map evidence_status_value evidence_status_cases)"
    by (simp add: evidence_status_cases_def)
qed

datatype membership_role =
    Role_Administrator
  | Role_Owner
  | Role_Manager
  | Role_Sales
  | Role_Operations
  | Role_Guide
  | Role_Kitchen
  | Role_Housekeeping
  | Role_Finance
  | Role_Viewer

fun membership_role_value :: "membership_role \<Rightarrow> string" where
  "membership_role_value Role_Administrator = ''administrator''"
| "membership_role_value Role_Owner = ''owner''"
| "membership_role_value Role_Manager = ''manager''"
| "membership_role_value Role_Sales = ''sales''"
| "membership_role_value Role_Operations = ''operations''"
| "membership_role_value Role_Guide = ''guide''"
| "membership_role_value Role_Kitchen = ''kitchen''"
| "membership_role_value Role_Housekeeping = ''housekeeping''"
| "membership_role_value Role_Finance = ''finance''"
| "membership_role_value Role_Viewer = ''viewer''"

definition membership_role_cases :: "membership_role list" where
  "membership_role_cases = [Role_Administrator, Role_Owner, Role_Manager, Role_Sales, Role_Operations, Role_Guide, Role_Kitchen, Role_Housekeeping, Role_Finance, Role_Viewer]"

interpretation membership_role_enum: backed_enum membership_role_cases membership_role_value
proof
  show "c \<in> set membership_role_cases" for c
    by (cases c) (simp_all add: membership_role_cases_def)
  show "distinct (map membership_role_value membership_role_cases)"
    by (simp add: membership_role_cases_def)
qed

subsection \<open>Reservation status\<close>

fun can_transition_to :: "reservation_status \<Rightarrow> reservation_status \<Rightarrow> bool" where
  "can_transition_to R_Draft next = (next \<in> {R_Hold, R_Confirmed, R_Cancelled})"
| "can_transition_to R_Hold next = (next \<in> {R_Draft, R_Confirmed, R_Cancelled})"
| "can_transition_to R_Confirmed next = (next \<in> {R_Checked_in, R_Cancelled, R_No_show})"
| "can_transition_to R_Checked_in next = (next \<in> {R_Checked_out})"
| "can_transition_to _ next = False"

subsection \<open>Payment, task and booking states\<close>

definition attempt_reusable :: "payment_attempt_state \<Rightarrow> bool" where
  "attempt_reusable s \<longleftrightarrow> s \<in> {Att_Creating, Att_Checkout_ready, Att_Pending}"

definition attempt_terminal :: "payment_attempt_state \<Rightarrow> bool" where
  "attempt_terminal s \<longleftrightarrow> \<not> attempt_reusable s"

definition evidence_is_final :: "evidence_status \<Rightarrow> bool" where
  "evidence_is_final s \<longleftrightarrow> s \<in> {Ev_Approved, Ev_Rejected}"

definition order_is_terminal :: "order_state \<Rightarrow> bool" where
  "order_is_terminal s \<longleftrightarrow> s \<in> {O_Canceled, O_Refunded}"

definition is_required_policy :: "publication_kind \<Rightarrow> bool" where
  "is_required_policy k \<longleftrightarrow> k \<in> {Pub_Terms, Pub_Privacy, Pub_Cancellation, Pub_No_show}"

fun legacy_method :: "payment_channel \<Rightarrow> string" where
  "legacy_method Ch_Bank_transfer = ''bank_transfer''"
| "legacy_method Ch_Cash = ''cash''"
| "legacy_method Ch_External_terminal = ''card''"
| "legacy_method Ch_Integrated_terminal = ''card''"
| "legacy_method Ch_Manual_other = ''other''"
| "legacy_method Ch_Online_checkout = ''mercado_pago_checkout_pro''"
| "legacy_method Ch_Qr = ''mercado_pago_checkout_pro''"

fun housekeeping_color :: "housekeeping_status \<Rightarrow> string" where
  "housekeeping_color Hk_Clean = ''success''"
| "housekeeping_color Hk_Inspected = ''success''"
| "housekeeping_color Hk_Dirty = ''danger''"
| "housekeeping_color Hk_In_progress = ''warning''"
| "housekeeping_color Hk_Out_of_service = ''gray''"

fun kind_label :: "resource_kind \<Rightarrow> string" where
  "kind_label Kind_Place = ''Places''"
| "kind_label Kind_Asset = ''Assets''"
| "kind_label Kind_Crew = ''Crew''"

fun kind_singular :: "resource_kind \<Rightarrow> string" where
  "kind_singular Kind_Place = ''Place''"
| "kind_singular Kind_Asset = ''Asset''"
| "kind_singular Kind_Crew = ''Crew''"

fun kind_color :: "resource_kind \<Rightarrow> string" where
  "kind_color Kind_Place = ''success''"
| "kind_color Kind_Asset = ''warning''"
| "kind_color Kind_Crew = ''info''"

definition allows_linked_user :: "resource_kind \<Rightarrow> bool" where
  "allows_linked_user k \<longleftrightarrow> k = Kind_Crew"

subsection \<open>Error codes of the direct-booking contract\<close>

fun http_status :: "error_code \<Rightarrow> nat" where
  "http_status Err_Validation = 422"
| "http_status Err_Bot_rejected = 403"
| "http_status Err_Not_found = 404"
| "http_status Err_Hold_expired = 410"
| "http_status Err_Rate_limited = 429"
| "http_status Err_Booking_unavailable = 503"
| "http_status _ = 409"

definition retryable :: "error_code \<Rightarrow> bool" where
  "retryable c \<longleftrightarrow> c \<in> {Err_Unavailable, Err_Quote_stale, Err_Hold_expired, Err_Conflict,
     Err_Rate_limited, Err_Bot_rejected, Err_Payment_pending, Err_Payment_failed,
     Err_Booking_unavailable}"

subsection \<open>Membership roles\<close>

definition can_write :: "membership_role \<Rightarrow> bool" where
  "can_write r \<longleftrightarrow> r \<notin> {Role_Owner, Role_Viewer}"

definition can_view_finance :: "membership_role \<Rightarrow> bool" where
  "can_view_finance r \<longleftrightarrow> r \<in> {Role_Administrator, Role_Owner, Role_Manager, Role_Finance}"

definition can_manage_money :: "membership_role \<Rightarrow> bool" where
  "can_manage_money r \<longleftrightarrow> r \<in> {Role_Administrator, Role_Manager, Role_Finance}"

definition can_manage_guest_money :: "membership_role \<Rightarrow> bool" where
  "can_manage_guest_money r \<longleftrightarrow> r \<in> {Role_Administrator, Role_Manager, Role_Operations, Role_Finance}"

definition can_view_guest_money :: "membership_role \<Rightarrow> bool" where
  "can_view_guest_money r \<longleftrightarrow> r \<in> {Role_Administrator, Role_Owner, Role_Manager, Role_Sales,
     Role_Operations, Role_Finance}"

definition can_manage_reservations :: "membership_role \<Rightarrow> bool" where
  "can_manage_reservations r \<longleftrightarrow> r \<in> {Role_Administrator, Role_Manager, Role_Sales, Role_Operations}"

definition can_manage_guests :: "membership_role \<Rightarrow> bool" where
  "can_manage_guests r \<longleftrightarrow> r \<in> {Role_Administrator, Role_Manager, Role_Sales, Role_Operations}"

definition can_manage_operations :: "membership_role \<Rightarrow> bool" where
  "can_manage_operations r \<longleftrightarrow> r \<in> {Role_Administrator, Role_Manager, Role_Operations, Role_Guide,
     Role_Kitchen, Role_Housekeeping}"

definition can_manage_configuration :: "membership_role \<Rightarrow> bool" where
  "can_manage_configuration r \<longleftrightarrow> r \<in> {Role_Administrator, Role_Manager}"

definition can_manage_availability :: "membership_role \<Rightarrow> bool" where
  "can_manage_availability r \<longleftrightarrow> r \<in> {Role_Administrator, Role_Manager, Role_Operations, Role_Guide}"

definition can_manage_housekeeping :: "membership_role \<Rightarrow> bool" where
  "can_manage_housekeeping r \<longleftrightarrow> r \<in> {Role_Administrator, Role_Manager, Role_Operations,
     Role_Housekeeping}"

definition can_schedule_operations :: "membership_role \<Rightarrow> bool" where
  "can_schedule_operations r \<longleftrightarrow> r \<in> {Role_Administrator, Role_Manager, Role_Operations}"

definition can_manage_team :: "membership_role \<Rightarrow> bool" where
  "can_manage_team r \<longleftrightarrow> r = Role_Administrator"

definition can_manage_retail :: "membership_role \<Rightarrow> bool" where
  "can_manage_retail r \<longleftrightarrow> r \<in> {Role_Administrator, Role_Manager, Role_Operations, Role_Finance}"

definition can_view_retail :: "membership_role \<Rightarrow> bool" where
  "can_view_retail r \<longleftrightarrow> r \<in> {Role_Administrator, Role_Owner, Role_Manager, Role_Operations,
     Role_Finance}"

definition can_manage_sales :: "membership_role \<Rightarrow> bool" where
  "can_manage_sales r \<longleftrightarrow> r \<in> {Role_Administrator, Role_Manager, Role_Sales}"

definition has_tenant_wide_property_access :: "membership_role \<Rightarrow> bool" where
  "has_tenant_wide_property_access r \<longleftrightarrow> r \<in> {Role_Administrator, Role_Manager}"

definition can_view_resources :: "membership_role \<Rightarrow> bool" where
  "can_view_resources r \<longleftrightarrow> r \<in> {Role_Administrator, Role_Manager, Role_Sales, Role_Operations,
     Role_Guide, Role_Housekeeping}"

definition can_view_programs :: "membership_role \<Rightarrow> bool" where
  "can_view_programs r \<longleftrightarrow> r \<in> {Role_Administrator, Role_Manager, Role_Sales, Role_Operations}"

definition can_view_service_occurrences :: "membership_role \<Rightarrow> bool" where
  "can_view_service_occurrences r \<longleftrightarrow> r \<in> {Role_Administrator, Role_Manager, Role_Sales,
     Role_Operations, Role_Guide}"

lemmas role_defs = can_write_def can_view_finance_def can_manage_money_def
  can_manage_guest_money_def can_view_guest_money_def can_manage_reservations_def
  can_manage_guests_def can_manage_operations_def can_manage_configuration_def
  can_manage_availability_def can_manage_housekeeping_def can_schedule_operations_def
  can_manage_team_def can_manage_retail_def can_view_retail_def can_manage_sales_def
  has_tenant_wide_property_access_def can_view_resources_def can_view_programs_def
  can_view_service_occurrences_def

subsection \<open>Status machines\<close>

text \<open>
  What the components rely on of a status enum with an allowed-transition test: a status marked
  final has no way out, and a set of statuses closed under one step is closed under any run.
\<close>

locale status_machine =
  fixes can :: "'s \<Rightarrow> 's \<Rightarrow> bool" and final :: "'s \<Rightarrow> bool"
  assumes final_stuck: "final s \<Longrightarrow> \<not> can s t"
begin

lemma final_forever: "can\<^sup>*\<^sup>* s t \<Longrightarrow> final s \<Longrightarrow> t = s"
  by (induction rule: converse_rtranclp_induct) (auto dest: final_stuck)

lemma closed_run:
  assumes "can\<^sup>*\<^sup>* s t" and "s \<in> S" and "\<And>u v. u \<in> S \<Longrightarrow> can u v \<Longrightarrow> v \<in> S"
  shows "t \<in> S"
  using assms(1,2) by (induction rule: rtranclp_induct) (auto intro: assms(3))

end

definition reservation_final :: "reservation_status \<Rightarrow> bool" where
  "reservation_final s \<longleftrightarrow> s \<in> {R_Checked_out, R_Cancelled, R_No_show}"

interpretation reservation_machine: status_machine can_transition_to reservation_final
  by unfold_locales (auto simp: reservation_final_def)

text \<open>The statuses a reservation can have once it was confirmed.\<close>

definition after_confirmation :: "reservation_status set" where
  "after_confirmation = {R_Confirmed, R_Checked_in, R_Checked_out, R_Cancelled, R_No_show}"

lemma after_confirmation_closed:
  "u \<in> after_confirmation \<Longrightarrow> can_transition_to u v \<Longrightarrow> v \<in> after_confirmation"
  by (cases u) (auto simp: after_confirmation_def)

subsection \<open>Properties\<close>

text \<open>C34: The reservation lifecycle. A checked-out, cancelled or no-show reservation never changes
  status again; a confirmed one can never return to draft or hold; a check-out always goes through
  a check-in (checked-in is its only predecessor).\<close>

theorem reservation_lifecycle:
  "(reservation_final s \<and> can_transition_to\<^sup>*\<^sup>* s t \<longrightarrow> t = s)
   \<and> (can_transition_to\<^sup>*\<^sup>* R_Confirmed t \<longrightarrow> t \<notin> {R_Draft, R_Hold})
   \<and> (can_transition_to u R_Checked_out \<longleftrightarrow> u = R_Checked_in)"
proof (intro conjI impI)
  assume "reservation_final s \<and> can_transition_to\<^sup>*\<^sup>* s t"
  then show "t = s" by (blast intro: reservation_machine.final_forever)
next
  assume "can_transition_to\<^sup>*\<^sup>* R_Confirmed t"
  then have "t \<in> after_confirmation"
    by (rule reservation_machine.closed_run)
      (simp add: after_confirmation_def, rule after_confirmation_closed)
  then show "t \<notin> {R_Draft, R_Hold}" by (auto simp: after_confirmation_def)
next
  show "can_transition_to u R_Checked_out \<longleftrightarrow> u = R_Checked_in" by (cases u) simp_all
qed

theorem reservation_lifecycle_witness:
  "reservation_final R_Cancelled \<and> can_transition_to\<^sup>*\<^sup>* R_Confirmed R_Checked_out
   \<and> R_Checked_out \<notin> {R_Draft, R_Hold}"
proof -
  have "can_transition_to R_Confirmed R_Checked_in" and "can_transition_to R_Checked_in R_Checked_out"
    by simp_all
  then have run: "can_transition_to\<^sup>*\<^sup>* R_Confirmed R_Checked_out"
    by (meson converse_rtranclp_into_rtranclp rtranclp.rtrancl_refl)
  with reservation_lifecycle [of R_Cancelled R_Checked_out] show ?thesis
    by (simp add: reservation_final_def)
qed

text \<open>Role separation. Writing money needs to see it: whoever may manage money, guest money or
  retail may also view it; the read-only roles (owner and viewer) hold no management permission of
  any kind; scheduling implies managing operations, availability and housekeeping; and only the
  administrator manages the team.\<close>

theorem role_separation:
  "(can_manage_money r \<longrightarrow> can_view_finance r \<and> can_manage_guest_money r)
   \<and> (can_manage_guest_money r \<longrightarrow> can_view_guest_money r)
   \<and> (can_manage_retail r \<longrightarrow> can_view_retail r)
   \<and> (\<not> can_write r \<longrightarrow> \<not> can_manage_money r \<and> \<not> can_manage_guest_money r \<and> \<not> can_manage_reservations r
        \<and> \<not> can_manage_guests r \<and> \<not> can_manage_operations r \<and> \<not> can_manage_configuration r
        \<and> \<not> can_manage_availability r \<and> \<not> can_manage_housekeeping r \<and> \<not> can_schedule_operations r
        \<and> \<not> can_manage_team r \<and> \<not> can_manage_retail r \<and> \<not> can_manage_sales r)
   \<and> (can_schedule_operations r \<longrightarrow> can_manage_operations r \<and> can_manage_availability r
        \<and> can_manage_housekeeping r)
   \<and> (can_manage_team r \<longleftrightarrow> r = Role_Administrator)"
  by (cases r) (simp_all add: role_defs)

theorem role_separation_witness:
  "can_manage_money Role_Finance \<and> can_view_finance Role_Finance \<and> \<not> can_manage_team Role_Finance"
  using role_separation [of Role_Finance] by (simp add: can_manage_money_def)

text \<open>Stored values of the status columns parse back. \<open>tryFrom\<close> of a stored value returns the
  case it was stored from, and any string that is no stored value is rejected, for the reservation,
  payment, task and booking-order states and the transition authorities.\<close>

theorem stored_values_roundtrip:
  "(try_from reservation_status_cases reservation_status_value s = Some a \<longleftrightarrow> s = reservation_status_value a)
   \<and> (try_from payment_status_cases payment_status_value s = Some b \<longleftrightarrow> s = payment_status_value b)
   \<and> (try_from task_status_cases task_status_value s = Some c \<longleftrightarrow> s = task_status_value c)
   \<and> (try_from order_state_cases order_state_value s = Some d \<longleftrightarrow> s = order_state_value d)
   \<and> (try_from authority_cases authority_value s = Some e \<longleftrightarrow> s = authority_value e)"
  by (simp add: try_from_def reservation_status_enum.find_value_Some
      payment_status_enum.find_value_Some task_status_enum.find_value_Some
      order_state_enum.find_value_Some authority_enum.find_value_Some)

end
