(* ===== verification/Money.thy ===== *)
theory Money
  imports Enums
begin

text \<open>
  Integer-money arithmetic: \<^verbatim>\<open>MoneyCalculator\<close>, the overflow-checked helpers and the rounding
  of \<^verbatim>\<open>BookingQuoteService\<close>, the percentage of \<^verbatim>\<open>CommercialPromotionService\<close>,
  \<^verbatim>\<open>CancellationFeeCalculator\<close>, the amount of \<^verbatim>\<open>CommissionService\<close> and the deposit
  requirement that the schedule and the confirmation provisioner share. Amounts are unbounded
  integers of HOL; where the PHP expression can leave the 64-bit range the model returns the
  exception the code raises (its own validation error, or the \<open>TypeError\<close> of \<open>intdiv\<close>).
\<close>

subsection \<open>MoneyCalculator\<close>

definition line_amount :: "money \<Rightarrow> int \<Rightarrow> money res" where
  "line_amount unit_amount_minor quantity_thousandths =
     (let product = unit_amount_minor * quantity_thousandths in
      bindE (int_or_type_error (\<bar>product\<bar> + 500)) (\<lambda>n.
        let rounded = intdiv n 1000 in
        Inr (if product < 0 then - rounded else rounded)))"

fun sum_amounts :: "money list \<Rightarrow> money \<Rightarrow> money" where
  "sum_amounts [] acc = acc"
| "sum_amounts (amount # amounts) acc = sum_amounts amounts (acc + amount)"

lemma sum_amounts_eq: "sum_amounts xs acc = acc + sum_list xs"
  by (induction xs arbitrary: acc) simp_all

lemma line_amount_whole [simp]:
  "\<bar>u * 1000\<bar> + 500 \<le> php_int_max \<Longrightarrow> line_amount u 1000 = Inr u"
  by (auto simp: line_amount_def int_or_type_error_def fits_def Let_def abs_mult)

lemma line_amount_1000_Inr [res_simps]: "line_amount u 1000 = Inr a \<Longrightarrow> a = u"
  by (auto simp: line_amount_def res_simps Let_def abs_mult split: if_splits)

lemma line_amount_near:
  assumes "line_amount u q = Inr n"
  shows "2 * \<bar>n * 1000 - u * q\<bar> \<le> 1000"
proof -
  define p d where "p = u * q" and "d = (\<bar>u * q\<bar> + 500) div 1000"
  have n: "n = (if p < 0 then - d else d)"
    using assms by (auto simp: line_amount_def Let_def bindE_eq_Inr int_or_type_error_Inr p_def d_def)
  have "\<bar>p\<bar> + 500 = d * 1000 + (\<bar>p\<bar> + 500) mod 1000"
    unfolding d_def p_def by (simp only: div_mult_mod_eq)
  moreover have "0 \<le> (\<bar>p\<bar> + 500) mod 1000" "(\<bar>p\<bar> + 500) mod 1000 < 1000" by simp_all
  ultimately have "d * 1000 \<le> \<bar>p\<bar> + 500" "\<bar>p\<bar> < d * 1000 + 500" by linarith+
  then have "2 * \<bar>n * 1000 - p\<bar> \<le> 1000" by (cases "p < 0") (simp_all add: n)
  then show ?thesis by (simp add: p_def)
qed

subsection \<open>Overflow-checked arithmetic\<close>

definition checked_multiply :: "int \<Rightarrow> int \<Rightarrow> string \<Rightarrow> int res" where
  "checked_multiply left right field =
     (if left < 0 \<or> right < 0 \<or> (left \<noteq> 0 \<and> right > intdiv php_int_max left)
      then Inl (Validation field) else Inr (left * right))"

fun checked_add_from :: "int \<Rightarrow> int list \<Rightarrow> string \<Rightarrow> int res" where
  "checked_add_from acc [] field = Inr acc"
| "checked_add_from acc (amount # amounts) field =
     (if amount > 0 \<and> acc > php_int_max - amount then Inl (Validation field)
      else checked_add_from (acc + amount) amounts field)"

definition checked_add :: "int list \<Rightarrow> string \<Rightarrow> int res" where
  "checked_add values field = checked_add_from 0 values field"

lemma le_div_iff_mult_le:
  fixes l :: int
  assumes "0 < l"
  shows "r \<le> m div l \<longleftrightarrow> l * r \<le> m"
proof
  assume "r \<le> m div l"
  then have "l * r \<le> l * (m div l)" using assms by simp
  also have "\<dots> \<le> m" using assms by (simp add: minus_mod_eq_mult_div [symmetric])
  finally show "l * r \<le> m" .
next
  assume "l * r \<le> m"
  then show "r \<le> m div l" using assms zdiv_mono1 [of "l * r" m l] by simp
qed

lemma checked_multiply_Inr [res_simps]:
  "checked_multiply l r f = Inr p \<longleftrightarrow> 0 \<le> l \<and> 0 \<le> r \<and> l * r \<le> php_int_max \<and> p = l * r"
proof (cases "0 < l \<and> 0 \<le> r")
  case True
  then show ?thesis
    using le_div_iff_mult_le [of l r php_int_max]
    by (auto simp: checked_multiply_def intdiv_nonneg not_less)
qed (auto simp: checked_multiply_def)

lemma checked_add_from_Inr: "checked_add_from t vs f = Inr s \<Longrightarrow> s = t + sum_list vs"
proof (induction vs arbitrary: t)
  case (Cons v vs)
  then have "checked_add_from (t + v) vs f = Inr s" by (auto split: if_splits)
  then show ?case using Cons.IH [of "t + v"] by simp
qed simp

lemma checked_add_Inr: "checked_add vs f = Inr s \<Longrightarrow> s = sum_list vs"
  by (auto simp: checked_add_def dest: checked_add_from_Inr)

lemma checked_add_from_le:
  "checked_add_from t vs f = Inr s \<Longrightarrow> t \<le> php_int_max \<Longrightarrow> s \<le> php_int_max"
proof (induction vs arbitrary: t)
  case (Cons v vs)
  then show ?case by (cases "0 < v") (auto split: if_splits)
qed simp

lemma checked_add_le: "checked_add vs f = Inr s \<Longrightarrow> s \<le> php_int_max"
  by (auto simp: checked_add_def intro: checked_add_from_le)

lemma checked_add_from_complete:
  "(\<forall>v \<in> set vs. 0 \<le> v) \<Longrightarrow> t + sum_list vs \<le> php_int_max \<Longrightarrow>
     checked_add_from t vs f = Inr (t + sum_list vs)"
proof (induction vs arbitrary: t)
  case (Cons v vs)
  then have "0 \<le> sum_list vs" by (auto intro: sum_list_nonneg)
  with Cons show ?case by auto
qed simp

subsection \<open>Rounding\<close>

text \<open>
  The modes \<open>down\<close>, \<open>up\<close> and the default (half up, away from zero) are integer arithmetic. The mode
  \<open>half_even\<close> divides with \<open>/\<close> and calls PHP's \<open>round\<close>, so it computes in IEEE doubles:
  \<open>double_of_nat\<close> is the conversion of an integer (53 significant bits, ties to even) and
  \<open>double_ratio\<close> the correctly rounded quotient \<open>m * 2 ^ e\<close> of two of them.
\<close>

definition half_even_nat :: "nat \<Rightarrow> nat \<Rightarrow> nat" where
  "half_even_nat p q =
     (let d = p div q; r = p mod q in
      if 2 * r < q then d else if q < 2 * r then d + 1 else if even d then d else d + 1)"

fun nbits :: "nat \<Rightarrow> nat" where
  "nbits n = (if n = 0 then 0 else Suc (nbits (n div 2)))"

declare nbits.simps [simp del]

definition double_of_nat :: "nat \<Rightarrow> nat" where
  "double_of_nat n =
     (if n < 2 ^ 53 then n
      else let s = nbits n - 53 in half_even_nat n (2 ^ s) * 2 ^ s)"

definition scaled :: "nat \<Rightarrow> nat \<Rightarrow> int \<Rightarrow> nat \<times> nat" where
  "scaled p q e = (if e \<le> 0 then (p * 2 ^ nat (- e), q) else (p, q * 2 ^ nat e))"

definition double_exponent :: "nat \<Rightarrow> nat \<Rightarrow> int" where
  "double_exponent a b =
     (let e = int (nbits a) - int (nbits b) - 53; (p, q) = scaled a b e in
      if q * 2 ^ 53 \<le> p then e + 1 else e)"

definition double_ratio :: "nat \<Rightarrow> nat \<Rightarrow> nat \<times> int" where
  "double_ratio a b =
     (let e = double_exponent a b; (p, q) = scaled a b e in (half_even_nat p q, e))"

definition round_double_half_even :: "nat \<times> int \<Rightarrow> nat" where
  "round_double_half_even d =
     (case d of (m, e) \<Rightarrow> if 0 \<le> e then m * 2 ^ nat e else half_even_nat m (2 ^ nat (- e)))"

definition php_round_half_even :: "nat \<Rightarrow> nat \<Rightarrow> nat" where
  "php_round_half_even a b =
     (if a mod b = 0 then double_of_nat (a div b)
      else round_double_half_even (double_ratio (double_of_nat a) (double_of_nat b)))"

definition round_ratio :: "int \<Rightarrow> int \<Rightarrow> string \<Rightarrow> int res" where
  "round_ratio numerator denominator mode =
     (if denominator \<le> 0 then Inl (Logic ''rounding_denominator'')
      else let sign = (if numerator < 0 then -1 else 1); absolute = \<bar>numerator\<bar> in
      bindE
        (if mode = ''down'' then int_or_type_error (intdiv absolute denominator)
         else if mode = ''up'' then
           bindE (int_or_type_error (absolute + denominator)) (\<lambda>n. Inr (intdiv (n - 1) denominator))
         else if mode = ''half_even'' then
           Inr (int (php_round_half_even (nat absolute) (nat denominator)))
         else bindE (int_or_type_error (absolute + intdiv denominator 2)) (\<lambda>n. Inr (intdiv n denominator)))
        (\<lambda>n. Inr (sign * n)))"

definition basis_point_adjustment :: "int \<Rightarrow> int \<Rightarrow> string \<Rightarrow> int res" where
  "basis_point_adjustment amount basis_points field =
     (let absolute = \<bar>basis_points\<bar> in
      if amount < 0 \<or> (amount \<noteq> 0 \<and> absolute > intdiv php_int_max amount)
      then Inl (Validation field)
      else round_ratio (amount * basis_points) 10000 ''half_up'')"

definition promotion_percentage :: "int \<Rightarrow> int \<Rightarrow> int res" where
  "promotion_percentage amount basis_points =
     (if amount < 0 \<or> basis_points < 0
         \<or> (amount \<noteq> 0 \<and> basis_points > intdiv (php_int_max - 5000) amount)
      then Inl (Validation ''promotion'')
      else Inr (intdiv (amount * basis_points + 5000) 10000))"


text \<open>What the nearest-even rounding of a quotient is, by its distance to the quotient.\<close>

lemma half_even_nat_below:
  assumes "k * q \<le> p" and "2 * p < (2 * k + 1) * q"
  shows "half_even_nat p q = k"
proof -
  have "p < (k + 1) * q" using assms(2) by simp
  then have "p div q = k" using assms(1)
    by (metis Suc_eq_plus1 div_nat_eqI mult.commute)
  moreover have "p mod q = p - k * q" using \<open>p div q = k\<close> by (metis minus_div_mult_eq_mod)
  moreover have "2 * (p - k * q) < q" using assms by (simp add: algebra_simps)
  ultimately show ?thesis by (simp add: half_even_nat_def Let_def)
qed

lemma half_even_nat_above:
  assumes "(2 * k + 1) * q < 2 * p" and "p \<le> (k + 1) * q"
  shows "half_even_nat p q = k + 1"
proof (cases "p = (k + 1) * q")
  case True
  then have "p div q = k + 1" "p mod q = 0" using assms by (auto simp: mult.commute)
  then show ?thesis by (cases q) (auto simp: half_even_nat_def Let_def)
next
  case False
  with assms have "k * q \<le> p" "p < Suc k * q" by (auto simp: algebra_simps)
  then have "p div q = k" by (metis div_nat_eqI mult.commute)
  moreover have "p mod q = p - k * q" using \<open>p div q = k\<close> by (metis minus_div_mult_eq_mod)
  moreover have "q < 2 * (p - k * q)" using assms by (simp add: algebra_simps)
  ultimately show ?thesis by (simp add: half_even_nat_def Let_def)
qed

lemma half_even_nat_tie:
  assumes "2 * p = (2 * k + 1) * q" and "0 < q"
  shows "half_even_nat p q = (if even k then k else k + 1)"
proof -
  have "k * q \<le> p" "p < Suc k * q" using assms by (auto simp: algebra_simps)
  then have "p div q = k" by (metis div_nat_eqI mult.commute)
  moreover have "p mod q = p - k * q" using \<open>p div q = k\<close> by (metis minus_div_mult_eq_mod)
  moreover have "2 * (p - k * q) = q" using assms by (simp add: algebra_simps)
  ultimately show ?thesis by (simp add: half_even_nat_def Let_def)
qed

lemma half_even_nat_cases:
  obtains "2 * (p mod q) < q" "half_even_nat p q = p div q"
    | "q < 2 * (p mod q)" "half_even_nat p q = p div q + 1"
    | "2 * (p mod q) = q" "half_even_nat p q = (if even (p div q) then p div q else p div q + 1)"
  using linorder_less_linear [of "2 * (p mod q)" q] by (auto simp: half_even_nat_def Let_def)

lemma half_even_nat_error:
  assumes "0 < q"
  shows "2 * p \<le> (2 * half_even_nat p q + 1) * q" and "2 * half_even_nat p q * q \<le> 2 * p + q"
proof -
  define d c where "d = p div q" and "c = p mod q"
  have p: "p = d * q + c" and c: "c < q" using assms by (simp_all add: d_def c_def)
  consider "half_even_nat p q = d" "2 * c \<le> q" | "half_even_nat p q = d + 1" "q \<le> 2 * c"
    by (rule half_even_nat_cases [of p q]) (auto simp: d_def c_def split: if_splits)
  then have "2 * p \<le> (2 * half_even_nat p q + 1) * q \<and> 2 * half_even_nat p q * q \<le> 2 * p + q"
  proof cases
    case 1
    then show ?thesis unfolding 1(1) p by (simp add: algebra_simps)
  next
    case 2
    then show ?thesis unfolding 2(1) using p c by (simp add: algebra_simps)
  qed
  then show "2 * p \<le> (2 * half_even_nat p q + 1) * q" and "2 * half_even_nat p q * q \<le> 2 * p + q"
    by auto
qed

text \<open>
  Rounding the rounded binary quotient gives the rounded quotient, when the unit in its last place
  is below the reciprocal of the denominator.
\<close>

lemma half_even_nat_via_binary:
  assumes b: "0 < b" and s: "b < 2 ^ s" and r: "a mod b \<noteq> 0"
  shows "half_even_nat (half_even_nat (a * 2 ^ s) b) (2 ^ s) = half_even_nat a b"
proof -
  define t :: nat where "t = 2 ^ s"
  define m where "m = half_even_nat (a * t) b"
  define d where "d = a div b"
  define c where "c = a mod b"
  have a: "a = d * b + c" and c: "c < b" "0 < c" using b r by (simp_all add: d_def c_def)
  have at: "a * t = d * t * b + c * t" by (simp add: a algebra_simps)
  have e1: "2 * (a * t) \<le> (2 * m + 1) * b" and e2: "2 * m * b \<le> 2 * (a * t) + b"
    using half_even_nat_error [OF b, of "a * t"] by (simp_all add: m_def)
  have bt: "b < t" using s by (simp add: t_def)
  show ?thesis
  proof (rule half_even_nat_cases [of a b])
    assume lt: "2 * (a mod b) < b" and res: "half_even_nat a b = a div b"
    define y where "y = c * t"
    have "t \<le> y" using c by (simp add: y_def)
    then have "2 * d * t * b < (2 * m + 1) * b"
      using e1 at bt unfolding y_def [symmetric] by (simp add: algebra_simps)
    then have "2 * d * t < 2 * m + 1" using b by (metis mult_less_cancel2)
    then have lo: "d * t \<le> m" by simp
    have "2 * c + 1 \<le> b" using lt by (simp add: c_def)
    then have "(2 * c + 1) * t \<le> b * t" by (rule mult_le_mono1)
    then have "2 * m * b < (2 * d + 1) * t * b" using e2 at bt by (simp add: algebra_simps)
    then have "2 * m < (2 * d + 1) * t" using b by (metis mult_less_cancel2)
    then show ?thesis using half_even_nat_below [OF lo] res by (simp add: m_def t_def d_def)
  next
    assume gt: "b < 2 * (a mod b)" and res: "half_even_nat a b = a div b + 1"
    have "(b + 1) * t \<le> 2 * c * t" using gt by (intro mult_le_mono1) (simp add: c_def)
    then have "(2 * d + 1) * t * b < 2 * m * b" using e1 at bt by (simp add: algebra_simps)
    then have lo: "(2 * d + 1) * t < 2 * m" using b by (metis mult_less_cancel2)
    have "(c + 1) * t \<le> b * t" using c by (intro mult_le_mono1) simp
    then have "2 * m * b < (2 * (d + 1) * t + 1) * b" using e2 at bt by (simp add: algebra_simps)
    then have "2 * m < 2 * (d + 1) * t + 1" using b by (metis mult_less_cancel2)
    then have "m \<le> (d + 1) * t" by simp
    then show ?thesis using half_even_nat_above [OF lo] res by (simp add: m_def t_def d_def)
  next
    assume tie: "2 * (a mod b) = b"
      and res: "half_even_nat a b = (if even (a div b) then a div b else a div b + 1)"
    have "1 < t" using bt b by simp
    then obtain u where u: "t = 2 * u" by (cases s) (auto simp: t_def)
    have "c * t = 2 * c * u" by (simp add: u)
    then have "c * t = b * u" using tie by (simp only: c_def)
    then have "a * t = (d * t + u) * b" by (simp add: at algebra_simps)
    then have "m = d * t + u" using b half_even_nat_below [of "d * t + u" b "a * t"]
      by (simp add: m_def algebra_simps)
    then have "2 * m = (2 * d + 1) * t" by (simp add: u algebra_simps)
    then show ?thesis using half_even_nat_tie [of m d t] res \<open>1 < t\<close> by (simp add: m_def t_def d_def)
  qed
qed

lemma nbits_bounds: "n < 2 ^ nbits n" "n \<noteq> 0 \<Longrightarrow> 2 ^ nbits n \<le> 2 * n"
proof (induction n rule: nbits.induct)
  case (1 n)
  { case 1
    show ?case
    proof (cases "n = 0")
      case False
      then have "n div 2 < 2 ^ nbits (n div 2)" using "1.IH" by blast
      then show ?thesis using False by (subst nbits.simps) simp
    qed (simp add: nbits.simps)
  next
    case 2
    then have IH: "n div 2 \<noteq> 0 \<Longrightarrow> 2 ^ nbits (n div 2) \<le> 2 * (n div 2)" using "1.IH" by blast
    show ?case
    proof (cases "n div 2 = 0")
      case True
      then have "n = 1" using 2 by simp
      then show ?thesis by (simp add: nbits.simps)
    next
      case False
      with IH have "2 * 2 ^ nbits (n div 2) \<le> 2 * n"
        by (metis div_times_less_eq_dividend le_trans mult.commute mult_le_mono2)
      then show ?thesis using 2 by (subst nbits.simps) simp
    qed }
qed

lemma nbits_le:
  assumes "n < 2 ^ k"
  shows "nbits n \<le> k"
proof (cases "n = 0")
  case False
  then have "(2::nat) ^ nbits n < 2 ^ Suc k" using assms nbits_bounds(2) [of n] by simp
  then show ?thesis by (simp only: power_strict_increasing_iff [of "2::nat"] less_Suc_eq_le)
qed (simp add: nbits.simps)

lemma double_exponent_le: "a < 2 ^ 52 \<Longrightarrow> double_exponent a b \<le> - int (nbits b)"
  using nbits_le [of a 52] by (auto simp: double_exponent_def Let_def split: prod.splits)

lemma php_round_exact:
  assumes a: "a < 2 ^ 52" and b: "0 < b" "b < 2 ^ 53"
  shows "php_round_half_even a b = half_even_nat a b"
proof (cases "a mod b = 0")
  case True
  have "a div b < 2 ^ 53"
    using a by (intro le_less_trans [OF div_le_dividend]) simp
  with True show ?thesis
    using b by (simp add: php_round_half_even_def double_of_nat_def half_even_nat_def)
next
  case False
  define e where "e = double_exponent a b"
  have e: "e \<le> - int (nbits b)" using a by (simp add: e_def double_exponent_le)
  have "0 < nbits b" using b nbits_bounds(1) [of b] by (cases "nbits b") auto
  with e have neg: "e < 0" by simp
  have "b < 2 ^ nat (- e)"
    using nbits_bounds(1) [of b] e by (auto intro: less_le_trans power_increasing)
  then have "half_even_nat (half_even_nat (a * 2 ^ nat (- e)) b) (2 ^ nat (- e)) = half_even_nat a b"
    using False b by (intro half_even_nat_via_binary)
  moreover have "double_of_nat a = a" "double_of_nat b = b"
    using a b by (simp_all add: double_of_nat_def)
  ultimately show ?thesis
    using False neg by (simp add: php_round_half_even_def round_double_half_even_def double_ratio_def
        scaled_def Let_def flip: e_def)
qed

subsection \<open>Cancellation fee\<close>

text \<open>
  A policy tier as the snapshot stores it (every key may be missing), and as the calculator reads
  it. \<open>cancellation_tier\<close> sorts the tiers by their day bound (a stable sort, like the collection's)
  and takes the first whose bound admits the days left. \<open>local_day\<close> is the calendar day of an
  instant in the property's time zone.
\<close>

record policy_tier =
  tier_days :: "int option"
  tier_retained :: "int option"
  tier_minimum :: "int option"

record fee_tier =
  ft_days :: int
  ft_retained :: int
  ft_minimum :: int

definition normal_tier :: "policy_tier \<Rightarrow> fee_tier" where
  "normal_tier t =
     \<lparr>ft_days = (case tier_days t of None \<Rightarrow> 0 | Some n \<Rightarrow> n),
      ft_retained = (case tier_retained t of None \<Rightarrow> 0 | Some n \<Rightarrow> n),
      ft_minimum = (case tier_minimum t of None \<Rightarrow> 0 | Some n \<Rightarrow> n)\<rparr>"

definition cancellation_tier :: "policy_tier list \<Rightarrow> int \<Rightarrow> fee_tier option" where
  "cancellation_tier tiers days =
     find (\<lambda>t. days \<le> ft_days t) (sort_key ft_days (map normal_tier tiers))"

record fee_calculation =
  fee_minor :: money
  refundable_minor :: money
  days_before_arrival :: int
  fee_tier_used :: "fee_tier option"
  effective_at :: instant
  effective_local_date :: day
  arrival_local_date :: day

definition tier_fee :: "money \<Rightarrow> fee_tier option \<Rightarrow> money res" where
  "tier_fee total_minor t =
     (case t of None \<Rightarrow> Inr 0
      | Some tier \<Rightarrow> bindE (int_or_type_error (total_minor * ft_retained tier + 9999))
          (\<lambda>n. Inr (max (intdiv n 10000) (ft_minimum tier))))"

definition cancellation_fee ::
  "(instant \<Rightarrow> day) \<Rightarrow> money \<Rightarrow> instant \<Rightarrow> policy_tier list \<Rightarrow> instant \<Rightarrow> fee_calculation res" where
  "cancellation_fee local_day total_minor starts_at tiers effective =
     (let effective_day = local_day effective; arrival_day = local_day starts_at;
          days = max 0 (arrival_day - effective_day);
          tier = cancellation_tier tiers days in
      bindE (tier_fee total_minor tier) (\<lambda>raw.
        let fee = min total_minor (max 0 raw) in
        Inr \<lparr>fee_minor = fee, refundable_minor = max 0 (total_minor - fee),
             days_before_arrival = days, fee_tier_used = tier, effective_at = effective,
             effective_local_date = effective_day, arrival_local_date = arrival_day\<rparr>))"

subsection \<open>Commission and deposit requirement\<close>

definition commission_amount :: "money \<Rightarrow> int \<Rightarrow> money res" where
  "commission_amount total_minor rate_basis_points =
     (if rate_basis_points < 0 \<or> rate_basis_points > 10000 then Inl (Domain ''commission_rate'')
      else bindE (int_or_type_error (total_minor * rate_basis_points + 5000)) (\<lambda>n. Inr (intdiv n 10000)))"

text \<open>The deposit policy of a rate plan as it is snapshotted: any key may be missing.\<close>

record deposit_policy =
  dp_requirement :: "string option"
  dp_fixed :: "int option"
  dp_percentage :: "int option"
  dp_deposit_offset_days :: "int option"
  dp_balance_offset_days :: "int option"

definition empty_policy :: deposit_policy where
  "empty_policy = \<lparr>dp_requirement = None, dp_fixed = None, dp_percentage = None,
     dp_deposit_offset_days = None, dp_balance_offset_days = None\<rparr>"

definition or_default :: "'a option \<Rightarrow> 'a \<Rightarrow> 'a" where
  "or_default x d = (case x of None \<Rightarrow> d | Some v \<Rightarrow> v)"

definition required_deposit :: "money \<Rightarrow> deposit_policy \<Rightarrow> money res" where
  "required_deposit total_minor policy =
     (if or_default (dp_requirement policy) ''percentage'' = ''fixed''
      then Inr (min total_minor (or_default (dp_fixed policy) 0))
      else bindE (int_or_type_error (total_minor * or_default (dp_percentage policy) 5000 + 9999))
             (\<lambda>n. Inr (intdiv n 10000)))"

subsection \<open>Properties\<close>

text \<open>The rounding mode \<^verbatim>\<open>half_even\<close> of a quote is exact banker's rounding for every
  numerator below \<open>2 ^ 52\<close>, although the code computes it with floating-point division: the result is
  within half a unit of the exact quotient, a tie goes to the even neighbour, and the sign of the
  numerator is kept.\<close>

theorem half_even_exact:
  assumes "\<bar>n\<bar> < 2 ^ 52" and "0 < d" and "d < 2 ^ 53"
  shows "\<exists>r. round_ratio n d ''half_even'' = Inr r \<and> 2 * \<bar>r * d - n\<bar> \<le> d
    \<and> (2 * \<bar>r * d - n\<bar> = d \<longrightarrow> even r)"
proof -
  define a b where "a = nat \<bar>n\<bar>" and "b = nat d"
  define h where "h = half_even_nat a b"
  have ab: "int a = \<bar>n\<bar>" "int b = d" "0 < b" using assms by (auto simp: a_def b_def)
  have "php_round_half_even a b = h"
    unfolding h_def using assms by (intro php_round_exact) (auto simp: a_def b_def nat_less_iff)
  then have run: "round_ratio n d ''half_even'' = Inr ((if n < 0 then -1 else 1) * int h)"
    using assms by (simp add: round_ratio_def Let_def a_def b_def)
  have e: "2 * a \<le> (2 * h + 1) * b" "2 * h * b \<le> 2 * a + b"
    using half_even_nat_error [OF ab(3), of a] by (simp_all add: h_def)
  have eqs: "int ((2 * h + 1) * b) = 2 * (int h * d) + d" "int (2 * h * b) = 2 * (int h * d)"
    "int (2 * a) = 2 * \<bar>n\<bar>" "int (2 * a + b) = 2 * \<bar>n\<bar> + d"
    using ab by (simp_all add: algebra_simps)
  have "int (2 * a) \<le> int ((2 * h + 1) * b)" "int (2 * h * b) \<le> int (2 * a + b)"
    using e by (simp_all only: zle_int)
  then have "2 * \<bar>n\<bar> \<le> 2 * (int h * d) + d" "2 * (int h * d) \<le> 2 * \<bar>n\<bar> + d"
    unfolding eqs by auto
  then have near: "2 * \<bar>int h * d - \<bar>n\<bar>\<bar> \<le> d"
    by (cases "\<bar>n\<bar> \<le> int h * d") simp_all
  have tie: "even h" if "2 * \<bar>int h * d - \<bar>n\<bar>\<bar> = d"
  proof (rule half_even_nat_cases [of a b])
    show ?thesis if "2 * (a mod b) = b" "half_even_nat a b = (if even (a div b) then a div b else a div b + 1)"
      using that(2) by (simp add: h_def)
    have split: "\<bar>n\<bar> = int (a div b) * d + int (a mod b)"
      using ab by (metis div_mult_mod_eq of_nat_add of_nat_mult)
    have small: "int (a mod b) < d" using ab by (metis mod_less_divisor of_nat_less_iff)
    have mod_nonneg: "0 \<le> int (a mod b)" by simp
    { assume "2 * (a mod b) < b" "half_even_nat a b = a div b"
      then have "int h = int (a div b)" "2 * int (a mod b) < d" using ab by (simp_all add: h_def)
      with that split mod_nonneg show ?thesis by simp }
    { assume "b < 2 * (a mod b)" "half_even_nat a b = a div b + 1"
      then have "int h = int (a div b) + 1" "d < 2 * int (a mod b)" using ab by (simp_all add: h_def)
      with that split small show ?thesis by (simp add: algebra_simps) }
  qed
  have flip: "\<bar>(if n < 0 then -1 else 1) * int h * d - n\<bar> = \<bar>int h * d - \<bar>n\<bar>\<bar>"
    using abs_minus_cancel [of "int h * d + n"] by (auto simp: algebra_simps simp del: abs_minus_cancel)
  show ?thesis
    unfolding run using near tie
    by (intro exI [of _ "(if n < 0 then -1 else 1) * int h"] conjI) (simp_all only: flip, auto)
qed

theorem half_even_exact_witness:
  "\<exists>r. round_ratio (-25) 10 ''half_even'' = Inr r \<and> 2 * \<bar>r * 10 - (-25)\<bar> \<le> 10
    \<and> (2 * \<bar>r * 10 - (-25)\<bar> = 10 \<longrightarrow> even r)"
  by (rule half_even_exact) simp_all

text \<open>Beyond \<open>2 ^ 53\<close> the floating-point division loses the exact tie comparison: the quotient
  below is above a tie and is still rounded down.\<close>

lemma nbits_9007199254745001: "nbits 9007199254745001 = 54"
  by (simp add: nbits.simps)

lemma nbits_10000: "nbits 10000 = 14"
  by (simp add: nbits.simps)

text \<open>above that bound the code and exact banker's rounding disagree: at one ten-thousandth of
  9007199254745001 the code returns 900719925474 where the exact quotient 900719925474.5001 rounds
  to 900719925475.\<close>

theorem half_even_inexact:
  "round_ratio 9007199254745001 10000 ''half_even'' = Inr 900719925474
   \<and> half_even_nat 9007199254745001 10000 = 900719925475"
  by (simp add: round_ratio_def php_round_half_even_def double_of_nat_def double_ratio_def
      double_exponent_def scaled_def half_even_nat_def round_double_half_even_def
      nbits_9007199254745001 nbits_10000 nbits.simps Let_def)

text \<open>What sorting and taking the first admissible tier selects.\<close>

lemma find_sort_key_least:
  fixes key :: "'a \<Rightarrow> int"
  assumes "find (\<lambda>t. d \<le> key t) (sort_key key xs) = Some t"
  shows "t \<in> set xs" and "d \<le> key t" and "u \<in> set xs \<Longrightarrow> d \<le> key u \<Longrightarrow> key t \<le> key u"
proof -
  from assms obtain i where i: "i < length (sort_key key xs)" "sort_key key xs ! i = t"
    "d \<le> key t" "\<forall>j < i. \<not> d \<le> key (sort_key key xs ! j)"
    by (auto simp: find_Some_iff)
  then show "t \<in> set xs" "d \<le> key t" by (metis nth_mem set_sort, simp)
  assume u: "u \<in> set xs" "d \<le> key u"
  then obtain k where k: "k < length (sort_key key xs)" "sort_key key xs ! k = u"
    by (metis in_set_conv_nth set_sort)
  with i u have "i \<le> k" by (meson not_le)
  moreover have "sorted (map key (sort_key key xs))" by simp
  ultimately show "key t \<le> key u"
    using i k sorted_nth_mono [of "map key (sort_key key xs)" i k] by simp
qed

lemma cancellation_tier_Some:
  assumes "cancellation_tier tiers days = Some t"
  shows "t \<in> normal_tier ` set tiers" and "days \<le> ft_days t"
    and "u \<in> normal_tier ` set tiers \<Longrightarrow> days \<le> ft_days u \<Longrightarrow> ft_days t \<le> ft_days u"
  using find_sort_key_least [OF assms [unfolded cancellation_tier_def]] by auto

lemma cancellation_tier_None:
  "cancellation_tier tiers days = None \<longleftrightarrow> (\<forall>u \<in> normal_tier ` set tiers. ft_days u < days)"
  by (auto simp: cancellation_tier_def find_None_iff not_le)

lemma cancellation_fee_Inr:
  "cancellation_fee ld total_minor starts tiers eff = Inr c \<longleftrightarrow>
     (\<exists>raw. tier_fee total_minor (cancellation_tier tiers (max 0 (ld starts - ld eff))) = Inr raw
       \<and> c = \<lparr>fee_minor = min total_minor (max 0 raw),
              refundable_minor = max 0 (total_minor - min total_minor (max 0 raw)),
              days_before_arrival = max 0 (ld starts - ld eff),
              fee_tier_used = cancellation_tier tiers (max 0 (ld starts - ld eff)),
              effective_at = eff, effective_local_date = ld eff, arrival_local_date = ld starts\<rparr>)"
  by (auto simp: cancellation_fee_def Let_def bindE_eq_Inr)

text \<open>C35: a computed cancellation fee is between zero and the reservation total and splits it: fee
  and refundable amount add up to the total. The tier it uses is the tightest one that still admits
  the days left before arrival, and with no admissible tier the cancellation is free.\<close>

theorem cancellation_fee_splits_total:
  assumes "cancellation_fee ld total_minor starts tiers eff = Inr c" and "0 \<le> total_minor"
  shows "0 \<le> fee_minor c \<and> fee_minor c \<le> total_minor
    \<and> fee_minor c + refundable_minor c = total_minor
    \<and> (case fee_tier_used c of
         None \<Rightarrow> fee_minor c = 0 \<and> (\<forall>u \<in> normal_tier ` set tiers. ft_days u < days_before_arrival c)
       | Some t \<Rightarrow> t \<in> normal_tier ` set tiers \<and> days_before_arrival c \<le> ft_days t
           \<and> (\<forall>u \<in> normal_tier ` set tiers. days_before_arrival c \<le> ft_days u \<longrightarrow> ft_days t \<le> ft_days u))"
  using assms cancellation_tier_Some [of tiers "max 0 (ld starts - ld eff)"]
    cancellation_tier_None [of tiers "max 0 (ld starts - ld eff)"]
  by (auto simp: cancellation_fee_Inr tier_fee_def split: option.splits)

definition sample_tiers :: "policy_tier list" where
  "sample_tiers =
     [\<lparr>tier_days = Some 30, tier_retained = Some 2500, tier_minimum = None\<rparr>,
      \<lparr>tier_days = Some 7, tier_retained = Some 10000, tier_minimum = Some 5000\<rparr>]"

theorem cancellation_fee_splits_total_witness:
  "cancellation_fee (\<lambda>t. t div 86400) 100001 864000 sample_tiers 0
     = Inr \<lparr>fee_minor = 25001, refundable_minor = 75000, days_before_arrival = 10,
            fee_tier_used = Some \<lparr>ft_days = 30, ft_retained = 2500, ft_minimum = 0\<rparr>,
            effective_at = 0, effective_local_date = 0, arrival_local_date = 10\<rparr>
   \<and> (25001::int) + 75000 = 100001"
proof
  show *: "cancellation_fee (\<lambda>t. t div 86400) 100001 864000 sample_tiers 0
     = Inr \<lparr>fee_minor = 25001, refundable_minor = 75000, days_before_arrival = 10,
            fee_tier_used = Some \<lparr>ft_days = 30, ft_retained = 2500, ft_minimum = 0\<rparr>,
            effective_at = 0, effective_local_date = 0, arrival_local_date = 10\<rparr>"
    by (simp add: cancellation_fee_def cancellation_tier_def tier_fee_def sample_tiers_def
        normal_tier_def int_or_type_error_def fits_def php_int_max_def)
  show "(25001::int) + 75000 = 100001"
    using cancellation_fee_splits_total [OF *] by simp
qed

text \<open>A policy is graded when a tighter tier never retains less.\<close>

definition graded_policy :: "policy_tier list \<Rightarrow> bool" where
  "graded_policy tiers \<longleftrightarrow> (\<forall>a \<in> normal_tier ` set tiers. \<forall>b \<in> normal_tier ` set tiers.
     ft_days a \<le> ft_days b \<longrightarrow> ft_retained b \<le> ft_retained a \<and> ft_minimum b \<le> ft_minimum a)"

lemma tier_fee_mono:
  assumes "tier_fee total_minor (Some a) = Inr x" and "tier_fee total_minor (Some b) = Inr y"
    and "ft_retained b \<le> ft_retained a" and "ft_minimum b \<le> ft_minimum a" and "0 \<le> total_minor"
  shows "max 0 y \<le> max 0 x"
proof (cases "total_minor * ft_retained b + 9999 < 0")
  case True
  then have "intdiv (total_minor * ft_retained b + 9999) 10000 \<le> 0"
    by (auto simp: intdiv_def mult_nonneg_nonneg div_int_pos_iff)
  with assms show ?thesis by (auto simp: tier_fee_def res_simps)
next
  case False
  have le: "total_minor * ft_retained b + 9999 \<le> total_minor * ft_retained a + 9999"
    using assms by (simp add: mult_left_mono)
  with False have "intdiv (total_minor * ft_retained b + 9999) 10000
      \<le> intdiv (total_minor * ft_retained a + 9999) 10000"
    by (simp add: zdiv_mono1)
  with assms show ?thesis by (auto simp: tier_fee_def res_simps)
qed

text \<open>under a graded policy, cancelling later never costs less: the fee does not decrease as the
  effective day moves towards arrival.\<close>

theorem cancellation_fee_monotone:
  assumes "graded_policy tiers" and "0 \<le> total_minor" and "ld early \<le> ld late"
    and "cancellation_fee ld total_minor starts tiers early = Inr c"
    and "cancellation_fee ld total_minor starts tiers late = Inr d"
  shows "fee_minor c \<le> fee_minor d"
proof -
  define x y where "x = max 0 (ld starts - ld early)" and "y = max 0 (ld starts - ld late)"
  have yx: "y \<le> x" using assms(3) by (simp add: x_def y_def)
  obtain p q where p: "tier_fee total_minor (cancellation_tier tiers x) = Inr p"
      "fee_minor c = min total_minor (max 0 p)"
    and q: "tier_fee total_minor (cancellation_tier tiers y) = Inr q"
      "fee_minor d = min total_minor (max 0 q)"
    using assms(4,5) by (auto simp: cancellation_fee_Inr x_def y_def)
  have "max 0 p \<le> max 0 q"
  proof (cases "cancellation_tier tiers x")
    case None
    with p show ?thesis by (simp add: tier_fee_def)
  next
    case (Some b)
    note b = cancellation_tier_Some [OF Some]
    obtain a where a: "cancellation_tier tiers y = Some a"
      using b yx cancellation_tier_None [of tiers y] by (cases "cancellation_tier tiers y") auto
    note a' = cancellation_tier_Some [OF a]
    have "ft_days a \<le> ft_days b" using a'(3) [OF b(1)] b(2) yx by simp
    then show ?thesis
      using assms(1,2) a'(1) b(1) p(1) q(1) Some a tier_fee_mono by (metis graded_policy_def)
  qed
  then show ?thesis using p q by simp
qed

theorem cancellation_fee_monotone_witness:
  "\<exists>c d. cancellation_fee (\<lambda>t. t div 86400) 100001 864000 sample_tiers 0 = Inr c
     \<and> cancellation_fee (\<lambda>t. t div 86400) 100001 864000 sample_tiers 500000 = Inr d
     \<and> fee_minor c \<le> fee_minor d"
proof -
  have run: "\<exists>c. cancellation_fee (\<lambda>t. t div 86400) 100001 864000 sample_tiers n = Inr c"
    if "n \<in> {0, 500000}" for n
    using that by (auto simp: cancellation_fee_def cancellation_tier_def tier_fee_def sample_tiers_def
        normal_tier_def int_or_type_error_def fits_def php_int_max_def)
  obtain c where c: "cancellation_fee (\<lambda>t. t div 86400) 100001 864000 sample_tiers 0 = Inr c"
    using run by blast
  obtain d where d: "cancellation_fee (\<lambda>t. t div 86400) 100001 864000 sample_tiers 500000 = Inr d"
    using run by blast
  have "fee_minor c \<le> fee_minor d"
    by (rule cancellation_fee_monotone [OF _ _ _ c d])
      (simp_all add: graded_policy_def sample_tiers_def normal_tier_def)
  with c d show ?thesis by blast
qed


end
