(* ===== verification/Schema.thy ===== *)
theory Schema
  imports Money
begin

text \<open>
  The tables of one tenant that the stay, folio and payment services share: one record per Eloquent
  model (\<^verbatim>\<open>apps/api/app/Models\<close>), with the columns the services read or write, and the record
  \<open>db\<close> of all tables. A nullable column is an option, a JSON column an association list. \<open>ctx\<close> is
  what a request carries: the clock, the signed-in user and membership, the calendar of each
  property and the configured hold time. Ids come from the counter \<open>next_id\<close>, as UUIDs they never repeat.
  \<open>fresh_ids\<close> states that, and the lemmas below say how inserts and updates keep it.
\<close>

subsection \<open>JSON columns\<close>

datatype json =
    J_Null
  | J_Bool bool
  | J_Int int
  | J_Str string
  | J_Id id
  | J_Arr "json list"
  | J_Obj "(string \<times> json) list"

type_synonym meta = "(string \<times> json) list"

definition data_get :: "meta \<Rightarrow> string \<Rightarrow> json" where
  "data_get m k = (case map_of m k of None \<Rightarrow> J_Null | Some v \<Rightarrow> v)"

definition j_opt :: "('a \<Rightarrow> json) \<Rightarrow> 'a option \<Rightarrow> json" where
  "j_opt f x = (case x of None \<Rightarrow> J_Null | Some v \<Rightarrow> f v)"

text \<open>PHP's cast to \<open>bool\<close>.\<close>

fun truthy :: "json \<Rightarrow> bool" where
  "truthy J_Null = False"
| "truthy (J_Bool b) = b"
| "truthy (J_Int n) = (n \<noteq> 0)"
| "truthy (J_Str s) = (s \<noteq> [] \<and> s \<noteq> ''0'')"
| "truthy (J_Id _) = True"
| "truthy (J_Arr xs) = (xs \<noteq> [])"
| "truthy (J_Obj xs) = (xs \<noteq> [])"

definition php_blank :: "char \<Rightarrow> bool" where
  "php_blank c \<longleftrightarrow> c \<in> {CHR 0x20, CHR 0x09, CHR 0x0A, CHR 0x0D, CHR 0x00, CHR 0x0B}"

definition trim :: "string \<Rightarrow> string" where
  "trim s = rev (dropWhile php_blank (rev (dropWhile php_blank s)))"

definition lower_char :: "char \<Rightarrow> char" where
  "lower_char ch = (if 65 \<le> (of_char ch :: nat) \<and> (of_char ch :: nat) \<le> 90 then char_of (of_char ch + (32::nat)) else ch)"

definition lower :: "string \<Rightarrow> string" where
  "lower s = map lower_char s"

definition upper_char :: "char \<Rightarrow> char" where
  "upper_char ch = (if 97 \<le> (of_char ch :: nat) \<and> (of_char ch :: nat) \<le> 122 then char_of (of_char ch - (32::nat)) else ch)"

definition upper :: "string \<Rightarrow> string" where
  "upper s = map upper_char s"

lemma trim_Nil [simp]: "trim [] = []"
  by (simp add: trim_def)

text \<open>\<open>trim((string) ($x ?? '')) ?: null\<close>: empty text and the text \<open>0\<close> are null.\<close>

definition filled_text :: "string option \<Rightarrow> string option" where
  "filled_text v = (let t = trim (or_default v []) in if t = [] \<or> t = ''0'' then None else Some t)"

subsection \<open>Catalogue\<close>

record property_row =
  prop_id :: id
  prop_active :: bool

record category =
  cat_id :: id
  cat_property :: id
  cat_kind :: resource_kind
  cat_counts_as_stay :: bool
  cat_active :: bool

record resource =
  res_id :: id
  res_property :: id
  res_category :: id
  res_capacity :: int
  res_active :: bool
  res_is_buyout :: bool
  res_attributes :: meta
  res_housekeeping :: "housekeeping_status option"
  res_housekeeping_at :: "instant option"
  res_housekeeping_by :: "user_id option"

record block =
  blk_id :: id
  blk_resource :: id
  blk_starts :: instant
  blk_ends :: instant

record occurrence =
  occ_id :: id
  occ_program :: id
  occ_property :: id
  occ_starts :: instant
  occ_ends :: instant
  occ_capacity :: int
  occ_cancelled :: bool

record requirement =
  rq_category :: id
  rq_minimum :: int
  rq_guests_per_resource :: "int option"
  rq_capabilities :: json
  rq_languages :: json

record task_template =
  tt_id :: id
  tt_active :: bool
  tt_role :: "string option"
  tt_title :: string
  tt_priority :: string
  tt_due_offset_minutes :: int

record program =
  pg_id :: id
  pg_property :: id
  pg_active :: bool
  pg_requires_accommodation :: bool
  pg_duration_minutes :: "int option"
  pg_capacity :: "int option"
  pg_price :: money
  pg_currency :: string
  pg_requirements :: "requirement list"
  pg_templates :: "task_template list"

record membership =
  mb_user :: user_id
  mb_role :: membership_role
  mb_active :: bool
  mb_property :: "id option"

subsection \<open>Stays\<close>

record reservation =
  r_id :: id
  r_property :: id
  r_program :: "id option"
  r_guest :: "id option"
  r_quote :: "id option"
  r_status :: reservation_status
  r_starts :: instant
  r_ends :: instant
  r_adults :: int
  r_children :: int
  r_infants :: int
  r_currency :: string
  r_subtotal :: money
  r_tax :: money
  r_total :: money
  r_revision :: int
  r_hold_expires :: "instant option"
  r_confirmed_at :: "instant option"
  r_actual_start :: "instant option"
  r_actual_end :: "instant option"
  r_cancelled_at :: "instant option"
  r_closure_reason :: "string option"
  r_deposit_policy :: "deposit_policy option"
  r_cancellation_tiers :: "policy_tier list"
  r_folio_status :: folio_status
  r_folio_closed_at :: "instant option"
  r_folio_closed_by :: "user_id option"

record allocation =
  al_id :: id
  al_reservation :: id
  al_category :: "id option"
  al_resource :: "id option"
  al_occurrence :: "id option"
  al_status :: allocation_status
  al_starts :: instant
  al_ends :: instant
  al_quantity :: int

record status_history =
  sh_reservation :: id
  sh_actor :: "user_id option"
  sh_from :: "reservation_status option"
  sh_to :: reservation_status
  sh_at :: instant
  sh_meta :: meta

record snapshot =
  sn_status :: string
  sn_revision :: int
  sn_starts :: instant
  sn_ends :: instant
  sn_adults :: int
  sn_children :: int
  sn_program :: "id option"
  sn_quote :: "id option"
  sn_currency :: string
  sn_subtotal :: money
  sn_tax :: money
  sn_total :: money
  sn_deposit_policy :: "deposit_policy option"
  sn_cancellation_tiers :: "policy_tier list"
  sn_allocations :: "allocation list"

record change =
  ch_id :: id
  ch_reservation :: id
  ch_actor :: "user_id option"
  ch_parent :: "id option"
  ch_type :: string
  ch_status :: string
  ch_currency :: string
  ch_amount :: "money option"
  ch_reference :: "string option"
  ch_dedup :: "string option"
  ch_before :: "snapshot option"
  ch_after :: "snapshot option"
  ch_meta :: meta
  ch_at :: instant

subsection \<open>Money\<close>

record folio_line =
  fl_id :: id
  fl_reservation :: id
  fl_payment :: "id option"
  fl_reverses :: "id option"
  fl_type :: folio_line_type
  fl_quantity :: int
  fl_unit :: money
  fl_net :: money
  fl_tax :: money
  fl_gross :: money
  fl_amount :: money
  fl_currency :: string
  fl_posted_at :: instant
  fl_created_by :: "user_id option"
  fl_meta :: meta

record payment =
  py_id :: id
  py_reservation :: id
  py_status :: payment_status
  py_method :: string
  py_channel :: payment_channel
  py_entry :: payment_entry_mode
  py_origin :: payment_origin
  py_provider :: "string option"
  py_environment :: "string option"
  py_account :: "string option"
  py_reference :: "string option"
  py_currency :: string
  py_amount :: money
  py_processed_at :: "instant option"
  py_reconciled_at :: "instant option"
  py_recorded_by :: "user_id option"
  py_reconciled_by :: "user_id option"
  py_reversed_at :: "instant option"
  py_reversed_by :: "user_id option"
  py_reversal_reason :: "string option"
  py_meta :: meta

record payment_request =
  prq_id :: id
  prq_reservation :: id
  prq_payment :: "id option"
  prq_state :: payment_request_state
  prq_expires :: instant
  prq_source_amount :: money
  prq_source_currency :: string
  prq_paid_at :: "instant option"

record payment_attempt =
  pa_id :: id
  pa_reservation :: id
  pa_request :: id
  pa_deposit :: "id option"
  pa_provider :: string
  pa_environment :: string
  pa_account :: string
  pa_source_amount :: money
  pa_charge_amount :: money
  pa_charge_currency :: string
  pa_external_reference :: string
  pa_conversion :: json

record deposit =
  dep_id :: id
  dep_reservation :: id
  dep_payment :: "id option"
  dep_schedule :: "string option"
  dep_status :: deposit_status
  dep_currency :: string
  dep_amount :: money
  dep_due_at :: instant
  dep_paid_at :: "instant option"
  dep_waived_at :: "instant option"
  dep_waived_by :: "user_id option"
  dep_waiver_reason :: "string option"

record dispute =
  dis_payment :: id
  dis_state :: string
  dis_impact :: string
  dis_amount :: money

subsection \<open>Promotions, tasks and the outbox\<close>

record promotion =
  pm_id :: id
  pm_property :: "id option"
  pm_state :: string
  pm_currency :: string
  pm_version :: int
  pm_discount_type :: string
  pm_percentage :: "int option"
  pm_fixed :: "money option"
  pm_valid_from :: "day option"
  pm_valid_until :: "day option"
  pm_rate_plans :: "id list"
  pm_categories :: "id list"
  pm_programs :: "id list"
  pm_minimum_stay :: "int option"
  pm_maximum_stay :: "int option"
  pm_requires_code :: bool
  pm_exclusive :: bool
  pm_stacking_group :: "string option"
  pm_priority :: int
  pm_usage_limit :: "int option"
  pm_budget :: "money option"
  pm_per_guest :: "int option"
  pm_per_session :: "int option"
  pm_reinstate_on_cancel :: bool

record voucher =
  vc_id :: id
  vc_property :: "id option"
  vc_promotion :: id
  vc_state :: string
  vc_code_hash :: string
  vc_valid_from :: "instant option"
  vc_valid_until :: "instant option"
  vc_usage_limit :: "int option"
  vc_budget :: "money option"
  vc_per_guest :: "int option"
  vc_per_session :: "int option"

record usage =
  us_id :: id
  us_promotion :: id
  us_voucher :: "id option"
  us_quote :: id
  us_reservation :: id
  us_guest :: "id option"
  us_session :: "string option"
  us_state :: string
  us_discount :: money
  us_superseded_by :: "id option"
  us_at :: instant
  us_confirmed_at :: "instant option"
  us_released_at :: "instant option"

record redemption =
  rd_id :: id
  rd_voucher :: id
  rd_quote :: id
  rd_reservation :: id
  rd_guest :: "id option"
  rd_session :: "string option"
  rd_state :: string
  rd_discount :: money
  rd_at :: instant
  rd_confirmed_at :: "instant option"
  rd_released_at :: "instant option"

record promo_event =
  ev_subject :: id
  ev_actor :: "user_id option"
  ev_type :: string
  ev_reason :: string
  ev_facts :: meta
  ev_at :: instant

record task =
  tk_id :: id
  tk_property :: id
  tk_reservation :: "id option"
  tk_template :: "id option"
  tk_checklist :: "id option"
  tk_assignee :: "user_id option"
  tk_title :: string
  tk_description :: string
  tk_status :: task_status
  tk_priority :: string
  tk_due_at :: "instant option"
  tk_started_at :: "instant option"
  tk_completed_at :: "instant option"
  tk_failed_at :: "instant option"
  tk_reopened_at :: "instant option"
  tk_escalated_at :: "instant option"
  tk_failure_reason :: "string option"
  tk_escalation_reason :: "string option"
  tk_cancellation_reason :: "string option"
  tk_revision :: int
  tk_meta :: meta

record task_event =
  te_task :: id
  te_actor :: "user_id option"
  te_type :: string
  te_from :: task_status
  te_to :: task_status
  te_reason :: "string option"
  te_snapshot :: meta
  te_at :: instant

record outbox_message =
  ob_aggregate :: string
  ob_id :: id
  ob_event :: string
  ob_payload :: meta
  ob_at :: instant

subsection \<open>The database and the request\<close>

record db =
  properties :: "property_row list"
  categories :: "category list"
  resources :: "resource list"
  blocks :: "block list"
  occurrences :: "occurrence list"
  programs :: "program list"
  memberships :: "membership list"
  reservations :: "reservation list"
  allocations :: "allocation list"
  histories :: "status_history list"
  changes :: "change list"
  folio_lines :: "folio_line list"
  payments :: "payment list"
  payment_requests :: "payment_request list"
  payment_attempts :: "payment_attempt list"
  deposits :: "deposit list"
  disputes :: "dispute list"
  promotions :: "promotion list"
  vouchers :: "voucher list"
  usages :: "usage list"
  usage_events :: "promo_event list"
  redemptions :: "redemption list"
  redemption_events :: "promo_event list"
  tasks :: "task list"
  task_events :: "task_event list"
  outbox :: "outbox_message list"
  next_id :: id

record ctx =
  clock :: instant
  auth_id :: "user_id option"
  request_member :: "membership option"
  local_day :: "id \<Rightarrow> instant \<Rightarrow> day"
  hold_ttl_minutes :: int

type_synonym 'a action = "db \<Rightarrow> failure + (db \<times> 'a)"

definition empty_db :: db where
  "empty_db = \<lparr>properties = [], categories = [], resources = [], blocks = [], occurrences = [],
     programs = [], memberships = [], reservations = [], allocations = [], histories = [],
     changes = [], folio_lines = [], payments = [], payment_requests = [], payment_attempts = [],
     deposits = [], disputes = [], promotions = [], vouchers = [], usages = [], usage_events = [],
     redemptions = [], redemption_events = [], tasks = [], task_events = [], outbox = [],
     next_id = 0\<rparr>"

subsection \<open>Rows of one table\<close>

abbreviation find_reservation :: "db \<Rightarrow> id \<Rightarrow> reservation option" where
  "find_reservation s i \<equiv> find_row r_id i (reservations s)"

definition reservation_or_fail :: "db \<Rightarrow> id \<Rightarrow> reservation res" where
  "reservation_or_fail s i = find_or_fail ''reservations'' r_id i (reservations s)"

definition update_reservation :: "id \<Rightarrow> (reservation \<Rightarrow> reservation) \<Rightarrow> db \<Rightarrow> db" where
  "update_reservation i f s = s\<lparr>reservations := upd_row r_id i f (reservations s)\<rparr>"

definition own_allocations :: "db \<Rightarrow> id \<Rightarrow> allocation list" where
  "own_allocations s i = filter (\<lambda>a. al_reservation a = i) (allocations s)"

lemma reservation_or_fail_Inr [res_simps]:
  "reservation_or_fail s i = Inr r \<longleftrightarrow> find_reservation s i = Some r"
  by (simp add: reservation_or_fail_def res_simps)

text \<open>These rules turn a run that succeeded into its guards and intermediate states.\<close>

lemmas run_simps = bindE_eq_Inr reservation_or_fail_Inr find_or_fail_Inr if_Inl_eq_Inr Let_def split_paired_Ex
  prod.case sum.inject prod.inject simp_thms

subsection \<open>OutboxRecorder\<close>

text \<open>
  \<^verbatim>\<open>OutboxRecorder::record\<close> stores the message inside the caller's transaction; what happens
  after the commit (\<^verbatim>\<open>publishOne\<close>) is a queue the model does not follow. Every call of the modelled
  services makes the message available at once.
\<close>

definition record_outbox :: "ctx \<Rightarrow> string \<Rightarrow> id \<Rightarrow> string \<Rightarrow> meta \<Rightarrow> db \<Rightarrow> db" where
  "record_outbox c aggregate i event payload s =
     s\<lparr>outbox := outbox s @ [\<lparr>ob_aggregate = aggregate, ob_id = i, ob_event = event,
       ob_payload = payload, ob_at = clock c\<rparr>]\<rparr>"

lemma record_outbox_frame [frame_simps]:
  "properties (record_outbox c a i e p s) = properties s"
  "categories (record_outbox c a i e p s) = categories s"
  "resources (record_outbox c a i e p s) = resources s"
  "blocks (record_outbox c a i e p s) = blocks s"
  "occurrences (record_outbox c a i e p s) = occurrences s"
  "programs (record_outbox c a i e p s) = programs s"
  "memberships (record_outbox c a i e p s) = memberships s"
  "reservations (record_outbox c a i e p s) = reservations s"
  "allocations (record_outbox c a i e p s) = allocations s"
  "histories (record_outbox c a i e p s) = histories s"
  "changes (record_outbox c a i e p s) = changes s"
  "folio_lines (record_outbox c a i e p s) = folio_lines s"
  "payments (record_outbox c a i e p s) = payments s"
  "payment_requests (record_outbox c a i e p s) = payment_requests s"
  "payment_attempts (record_outbox c a i e p s) = payment_attempts s"
  "deposits (record_outbox c a i e p s) = deposits s"
  "disputes (record_outbox c a i e p s) = disputes s"
  "promotions (record_outbox c a i e p s) = promotions s"
  "vouchers (record_outbox c a i e p s) = vouchers s"
  "usages (record_outbox c a i e p s) = usages s"
  "usage_events (record_outbox c a i e p s) = usage_events s"
  "redemptions (record_outbox c a i e p s) = redemptions s"
  "redemption_events (record_outbox c a i e p s) = redemption_events s"
  "tasks (record_outbox c a i e p s) = tasks s"
  "task_events (record_outbox c a i e p s) = task_events s"
  "next_id (record_outbox c a i e p s) = next_id s"
  by (simp_all add: record_outbox_def)

lemma update_reservation_frame [frame_simps]:
  "properties (update_reservation i f s) = properties s"
  "categories (update_reservation i f s) = categories s"
  "resources (update_reservation i f s) = resources s"
  "blocks (update_reservation i f s) = blocks s"
  "occurrences (update_reservation i f s) = occurrences s"
  "programs (update_reservation i f s) = programs s"
  "memberships (update_reservation i f s) = memberships s"
  "allocations (update_reservation i f s) = allocations s"
  "histories (update_reservation i f s) = histories s"
  "changes (update_reservation i f s) = changes s"
  "folio_lines (update_reservation i f s) = folio_lines s"
  "payments (update_reservation i f s) = payments s"
  "payment_requests (update_reservation i f s) = payment_requests s"
  "payment_attempts (update_reservation i f s) = payment_attempts s"
  "deposits (update_reservation i f s) = deposits s"
  "disputes (update_reservation i f s) = disputes s"
  "promotions (update_reservation i f s) = promotions s"
  "vouchers (update_reservation i f s) = vouchers s"
  "usages (update_reservation i f s) = usages s"
  "usage_events (update_reservation i f s) = usage_events s"
  "redemptions (update_reservation i f s) = redemptions s"
  "redemption_events (update_reservation i f s) = redemption_events s"
  "tasks (update_reservation i f s) = tasks s"
  "task_events (update_reservation i f s) = task_events s"
  "outbox (update_reservation i f s) = outbox s"
  "next_id (update_reservation i f s) = next_id s"
  "reservations (update_reservation i f s) = upd_row r_id i f (reservations s)"
  by (simp_all add: update_reservation_def)

text \<open>Primary keys: every row's id was handed out before, and no two rows of a table share one.\<close>

definition keys_ok :: "('r \<Rightarrow> id) \<Rightarrow> 'r list \<Rightarrow> id \<Rightarrow> bool" where
  "keys_ok key tbl n \<longleftrightarrow> distinct (map key tbl) \<and> (\<forall>r \<in> set tbl. key r < n)"

lemma keys_ok_insert [table_simps]:
  "keys_ok key tbl n \<Longrightarrow> key r = n \<Longrightarrow> keys_ok key (tbl @ [r]) (Suc n)"
  by (auto simp: keys_ok_def)

lemma keys_ok_mono: "keys_ok key tbl n \<Longrightarrow> n \<le> m \<Longrightarrow> keys_ok key tbl m"
  by (auto simp: keys_ok_def intro: less_le_trans)

lemma keys_ok_cong: "map key tbl = map key tbl' \<Longrightarrow> keys_ok key tbl n = keys_ok key tbl' n"
  unfolding keys_ok_def by (metis (mono_tags, opaque_lifting) in_set_conv_nth length_map nth_map)

lemma keys_ok_upd_row [table_simps]:
  "(\<And>r. key (f r) = key r) \<Longrightarrow> keys_ok key (upd_row key i f tbl) n = keys_ok key tbl n"
  by (rule keys_ok_cong) (simp add: map_key_upd_row)

lemma keys_ok_upd_where [table_simps]:
  "(\<And>r. key (f r) = key r) \<Longrightarrow> keys_ok key (upd_where P f tbl) n = keys_ok key tbl n"
  by (rule keys_ok_cong) (simp add: map_key_upd_where)

lemma keys_ok_eq: "keys_ok key tbl n \<Longrightarrow> x \<in> set tbl \<Longrightarrow> y \<in> set tbl \<Longrightarrow> key x = key y \<Longrightarrow> x = y"
  by (auto simp: keys_ok_def distinct_map inj_on_def)

lemma keys_ok_distinct: "keys_ok key tbl n \<Longrightarrow> distinct tbl"
  by (auto simp: keys_ok_def distinct_map)

lemma keys_ok_find: "keys_ok key tbl n \<Longrightarrow> r \<in> set tbl \<Longrightarrow> find_row key (key r) tbl = Some r"
  by (auto simp: keys_ok_def intro: find_row_unique)

subsection \<open>A small property\<close>

text \<open>
  Concrete rows the examples of the component theories run on: one property with a cabin (a stay
  place), a boat (a pooled asset of capacity 4) and a confirmed and a draft reservation.
\<close>

definition demo_reservation :: "id \<Rightarrow> reservation_status \<Rightarrow> reservation" where
  "demo_reservation i st = \<lparr>r_id = i, r_property = 1, r_program = None, r_guest = None,
     r_quote = None, r_status = st, r_starts = 864000, r_ends = 1036800, r_adults = 2, r_children = 0, r_infants = 0,
     r_currency = ''COP'', r_subtotal = 90000, r_tax = 10000, r_total = 100000, r_revision = 1,
     r_hold_expires = None, r_confirmed_at = None, r_actual_start = None, r_actual_end = None,
     r_cancelled_at = None, r_closure_reason = None, r_deposit_policy = None,
     r_cancellation_tiers = sample_tiers, r_folio_status = F_Open, r_folio_closed_at = None,
     r_folio_closed_by = None\<rparr>"

definition demo_allocation :: "id \<Rightarrow> id \<Rightarrow> id option \<Rightarrow> allocation_status \<Rightarrow> allocation" where
  "demo_allocation i r res st = \<lparr>al_id = i, al_reservation = r, al_category = None, al_resource = res,
     al_occurrence = None, al_status = st, al_starts = 864000, al_ends = 1036800, al_quantity = 1\<rparr>"

definition demo_resource :: "id \<Rightarrow> id \<Rightarrow> int \<Rightarrow> resource" where
  "demo_resource i k capacity = \<lparr>res_id = i, res_property = 1, res_category = k, res_capacity = capacity,
     res_active = True, res_is_buyout = False, res_attributes = [], res_housekeeping = None,
     res_housekeeping_at = None, res_housekeeping_by = None\<rparr>"

definition demo_db :: db where
  "demo_db = empty_db\<lparr>
     properties := [\<lparr>prop_id = 1, prop_active = True\<rparr>],
     categories := [\<lparr>cat_id = 2, cat_property = 1, cat_kind = Kind_Place, cat_counts_as_stay = True, cat_active = True\<rparr>,
                    \<lparr>cat_id = 3, cat_property = 1, cat_kind = Kind_Asset, cat_counts_as_stay = False, cat_active = True\<rparr>],
     resources := [demo_resource 4 2 1, demo_resource 5 3 4],
     reservations := [demo_reservation 6 R_Confirmed, demo_reservation 7 R_Draft],
     next_id := 20\<rparr>"

definition demo_ctx :: ctx where
  "demo_ctx = \<lparr>clock = 1000, auth_id = Some 1, request_member = None, local_day = \<lambda>_ t. t div 86400, hold_ttl_minutes = 30\<rparr>"

lemmas demo_defs = demo_db_def demo_ctx_def demo_reservation_def demo_allocation_def
  demo_resource_def empty_db_def

end
