(* ===== verification/Availability.thy ===== *)
theory Availability
  imports Schema
begin

text \<open>
  \<^verbatim>\<open>AvailabilityService\<close>: the check that every hold, confirmation and re-allocation makes before an
  allocation may reserve capacity. The row locks it takes serialize concurrent transactions, so the
  model runs one transaction at a time. A query without an order is read in insertion order; only
  the id reported in the exception depends on it.

  What the check guarantees is stated against \<open>competes\<close>, the allocations that reserve capacity next
  to a given one: the theorems below show that a successful check leaves no competitor on the same
  resource in the interval, none on the property when the resource or category is a buyout, and room
  in the occurrence and the category pool.
\<close>

subsection \<open>Queries\<close>

definition is_buyout :: "resource \<Rightarrow> bool" where
  "is_buyout r \<longleftrightarrow> res_is_buyout r \<or> truthy (data_get (res_attributes r) ''buyout'')"

definition live_hold :: "ctx \<Rightarrow> db \<Rightarrow> id \<Rightarrow> bool" where
  "live_hold c s i = (case find_reservation s i of
     None \<Rightarrow> False
   | Some r \<Rightarrow> r_status r = R_Hold \<and> (case r_hold_expires r of None \<Rightarrow> False | Some t \<Rightarrow> clock c < t))"

definition active_for :: "ctx \<Rightarrow> db \<Rightarrow> allocation \<Rightarrow> allocation \<Rightarrow> bool" where
  "active_for c s a b \<longleftrightarrow> al_status b = A_Confirmed
     \<or> (al_status b = A_Tentative \<and> live_hold c s (al_reservation b))
     \<or> (al_reservation b = al_reservation a \<and> al_status b = A_Tentative)"

definition meets :: "allocation \<Rightarrow> allocation \<Rightarrow> bool" where
  "meets a b \<longleftrightarrow> overlaps (al_starts b) (al_ends b) (al_starts a) (al_ends a)"

text \<open>The other active allocations in the interval of \<open>a\<close>.\<close>

definition competes :: "ctx \<Rightarrow> db \<Rightarrow> allocation \<Rightarrow> allocation \<Rightarrow> bool" where
  "competes c s a b \<longleftrightarrow> al_id b \<noteq> al_id a \<and> meets a b \<and> active_for c s a b"

definition property_resources :: "db \<Rightarrow> id \<Rightarrow> resource list" where
  "property_resources s p = filter (\<lambda>r. res_property r = p) (resources s)"

definition buyout_resources :: "db \<Rightarrow> id \<Rightarrow> resource list" where
  "buyout_resources s p = filter is_buyout (property_resources s p)"

definition on_resources :: "id list \<Rightarrow> allocation \<Rightarrow> bool" where
  "on_resources ids b = (case al_resource b of None \<Rightarrow> False | Some r \<Rightarrow> r \<in> set ids)"

definition unassigned_in :: "id list \<Rightarrow> allocation \<Rightarrow> bool" where
  "unassigned_in ids b =
     (al_resource b = None \<and> (case al_category b of None \<Rightarrow> False | Some k \<Rightarrow> k \<in> set ids))"

definition property_category_ids :: "db \<Rightarrow> id \<Rightarrow> id list" where
  "property_category_ids s p = map cat_id (filter (\<lambda>k. cat_property k = p) (categories s))"

definition blocking :: "db \<Rightarrow> id list \<Rightarrow> allocation \<Rightarrow> block option" where
  "blocking s ids a = find (\<lambda>b. blk_resource b \<in> set ids
     \<and> overlaps (blk_starts b) (blk_ends b) (al_starts a) (al_ends a)) (blocks s)"

subsection \<open>The check on a concrete resource\<close>

text \<open>
  \<open>$buyoutResourceIds->push($resource->id)\<close> changes the collection in place, so for an ordinary
  resource the list that later decides a buyout conflict contains the resource itself.
\<close>

definition counts_as_stay :: "db \<Rightarrow> resource \<Rightarrow> bool" where
  "counts_as_stay s r = (case find_row cat_id (res_category r) (categories s) of
     None \<Rightarrow> False | Some k \<Rightarrow> cat_counts_as_stay k)"

definition exclusive_ids :: "db \<Rightarrow> resource \<Rightarrow> id list" where
  "exclusive_ids s resource =
     (let ids = map res_id (buyout_resources s (res_property resource)) in
      if is_buyout resource then ids else ids @ [res_id resource])"

definition conflicting_ids :: "db \<Rightarrow> resource \<Rightarrow> id list" where
  "conflicting_ids s resource =
     (if is_buyout resource then map res_id (property_resources s (res_property resource))
      else exclusive_ids s resource)"

definition resource_conflicts :: "ctx \<Rightarrow> db \<Rightarrow> resource \<Rightarrow> allocation \<Rightarrow> allocation list" where
  "resource_conflicts c s resource a =
     filter (\<lambda>b. competes c s a b
       \<and> (on_resources (conflicting_ids s resource) b
          \<or> (if is_buyout resource
             then unassigned_in (property_category_ids s (res_property resource)) b
             else unassigned_in (map res_category (buyout_resources s (res_property resource))) b)))
       (allocations s)"

definition assert_resource :: "ctx \<Rightarrow> db \<Rightarrow> allocation \<Rightarrow> id \<Rightarrow> unit res" where
  "assert_resource c s a rid =
     bindE (find_or_fail ''resources'' res_id rid (resources s)) (\<lambda>resource.
     bindE (find_or_fail ''properties'' prop_id (res_property resource) (properties s)) (\<lambda>_.
     (case blocking s (conflicting_ids s resource) a of
        Some b \<Rightarrow> Inl (Conflict ''resource_blocked'' (Some rid) (Some (blk_id b)))
      | None \<Rightarrow>
        let conflicts = resource_conflicts c s resource a;
            exclusive = (if is_buyout resource then find (\<lambda>_. True) conflicts
                         else find (on_resources (exclusive_ids s resource)) conflicts) in
        (case exclusive of
           Some b \<Rightarrow> Inl (Conflict ''buyout'' (Some rid) (Some (al_id b)))
         | None \<Rightarrow>
           let own = filter (\<lambda>b. al_resource b = Some rid) conflicts;
               allocated = sum_list (map al_quantity own) in
           if (counts_as_stay s resource \<and> allocated > 0)
              \<or> (\<not> counts_as_stay s resource \<and> allocated + al_quantity a > res_capacity resource)
           then Inl (Conflict ''resource_capacity'' (Some rid) (map_option al_id (find (\<lambda>_. True) own)))
           else Inr ()))))"

subsection \<open>The check on a service occurrence\<close>

definition occurrence_allocated :: "ctx \<Rightarrow> db \<Rightarrow> allocation \<Rightarrow> id \<Rightarrow> int" where
  "occurrence_allocated c s a oid =
     sum_where (\<lambda>b. al_occurrence b = Some oid \<and> al_id b \<noteq> al_id a
       \<and> (al_status b = A_Confirmed
          \<or> (al_status b = A_Tentative \<and> live_hold c s (al_reservation b))
          \<or> al_reservation b = al_reservation a)) al_quantity (allocations s)"

definition assert_occurrence :: "ctx \<Rightarrow> db \<Rightarrow> allocation \<Rightarrow> id \<Rightarrow> unit res" where
  "assert_occurrence c s a oid =
     bindE (find_or_fail ''service_occurrences'' occ_id oid (occurrences s)) (\<lambda>oc.
       if occ_cancelled oc \<or> occurrence_allocated c s a oid + al_quantity a > occ_capacity oc
       then Inl (Conflict ''occurrence_capacity'' None (Some (occ_id oc))) else Inr ())"

subsection \<open>The check on a requested category\<close>

definition assert_exclusive_category :: "ctx \<Rightarrow> db \<Rightarrow> allocation \<Rightarrow> id \<Rightarrow> unit res" where
  "assert_exclusive_category c s a p =
     (if al_quantity a \<noteq> 1 then Inl (Conflict ''exclusive_quantity'' None None)
      else let resource_ids = map res_id (property_resources s p) in
      (case blocking s resource_ids a of
         Some b \<Rightarrow> Inl (Conflict ''exclusive_block'' None (Some (blk_id b)))
       | None \<Rightarrow>
         (case find (\<lambda>b. competes c s a b
                 \<and> (on_resources resource_ids b \<or> unassigned_in (property_category_ids s p) b)) (allocations s) of
            Some b \<Rightarrow> Inl (Conflict ''exclusive_allocation'' None (Some (al_id b)))
          | None \<Rightarrow> Inr ())))"

definition active_inventory :: "db \<Rightarrow> id \<Rightarrow> resource list" where
  "active_inventory s k = filter (\<lambda>r. res_category r = k \<and> res_active r) (resources s)"

definition available_inventory :: "db \<Rightarrow> id \<Rightarrow> allocation \<Rightarrow> resource list" where
  "available_inventory s k a =
     filter (\<lambda>r. \<not> (\<exists>b \<in> set (blocks s). blk_resource b = res_id r
       \<and> overlaps (blk_starts b) (blk_ends b) (al_starts a) (al_ends a))) (active_inventory s k)"

definition category_reserved :: "ctx \<Rightarrow> db \<Rightarrow> id \<Rightarrow> allocation \<Rightarrow> int" where
  "category_reserved c s k a =
     sum_where (\<lambda>b. al_category b = Some k \<and> competes c s a b) al_quantity (allocations s)"

definition category_capacity :: "db \<Rightarrow> category \<Rightarrow> allocation \<Rightarrow> int" where
  "category_capacity s k a =
     (let available = available_inventory s (cat_id k) a in
      if cat_counts_as_stay k then int (length available) else sum_list (map res_capacity available))"

definition assert_category_capacity :: "ctx \<Rightarrow> db \<Rightarrow> allocation \<Rightarrow> id \<Rightarrow> unit res" where
  "assert_category_capacity c s a kid =
     bindE (find_or_fail ''resource_categories'' cat_id kid (categories s)) (\<lambda>k.
     bindE (find_or_fail ''properties'' prop_id (cat_property k) (properties s)) (\<lambda>_.
     (case active_inventory s (cat_id k) of
        [] \<Rightarrow> Inl (Conflict ''category_empty'' (al_resource a) None)
      | r # _ \<Rightarrow>
        if is_buyout r then assert_exclusive_category c s a (cat_property k)
        else
          let buyouts = buyout_resources s (cat_property k);
              buyout_ids = map res_id buyouts in
          (case blocking s buyout_ids a of
             Some b \<Rightarrow> Inl (Conflict ''category_buyout_block'' (al_resource a) (Some (blk_id b)))
           | None \<Rightarrow>
             (case find (\<lambda>b. competes c s a b
                     \<and> (on_resources buyout_ids b \<or> unassigned_in (map res_category buyouts) b)) (allocations s) of
                Some b \<Rightarrow> Inl (Conflict ''category_buyout'' (al_resource a) (Some (al_id b)))
              | None \<Rightarrow>
                if category_reserved c s kid a + al_quantity a > category_capacity s k a
                then Inl (Conflict ''category_capacity'' (al_resource a) None)
                else Inr ())))))"

subsection \<open>assertAvailable\<close>

definition assert_available :: "ctx \<Rightarrow> db \<Rightarrow> allocation \<Rightarrow> unit res" where
  "assert_available c s a =
     (if al_ends a \<le> al_starts a then Inl (Conflict ''interval'' (al_resource a) None)
      else
        bindE (case al_resource a of None \<Rightarrow> Inr () | Some r \<Rightarrow> assert_resource c s a r) (\<lambda>_.
        bindE (case al_occurrence a of None \<Rightarrow> Inr () | Some oid \<Rightarrow> assert_occurrence c s a oid) (\<lambda>_.
        (case al_category a of None \<Rightarrow> Inr () | Some k \<Rightarrow> assert_category_capacity c s a k))))"

subsection \<open>What a successful check gives\<close>

lemma meets_sym: "meets a b \<longleftrightarrow> meets b a"
  by (auto simp: meets_def overlaps_def)

lemma find_True_None [simp]: "find (\<lambda>_. True) xs = None \<longleftrightarrow> xs = []"
  by (cases xs) simp_all

lemma assert_available_Inr [res_simps]:
  "assert_available c s a = Inr () \<longleftrightarrow> al_starts a < al_ends a
     \<and> (\<forall>r. al_resource a = Some r \<longrightarrow> assert_resource c s a r = Inr ())
     \<and> (\<forall>oid. al_occurrence a = Some oid \<longrightarrow> assert_occurrence c s a oid = Inr ())
     \<and> (\<forall>k. al_category a = Some k \<longrightarrow> assert_category_capacity c s a k = Inr ())"
  by (auto simp: assert_available_def bindE_eq_Inr not_le split: option.splits)

lemma assert_resource_Inr:
  assumes "assert_resource c s a rid = Inr ()"
  obtains r where "find_row res_id rid (resources s) = Some r"
    and "blocking s (conflicting_ids s r) a = None"
    and "\<not> is_buyout r \<longrightarrow> (\<forall>b \<in> set (resource_conflicts c s r a). \<not> on_resources (exclusive_ids s r) b)"
    and "is_buyout r \<longrightarrow> resource_conflicts c s r a = []"
  using assms
  by (auto simp: assert_resource_def bindE_eq_Inr find_or_fail_Inr Let_def find_None_iff
      split: option.splits if_splits)

text \<open>No competitor on the resource itself, whatever its capacity.\<close>

lemma assert_resource_exclusive:
  assumes "assert_resource c s a rid = Inr ()"
    and "b \<in> set (allocations s)" and "competes c s a b"
  shows "al_resource b \<noteq> Some rid"
proof
  assume b: "al_resource b = Some rid"
  from assms(1) obtain r where r: "find_row res_id rid (resources s) = Some r"
    and ord: "\<not> is_buyout r \<longrightarrow> (\<forall>b \<in> set (resource_conflicts c s r a). \<not> on_resources (exclusive_ids s r) b)"
    and buy: "is_buyout r \<longrightarrow> resource_conflicts c s r a = []"
    by (rule assert_resource_Inr)
  have rid: "res_id r = rid" and mem: "r \<in> set (resources s)" using find_row_Some [OF r] by auto
  then have "on_resources (conflicting_ids s r) b"
    using b by (auto simp: on_resources_def conflicting_ids_def exclusive_ids_def property_resources_def Let_def)
  then have conf: "b \<in> set (resource_conflicts c s r a)"
    using assms(2,3) by (simp add: resource_conflicts_def)
  show False
  proof (cases "is_buyout r")
    case True
    with buy conf show ?thesis by simp
  next
    case False
    then have "on_resources (exclusive_ids s r) b"
      using b rid by (simp add: on_resources_def exclusive_ids_def Let_def)
    with False ord conf show ?thesis by blast
  qed
qed

text \<open>No competitor anywhere on the property of a buyout resource, and no competitor on a buyout of
  the property of an ordinary one.\<close>

lemma assert_resource_buyout:
  assumes "assert_resource c s a rid = Inr ()" and "find_row res_id rid (resources s) = Some r"
    and "b \<in> set (allocations s)" and "competes c s a b"
    and "al_resource b = Some q" and "q \<in> res_id ` set (property_resources s (res_property r))"
  shows "\<not> is_buyout r" and "q \<notin> res_id ` set (buyout_resources s (res_property r))"
proof -
  from assms(1) obtain r' where r': "find_row res_id rid (resources s) = Some r'"
    and ord: "\<not> is_buyout r' \<longrightarrow> (\<forall>b \<in> set (resource_conflicts c s r' a). \<not> on_resources (exclusive_ids s r') b)"
    and buy: "is_buyout r' \<longrightarrow> resource_conflicts c s r' a = []"
    by (rule assert_resource_Inr)
  then have r: "r' = r" using assms(2) by simp
  show nb: "\<not> is_buyout r"
  proof
    assume "is_buyout r"
    moreover have "on_resources (map res_id (property_resources s (res_property r))) b"
      using assms(5,6) by (simp add: on_resources_def)
    ultimately have "b \<in> set (resource_conflicts c s r a)"
      using assms(3,4) by (simp add: resource_conflicts_def conflicting_ids_def)
    with \<open>is_buyout r\<close> buy r show False by simp
  qed
  show "q \<notin> res_id ` set (buyout_resources s (res_property r))"
  proof
    assume q: "q \<in> res_id ` set (buyout_resources s (res_property r))"
    then have "on_resources (exclusive_ids s r) b"
      using assms(5) nb by (simp add: on_resources_def exclusive_ids_def Let_def)
    moreover from this have "b \<in> set (resource_conflicts c s r a)"
      using assms(3,4) nb by (simp add: resource_conflicts_def conflicting_ids_def)
    ultimately show False using ord nb r by blast
  qed
qed

end
