(* ===== verification/Capacity.thy ===== *)
theory Capacity
  imports Availability
begin

text \<open>
  What the availability check of \<^theory_text>\<open>Availability\<close> promises to its callers, and the one promise of
  the documentation it does not keep: that a pooled resource may be shared up to its capacity.
\<close>

subsection \<open>The parts of a successful check\<close>

lemma assert_occurrence_Inr:
  "assert_occurrence c s a oid = Inr () \<longleftrightarrow> (\<exists>oc. find_row occ_id oid (occurrences s) = Some oc \<and> \<not> occ_cancelled oc
     \<and> occurrence_allocated c s a oid + al_quantity a \<le> occ_capacity oc)"
  by (auto simp: assert_occurrence_def bindE_eq_Inr find_or_fail_Inr)

text \<open>A category is a buyout when its first active resource is one.\<close>

definition buyout_category :: "db \<Rightarrow> id \<Rightarrow> bool" where
  "buyout_category s k = (case active_inventory s k of [] \<Rightarrow> False | r # _ \<Rightarrow> is_buyout r)"

lemma assert_category_Inr:
  assumes "assert_category_capacity c s a kid = Inr ()"
  shows "\<exists>k. find_row cat_id kid (categories s) = Some k
    \<and> (if buyout_category s kid then assert_exclusive_category c s a (cat_property k) = Inr ()
       else category_reserved c s kid a + al_quantity a \<le> category_capacity s k a)"
proof -
  from assms obtain k where k: "find_row cat_id kid (categories s) = Some k"
    by (auto simp: assert_category_capacity_def bindE_eq_Inr find_or_fail_Inr)
  then have id: "cat_id k = kid" by (auto dest: find_row_Some)
  from assms k have "if buyout_category s kid then assert_exclusive_category c s a (cat_property k) = Inr ()
       else category_reserved c s kid a + al_quantity a \<le> category_capacity s k a"
    by (auto simp: assert_category_capacity_def bindE_eq_Inr find_or_fail_Inr buyout_category_def id Let_def not_less
        split: list.splits option.splits if_splits)
  with k show ?thesis by blast
qed

text \<open>The check of an ordinary category, in full.\<close>

lemma assert_ordinary_category:
  assumes "find_row cat_id kid (categories s) = Some k" and "cat_property k \<in> prop_id ` set (properties s)"
    and "active_inventory s kid \<noteq> []" and "\<not> buyout_category s kid"
  shows "assert_category_capacity c s a kid = Inr () \<longleftrightarrow>
    blocking s (map res_id (buyout_resources s (cat_property k))) a = None
    \<and> (\<forall>b \<in> set (allocations s). on_resources (map res_id (buyout_resources s (cat_property k))) b
          \<or> unassigned_in (map res_category (buyout_resources s (cat_property k))) b \<longrightarrow> \<not> competes c s a b)
    \<and> category_reserved c s kid a + al_quantity a \<le> category_capacity s k a"
proof -
  have id: "cat_id k = kid" using assms(1) by (auto dest: find_row_Some)
  obtain p where p: "find_row prop_id (cat_property k) (properties s) = Some p"
    using assms(2) by (cases "find_row prop_id (cat_property k) (properties s)") (auto simp: find_row_None_iff)
  obtain r rs where inv: "active_inventory s kid = r # rs" using assms(3) by (cases "active_inventory s kid") auto
  then have "\<not> is_buyout r" using assms(4) by (simp add: buyout_category_def)
  then show ?thesis
    using assms(1) p inv id
    by (auto simp: assert_category_capacity_def find_or_fail_def find_None_iff not_less Let_def dest!: find_SomeD split: option.splits)
qed

lemma blocking_None:
  "blocking s ids a = None \<longleftrightarrow> (\<forall>b \<in> set (blocks s). blk_resource b \<in> set ids \<longrightarrow>
     \<not> overlaps (blk_starts b) (blk_ends b) (al_starts a) (al_ends a))"
  by (auto simp: blocking_def find_None_iff)

lemma resource_unblocked:
  assumes "assert_resource c s a rid = Inr ()" and "b \<in> set (blocks s)" and "blk_resource b = rid"
  shows "\<not> overlaps (blk_starts b) (blk_ends b) (al_starts a) (al_ends a)"
proof -
  obtain r where r: "find_row res_id rid (resources s) = Some r" and none: "blocking s (conflicting_ids s r) a = None"
    using assms(1) by (rule assert_resource_Inr)
  have "rid \<in> set (conflicting_ids s r)"
    using find_row_Some [OF r] by (auto simp: conflicting_ids_def exclusive_ids_def property_resources_def Let_def)
  with none assms(2,3) show ?thesis by (auto simp: blocking_None)
qed

subsection \<open>Properties\<close>

text \<open>C31: What a successful availability check guarantees. The interval is not empty; the assigned
  resource is not blocked in it, carries no competing allocation, and if it is a buyout neither does
  any other resource of its property; the service occurrence is not cancelled and has room for the
  quantity; and the requested category's pool has room for it, unless the category is a buyout.\<close>

theorem available_guarantees:
  assumes "assert_available c s a = Inr ()"
  shows "al_starts a < al_ends a
    \<and> (\<forall>rid b. al_resource a = Some rid \<and> b \<in> set (blocks s) \<and> blk_resource b = rid \<longrightarrow>
         \<not> overlaps (blk_starts b) (blk_ends b) (al_starts a) (al_ends a))
    \<and> (\<forall>rid b. al_resource a = Some rid \<and> b \<in> set (allocations s) \<and> competes c s a b \<longrightarrow> al_resource b \<noteq> Some rid)
    \<and> (\<forall>rid r q b. al_resource a = Some rid \<and> find_row res_id rid (resources s) = Some r \<and> is_buyout r
         \<and> b \<in> set (allocations s) \<and> competes c s a b \<and> al_resource b = Some q \<longrightarrow>
         q \<notin> res_id ` set (property_resources s (res_property r)))
    \<and> (\<forall>oid. al_occurrence a = Some oid \<longrightarrow> (\<exists>oc. find_row occ_id oid (occurrences s) = Some oc
         \<and> \<not> occ_cancelled oc \<and> occurrence_allocated c s a oid + al_quantity a \<le> occ_capacity oc))
    \<and> (\<forall>kid. al_category a = Some kid \<and> \<not> buyout_category s kid \<longrightarrow>
         (\<exists>k. find_row cat_id kid (categories s) = Some k
            \<and> category_reserved c s kid a + al_quantity a \<le> category_capacity s k a))"
proof -
  note parts = assms [unfolded assert_available_Inr]
  have "\<exists>k. find_row cat_id kid (categories s) = Some k
      \<and> category_reserved c s kid a + al_quantity a \<le> category_capacity s k a"
    if "al_category a = Some kid" "\<not> buyout_category s kid" for kid
    using parts that assert_category_Inr [of c s a kid] by auto
  then show ?thesis
    using parts resource_unblocked [of c s a] assert_resource_exclusive [of c s a] assert_resource_buyout(1) [of c s a]
    by (simp add: assert_occurrence_Inr) blast
qed

text \<open>A busy property: the cabin is under maintenance until the arrival, the boat is out with one of the two places
  of a hike, and the whole house can be bought out; a lodge elsewhere is taken later on.\<close>

definition maintenance :: block where
  "maintenance = \<lparr>blk_id = 31, blk_resource = 4, blk_starts = 0, blk_ends = 864000\<rparr>"

definition hike :: occurrence where
  "hike = \<lparr>occ_id = 30, occ_program = 29, occ_property = 1, occ_starts = 864000, occ_ends = 1036800, occ_capacity = 2,
     occ_cancelled = False\<rparr>"

definition guided :: allocation where
  "guided = (demo_allocation 9 7 (Some 5) A_Confirmed)\<lparr>al_occurrence := Some 30\<rparr>"

definition elsewhere :: allocation where
  "elsewhere = (demo_allocation 11 7 (Some 40) A_Confirmed)\<lparr>al_starts := 2000000, al_ends := 2086400\<rparr>"

definition busy_db :: db where
  "busy_db = demo_db\<lparr>
     resources := [demo_resource 4 2 1, demo_resource 5 3 4, (demo_resource 32 33 1)\<lparr>res_is_buyout := True\<rparr>,
       (demo_resource 40 41 1)\<lparr>res_property := 2\<rparr>],
     blocks := [maintenance], occurrences := [hike], allocations := [guided, elsewhere]\<rparr>"

definition busy_stay :: allocation where
  "busy_stay = (demo_allocation 8 6 (Some 4) A_Tentative)\<lparr>al_category := Some 2, al_occurrence := Some 30\<rparr>"

definition house_stay :: allocation where
  "house_stay = (demo_allocation 10 6 (Some 32) A_Tentative)\<lparr>al_starts := 2000000, al_ends := 2086400\<rparr>"

theorem available_guarantees_witness:
  "assert_available demo_ctx busy_db busy_stay = Inr () \<and> al_starts busy_stay < al_ends busy_stay
   \<and> \<not> overlaps (blk_starts maintenance) (blk_ends maintenance) (al_starts busy_stay) (al_ends busy_stay)
   \<and> competes demo_ctx busy_db busy_stay guided \<and> al_resource guided \<noteq> Some 4
   \<and> (\<exists>oc. find_row occ_id 30 (occurrences busy_db) = Some oc \<and> \<not> occ_cancelled oc
        \<and> occurrence_allocated demo_ctx busy_db busy_stay 30 + 1 \<le> occ_capacity oc)
   \<and> (\<exists>k. find_row cat_id 2 (categories busy_db) = Some k
        \<and> category_reserved demo_ctx busy_db 2 busy_stay + 1 \<le> category_capacity busy_db k busy_stay)
   \<and> assert_available demo_ctx busy_db house_stay = Inr () \<and> competes demo_ctx busy_db house_stay elsewhere
   \<and> 40 \<notin> res_id ` set (property_resources busy_db 1)"
proof -
  have runs: "assert_available demo_ctx busy_db busy_stay = Inr ()" "assert_available demo_ctx busy_db house_stay = Inr ()"
    by code_simp+
  have facts: "competes demo_ctx busy_db busy_stay guided" "competes demo_ctx busy_db house_stay elsewhere"
    "\<not> buyout_category busy_db 2"
    "find_row res_id 32 (resources busy_db) = Some ((demo_resource 32 33 1)\<lparr>res_is_buyout := True\<rparr>)"
    "is_buyout ((demo_resource 32 33 1)\<lparr>res_is_buyout := True\<rparr>)"
    by code_simp+
  have sel: "maintenance \<in> set (blocks busy_db)" "guided \<in> set (allocations busy_db)" "elsewhere \<in> set (allocations busy_db)"
    "blk_resource maintenance = 4" "al_resource busy_stay = Some 4" "al_category busy_stay = Some 2" "al_occurrence busy_stay = Some 30"
    "al_quantity busy_stay = 1" "al_resource house_stay = Some 32" "al_resource elsewhere = Some 40"
    "res_property ((demo_resource 32 33 1)\<lparr>res_is_buyout := True\<rparr>) = 1"
    by (simp_all add: busy_db_def busy_stay_def house_stay_def maintenance_def elsewhere_def demo_defs)
  note stay = available_guarantees [OF runs(1)] and house = available_guarantees [OF runs(2)]
  have free: "al_starts busy_stay < al_ends busy_stay"
    "\<not> overlaps (blk_starts maintenance) (blk_ends maintenance) (al_starts busy_stay) (al_ends busy_stay)"
    "al_resource guided \<noteq> Some 4"
    using stay sel facts(1) by blast+
  have room: "\<exists>oc. find_row occ_id 30 (occurrences busy_db) = Some oc \<and> \<not> occ_cancelled oc
        \<and> occurrence_allocated demo_ctx busy_db busy_stay 30 + 1 \<le> occ_capacity oc"
    "\<exists>k. find_row cat_id 2 (categories busy_db) = Some k
        \<and> category_reserved demo_ctx busy_db 2 busy_stay + 1 \<le> category_capacity busy_db k busy_stay"
    using stay sel facts(3) by auto
  have "40 \<notin> res_id ` set (property_resources busy_db 1)"
    using house sel facts(2,4,5) by metis
  with runs facts free room show ?thesis by blast
qed

text \<open>A pooled resource is never shared. Whatever the capacity of an ordinary resource that is not
  blocked, one active allocation on it that overlaps the requested interval makes the check fail, and
  the exception names a property buyout although there is none.\<close>

theorem pool_never_shared:
  assumes "find_row res_id rid (resources s) = Some r" and "\<not> is_buyout r"
    and "find_row prop_id (res_property r) (properties s) = Some p"
    and "blocking s (conflicting_ids s r) a = None"
    and "b \<in> set (allocations s)" and "competes c s a b" and "al_resource b = Some rid"
  shows "\<exists>i. assert_resource c s a rid = Inl (Conflict ''buyout'' (Some rid) (Some i))"
proof -
  have on: "on_resources (exclusive_ids s r) b"
    using assms(2,7) find_row_Some [OF assms(1)] by (simp add: on_resources_def exclusive_ids_def Let_def)
  then have "b \<in> set (resource_conflicts c s r a)"
    using assms(2,5,6) by (simp add: resource_conflicts_def conflicting_ids_def)
  with on obtain b' where "find (on_resources (exclusive_ids s r)) (resource_conflicts c s r a) = Some b'"
    by (cases "find (on_resources (exclusive_ids s r)) (resource_conflicts c s r a)") (auto simp: find_None_iff)
  with assms(1-4) show ?thesis
    by (simp add: assert_resource_def find_or_fail_def Let_def)
qed

text \<open>One seat of the boat for four is taken; the second request for one seat fails.\<close>

theorem pool_never_shared_witness:
  "\<exists>i. assert_resource demo_ctx (demo_db\<lparr>allocations := [demo_allocation 8 6 (Some 5) A_Confirmed]\<rparr>)
     (demo_allocation 9 7 (Some 5) A_Tentative) 5 = Inl (Conflict ''buyout'' (Some 5) (Some i))
   \<and> res_capacity (demo_resource 5 3 4) = 4"
proof -
  let ?s = "demo_db\<lparr>allocations := [demo_allocation 8 6 (Some 5) A_Confirmed]\<rparr>"
  let ?a = "demo_allocation 9 7 (Some 5) A_Tentative"
  have "find_row res_id 5 (resources ?s) = Some (demo_resource 5 3 4)" "\<not> is_buyout (demo_resource 5 3 4)"
    "find_row prop_id (res_property (demo_resource 5 3 4)) (properties ?s) = Some \<lparr>prop_id = 1, prop_active = True\<rparr>"
    "blocking ?s (conflicting_ids ?s (demo_resource 5 3 4)) ?a = None"
    "demo_allocation 8 6 (Some 5) A_Confirmed \<in> set (allocations ?s)"
    "competes demo_ctx ?s ?a (demo_allocation 8 6 (Some 5) A_Confirmed)"
    "al_resource (demo_allocation 8 6 (Some 5) A_Confirmed) = Some 5"
    by (simp_all add: demo_defs find_row_def is_buyout_def data_get_def blocking_def competes_def meets_def
        overlaps_def active_for_def)
  from pool_never_shared [OF this] show ?thesis by (simp add: demo_resource_def)
qed

end
