(* ===== verification/Deposits.thy ===== *)
theory Deposits
  imports Schema
begin

text \<open>
  Payment schedules: \<^verbatim>\<open>DepositService\<close>, \<^verbatim>\<open>ReservationPaymentScheduleService\<close> and the schedule
  that \<^verbatim>\<open>ReservationConfirmationProvisioner\<close> creates on confirmation. A deposit is due, paid,
  waived or refunded; the schedule of a reservation is the set of its due deposits.
\<close>

subsection \<open>DepositService\<close>

definition add_days :: "instant \<Rightarrow> int \<Rightarrow> instant" where
  "add_days t n = t + n * 86400"

definition new_deposit :: "ctx \<Rightarrow> reservation \<Rightarrow> string option \<Rightarrow> money \<Rightarrow> instant \<Rightarrow> db \<Rightarrow> db \<times> deposit" where
  "new_deposit c r schedule amount due s =
     (let d = \<lparr>dep_id = next_id s, dep_reservation = r_id r, dep_payment = None, dep_schedule = schedule,
           dep_status = D_Due, dep_currency = r_currency r, dep_amount = amount, dep_due_at = due,
           dep_paid_at = None, dep_waived_at = None, dep_waived_by = None, dep_waiver_reason = None\<rparr> in
      (s\<lparr>deposits := deposits s @ [d], next_id := Suc (next_id s)\<rparr>, d))"

definition create_deposit :: "ctx \<Rightarrow> reservation \<Rightarrow> money \<Rightarrow> instant \<Rightarrow> db \<Rightarrow> db \<times> deposit" where
  "create_deposit c r amount due s =
     (let (s1, d) = new_deposit c r None amount due s in
      (record_outbox c ''deposit'' (dep_id d) ''deposit.created''
         [(''deposit_id'', J_Id (dep_id d)), (''reservation_id'', J_Id (r_id r)),
          (''amount_minor'', J_Int amount), (''due_at'', J_Int due)] s1, d))"

definition waived :: "ctx \<Rightarrow> string \<Rightarrow> user_id option \<Rightarrow> deposit \<Rightarrow> deposit" where
  "waived c reason actor d = d\<lparr>dep_status := D_Waived, dep_waived_at := Some (clock c),
     dep_waived_by := actor, dep_waiver_reason := Some reason\<rparr>"

definition waive_deposit :: "ctx \<Rightarrow> id \<Rightarrow> string \<Rightarrow> user_id option \<Rightarrow> deposit action" where
  "waive_deposit c i reason actor s =
     bindE (find_or_fail ''deposits'' dep_id i (deposits s)) (\<lambda>locked.
     if dep_status locked = D_Waived then Inr (s, locked)
     else if dep_status locked \<noteq> D_Due then Inl (Commercial ''waive_not_due'')
     else
       let f = waived c (trim reason) actor;
           s1 = s\<lparr>deposits := upd_row dep_id i f (deposits s)\<rparr> in
       Inr (record_outbox c ''deposit'' i ''deposit.waived''
         [(''deposit_id'', J_Id i), (''reservation_id'', J_Id (dep_reservation locked)),
          (''reason'', J_Str (trim reason))] s1, f locked))"

subsection \<open>ReservationPaymentScheduleService\<close>

definition open_deposit :: "id \<Rightarrow> deposit \<Rightarrow> bool" where
  "open_deposit i d \<longleftrightarrow> dep_reservation d = i \<and> dep_status d = D_Due"

definition waive_all :: "ctx \<Rightarrow> id \<Rightarrow> string \<Rightarrow> user_id option \<Rightarrow> db \<Rightarrow> db" where
  "waive_all c i reason actor s =
     s\<lparr>deposits := upd_where (open_deposit i) (waived c reason actor) (deposits s)\<rparr>"

definition waive_open :: "ctx \<Rightarrow> id \<Rightarrow> string \<Rightarrow> user_id option \<Rightarrow> db \<Rightarrow> db \<times> int" where
  "waive_open c i reason actor s =
     (waive_all c i reason actor s, int (length (filter (open_deposit i) (deposits s))))"

definition paid_minor :: "db \<Rightarrow> id \<Rightarrow> money" where
  "paid_minor s i = sum_where (\<lambda>p. py_reservation p = i \<and> py_status p = P_Succeeded) py_amount (payments s)"

definition revision_schedule :: "int \<Rightarrow> string \<Rightarrow> string" where
  "revision_schedule revision kind = ''revision_'' @ decimal (nat revision) @ ''_'' @ kind"

definition scheduled_deposit ::
  "ctx \<Rightarrow> reservation \<Rightarrow> string \<Rightarrow> string \<Rightarrow> money \<Rightarrow> instant \<Rightarrow> db \<Rightarrow> db" where
  "scheduled_deposit c r reason kind amount due s =
     (if amount \<le> 0 then s
      else
        let (s1, d) = new_deposit c r (Some (revision_schedule (r_revision r) kind)) amount due s in
        record_outbox c ''deposit'' (dep_id d) ''deposit.created''
          [(''deposit_id'', J_Id (dep_id d)), (''reservation_id'', J_Id (r_id r)),
           (''schedule_type'', j_opt J_Str (dep_schedule d)), (''amount_minor'', J_Int amount),
           (''due_at'', J_Int due), (''reason'', J_Str reason)] s1)"

record schedule_result =
  sr_paid :: money
  sr_due :: money
  sr_refund_requirement :: money

definition rebuild_schedule :: "ctx \<Rightarrow> reservation \<Rightarrow> string \<Rightarrow> user_id option \<Rightarrow> schedule_result action" where
  "rebuild_schedule c r reason actor s =
     (let paid = paid_minor s (r_id r);
          remaining = max 0 (r_total r - paid);
          result = \<lparr>sr_paid = paid, sr_due = remaining, sr_refund_requirement = max 0 (paid - r_total r)\<rparr>;
          s1 = waive_all c (r_id r) reason actor s in
      if remaining > 0 then
        let policy = or_default (r_deposit_policy r) empty_policy in
        bindE (required_deposit (r_total r) policy) (\<lambda>required.
        let deposit_outstanding = min remaining (max 0 (required - paid));
            balance_outstanding = remaining - deposit_outstanding;
            s2 = scheduled_deposit c r reason ''deposit'' deposit_outstanding
                   (add_days (clock c) (or_default (dp_deposit_offset_days policy) 0)) s1;
            s3 = scheduled_deposit c r reason ''balance'' balance_outstanding
                   (max (clock c) (add_days (r_starts r) (- or_default (dp_balance_offset_days policy) 30))) s2 in
        Inr (s3, result))
      else Inr (s1, result))"

subsection \<open>The schedule of a confirmation\<close>

definition provision_deposit :: "ctx \<Rightarrow> reservation \<Rightarrow> string \<Rightarrow> money \<Rightarrow> instant \<Rightarrow> db \<Rightarrow> db" where
  "provision_deposit c r schedule amount due s =
     (case find (\<lambda>d. dep_reservation d = r_id r \<and> dep_schedule d = Some schedule) (deposits s) of
        Some _ \<Rightarrow> s
      | None \<Rightarrow>
        let (s1, d) = new_deposit c r (Some schedule) amount due s in
        record_outbox c ''deposit'' (dep_id d) ''deposit.created''
          [(''deposit_id'', J_Id (dep_id d)), (''reservation_id'', J_Id (r_id r)),
           (''schedule_type'', J_Str schedule), (''amount_minor'', J_Int amount),
           (''due_at'', J_Int due)] s1)"

definition provision_schedule :: "ctx \<Rightarrow> reservation \<Rightarrow> db \<Rightarrow> db res" where
  "provision_schedule c r s =
     (let policy = or_default (r_deposit_policy r) empty_policy;
          first = (if r_deposit_policy r = None then ''deposit_50'' else ''deposit'') in
      bindE (required_deposit (r_total r) policy) (\<lambda>deposit_amount.
      let balance_amount = r_total r - deposit_amount;
          raw_due = add_days (r_starts r) (- or_default (dp_balance_offset_days policy) 30);
          balance_due = (if raw_due < clock c then clock c else raw_due);
          s1 = provision_deposit c r first deposit_amount
                 (add_days (clock c) (or_default (dp_deposit_offset_days policy) 0)) s in
      Inr (provision_deposit c r ''balance'' balance_amount balance_due s1)))"

subsection \<open>The open schedule\<close>

definition open_due :: "id \<Rightarrow> db \<Rightarrow> money" where
  "open_due i s = sum_where (open_deposit i) dep_amount (deposits s)"

lemma new_deposit_eq:
  "new_deposit c r sch a due s = (s1, d) \<Longrightarrow>
     deposits s1 = deposits s @ [d] \<and> dep_id d = next_id s \<and> dep_reservation d = r_id r
     \<and> dep_status d = D_Due \<and> dep_amount d = a \<and> dep_schedule d = sch
     \<and> s1 = s\<lparr>deposits := deposits s @ [d], next_id := Suc (next_id s)\<rparr>"
  by (auto simp: new_deposit_def Let_def)

lemma open_due_scheduled:
  "open_due i (scheduled_deposit c r reason kind a due s) =
     open_due i s + (if i = r_id r then max 0 a else 0)"
  by (auto simp: scheduled_deposit_def open_due_def record_outbox_frame open_deposit_def
      dest!: new_deposit_eq split: prod.splits)

lemma open_deposit_waived [simp]: "\<not> open_deposit i (waived c reason actor d)"
  by (simp add: open_deposit_def waived_def)

lemma open_deposit_unique: "open_deposit i d \<Longrightarrow> open_deposit j d \<Longrightarrow> i = j"
  by (simp add: open_deposit_def)

lemma open_due_waive_all: "open_due i (waive_all c j reason actor s) = (if i = j then 0 else open_due i s)"
proof -
  have "sum_where (open_deposit i) dep_amount (upd_where (open_deposit j) (waived c reason actor) ds)
      = (if i = j then 0 else sum_where (open_deposit i) dep_amount ds)" for ds
    by (induction ds) (auto simp: upd_where_def dest: open_deposit_unique)
  then show ?thesis by (simp add: waive_all_def open_due_def)
qed

text \<open>Deposits that are not due are never touched by scheduling.\<close>

definition settled_deposits :: "db \<Rightarrow> deposit list" where
  "settled_deposits s = filter (\<lambda>d. dep_status d \<in> {D_Paid, D_Refunded}) (deposits s)"

lemma settled_scheduled: "settled_deposits (scheduled_deposit c r reason kind a due s) = settled_deposits s"
  by (auto simp: scheduled_deposit_def settled_deposits_def record_outbox_frame
      dest!: new_deposit_eq split: prod.splits)

lemma settled_waive_all: "settled_deposits (waive_all c i reason actor s) = settled_deposits s"
proof -
  have "filter (\<lambda>d. dep_status d \<in> {D_Paid, D_Refunded}) (upd_where (open_deposit i) (waived c reason actor) ds)
      = filter (\<lambda>d. dep_status d \<in> {D_Paid, D_Refunded}) ds" for ds
    by (induction ds) (auto simp: upd_where_def open_deposit_def waived_def)
  then show ?thesis by (simp add: waive_all_def settled_deposits_def)
qed

lemma rebuild_due:
  assumes "rebuild_schedule c r reason actor s = Inr (t, res)"
  shows "open_due (r_id r) t = max 0 (r_total r - paid_minor s (r_id r))
    \<and> sr_due res = open_due (r_id r) t
    \<and> sr_due res - sr_refund_requirement res = r_total r - sr_paid res
    \<and> settled_deposits t = settled_deposits s
    \<and> (i \<noteq> r_id r \<longrightarrow> open_due i t = open_due i s)"
proof (cases "r_total r - paid_minor s (r_id r) > 0")
  case True
  then show ?thesis
    using assms
    by (auto simp: rebuild_schedule_def Let_def bindE_eq_Inr open_due_scheduled open_due_waive_all
        settled_scheduled settled_waive_all split: if_splits)
next
  case False
  then show ?thesis
    using assms
    by (auto simp: rebuild_schedule_def Let_def open_due_waive_all settled_waive_all split: if_splits)
qed

subsection \<open>Properties\<close>

text \<open>Rebuilding the payment schedule makes it exact: the due deposits of the reservation add up to
  what is not yet paid of its total (nothing when it is overpaid, and then the excess is reported as
  the refund requirement), paid and refunded deposits are untouched, and no other reservation's
  schedule changes. It holds for every deposit policy, whatever its type and percentages.\<close>

theorem rebuild_exact:
  assumes "rebuild_schedule c r reason actor s = Inr (t, res)"
  shows "open_due (r_id r) t = max 0 (r_total r - paid_minor s (r_id r))
    \<and> sr_due res = open_due (r_id r) t
    \<and> sr_due res - sr_refund_requirement res = r_total r - sr_paid res
    \<and> settled_deposits t = settled_deposits s
    \<and> (i \<noteq> r_id r \<longrightarrow> open_due i t = open_due i s)"
  using assms by (rule rebuild_due)

theorem rebuild_exact_witness:
  "\<exists>t res. rebuild_schedule demo_ctx (demo_reservation 6 R_Confirmed) ''amended'' None demo_db = Inr (t, res)
     \<and> length (deposits t) = 2 \<and> open_due 6 t = 100000 \<and> sr_due res = 100000"
proof -
  let ?r = "demo_reservation 6 R_Confirmed"
  have "succeeds_with (\<lambda>(t, res). length (deposits t) = 2)
      (rebuild_schedule demo_ctx ?r ''amended'' None demo_db)"
    by (simp add: rebuild_schedule_def demo_defs paid_minor_def waive_all_def required_deposit_def
        empty_policy_def or_default_def int_or_type_error_def fits_def php_int_max_def
        scheduled_deposit_def new_deposit_def record_outbox_def Let_def upd_where_def)
  then obtain t res where run: "rebuild_schedule demo_ctx ?r ''amended'' None demo_db = Inr (t, res)"
      "length (deposits t) = 2"
    by (auto elim: succeeds_withE)
  have "r_id ?r = 6" "r_total ?r = 100000" "paid_minor demo_db 6 = 0"
    by (simp_all add: demo_defs paid_minor_def)
  with run rebuild_exact [OF run(1)] show ?thesis by auto
qed

text \<open>The schedule created on confirmation splits the total into deposit and balance, and creating
  it again changes nothing (a confirmation that is repeated does not duplicate deposits).\<close>

theorem provision_schedule_once:
  assumes "provision_schedule c r s = Inr t"
  shows "provision_schedule c' r t = Inr t
    \<and> ((\<forall>d \<in> set (deposits s). dep_reservation d \<noteq> r_id r) \<longrightarrow> open_due (r_id r) t = r_total r)"
proof -
  define policy where "policy = or_default (r_deposit_policy r) empty_policy"
  define first where "first = (if r_deposit_policy r = None then ''deposit_50'' else ''deposit'')"
  obtain amount due1 due2 where amount: "required_deposit (r_total r) policy = Inr amount"
    and t: "t = provision_deposit c r ''balance'' (r_total r - amount) due2
                  (provision_deposit c r first amount due1 s)"
    using assms by (auto simp: provision_schedule_def Let_def bindE_eq_Inr policy_def first_def)
  have ne: "first \<noteq> ''balance''" by (simp add: first_def)
  have has: "\<exists>d \<in> set (deposits (provision_deposit c r sch a due u)).
      dep_reservation d = r_id r \<and> dep_schedule d = Some sch" for sch a due u
  proof (cases "find (\<lambda>d. dep_reservation d = r_id r \<and> dep_schedule d = Some sch) (deposits u)")
    case None
    then show ?thesis
      by (auto simp: provision_deposit_def record_outbox_frame dest!: new_deposit_eq split: prod.splits)
  next
    case (Some d)
    then show ?thesis by (auto simp: provision_deposit_def dest: find_SomeD)
  qed
  have grow: "set (deposits u) \<subseteq> set (deposits (provision_deposit c r sch a due u))" for sch a due u
    by (auto simp: provision_deposit_def record_outbox_frame dest!: new_deposit_eq
        split: option.splits prod.splits)
  have idle: "provision_deposit c' r sch a due t = t"
    if "\<exists>d \<in> set (deposits t). dep_reservation d = r_id r \<and> dep_schedule d = Some sch" for sch a due
    using that by (auto simp: provision_deposit_def find_None_iff split: option.splits)
  have both: "\<exists>d \<in> set (deposits t). dep_reservation d = r_id r \<and> dep_schedule d = Some first"
      "\<exists>d \<in> set (deposits t). dep_reservation d = r_id r \<and> dep_schedule d = Some ''balance''"
    using has grow unfolding t by blast+
  have again: "provision_schedule c' r t = Inr t"
    using amount idle [OF both(1)] idle [OF both(2)]
    by (simp add: provision_schedule_def Let_def flip: policy_def first_def)
  have "open_due (r_id r) t = r_total r" if new: "\<forall>d \<in> set (deposits s). dep_reservation d \<noteq> r_id r"
  proof -
    have "open_due (r_id r) s = 0"
      using new by (auto simp: open_due_def open_deposit_def sum_where_def intro!: sum_list_0 filter_False)
    then show ?thesis
      using new ne unfolding t
      by (auto simp: provision_deposit_def open_due_def open_deposit_def record_outbox_frame
          dest!: new_deposit_eq find_SomeD split: option.splits prod.splits)
  qed
  with again show ?thesis by blast
qed

theorem provision_schedule_once_witness:
  "\<exists>t. provision_schedule demo_ctx (demo_reservation 6 R_Confirmed) demo_db = Inr t
     \<and> open_due 6 t = 100000 \<and> length (deposits t) = 2
     \<and> provision_schedule demo_ctx (demo_reservation 6 R_Confirmed) t = Inr t"
proof -
  let ?r = "demo_reservation 6 R_Confirmed"
  have "succeeds_with (\<lambda>t. length (deposits t) = 2) (provision_schedule demo_ctx ?r demo_db)"
    by (simp add: provision_schedule_def demo_defs required_deposit_def empty_policy_def or_default_def
        int_or_type_error_def fits_def php_int_max_def provision_deposit_def new_deposit_def
        record_outbox_def Let_def)
  then obtain t where run: "provision_schedule demo_ctx ?r demo_db = Inr t" "length (deposits t) = 2"
    by (auto elim: succeeds_withE)
  have "deposits demo_db = []" "r_id ?r = 6" "r_total ?r = 100000" by (simp_all add: demo_defs)
  with run provision_schedule_once [OF run(1), of demo_ctx] show ?thesis by auto
qed

end
