(* ===== verification/Stay.thy ===== *)
theory Stay
  imports Availability Deposits
begin

text \<open>
  What the reservation workflows share: the save hook of \<^verbatim>\<open>Allocation\<close>, the change log
  (\<^verbatim>\<open>ReservationChangeRecorder\<close>), \<^verbatim>\<open>HousekeepingService\<close>,
  \<^verbatim>\<open>ProgramRequirementService\<close> and \<^verbatim>\<open>ReservationConfirmationProvisioner\<close>.
\<close>

subsection \<open>Saving an allocation\<close>

text \<open>The \<open>saving\<close> hook: an allocation has a target, its targets belong to the reservation's property,
  and an assigned resource determines the requested category.\<close>

definition allocation_hook :: "db \<Rightarrow> allocation \<Rightarrow> allocation res" where
  "allocation_hook s a =
     (case find_reservation s (al_reservation a) of
        None \<Rightarrow> Inl (Logic ''allocation_target'')
      | Some r \<Rightarrow>
        if al_category a = None \<and> al_resource a = None \<and> al_occurrence a = None
        then Inl (Logic ''allocation_target'')
        else
          bindE (case al_resource a of
              None \<Rightarrow> Inr a
            | Some rid \<Rightarrow>
              (case find (\<lambda>x. res_id x = rid \<and> res_property x = r_property r) (resources s) of
                 None \<Rightarrow> Inl (Logic ''allocation_resource'')
               | Some x \<Rightarrow>
                 if al_category a \<noteq> None \<and> al_category a \<noteq> Some (res_category x)
                 then Inl (Logic ''allocation_category'')
                 else Inr (a\<lparr>al_category := Some (res_category x)\<rparr>))) (\<lambda>b.
          if (case al_category b of None \<Rightarrow> False
              | Some k \<Rightarrow> \<not> (\<exists>x \<in> set (categories s). cat_id x = k \<and> cat_property x = r_property r))
          then Inl (Logic ''allocation_category_property'')
          else if (case al_occurrence b of None \<Rightarrow> False
              | Some k \<Rightarrow> \<not> (\<exists>x \<in> set (occurrences s). occ_id x = k \<and> occ_property x = r_property r))
          then Inl (Logic ''allocation_occurrence'')
          else Inr b))"

definition save_allocation :: "allocation \<Rightarrow> db \<Rightarrow> db res" where
  "save_allocation a s = bindE (allocation_hook s a) (\<lambda>b.
     Inr (s\<lparr>allocations := upd_row al_id (al_id a) (\<lambda>_. b) (allocations s)\<rparr>))"

text \<open>Inserting returns the row as saved; its id is the next one.\<close>

definition insert_allocation :: "allocation \<Rightarrow> allocation action" where
  "insert_allocation a s = bindE (allocation_hook s (a\<lparr>al_id := next_id s\<rparr>)) (\<lambda>b.
     Inr (s\<lparr>allocations := allocations s @ [b], next_id := Suc (next_id s)\<rparr>, b))"

definition released :: "allocation \<Rightarrow> bool" where
  "released a \<longleftrightarrow> al_status a = A_Released"

definition live_allocations :: "db \<Rightarrow> id \<Rightarrow> allocation list" where
  "live_allocations s i = filter (\<lambda>a. \<not> released a) (own_allocations s i)"

subsection \<open>ReservationChangeRecorder\<close>

definition snapshot_of :: "db \<Rightarrow> reservation \<Rightarrow> snapshot" where
  "snapshot_of s r =
     \<lparr>sn_status = reservation_status_value (r_status r), sn_revision = r_revision r,
      sn_starts = r_starts r, sn_ends = r_ends r, sn_adults = r_adults r, sn_children = r_children r,
      sn_program = r_program r, sn_quote = r_quote r, sn_currency = r_currency r,
      sn_subtotal = r_subtotal r, sn_tax = r_tax r, sn_total = r_total r,
      sn_deposit_policy = r_deposit_policy r, sn_cancellation_tiers = r_cancellation_tiers r,
      sn_allocations = own_allocations s (r_id r)\<rparr>"

record change_input =
  ci_actor :: "user_id option"
  ci_parent :: "id option"
  ci_status :: string
  ci_amount :: "money option"
  ci_reference :: "string option"
  ci_dedup :: "string option"
  ci_before :: "snapshot option"
  ci_after :: "snapshot option"
  ci_meta :: meta

definition change_defaults :: change_input where
  "change_defaults = \<lparr>ci_actor = None, ci_parent = None, ci_status = ''completed'', ci_amount = None,
     ci_reference = None, ci_dedup = None, ci_before = None, ci_after = None, ci_meta = []\<rparr>"

definition record_change :: "ctx \<Rightarrow> reservation \<Rightarrow> string \<Rightarrow> change_input \<Rightarrow> db \<Rightarrow> db \<times> change" where
  "record_change c r type d s =
     (let ch = \<lparr>ch_id = next_id s, ch_reservation = r_id r,
           ch_actor = (case ci_actor d of Some u \<Rightarrow> Some u | None \<Rightarrow> auth_id c),
           ch_parent = ci_parent d, ch_type = type, ch_status = ci_status d,
           ch_currency = r_currency r, ch_amount = ci_amount d, ch_reference = ci_reference d,
           ch_dedup = ci_dedup d, ch_before = ci_before d, ch_after = ci_after d,
           ch_meta = ci_meta d, ch_at = clock c\<rparr> in
      (s\<lparr>changes := changes s @ [ch], next_id := Suc (next_id s)\<rparr>, ch))"

definition record_status ::
  "ctx \<Rightarrow> id \<Rightarrow> user_id option \<Rightarrow> reservation_status option \<Rightarrow> reservation_status \<Rightarrow> meta \<Rightarrow> db \<Rightarrow> db" where
  "record_status c i actor from to metadata s =
     s\<lparr>histories := histories s @ [\<lparr>sh_reservation = i, sh_actor = actor, sh_from = from, sh_to = to,
         sh_at = clock c, sh_meta = metadata\<rparr>]\<rparr>"

subsection \<open>HousekeepingService\<close>

definition set_housekeeping :: "ctx \<Rightarrow> housekeeping_status \<Rightarrow> user_id option \<Rightarrow> resource \<Rightarrow> resource" where
  "set_housekeeping c st actor r = r\<lparr>res_housekeeping := Some st,
     res_housekeeping_at := Some (clock c), res_housekeeping_by := actor\<rparr>"

definition is_place :: "db \<Rightarrow> resource \<Rightarrow> bool" where
  "is_place s r = (case find_row cat_id (res_category r) (categories s) of
     None \<Rightarrow> False | Some k \<Rightarrow> cat_kind k = Kind_Place)"

definition update_housekeeping :: "ctx \<Rightarrow> id \<Rightarrow> housekeeping_status \<Rightarrow> user_id option \<Rightarrow> db \<Rightarrow> db res" where
  "update_housekeeping c i st actor s =
     bindE (find_or_fail ''resources'' res_id i (resources s)) (\<lambda>r.
     if \<not> is_place s r then Inl (Validation ''resource_id'')
     else Inr (s\<lparr>resources := upd_row res_id i (set_housekeeping c st actor) (resources s)\<rparr>))"

subsection \<open>ProgramRequirementService\<close>

fun split_on :: "char \<Rightarrow> string \<Rightarrow> string list" where
  "split_on d [] = [[]]"
| "split_on d (x # xs) = (if x = d then [] # split_on d xs
     else (case split_on d xs of [] \<Rightarrow> [[x]] | y # ys \<Rightarrow> (x # y) # ys))"

fun json_text :: "json \<Rightarrow> string" where
  "json_text (J_Str s) = s"
| "json_text (J_Int n) = int_text n"
| "json_text (J_Bool b) = (if b then ''1'' else [])"
| "json_text _ = []"

definition json_values :: "json \<Rightarrow> string list" where
  "json_values j =
     (let items = (case j of J_Str s \<Rightarrow> split_on CHR '','' s | J_Arr xs \<Rightarrow> map json_text xs | _ \<Rightarrow> []) in
      remdups (filter (\<lambda>v. v \<noteq> [] \<and> v \<noteq> ''0'') (map (\<lambda>v. lower (trim v)) items)))"

definition allocated_resource :: "db \<Rightarrow> allocation \<Rightarrow> resource option" where
  "allocated_resource s a = (case al_resource a of None \<Rightarrow> None | Some i \<Rightarrow> find_row res_id i (resources s))"

definition requested_category :: "db \<Rightarrow> allocation \<Rightarrow> category option" where
  "requested_category s a = (case al_category a of None \<Rightarrow> None | Some i \<Rightarrow> find_row cat_id i (categories s))"

definition requirement_matches :: "db \<Rightarrow> requirement \<Rightarrow> allocation \<Rightarrow> bool" where
  "requirement_matches s q a \<longleftrightarrow>
     (case al_category a of Some k \<Rightarrow> Some k | None \<Rightarrow> map_option res_category (allocated_resource s a))
       = Some (rq_category q)
     \<and> (case allocated_resource s a of
          None \<Rightarrow> json_values (rq_capabilities q) = [] \<and> json_values (rq_languages q) = []
        | Some r \<Rightarrow>
          let capabilities = json_values (data_get (res_attributes r) ''capabilities'')
                @ json_values (data_get (res_attributes r) ''specialties'');
              languages = json_values (data_get (res_attributes r) ''languages'') in
          res_active r
          \<and> (\<forall>v \<in> set (json_values (rq_capabilities q)). v \<in> set capabilities)
          \<and> (\<forall>v \<in> set (json_values (rq_languages q)). v \<in> set languages))"

definition assigned_quantity :: "db \<Rightarrow> id \<Rightarrow> requirement \<Rightarrow> int" where
  "assigned_quantity s i q = sum_list (map al_quantity (filter (requirement_matches s q) (live_allocations s i)))"

definition quantity_for_party :: "requirement \<Rightarrow> int \<Rightarrow> int" where
  "quantity_for_party q party =
     (let ratio = (case rq_guests_per_resource q of
            None \<Rightarrow> 0 | Some g \<Rightarrow> if g = 0 then 0 else - ((- max 1 party) div g)) in
      max (rq_minimum q) ratio)"

definition party_size :: "reservation \<Rightarrow> int" where
  "party_size r = max 1 (r_adults r + r_children r)"

definition covers_stay :: "db \<Rightarrow> reservation \<Rightarrow> allocation \<Rightarrow> bool" where
  "covers_stay s r a \<longleftrightarrow>
     ((case requested_category s a of None \<Rightarrow> False | Some k \<Rightarrow> cat_counts_as_stay k)
      \<or> (case allocated_resource s a of None \<Rightarrow> False | Some x \<Rightarrow> counts_as_stay s x))
     \<and> al_starts a \<le> r_starts r \<and> r_ends r \<le> al_ends a"

definition reservation_program :: "db \<Rightarrow> reservation \<Rightarrow> program option" where
  "reservation_program s r = (case r_program r of None \<Rightarrow> None | Some i \<Rightarrow> find_row pg_id i (programs s))"

definition assert_satisfied :: "db \<Rightarrow> reservation \<Rightarrow> unit res" where
  "assert_satisfied s r =
     (let program = reservation_program s r in
      if r_program r \<noteq> None \<and> (case program of None \<Rightarrow> True
           | Some p \<Rightarrow> pg_property p \<noteq> r_property r \<or> \<not> pg_active p)
      then Inl (Validation ''program_id'')
      else
        let accommodation = (r_program r = None
              \<or> (case program of None \<Rightarrow> False | Some p \<Rightarrow> pg_requires_accommodation p)) in
        if accommodation \<and> \<not> (\<exists>a \<in> set (live_allocations s (r_id r)). covers_stay s r a)
        then Inl (Validation ''allocations'')
        else allE (\<lambda>q. if assigned_quantity s (r_id r) q < quantity_for_party q (party_size r)
                       then Inl (Validation ''allocations'') else Inr ())
               (case program of None \<Rightarrow> [] | Some p \<Rightarrow> pg_requirements p))"

subsection \<open>ReservationConfirmationProvisioner\<close>

text \<open>The failure injection for tests at the head of \<open>provision\<close> is left out.\<close>

definition provision_occurrence :: "ctx \<Rightarrow> reservation \<Rightarrow> db \<Rightarrow> db res" where
  "provision_occurrence c r s =
     (if r_program r = None \<or> (\<exists>a \<in> set (own_allocations s (r_id r)). al_occurrence a \<noteq> None) then Inr s
      else (case reservation_program s r of
         None \<Rightarrow> Inr s
       | Some p \<Rightarrow>
         let party = party_size r;
             ends = r_starts r + 60 * max 1 (or_default (pg_duration_minutes p) 60);
             occ = \<lparr>occ_id = next_id s, occ_program = pg_id p, occ_property = r_property r,
               occ_starts = r_starts r, occ_ends = ends,
               occ_capacity = max party (or_default (pg_capacity p) party), occ_cancelled = False\<rparr> in
         if pg_property p \<noteq> r_property r then Inl (Logic ''occurrence_program'')
         else
           let s1 = s\<lparr>occurrences := occurrences s @ [occ], next_id := Suc (next_id s)\<rparr> in
           bindE (insert_allocation \<lparr>al_id = 0, al_reservation = r_id r, al_category = None,
               al_resource = None, al_occurrence = Some (occ_id occ), al_status = A_Tentative,
               al_starts = r_starts r, al_ends = ends, al_quantity = party\<rparr> s1) (\<lambda>(s2, a).
           bindE (assert_available c s2 a) (\<lambda>_.
           save_allocation (a\<lparr>al_status := A_Confirmed\<rparr>) s2))))"

definition template_assignee :: "db \<Rightarrow> id \<Rightarrow> task_template \<Rightarrow> user_id option" where
  "template_assignee s p t = (case tt_role t of
     None \<Rightarrow> None
   | Some role \<Rightarrow>
     if role = [] \<or> role = ''0'' then None
     else
       let fits = (\<lambda>m. membership_role_value (mb_role m) = role \<and> mb_active m) in
       (case find (\<lambda>m. fits m \<and> mb_property m = Some p) (memberships s) of
          Some m \<Rightarrow> Some (mb_user m)
        | None \<Rightarrow> map_option mb_user (find (\<lambda>m. fits m \<and> mb_property m = None) (memberships s))))"

definition provision_task :: "reservation \<Rightarrow> task_template \<Rightarrow> db \<Rightarrow> db" where
  "provision_task r t s =
     (if \<exists>k \<in> set (tasks s). tk_reservation k = Some (r_id r) \<and> tk_template k = Some (tt_id t) then s
      else s\<lparr>tasks := tasks s @ [\<lparr>tk_id = next_id s, tk_property = r_property r,
             tk_reservation = Some (r_id r), tk_template = Some (tt_id t), tk_checklist = None,
             tk_assignee = template_assignee s (r_property r) t, tk_title = tt_title t,
             tk_description = [], tk_status = T_Todo, tk_priority = tt_priority t,
             tk_due_at = Some (r_starts r + 60 * tt_due_offset_minutes t), tk_started_at = None,
             tk_completed_at = None, tk_failed_at = None, tk_reopened_at = None,
             tk_escalated_at = None, tk_failure_reason = None, tk_escalation_reason = None,
             tk_cancellation_reason = None, tk_revision = 1,
             tk_meta = [(''generated_from'', J_Str ''program_task_template'')]\<rparr>],
           next_id := Suc (next_id s)\<rparr>)"

definition provision_tasks :: "reservation \<Rightarrow> db \<Rightarrow> db" where
  "provision_tasks r s = (case reservation_program s r of
     None \<Rightarrow> s | Some p \<Rightarrow> fold (provision_task r) (filter tt_active (pg_templates p)) s)"

definition provision :: "ctx \<Rightarrow> reservation \<Rightarrow> db \<Rightarrow> db res" where
  "provision c r s =
     bindE (provision_occurrence c r s) (\<lambda>s1. provision_schedule c r (provision_tasks r s1))"

end
