(* ===== verification/Folio.thy ===== *)
theory Folio
  imports Schema
begin

text \<open>
  \<^verbatim>\<open>FolioService\<close>: the ledger of a reservation. Lines are only ever appended (the model
  \<^verbatim>\<open>FolioLine\<close> refuses updates and deletes), a mistake is corrected by a reversal, and the balance
  is the booked total plus every line that is not already part of it. The description text of a line
  is left out of the model; every amount and reference is kept.
\<close>

subsection \<open>Posting\<close>

definition assert_open :: "reservation \<Rightarrow> unit res" where
  "assert_open r = (if r_folio_status r = F_Closed then Inl (Commercial ''folio_closed'') else Inr ())"

definition create_line ::
  "ctx \<Rightarrow> reservation \<Rightarrow> folio_line_type \<Rightarrow> int \<Rightarrow> money \<Rightarrow> user_id option \<Rightarrow> id option \<Rightarrow> id option
   \<Rightarrow> meta \<Rightarrow> money \<Rightarrow> folio_line action" where
  "create_line c r type quantity_thousandths unit_amount actor payment_id reverses_id metadata tax s =
     bindE (line_amount unit_amount quantity_thousandths) (\<lambda>net.
     let gross = net + tax;
         line = \<lparr>fl_id = next_id s, fl_reservation = r_id r, fl_payment = payment_id,
           fl_reverses = reverses_id, fl_type = type, fl_quantity = quantity_thousandths,
           fl_unit = unit_amount, fl_net = net, fl_tax = tax, fl_gross = gross, fl_amount = gross,
           fl_currency = r_currency r, fl_posted_at = clock c, fl_created_by = actor,
           fl_meta = metadata\<rparr> in
     Inr (s\<lparr>folio_lines := folio_lines s @ [line], next_id := Suc (next_id s)\<rparr>, line))"

definition without_key :: "string \<Rightarrow> meta \<Rightarrow> meta" where
  "without_key k m = filter (\<lambda>(k', _). k' \<noteq> k) m"

definition append_line ::
  "ctx \<Rightarrow> reservation \<Rightarrow> folio_line_type \<Rightarrow> int \<Rightarrow> money \<Rightarrow> user_id option \<Rightarrow> meta \<Rightarrow> money \<Rightarrow> bool
   \<Rightarrow> folio_line action" where
  "append_line c r type quantity_thousandths unit_amount actor metadata tax included s =
     bindE (assert_open r) (\<lambda>_.
     if type \<notin> {L_Charge, L_Adjustment} then Inl (Commercial ''manual_line_type'')
     else
       let m = without_key ''included_in_booked_total'' metadata;
           m' = (if included then m @ [(''included_in_booked_total'', J_Bool True)] else m) in
       create_line c r type quantity_thousandths unit_amount actor None None m' tax s)"

definition post_payment :: "ctx \<Rightarrow> payment \<Rightarrow> user_id option \<Rightarrow> folio_line action" where
  "post_payment c p actor s =
     (case find (\<lambda>l. fl_payment l = Some (py_id p) \<and> fl_type l = L_Payment) (folio_lines s) of
        Some l \<Rightarrow> Inr (s, l)
      | None \<Rightarrow>
        bindE (reservation_or_fail s (py_reservation p)) (\<lambda>r.
        bindE (assert_open r) (\<lambda>_.
        create_line c r L_Payment 1000 (- py_amount p) actor (Some (py_id p)) None
          [(''payment_status'', J_Str (payment_status_value (py_status p)))] 0 s)))"

definition post_refund :: "ctx \<Rightarrow> payment \<Rightarrow> change \<Rightarrow> user_id option \<Rightarrow> folio_line action" where
  "post_refund c p refund actor s =
     (case find (\<lambda>l. data_get (fl_meta l) ''refund_change_id'' = J_Id (ch_id refund) \<and> fl_type l = L_Refund)
             (folio_lines s) of
        Some l \<Rightarrow> Inr (s, l)
      | None \<Rightarrow>
        bindE (reservation_or_fail s (py_reservation p)) (\<lambda>r.
        bindE (assert_open r) (\<lambda>_.
        (case ch_amount refund of
           None \<Rightarrow> Inl Type_Error
         | Some amount \<Rightarrow>
           create_line c r L_Refund 1000 amount actor (Some (py_id p)) None
             [(''refund_change_id'', J_Id (ch_id refund)),
              (''refund_request_id'', j_opt J_Id (ch_parent refund)),
              (''reference'', j_opt J_Str (ch_reference refund))] 0 s))))"

definition post_provider_adjustment ::
  "ctx \<Rightarrow> payment \<Rightarrow> folio_line_type \<Rightarrow> money \<Rightarrow> meta \<Rightarrow> folio_line action" where
  "post_provider_adjustment c p type amount metadata s =
     (if type \<notin> {L_Refund, L_Adjustment} \<or> amount \<le> 0 then Inl (Commercial ''provider_adjustment'')
      else
        bindE (reservation_or_fail s (py_reservation p)) (\<lambda>r.
        bindE (assert_open r) (\<lambda>_.
        create_line c r type 1000 amount None (Some (py_id p)) None metadata 0 s)))"

subsection \<open>Reversal\<close>

definition reverse_line :: "ctx \<Rightarrow> id \<Rightarrow> string \<Rightarrow> user_id option \<Rightarrow> folio_line action" where
  "reverse_line c line_id reason actor s =
     bindE (find_or_fail ''folio_lines'' fl_id line_id (folio_lines s)) (\<lambda>locked.
     bindE (reservation_or_fail s (fl_reservation locked)) (\<lambda>r.
     bindE (assert_open r) (\<lambda>_.
     (case find (\<lambda>l. fl_reverses l = Some (fl_id locked)) (folio_lines s) of
        Some l \<Rightarrow> Inr (s, l)
      | None \<Rightarrow>
        if fl_reverses locked \<noteq> None then Inl (Commercial ''reversal_of_reversal'')
        else create_line c r (if fl_type locked = L_Payment then L_Refund else L_Adjustment) 1000
               (- fl_net locked) actor (fl_payment locked) (Some (fl_id locked))
               [(''reason'', J_Str reason), (''original_line_id'', J_Id (fl_id locked))]
               (- fl_tax locked) s))))"

subsection \<open>Summary, closing and reopening\<close>

record folio_summary =
  fs_status :: folio_status
  fs_booked_net :: money
  fs_booked_tax :: money
  fs_booked_total :: money
  fs_ledger_net :: money
  fs_ledger_tax :: money
  fs_ledger_gross :: money
  fs_ledger_delta :: money
  fs_balance :: money
  fs_closed_at :: "instant option"

definition own_lines :: "db \<Rightarrow> id \<Rightarrow> folio_line list" where
  "own_lines s i = filter (\<lambda>l. fl_reservation l = i) (folio_lines s)"

definition in_booked_total :: "folio_line \<Rightarrow> bool" where
  "in_booked_total l \<longleftrightarrow> data_get (fl_meta l) ''included_in_booked_total'' = J_Bool True"

definition summary :: "db \<Rightarrow> reservation \<Rightarrow> folio_summary" where
  "summary s r =
     (let ls = own_lines s (r_id r);
          gross = sum_list (map fl_gross ls);
          included = sum_where in_booked_total fl_gross ls;
          delta = gross - included in
      \<lparr>fs_status = r_folio_status r, fs_booked_net = r_subtotal r, fs_booked_tax = r_tax r,
       fs_booked_total = r_total r, fs_ledger_net = sum_list (map fl_net ls),
       fs_ledger_tax = sum_list (map fl_tax ls), fs_ledger_gross = gross,
       fs_ledger_delta = delta, fs_balance = r_total r + delta,
       fs_closed_at = r_folio_closed_at r\<rparr>)"

definition close_folio :: "ctx \<Rightarrow> id \<Rightarrow> user_id option \<Rightarrow> reservation action" where
  "close_folio c i actor s =
     bindE (reservation_or_fail s i) (\<lambda>locked.
     if r_folio_status locked = F_Closed then Inr (s, locked)
     else if r_status locked \<noteq> R_Checked_out then Inl (Commercial ''close_before_checkout'')
     else if fs_balance (summary s locked) \<noteq> 0 then Inl (Commercial ''open_balance'')
     else
       let f = (\<lambda>r. r\<lparr>r_folio_status := F_Closed, r_folio_closed_at := Some (clock c),
                     r_folio_closed_by := actor\<rparr>) in
       Inr (update_reservation i f s, f locked))"

definition reopen_folio :: "id \<Rightarrow> reservation action" where
  "reopen_folio i s =
     bindE (reservation_or_fail s i) (\<lambda>locked.
     if r_folio_status locked = F_Open then Inr (s, locked)
     else
       let f = (\<lambda>r. r\<lparr>r_folio_status := F_Open, r_folio_closed_at := None,
                     r_folio_closed_by := None\<rparr>) in
       Inr (update_reservation i f s, f locked))"

subsection \<open>What each operation does to the ledger\<close>

lemma create_line_Inr [res_simps]:
  "create_line c r type q u actor p rv m tax s = Inr (t, l) \<longleftrightarrow>
     (\<exists>net. line_amount u q = Inr net
       \<and> l = \<lparr>fl_id = next_id s, fl_reservation = r_id r, fl_payment = p, fl_reverses = rv,
           fl_type = type, fl_quantity = q, fl_unit = u, fl_net = net, fl_tax = tax,
           fl_gross = net + tax, fl_amount = net + tax, fl_currency = r_currency r,
           fl_posted_at = clock c, fl_created_by = actor, fl_meta = m\<rparr>
       \<and> t = s\<lparr>folio_lines := folio_lines s @ [l], next_id := Suc (next_id s)\<rparr>)"
  by (auto simp: create_line_def bindE_eq_Inr Let_def)

lemma assert_open_Inr [res_simps]: "assert_open r = Inr () \<longleftrightarrow> r_folio_status r = F_Open"
  by (cases "r_folio_status r") (simp_all add: assert_open_def)

text \<open>A posting step adds one line to an open folio and touches no other table.\<close>

definition posts :: "db \<Rightarrow> folio_line \<Rightarrow> db \<Rightarrow> bool" where
  "posts s l t \<longleftrightarrow> t = s\<lparr>folio_lines := folio_lines s @ [l], next_id := Suc (next_id s)\<rparr>
     \<and> fl_id l = next_id s \<and> fl_gross l = fl_net l + fl_tax l"

lemma append_line_Inr:
  assumes "append_line c r type q u actor m tax included s = Inr (t, l)"
  shows "posts s l t" and "fl_reservation l = r_id r" and "r_folio_status r = F_Open"
    and "type \<in> {L_Charge, L_Adjustment}" and "fl_tax l = tax" and "line_amount u q = Inr (fl_net l)"
    and "in_booked_total l = included"
  using assms
  by (auto simp: append_line_def posts_def bindE_eq_Inr create_line_Inr assert_open_Inr Let_def
      in_booked_total_def data_get_def without_key_def map_of_eq_None_iff
      split: if_splits option.splits dest: map_of_SomeD)

lemma create_line_posts:
  assumes "create_line c r type q u actor p rv m tax s = Inr (t, l)"
  shows "posts s l t" "fl_reservation l = r_id r" "fl_tax l = tax" "fl_payment l = p"
    "fl_reverses l = rv" "fl_type l = type" "fl_meta l = m" "line_amount u q = Inr (fl_net l)"
  using assms by (auto simp: create_line_Inr posts_def)

lemmas create_line_unit = create_line_posts(8) [THEN line_amount_1000_Inr]

lemma post_payment_Inr:
  assumes "post_payment c p actor s = Inr (t, l)"
  obtains (again) "t = s" "l \<in> set (folio_lines s)" "fl_payment l = Some (py_id p)" "fl_type l = L_Payment"
  | (posted) r where "posts s l t" "find_reservation s (py_reservation p) = Some r" "r_folio_status r = F_Open"
      "fl_reservation l = r_id r" "fl_net l = - py_amount p" "fl_tax l = 0"
      "fl_payment l = Some (py_id p)" "fl_type l = L_Payment" "fl_reverses l = None"
      "\<not> in_booked_total l"
proof (cases "find (\<lambda>l. fl_payment l = Some (py_id p) \<and> fl_type l = L_Payment) (folio_lines s)")
  case None
  then obtain r where r: "find_reservation s (py_reservation p) = Some r" "r_folio_status r = F_Open"
    and new: "create_line c r L_Payment 1000 (- py_amount p) actor (Some (py_id p)) None
      [(''payment_status'', J_Str (payment_status_value (py_status p)))] 0 s = Inr (t, l)"
    using assms
    by (auto simp: post_payment_def bindE_eq_Inr assert_open_Inr reservation_or_fail_Inr)
  note l = create_line_posts [OF new]
  show ?thesis
    by (rule posted [of r]) (use r l create_line_unit [OF new] in
        \<open>simp_all add: in_booked_total_def data_get_def\<close>)
next
  case (Some x)
  then have "x = l" "t = s" using assms by (simp_all add: post_payment_def)
  with Some show ?thesis by (intro again) (auto simp: find_Some_iff)
qed

lemma post_refund_Inr:
  assumes "post_refund c p refund actor s = Inr (t, l)"
  obtains (again) "t = s" "l \<in> set (folio_lines s)"
  | (posted) r amount where "posts s l t" "find_reservation s (py_reservation p) = Some r"
      "r_folio_status r = F_Open" "fl_reservation l = r_id r" "ch_amount refund = Some amount"
      "fl_net l = amount" "fl_tax l = 0" "fl_payment l = Some (py_id p)" "fl_type l = L_Refund"
      "\<not> in_booked_total l"
proof (cases "find (\<lambda>l. data_get (fl_meta l) ''refund_change_id'' = J_Id (ch_id refund)
    \<and> fl_type l = L_Refund) (folio_lines s)")
  case None
  then obtain r amount where r: "find_reservation s (py_reservation p) = Some r"
      "r_folio_status r = F_Open" "ch_amount refund = Some amount"
    and new: "create_line c r L_Refund 1000 amount actor (Some (py_id p)) None
      [(''refund_change_id'', J_Id (ch_id refund)),
       (''refund_request_id'', j_opt J_Id (ch_parent refund)),
       (''reference'', j_opt J_Str (ch_reference refund))] 0 s = Inr (t, l)"
    using assms
    by (auto simp: post_refund_def bindE_eq_Inr assert_open_Inr reservation_or_fail_Inr
        split: option.splits)
  note l = create_line_posts [OF new]
  show ?thesis
    by (rule posted [of r amount]) (use r l create_line_unit [OF new] in
        \<open>simp_all add: in_booked_total_def data_get_def\<close>)
next
  case (Some x)
  then have "x = l" "t = s" using assms by (simp_all add: post_refund_def)
  with Some show ?thesis by (intro again) (auto simp: find_Some_iff)
qed

lemma post_provider_adjustment_Inr:
  assumes "post_provider_adjustment c p type amount m s = Inr (t, l)"
  obtains r where "posts s l t" "find_reservation s (py_reservation p) = Some r"
    "r_folio_status r = F_Open" "fl_reservation l = r_id r" "fl_net l = amount" "0 < amount"
    "fl_payment l = Some (py_id p)" "fl_type l = type" "fl_tax l = 0"
proof -
  obtain r where r: "find_reservation s (py_reservation p) = Some r" "r_folio_status r = F_Open"
      "0 < amount" and new: "create_line c r type 1000 amount None (Some (py_id p)) None m 0 s = Inr (t, l)"
    using assms by (auto simp: post_provider_adjustment_def bindE_eq_Inr assert_open_Inr
        reservation_or_fail_Inr not_le split: if_splits)
  show ?thesis
    by (rule that [of r]) (use r create_line_posts [OF new] create_line_unit [OF new] in simp_all)
qed

lemma reverse_line_Inr:
  assumes "reverse_line c i reason actor s = Inr (t, l)"
  obtains (again) x r where "find_row fl_id i (folio_lines s) = Some x" "t = s"
      "find_reservation s (fl_reservation x) = Some r" "r_folio_status r = F_Open"
      "find (\<lambda>l. fl_reverses l = Some (fl_id x)) (folio_lines s) = Some l"
  | (posted) x r where "posts s l t" "find_row fl_id i (folio_lines s) = Some x"
      "find_reservation s (fl_reservation x) = Some r"
      "r_folio_status r = F_Open" "fl_reservation l = r_id r" "fl_net l = - fl_net x"
      "fl_tax l = - fl_tax x" "fl_reverses l = Some (fl_id x)" "fl_reverses x = None"
      "fl_payment l = fl_payment x" "\<not> in_booked_total l"
      "find (\<lambda>l. fl_reverses l = Some (fl_id x)) (folio_lines s) = None"
      "data_get (fl_meta l) ''refund_change_id'' = J_Null"
proof -
  obtain x r where x: "find_row fl_id i (folio_lines s) = Some x"
    and r: "find_reservation s (fl_reservation x) = Some r" "r_folio_status r = F_Open"
    and rest: "(case find (\<lambda>l. fl_reverses l = Some (fl_id x)) (folio_lines s) of
        Some l \<Rightarrow> Inr (s, l)
      | None \<Rightarrow>
        if fl_reverses x \<noteq> None then Inl (Commercial ''reversal_of_reversal'')
        else create_line c r (if fl_type x = L_Payment then L_Refund else L_Adjustment) 1000
               (- fl_net x) actor (fl_payment x) (Some (fl_id x))
               [(''reason'', J_Str reason), (''original_line_id'', J_Id (fl_id x))]
               (- fl_tax x) s) = Inr (t, l)"
    using assms by (auto simp: reverse_line_def bindE_eq_Inr assert_open_Inr reservation_or_fail_Inr
        find_or_fail_Inr)
  show ?thesis
  proof (cases "find (\<lambda>l. fl_reverses l = Some (fl_id x)) (folio_lines s)")
    case None
    with rest have fresh: "fl_reverses x = None"
      and new: "create_line c r (if fl_type x = L_Payment then L_Refund else L_Adjustment) 1000
               (- fl_net x) actor (fl_payment x) (Some (fl_id x))
               [(''reason'', J_Str reason), (''original_line_id'', J_Id (fl_id x))]
               (- fl_tax x) s = Inr (t, l)"
      by (auto split: if_splits)
    show ?thesis
      by (rule posted [of x r]) (use None x r fresh create_line_posts [OF new] create_line_unit [OF new] in
          \<open>simp_all add: in_booked_total_def data_get_def\<close>)
  next
    case (Some y)
    with rest x r show ?thesis by (intro again) auto
  qed
qed

lemma balance_eq:
  "fs_balance (summary s r) = r_total r
     + sum_where (\<lambda>l. fl_reservation l = r_id r \<and> \<not> in_booked_total l) fl_gross (folio_lines s)"
proof -
  have "sum_list (map fl_gross (filter (\<lambda>l. fl_reservation l = i) ls))
      - sum_where in_booked_total fl_gross (filter (\<lambda>l. fl_reservation l = i) ls)
      = sum_where (\<lambda>l. fl_reservation l = i \<and> \<not> in_booked_total l) fl_gross ls" for i ls
    by (induction ls) auto
  then show ?thesis by (simp add: summary_def own_lines_def Let_def)
qed

lemma posts_balance:
  "posts s l t \<Longrightarrow> fs_balance (summary t r) = fs_balance (summary s r)
     + (if fl_reservation l = r_id r \<and> \<not> in_booked_total l then fl_net l + fl_tax l else 0)"
  by (auto simp: posts_def balance_eq)

subsection \<open>Runs of ledger commands\<close>

datatype folio_command =
    Append id folio_line_type int money "user_id option" meta money bool
  | Post_payment payment "user_id option"
  | Post_refund payment change "user_id option"
  | Provider_adjustment payment folio_line_type money meta
  | Reverse id string "user_id option"
  | Close id "user_id option"
  | Reopen id

fun run_folio :: "ctx \<Rightarrow> folio_command \<Rightarrow> db \<Rightarrow> db res" where
  "run_folio c (Append i type q u actor m tax inc) s =
     bindE (reservation_or_fail s i) (\<lambda>r.
     bindE (append_line c r type q u actor m tax inc s) (\<lambda>(t, _). Inr t))"
| "run_folio c (Post_payment p actor) s = bindE (post_payment c p actor s) (\<lambda>(t, _). Inr t)"
| "run_folio c (Post_refund p ch actor) s = bindE (post_refund c p ch actor s) (\<lambda>(t, _). Inr t)"
| "run_folio c (Provider_adjustment p type amount m) s =
     bindE (post_provider_adjustment c p type amount m s) (\<lambda>(t, _). Inr t)"
| "run_folio c (Reverse i reason actor) s = bindE (reverse_line c i reason actor s) (\<lambda>(t, _). Inr t)"
| "run_folio c (Close i actor) s = bindE (close_folio c i actor s) (\<lambda>(t, _). Inr t)"
| "run_folio c (Reopen i) s = bindE (reopen_folio i s) (\<lambda>(t, _). Inr t)"

definition folio_step :: "db \<Rightarrow> db \<Rightarrow> bool" where
  "folio_step s t \<longleftrightarrow> (\<exists>c cmd. run_folio c cmd s = Inr t)"

lemma folio_stepI: "run_folio c cmd s = Inr t \<Longrightarrow> folio_step s t"
  by (auto simp: folio_step_def)

text \<open>Every command either posts one line to an open folio, or opens or closes one, or does nothing.\<close>

lemma run_folio_cases:
  assumes "run_folio c cmd s = Inr t"
  obtains (idle) "t = s"
  | (post) r l where "posts s l t" "find_reservation s (r_id r) = Some r" "r_folio_status r = F_Open"
      "fl_reservation l = r_id r"
  | (close) i r actor where "find_reservation s i = Some r" "r_status r = R_Checked_out"
      "fs_balance (summary s r) = 0"
      "t = update_reservation i (\<lambda>r. r\<lparr>r_folio_status := F_Closed,
             r_folio_closed_at := Some (clock c), r_folio_closed_by := actor\<rparr>) s"
  | (reopen) i where "t = update_reservation i (\<lambda>r. r\<lparr>r_folio_status := F_Open,
             r_folio_closed_at := None, r_folio_closed_by := None\<rparr>) s"
proof (cases cmd)
  case (Append i type q u actor m tax inc)
  then obtain r l where "find_reservation s i = Some r" "append_line c r type q u actor m tax inc s = Inr (t, l)"
    using assms by (auto simp: bindE_eq_Inr reservation_or_fail_Inr)
  note step = this
  show ?thesis by (rule post [OF _ find_row_key [OF step(1)]]) (use append_line_Inr [OF step(2)] in simp_all)
next
  case (Post_payment p actor)
  then obtain l where "post_payment c p actor s = Inr (t, l)" using assms by (auto simp: bindE_eq_Inr)
  then show ?thesis by (cases rule: post_payment_Inr) (auto intro: idle post [OF _ find_row_key])
next
  case (Post_refund p ch actor)
  then obtain l where "post_refund c p ch actor s = Inr (t, l)" using assms by (auto simp: bindE_eq_Inr)
  then show ?thesis by (cases rule: post_refund_Inr) (auto intro: idle post [OF _ find_row_key])
next
  case (Provider_adjustment p type amount m)
  then obtain l where "post_provider_adjustment c p type amount m s = Inr (t, l)"
    using assms by (auto simp: bindE_eq_Inr)
  then show ?thesis by (cases rule: post_provider_adjustment_Inr) (auto intro: post [OF _ find_row_key])
next
  case (Reverse i reason actor)
  then obtain l where "reverse_line c i reason actor s = Inr (t, l)" using assms by (auto simp: bindE_eq_Inr)
  then show ?thesis by (cases rule: reverse_line_Inr) (auto intro: idle post [OF _ find_row_key])
next
  case (Close i actor)
  then obtain r where r: "find_reservation s i = Some r"
    using assms by (auto simp: close_folio_def bindE_eq_Inr reservation_or_fail_Inr)
  show ?thesis
  proof (cases "r_folio_status r = F_Closed")
    case True
    with assms Close r show ?thesis by (intro idle) (simp add: close_folio_def reservation_or_fail_def find_or_fail_def)
  next
    case False
    with assms Close r have "r_status r = R_Checked_out" "fs_balance (summary s r) = 0"
      "t = update_reservation i (\<lambda>r. r\<lparr>r_folio_status := F_Closed,
             r_folio_closed_at := Some (clock c), r_folio_closed_by := actor\<rparr>) s"
      by (simp_all add: close_folio_def reservation_or_fail_def find_or_fail_def Let_def split: if_splits)
    with r show ?thesis by (rule close)
  qed
next
  case (Reopen i)
  then obtain r where r: "find_reservation s i = Some r"
    using assms by (auto simp: reopen_folio_def bindE_eq_Inr reservation_or_fail_Inr)
  show ?thesis
  proof (cases "r_folio_status r = F_Open")
    case True
    with assms Reopen r show ?thesis by (intro idle) (simp add: reopen_folio_def reservation_or_fail_def find_or_fail_def)
  next
    case False
    with assms Reopen r show ?thesis
      by (intro reopen [of i]) (simp add: reopen_folio_def reservation_or_fail_def find_or_fail_def Let_def)
  qed
qed

interpretation folio_log: append_log folio_step folio_lines
proof
  fix s t assume "folio_step s t"
  then obtain c cmd where "run_folio c cmd s = Inr t" by (auto simp: folio_step_def)
  then show "\<exists>new. folio_lines t = folio_lines s @ new"
    by (cases rule: run_folio_cases) (auto simp: posts_def update_reservation_frame)
qed

text \<open>A closed folio is settled, and commands keep it so.\<close>

definition closed_settled :: "db \<Rightarrow> bool" where
  "closed_settled s \<longleftrightarrow> distinct (map r_id (reservations s))
     \<and> (\<forall>r \<in> set (reservations s). r_folio_status r = F_Closed \<longrightarrow> fs_balance (summary s r) = 0)"

lemma summary_other_table: "folio_lines t = folio_lines s \<Longrightarrow> summary t r = summary s r"
  by (simp add: summary_def own_lines_def)

lemma balance_cong:
  "r_id r = r_id r' \<Longrightarrow> r_total r = r_total r' \<Longrightarrow> fs_balance (summary s r) = fs_balance (summary s r')"
  by (simp add: balance_eq)

lemma run_folio_closed_settled:
  assumes "run_folio c cmd s = Inr t" and "closed_settled s"
  shows "closed_settled t"
  using assms(1)
proof (cases rule: run_folio_cases)
  case idle
  with assms show ?thesis by simp
next
  case (post r l)
  show ?thesis
    unfolding closed_settled_def
  proof (intro conjI ballI impI)
    show "distinct (map r_id (reservations t))"
      using post assms by (simp add: closed_settled_def posts_def)
    fix q assume q: "q \<in> set (reservations t)" "r_folio_status q = F_Closed"
    then have mem: "q \<in> set (reservations s)" using post by (simp add: posts_def)
    then have "find_reservation s (r_id q) = Some q"
      using assms by (auto simp: closed_settled_def intro: find_row_unique)
    with post(2,3) q(2) have "r_id q \<noteq> r_id r" by auto
    with mem q(2) post(4) posts_balance [OF post(1), of q] assms(2)
    show "fs_balance (summary t q) = 0" by (simp add: closed_settled_def)
  qed
next
  case (close i r actor)
  define f where "f = (\<lambda>r::reservation. r\<lparr>r_folio_status := F_Closed,
             r_folio_closed_at := Some (clock c), r_folio_closed_by := actor\<rparr>)"
  have t: "reservations t = upd_row r_id i f (reservations s)" "folio_lines t = folio_lines s"
    using close by (simp_all add: update_reservation_frame f_def)
  have bal: "fs_balance (summary s (f q)) = fs_balance (summary s q)" for q
    by (rule balance_cong) (simp_all add: f_def)
  have "fs_balance (summary s q) = 0" if "q \<in> set (reservations s)" "r_id q = i" for q
  proof -
    have "find_reservation s i = Some q"
      using that assms by (auto simp: closed_settled_def intro: find_row_unique)
    with close show ?thesis by simp
  qed
  then show ?thesis
    using assms(2) unfolding closed_settled_def t summary_other_table [OF t(2)]
    by (auto simp: upd_row_def set_upd_where bal [unfolded f_def] map_key_upd_where [of r_id f, simplified f_def, simplified] f_def)
next
  case (reopen i)
  define f where "f = (\<lambda>r::reservation. r\<lparr>r_folio_status := F_Open,
             r_folio_closed_at := None, r_folio_closed_by := None\<rparr>)"
  have t: "reservations t = upd_row r_id i f (reservations s)" "folio_lines t = folio_lines s"
    using reopen by (simp_all add: update_reservation_frame f_def)
  have "map r_id (reservations t) = map r_id (reservations s)"
    unfolding t by (rule map_key_upd_row) (simp add: f_def)
  moreover have "q \<in> set (reservations s)" if "q \<in> set (reservations t)" "r_folio_status q = F_Closed" for q
    using that unfolding t by (auto simp: upd_row_def upd_where_def f_def)
  ultimately show ?thesis
    using assms(2) by (simp add: closed_settled_def summary_other_table [OF t(2)])
qed

lemma run_closed_settled: "folio_step\<^sup>*\<^sup>* s t \<Longrightarrow> closed_settled s \<Longrightarrow> closed_settled t"
  by (induction rule: rtranclp_induct) (auto simp: folio_step_def intro: run_folio_closed_settled)

lemmas folio_exec = append_line_def create_line_def assert_open_def line_amount_def
  int_or_type_error_def fits_def php_int_max_def reservation_or_fail_def find_or_fail_def
  find_row_def without_key_def post_payment_def reverse_line_def Let_def

subsection \<open>Properties\<close>

text \<open>C33: The folio is append-only and a closed folio stays settled. Whatever sequence of ledger
  commands runs (posting, refunds, provider adjustments, reversals, closing, reopening), every line
  keeps its place and content, and a reservation whose folio is closed has balance zero.\<close>

theorem folio_runs:
  "folio_step\<^sup>*\<^sup>* s t \<Longrightarrow> (\<exists>new. folio_lines t = folio_lines s @ new)
     \<and> (closed_settled s \<longrightarrow> closed_settled t)"
  using folio_log.run_extends run_closed_settled by blast

theorem folio_runs_witness:
  "\<exists>t. folio_step demo_db t \<and> length (folio_lines t) = 1 \<and> closed_settled t"
proof -
  have "succeeds_with (\<lambda>t. length (folio_lines t) = 1)
      (run_folio demo_ctx (Append 6 L_Charge 1000 500 None [] 0 False) demo_db)"
    by (simp add: demo_defs folio_exec)
  then obtain t where t: "run_folio demo_ctx (Append 6 L_Charge 1000 500 None [] 0 False) demo_db = Inr t"
      "length (folio_lines t) = 1"
    by (rule succeeds_withE)
  from folio_stepI [OF t(1)] have step: "folio_step demo_db t" .
  moreover have "closed_settled demo_db" by (simp add: closed_settled_def demo_defs)
  ultimately show ?thesis using folio_runs [OF r_into_rtranclp [of folio_step, OF step]] t(2) by blast
qed

text \<open>Posting a manual line moves the balance of its reservation by exactly its net amount plus
  tax, or not at all when the line is part of the booked total, and leaves every other reservation's
  balance alone; the net amount is the rounded product of unit amount and quantity.\<close>

theorem append_balance:
  assumes "append_line c r type q u actor m tax included s = Inr (t, l)"
  shows "fs_balance (summary t r) = fs_balance (summary s r) + (if included then 0 else fl_gross l)
    \<and> fl_gross l = fl_net l + tax \<and> 2 * \<bar>fl_net l * 1000 - u * q\<bar> \<le> 1000
    \<and> (r_id x \<noteq> r_id r \<longrightarrow> fs_balance (summary t x) = fs_balance (summary s x))"
proof -
  note step = append_line_Inr [OF assms]
  have "2 * \<bar>fl_net l * 1000 - u * q\<bar> \<le> 1000" by (rule line_amount_near [OF step(6)])
  moreover have "fl_gross l = fl_net l + tax" using step(1,5) by (simp add: posts_def)
  ultimately show ?thesis
    using posts_balance [OF step(1), of r] posts_balance [OF step(1), of x] step(2,5,7) by auto
qed

theorem append_balance_witness:
  "\<exists>t l. append_line demo_ctx (demo_reservation 6 R_Confirmed) L_Charge 1500 333 None [] 7 False demo_db
       = Inr (t, l)
     \<and> fs_balance (summary t (demo_reservation 6 R_Confirmed))
       = fs_balance (summary demo_db (demo_reservation 6 R_Confirmed)) + 507"
proof -
  have "succeeds_with (\<lambda>(t, l). fl_gross l = 507)
      (append_line demo_ctx (demo_reservation 6 R_Confirmed) L_Charge 1500 333 None [] 7 False demo_db)"
    by (simp add: demo_defs folio_exec)
  then obtain t l where run: "append_line demo_ctx (demo_reservation 6 R_Confirmed) L_Charge 1500 333 None [] 7 False
      demo_db = Inr (t, l)" and g: "fl_gross l = 507"
    by (auto elim: succeeds_withE)
  from append_balance [OF run, of "demo_reservation 6 R_Confirmed"] g run show ?thesis by auto
qed

text \<open>Reversing a line posts its exact opposite (net, tax and gross) once: a second reversal of
  the same line, by whoever and for whatever reason, returns the first one and changes nothing, and
  a line that is itself a reversal is never reversed.\<close>

theorem reversal_once:
  assumes "reverse_line c i reason actor s = Inr (t, l)"
  shows "(\<exists>x. find_row fl_id i (folio_lines s) = Some x \<and> fl_reverses l = Some i
      \<and> (if find (\<lambda>l. fl_reverses l = Some i) (folio_lines s) = None
         then posts s l t \<and> fl_net l = - fl_net x \<and> fl_tax l = - fl_tax x
           \<and> fl_gross l = - (fl_net x + fl_tax x) \<and> fl_reverses x = None
         else t = s))
    \<and> reverse_line c' i reason' actor' t = Inr (t, l)"
  using assms
proof (cases rule: reverse_line_Inr)
  case (again x r)
  note i = find_row_Some [OF again(1)]
  have "reverse_line c' i reason' actor' s = Inr (s, l)"
    using again by (simp add: reverse_line_def find_or_fail_def reservation_or_fail_def assert_open_def)
  moreover have "fl_reverses l = Some i"
    using again(5) i by (auto simp: find_Some_iff)
  ultimately show ?thesis using again i by auto
next
  case (posted x r)
  note i = find_row_Some [OF posted(2)]
  have t: "folio_lines t = folio_lines s @ [l]" "reservations t = reservations s"
    using posted(1) by (simp_all add: posts_def)
  have "find_row fl_id i (folio_lines t) = Some x"
    using posted(2) by (simp add: t find_row_append)
  moreover have "find (\<lambda>l. fl_reverses l = Some (fl_id x)) (folio_lines t) = Some l"
    using posted(8,12) by (simp add: t find_append)
  ultimately have "reverse_line c' i reason' actor' t = Inr (t, l)"
    using posted(3,4) by (simp add: reverse_line_def find_or_fail_def reservation_or_fail_def t
        assert_open_def)
  then show ?thesis using posted i by (auto simp: posts_def)
qed

text \<open>A folio closes only after check-out and only at balance zero; while it is closed, no manual
  line can be posted to it.\<close>

theorem close_needs_settlement:
  assumes "close_folio c i actor s = Inr (t, r)" and "find_reservation s i = Some r0"
    and "r_folio_status r0 = F_Open"
  shows "r_status r0 = R_Checked_out \<and> fs_balance (summary s r0) = 0 \<and> find_reservation t i = Some r
    \<and> r_folio_status r = F_Closed \<and> fs_balance (summary t r) = 0
    \<and> append_line c' r type q u actor' m tax included t = Inl (Commercial ''folio_closed'')"
proof -
  define f where "f = (\<lambda>r::reservation. r\<lparr>r_folio_status := F_Closed,
             r_folio_closed_at := Some (clock c), r_folio_closed_by := actor\<rparr>)"
  have run: "r_status r0 = R_Checked_out" "fs_balance (summary s r0) = 0"
      "t = update_reservation i f s" "r = f r0"
    using assms by (auto simp: close_folio_def reservation_or_fail_def find_or_fail_def Let_def f_def
        split: if_splits)
  have "find_reservation t i = Some r"
    using assms(2) run by (simp add: update_reservation_frame find_row_upd_same f_def)
  moreover have "fs_balance (summary t r) = 0"
    using run by (simp add: balance_eq update_reservation_frame f_def)
  ultimately show ?thesis
    using run by (simp add: append_line_def assert_open_def f_def)
qed

theorem close_needs_settlement_witness:
  "\<exists>t r. close_folio demo_ctx 6 None (demo_db\<lparr>reservations := [demo_reservation 6 R_Checked_out\<lparr>r_total := 0\<rparr>]\<rparr>)
       = Inr (t, r) \<and> find_reservation t 6 = Some r
     \<and> append_line demo_ctx r L_Charge 1000 500 None [] 0 False t = Inl (Commercial ''folio_closed'')"
proof -
  define s where "s = demo_db\<lparr>reservations := [demo_reservation 6 R_Checked_out\<lparr>r_total := 0\<rparr>]\<rparr>"
  have "succeeds_with (\<lambda>_. True) (close_folio demo_ctx 6 None s)"
    by (simp add: s_def demo_defs close_folio_def summary_def own_lines_def folio_exec)
  then obtain t r where run: "close_folio demo_ctx 6 None s = Inr (t, r)"
    by (auto elim: succeeds_withE)
  moreover have "find_reservation s 6 = Some (demo_reservation 6 R_Checked_out\<lparr>r_total := 0\<rparr>)"
    by (simp add: s_def demo_defs find_row_def)
  ultimately show ?thesis
    using close_needs_settlement [OF run] unfolding s_def by (auto simp: demo_reservation_def)
qed

theorem reversal_once_witness:
  "\<exists>t l. reverse_line demo_ctx 8 ''wrong'' None
       (demo_db\<lparr>folio_lines := [\<lparr>fl_id = 8, fl_reservation = 6, fl_payment = None, fl_reverses = None,
          fl_type = L_Charge, fl_quantity = 1000, fl_unit = 500, fl_net = 500, fl_tax = 95,
          fl_gross = 595, fl_amount = 595, fl_currency = ''COP'', fl_posted_at = 0,
          fl_created_by = None, fl_meta = []\<rparr>]\<rparr>) = Inr (t, l)
     \<and> fl_gross l = - 595 \<and> reverse_line demo_ctx 8 ''again'' (Some 3) t = Inr (t, l)"
proof -
  define s where "s = demo_db\<lparr>folio_lines := [\<lparr>fl_id = 8, fl_reservation = 6, fl_payment = None,
          fl_reverses = None, fl_type = L_Charge, fl_quantity = 1000, fl_unit = 500, fl_net = 500,
          fl_tax = 95, fl_gross = 595, fl_amount = 595, fl_currency = ''COP'', fl_posted_at = 0,
          fl_created_by = None, fl_meta = []\<rparr>]\<rparr>"
  have "succeeds_with (\<lambda>(t, l). fl_gross l = - 595) (reverse_line demo_ctx 8 ''wrong'' None s)"
    by (simp add: s_def demo_defs folio_exec)
  then obtain t l where run: "reverse_line demo_ctx 8 ''wrong'' None s = Inr (t, l)" "fl_gross l = - 595"
    by (auto elim: succeeds_withE)
  with reversal_once [OF run(1)] show ?thesis unfolding s_def by blast
qed

end
