(* ===== verification/Promotions.thy ===== *)
theory Promotions
  imports Schema
begin

text \<open>
  \<^verbatim>\<open>CommercialPromotionService\<close>: which promotions a quote may use, how they are deducted, and the
  ledger of their use (a usage per promotion and quote, a redemption per voucher), which is reserved
  when a quote is committed, confirmed with the reservation, released, superseded by an amendment and
  revisited on a refund. The keyed hashes of voucher codes and session ids are arguments of the
  definitions; only equality of hashes matters here.
\<close>

subsection \<open>Eligibility\<close>

record promo_input =
  pi_property :: id
  pi_rate_plan :: "id option"
  pi_category :: "id option"
  pi_program :: "id option"
  pi_nights :: int
  pi_voucher_code :: "string option"
  pi_voucher_id :: "id option"
  pi_amendment_of :: "id option"
  pi_session_hash :: "string option"
  pi_session_id :: "string option"

record eligible_promotion =
  ep_promotion :: promotion
  ep_voucher :: "id option"
  ep_session :: "string option"

abbreviation voucher_error :: failure where
  "voucher_error \<equiv> Validation ''voucher_code''"

definition not_empty :: "string option \<Rightarrow> bool" where
  "not_empty x = (case x of None \<Rightarrow> False | Some v \<Rightarrow> v \<noteq> [] \<and> v \<noteq> ''0'')"

definition lower_hex :: "char \<Rightarrow> bool" where
  "lower_hex ch \<longleftrightarrow> ch \<in> set ''0123456789abcdef''"

definition trusted_session_hash :: "string option \<Rightarrow> string option res" where
  "trusted_session_hash h = (case h of
     None \<Rightarrow> Inr None
   | Some v \<Rightarrow> if v = [] then Inr None
               else if length v = 64 \<and> list_all lower_hex v then Inr (Some v)
               else Inl voucher_error)"

definition session_hash :: "(string \<Rightarrow> string) \<Rightarrow> string option \<Rightarrow> string option res" where
  "session_hash hmac i = (case i of
     None \<Rightarrow> Inr None
   | Some v \<Rightarrow> if v = [] then Inr None
               else if length v < 16 \<or> 200 < length v then Inl voucher_error
               else Inr (Some (hmac v)))"

definition published_for :: "promo_input \<Rightarrow> string \<Rightarrow> day \<Rightarrow> promotion \<Rightarrow> bool" where
  "published_for inp currency business p \<longleftrightarrow> pm_state p = ''published'' \<and> pm_currency p = currency
     \<and> (pm_property p = None \<or> pm_property p = Some (pi_property inp))
     \<and> (case pm_valid_from p of None \<Rightarrow> True | Some d \<Rightarrow> d \<le> business)
     \<and> (case pm_valid_until p of None \<Rightarrow> True | Some d \<Rightarrow> business \<le> d)"

definition candidate_promotions :: "db \<Rightarrow> promo_input \<Rightarrow> string \<Rightarrow> day \<Rightarrow> promotion list" where
  "candidate_promotions s inp currency business =
     sort_key (\<lambda>p. - pm_priority p) (sort_key pm_id (filter (published_for inp currency business) (promotions s)))"

definition resolve_voucher ::
  "ctx \<Rightarrow> db \<Rightarrow> (string \<Rightarrow> string option) \<Rightarrow> promo_input \<Rightarrow> voucher option res" where
  "resolve_voucher c s code_hash inp =
     (if not_empty (pi_voucher_code inp) then
        (case code_hash (the (pi_voucher_code inp)) of
           None \<Rightarrow> Inl voucher_error
         | Some h \<Rightarrow>
           (case find (\<lambda>v. vc_code_hash v = h \<and> vc_state v = ''active''
                   \<and> (vc_property v = None \<or> vc_property v = Some (pi_property inp))) (vouchers s) of
              None \<Rightarrow> Inl voucher_error
            | Some v \<Rightarrow>
              if (case vc_valid_from v of None \<Rightarrow> False | Some t \<Rightarrow> clock c < t)
                 \<or> (case vc_valid_until v of None \<Rightarrow> False | Some t \<Rightarrow> t < clock c)
              then Inl voucher_error else Inr (Some v)))
      else (case (pi_voucher_id inp, pi_amendment_of inp) of
              (Some vid, Some rid) \<Rightarrow>
                (case find (\<lambda>v. vc_id v = vid
                        \<and> (\<exists>d \<in> set (redemptions s). rd_voucher d = vid \<and> rd_reservation d = rid)) (vouchers s) of
                   None \<Rightarrow> Inl voucher_error
                 | Some v \<Rightarrow> Inr (Some v))
            | _ \<Rightarrow> Inr None))"

definition in_scope :: "id list \<Rightarrow> id option \<Rightarrow> bool" where
  "in_scope allowed x \<longleftrightarrow> allowed = [] \<or> (case x of None \<Rightarrow> False | Some i \<Rightarrow> i \<in> set allowed)"

definition applies :: "voucher option \<Rightarrow> promo_input \<Rightarrow> promotion \<Rightarrow> bool" where
  "applies v inp p \<longleftrightarrow>
     \<not> (pm_requires_code p \<and> map_option vc_promotion v \<noteq> Some (pm_id p))
     \<and> in_scope (pm_rate_plans p) (pi_rate_plan inp)
     \<and> in_scope (pm_categories p) (pi_category inp)
     \<and> in_scope (pm_programs p) (pi_program inp)
     \<and> or_default (pm_minimum_stay p) 0 \<le> pi_nights inp
     \<and> (case pm_maximum_stay p of None \<Rightarrow> True | Some n \<Rightarrow> pi_nights inp \<le> n)"

text \<open>The first promotion of each stacking group, in order; ungrouped ones all stay.\<close>

fun one_per_group :: "string list \<Rightarrow> promotion list \<Rightarrow> promotion list" where
  "one_per_group seen [] = []"
| "one_per_group seen (p # ps) = (case pm_stacking_group p of
     None \<Rightarrow> p # one_per_group seen ps
   | Some g \<Rightarrow> if g \<in> set seen then one_per_group seen ps else p # one_per_group (g # seen) ps)"

definition select_promotions :: "promotion list \<Rightarrow> promotion list" where
  "select_promotions ps = (case find pm_exclusive ps of Some p \<Rightarrow> [p] | None \<Rightarrow> one_per_group [] ps)"

definition eligible ::
  "ctx \<Rightarrow> db \<Rightarrow> (string \<Rightarrow> string option) \<Rightarrow> (string \<Rightarrow> string) \<Rightarrow> promo_input \<Rightarrow> string \<Rightarrow> day
   \<Rightarrow> eligible_promotion list res" where
  "eligible c s code_hash hmac inp currency business =
     bindE (resolve_voucher c s code_hash inp) (\<lambda>v.
     bindE (trusted_session_hash (pi_session_hash inp)) (\<lambda>trusted.
     bindE (case trusted of Some h \<Rightarrow> Inr (Some h) | None \<Rightarrow> session_hash hmac (pi_session_id inp)) (\<lambda>session.
     Inr (map (\<lambda>p. \<lparr>ep_promotion = p,
                    ep_voucher = (if pm_requires_code p then map_option vc_id v else None),
                    ep_session = session\<rparr>)
            (select_promotions (filter (applies v inp) (candidate_promotions s inp currency business)))))))"

subsection \<open>Deduction\<close>

record promo_fact =
  pf_promotion :: id
  pf_version :: int
  pf_voucher :: "id option"
  pf_priority :: int
  pf_discount :: money

record discount_line =
  dl_order :: int
  dl_pre :: money
  dl_amount :: money
  dl_post :: money

record discount_result =
  dr_discount :: money
  dr_lines :: "discount_line list"
  dr_snapshot :: "promo_fact list"
  dr_voucher :: "id option"
  dr_session :: "string option"

definition promotion_amount :: "promotion \<Rightarrow> money \<Rightarrow> money res" where
  "promotion_amount p remaining =
     (if pm_discount_type p = ''fixed'' then Inr (min remaining (or_default (pm_fixed p) 0))
      else bindE (promotion_percentage remaining (or_default (pm_percentage p) 0)) (\<lambda>n. Inr (min remaining n)))"

definition first_some :: "'a option \<Rightarrow> 'a option \<Rightarrow> 'a option" where
  "first_some x y = (case x of Some v \<Rightarrow> Some v | None \<Rightarrow> y)"

fun deduct :: "int \<Rightarrow> eligible_promotion list \<Rightarrow> money \<Rightarrow> discount_result \<Rightarrow> discount_result res" where
  "deduct index [] remaining acc = Inr acc"
| "deduct index (e # es) remaining acc =
     bindE (promotion_amount (ep_promotion e) remaining) (\<lambda>amount.
     if amount \<le> 0 then deduct (index + 1) es remaining acc
     else
       let p = ep_promotion e; rest = remaining - amount in
       deduct (index + 1) es rest
         \<lparr>dr_discount = dr_discount acc + amount,
          dr_lines = dr_lines acc @ [\<lparr>dl_order = 300 + index, dl_pre = rest + amount,
                        dl_amount = - amount, dl_post = rest\<rparr>],
          dr_snapshot = dr_snapshot acc @ [\<lparr>pf_promotion = pm_id p, pf_version = pm_version p,
                        pf_voucher = ep_voucher e, pf_priority = pm_priority p, pf_discount = amount\<rparr>],
          dr_voucher = first_some (dr_voucher acc) (ep_voucher e),
          dr_session = first_some (dr_session acc) (ep_session e)\<rparr>)"

definition calculate_discounts :: "eligible_promotion list \<Rightarrow> money \<Rightarrow> discount_result res" where
  "calculate_discounts es eligible_minor =
     deduct 0 es (max 0 eligible_minor)
       \<lparr>dr_discount = 0, dr_lines = [], dr_snapshot = [], dr_voucher = None, dr_session = None\<rparr>"

subsection \<open>The usage ledger\<close>

record quote_ref =
  qr_id :: id
  qr_currency :: string
  qr_session :: "string option"
  qr_promotions :: "promo_fact list"

definition in_use :: "string \<Rightarrow> bool" where
  "in_use st \<longleftrightarrow> st \<in> {''reserved'', ''confirmed''}"

definition usage_event :: "ctx \<Rightarrow> id \<Rightarrow> string \<Rightarrow> meta \<Rightarrow> user_id option \<Rightarrow> db \<Rightarrow> db" where
  "usage_event c u type facts actor s =
     s\<lparr>usage_events := usage_events s @ [\<lparr>ev_subject = u,
         ev_actor = first_some actor (auth_id c), ev_type = type, ev_reason = [], ev_facts = facts,
         ev_at = clock c\<rparr>]\<rparr>"

definition redemption_event :: "ctx \<Rightarrow> id \<Rightarrow> string \<Rightarrow> string \<Rightarrow> meta \<Rightarrow> user_id option \<Rightarrow> db \<Rightarrow> db" where
  "redemption_event c d type reason facts actor s =
     s\<lparr>redemption_events := redemption_events s @ [\<lparr>ev_subject = d,
         ev_actor = first_some actor (auth_id c), ev_type = type, ev_reason = reason, ev_facts = facts,
         ev_at = clock c\<rparr>]\<rparr>"

text \<open>The rows that count against a promotion: in an amendment the reservation's own are left out.\<close>

definition counts_usage :: "bool \<Rightarrow> id \<Rightarrow> id \<Rightarrow> usage \<Rightarrow> bool" where
  "counts_usage amendment r i u \<longleftrightarrow> us_promotion u = i \<and> in_use (us_state u)
     \<and> \<not> (amendment \<and> us_reservation u = r)"

definition counts_redemption :: "bool \<Rightarrow> id \<Rightarrow> id \<Rightarrow> redemption \<Rightarrow> bool" where
  "counts_redemption amendment r i d \<longleftrightarrow> rd_voucher d = i \<and> in_use (rd_state d)
     \<and> \<not> (amendment \<and> rd_reservation d = r)"

definition reached :: "int option \<Rightarrow> int \<Rightarrow> bool" where
  "reached limit n = (case limit of None \<Rightarrow> False | Some l \<Rightarrow> l \<le> n)"

definition exceeded :: "int option \<Rightarrow> int \<Rightarrow> bool" where
  "exceeded limit n = (case limit of None \<Rightarrow> False | Some l \<Rightarrow> l < n)"

definition one :: "'a \<Rightarrow> int" where
  "one x = 1"

definition promotion_exhausted ::
  "db \<Rightarrow> bool \<Rightarrow> id \<Rightarrow> id option \<Rightarrow> string option \<Rightarrow> money \<Rightarrow> promotion \<Rightarrow> bool" where
  "promotion_exhausted s amendment r guest session discount p \<longleftrightarrow>
     (let active = counts_usage amendment r (pm_id p) in
      reached (pm_usage_limit p) (sum_where active one (usages s))
      \<or> exceeded (pm_budget p) (sum_where active us_discount (usages s) + discount)
      \<or> (guest \<noteq> None \<and> reached (pm_per_guest p)
           (sum_where (\<lambda>u. active u \<and> us_guest u = guest) one (usages s)))
      \<or> (pm_per_session p \<noteq> None \<and> (session = None \<or> reached (pm_per_session p)
           (sum_where (\<lambda>u. active u \<and> us_session u = session) one (usages s)))))"

definition voucher_exhausted ::
  "db \<Rightarrow> bool \<Rightarrow> id \<Rightarrow> id option \<Rightarrow> string option \<Rightarrow> money \<Rightarrow> promotion \<Rightarrow> voucher \<Rightarrow> bool" where
  "voucher_exhausted s amendment r guest session discount p v \<longleftrightarrow>
     (let active = counts_redemption amendment r (vc_id v) in
      reached (first_some (vc_usage_limit v) (pm_usage_limit p)) (sum_where active one (redemptions s))
      \<or> exceeded (first_some (vc_budget v) (pm_budget p)) (sum_where active rd_discount (redemptions s) + discount)
      \<or> (guest \<noteq> None \<and> reached (first_some (vc_per_guest v) (pm_per_guest p))
           (sum_where (\<lambda>d. active d \<and> rd_guest d = guest) one (redemptions s)))
      \<or> (first_some (vc_per_session v) (pm_per_session p) \<noteq> None
           \<and> (session = None \<or> reached (first_some (vc_per_session v) (pm_per_session p))
                (sum_where (\<lambda>d. active d \<and> rd_session d = session) one (redemptions s)))))"

definition usable_voucher ::
  "db \<Rightarrow> bool \<Rightarrow> reservation \<Rightarrow> id option \<Rightarrow> string option \<Rightarrow> money \<Rightarrow> promotion \<Rightarrow> id option
   \<Rightarrow> voucher option res" where
  "usable_voucher s amendment r guest session discount p vid = (case vid of
     None \<Rightarrow> Inr None
   | Some i \<Rightarrow>
     bindE (find_or_fail ''vouchers'' vc_id i (vouchers s)) (\<lambda>v.
     if vc_state v \<noteq> ''active'' \<or> vc_promotion v \<noteq> pm_id p
        \<or> (vc_property v \<noteq> None \<and> vc_property v \<noteq> Some (r_property r))
        \<or> voucher_exhausted s amendment (r_id r) guest session discount p v
     then Inl voucher_error else Inr (Some v)))"

definition new_usage ::
  "ctx \<Rightarrow> quote_ref \<Rightarrow> reservation \<Rightarrow> id option \<Rightarrow> promo_fact \<Rightarrow> id option \<Rightarrow> db \<Rightarrow> db" where
  "new_usage c q r guest f vid s =
     (let u = next_id s in
      usage_event c u ''reserved'' [(''quote_id'', J_Id (qr_id q)), (''discount_minor'', J_Int (pf_discount f)),
          (''promotion_version'', J_Int (pf_version f))] None
        (s\<lparr>usages := usages s @ [\<lparr>us_id = u, us_promotion = pf_promotion f, us_voucher = vid,
             us_quote = qr_id q, us_reservation = r_id r, us_guest = guest, us_session = qr_session q,
             us_state = ''reserved'', us_discount = pf_discount f, us_superseded_by = None,
             us_at = clock c, us_confirmed_at = None, us_released_at = None\<rparr>],
           next_id := Suc u\<rparr>))"

definition new_redemption ::
  "ctx \<Rightarrow> quote_ref \<Rightarrow> reservation \<Rightarrow> id option \<Rightarrow> promo_fact \<Rightarrow> id \<Rightarrow> db \<Rightarrow> db" where
  "new_redemption c q r guest f vid s =
     (let d = next_id s in
      redemption_event c d ''reserved'' ''Atomic booking hold''
          [(''quote_id'', J_Id (qr_id q)), (''discount_minor'', J_Int (pf_discount f))] None
        (s\<lparr>redemptions := redemptions s @ [\<lparr>rd_id = d, rd_voucher = vid, rd_quote = qr_id q,
             rd_reservation = r_id r, rd_guest = guest, rd_session = qr_session q,
             rd_state = ''reserved'', rd_discount = pf_discount f, rd_at = clock c,
             rd_confirmed_at = None, rd_released_at = None\<rparr>],
           next_id := Suc d\<rparr>))"

definition reserve_one ::
  "ctx \<Rightarrow> quote_ref \<Rightarrow> reservation \<Rightarrow> id option \<Rightarrow> bool \<Rightarrow> promo_fact \<Rightarrow> db \<Rightarrow> db res" where
  "reserve_one c q r guest amendment f s =
     (if pf_discount f \<le> 0 then Inr s
      else if \<exists>u \<in> set (usages s). us_promotion u = pf_promotion f \<and> us_quote u = qr_id q then Inr s
      else
        bindE (find_or_fail ''commercial_promotions'' pm_id (pf_promotion f) (promotions s)) (\<lambda>p.
        if promotion_exhausted s amendment (r_id r) guest (qr_session q) (pf_discount f) p
        then Inl voucher_error
        else
          bindE (usable_voucher s amendment r guest (qr_session q) (pf_discount f) p (pf_voucher f)) (\<lambda>v.
          let s1 = new_usage c q r guest f (map_option vc_id v) s in
          Inr (case v of None \<Rightarrow> s1 | Some w \<Rightarrow> new_redemption c q r guest f (vc_id w) s1))))"

definition reserve_for_commit ::
  "ctx \<Rightarrow> quote_ref \<Rightarrow> reservation \<Rightarrow> id option \<Rightarrow> bool \<Rightarrow> db \<Rightarrow> db res" where
  "reserve_for_commit c q r guest amendment s =
     foldE (reserve_one c q r guest amendment)
       (sort_key (\<lambda>f. - pf_priority f) (sort_key pf_promotion (qr_promotions q))) s"

subsection \<open>Confirmation and release\<close>

definition confirm_usages :: "ctx \<Rightarrow> id \<Rightarrow> db \<Rightarrow> db" where
  "confirm_usages c r s =
     (let held = (\<lambda>u. us_reservation u = r \<and> us_state u = ''reserved'');
          ids = map us_id (filter held (usages s)) in
      fold (\<lambda>u. usage_event c u ''confirmed'' [] None) ids
        (s\<lparr>usages := upd_where held (\<lambda>u. u\<lparr>us_state := ''confirmed'',
             us_confirmed_at := Some (clock c), us_released_at := None\<rparr>) (usages s)\<rparr>))"

definition confirm_redemptions :: "ctx \<Rightarrow> id \<Rightarrow> db \<Rightarrow> db" where
  "confirm_redemptions c r s =
     (let held = (\<lambda>d. rd_reservation d = r \<and> rd_state d \<in> {''reserved'', ''reinstated''});
          ids = map rd_id (filter held (redemptions s)) in
      fold (\<lambda>d. redemption_event c d ''confirmed'' ''Reservation confirmed'' [] None) ids
        (s\<lparr>redemptions := upd_where held (\<lambda>d. d\<lparr>rd_state := ''confirmed'',
             rd_confirmed_at := Some (clock c), rd_released_at := None\<rparr>) (redemptions s)\<rparr>))"

definition confirm_promotions :: "ctx \<Rightarrow> id \<Rightarrow> db \<Rightarrow> db" where
  "confirm_promotions c r s = confirm_redemptions c r (confirm_usages c r s)"

definition reinstates :: "db \<Rightarrow> id \<Rightarrow> bool" where
  "reinstates s i = (case find_row pm_id i (promotions s) of None \<Rightarrow> False | Some p \<Rightarrow> pm_reinstate_on_cancel p)"

definition voucher_reinstates :: "db \<Rightarrow> id \<Rightarrow> bool" where
  "voucher_reinstates s i = (case find_row vc_id i (vouchers s) of
     None \<Rightarrow> False | Some v \<Rightarrow> reinstates s (vc_promotion v))"

definition release_usage :: "ctx \<Rightarrow> usage \<Rightarrow> usage" where
  "release_usage c u = u\<lparr>us_state := ''released'', us_released_at := Some (clock c)\<rparr>"

definition release_redemption :: "ctx \<Rightarrow> redemption \<Rightarrow> redemption" where
  "release_redemption c d = d\<lparr>rd_state := ''released'', rd_released_at := Some (clock c)\<rparr>"

definition release_promotions :: "ctx \<Rightarrow> id \<Rightarrow> string \<Rightarrow> bool \<Rightarrow> db \<Rightarrow> db" where
  "release_promotions c r reason cancellation s =
     (let goes = (\<lambda>u. us_reservation u = r \<and> in_use (us_state u)
            \<and> (\<not> cancellation \<or> reinstates s (us_promotion u)));
          s1 = fold (\<lambda>u. usage_event c u ''released'' [(''reason'', J_Str reason),
                 (''cancellation'', J_Bool cancellation)] None) (map us_id (filter goes (usages s)))
               (s\<lparr>usages := upd_where goes (release_usage c) (usages s)\<rparr>);
          held = (\<lambda>d. rd_reservation d = r \<and> in_use (rd_state d));
          back = (\<lambda>d. \<not> cancellation \<or> voucher_reinstates s (rd_voucher d)) in
      fold (\<lambda>d. redemption_event c (rd_id d) (if back d then ''released'' else ''retained'') reason
              [(''cancellation'', J_Bool cancellation)] None) (filter held (redemptions s))
        (s1\<lparr>redemptions := upd_where (\<lambda>d. held d \<and> back d) (release_redemption c) (redemptions s)\<rparr>))"

subsection \<open>Amendment and refund\<close>

definition supersede_usage :: "ctx \<Rightarrow> quote_ref \<Rightarrow> usage \<Rightarrow> db \<Rightarrow> db" where
  "supersede_usage c q u s =
     (let replacement = find (\<lambda>x. us_quote x = qr_id q \<and> us_promotion x = us_promotion u) (usages s) in
      usage_event c (us_id u) ''superseded''
        [(''replacement_usage_id'', j_opt J_Id (map_option us_id replacement)),
         (''discount_delta_minor'', J_Int ((case replacement of None \<Rightarrow> 0 | Some x \<Rightarrow> us_discount x) - us_discount u))]
        None
        (s\<lparr>usages := upd_row us_id (us_id u) (\<lambda>x. (release_usage c x)\<lparr>us_superseded_by :=
             map_option us_id replacement\<rparr>) (usages s)\<rparr>))"

definition supersede_redemption :: "ctx \<Rightarrow> quote_ref \<Rightarrow> redemption \<Rightarrow> db \<Rightarrow> db" where
  "supersede_redemption c q d s =
     redemption_event c (rd_id d) ''superseded'' ''Reservation amendment''
       [(''replacement_quote_id'', J_Id (qr_id q))] None
       (s\<lparr>redemptions := upd_row rd_id (rd_id d) (release_redemption c) (redemptions s)\<rparr>)"

definition replace_for_amendment ::
  "ctx \<Rightarrow> quote_ref \<Rightarrow> reservation \<Rightarrow> id option \<Rightarrow> db \<Rightarrow> db res" where
  "replace_for_amendment c q r guest s =
     (let old_usages = filter (\<lambda>u. us_reservation u = r_id r \<and> in_use (us_state u)) (usages s);
          old_redemptions = filter (\<lambda>d. rd_reservation d = r_id r \<and> in_use (rd_state d)) (redemptions s) in
      bindE (reserve_for_commit c q r guest True s) (\<lambda>s1.
      let s2 = fold (supersede_usage c q) old_usages s1;
          s3 = fold (supersede_redemption c q) old_redemptions s2 in
      Inr (if r_status r = R_Confirmed then confirm_promotions c (r_id r) s3 else s3)))"

definition refund_facts :: "change \<Rightarrow> meta" where
  "refund_facts refund = [(''refund_change_id'', J_Id (ch_id refund)),
     (''refund_amount_minor'', j_opt J_Int (ch_amount refund))]"

definition record_refund_completion :: "ctx \<Rightarrow> reservation \<Rightarrow> change \<Rightarrow> user_id option \<Rightarrow> db \<Rightarrow> db" where
  "record_refund_completion c r refund actor s =
     (let closed = (r_status r \<in> {R_Cancelled, R_No_show});
          own = filter (\<lambda>u. us_reservation u = r_id r) (usages s);
          back = (\<lambda>u. closed \<and> reinstates s (us_promotion u));
          s1 = fold (\<lambda>u. usage_event c (us_id u) (if back u then ''refund_reinstated'' else ''refund_retained'')
                 (refund_facts refund @ [(''policy'', J_Str (if back u then ''reinstate_on_cancel'' else ''retain''))])
                 actor) own
               (s\<lparr>usages := upd_where (\<lambda>u. us_reservation u = r_id r \<and> back u \<and> in_use (us_state u))
                    (release_usage c) (usages s)\<rparr>);
          own_red = filter (\<lambda>d. rd_reservation d = r_id r) (redemptions s);
          back_red = (\<lambda>d. closed \<and> voucher_reinstates s (rd_voucher d)) in
      fold (\<lambda>d. redemption_event c (rd_id d) (if back_red d then ''refund_reinstated'' else ''refund_retained'')
              (if back_red d then ''Refund completed after eligible cancellation''
               else ''Refund completed; promotion policy retains use'') (refund_facts refund) actor) own_red
        (s1\<lparr>redemptions := upd_where (\<lambda>d. rd_reservation d = r_id r \<and> back_red d
               \<and> rd_state d \<in> {''reserved'', ''confirmed'', ''reinstated''})
             (release_redemption c) (redemptions s)\<rparr>))"

subsection \<open>What the ledger operations leave alone\<close>

lemma usage_event_frame [frame_simps]:
  "properties (usage_event c u ty fa ac s) = properties s"
  "categories (usage_event c u ty fa ac s) = categories s"
  "resources (usage_event c u ty fa ac s) = resources s"
  "blocks (usage_event c u ty fa ac s) = blocks s"
  "occurrences (usage_event c u ty fa ac s) = occurrences s"
  "programs (usage_event c u ty fa ac s) = programs s"
  "memberships (usage_event c u ty fa ac s) = memberships s"
  "reservations (usage_event c u ty fa ac s) = reservations s"
  "allocations (usage_event c u ty fa ac s) = allocations s"
  "histories (usage_event c u ty fa ac s) = histories s"
  "changes (usage_event c u ty fa ac s) = changes s"
  "folio_lines (usage_event c u ty fa ac s) = folio_lines s"
  "payments (usage_event c u ty fa ac s) = payments s"
  "payment_requests (usage_event c u ty fa ac s) = payment_requests s"
  "payment_attempts (usage_event c u ty fa ac s) = payment_attempts s"
  "deposits (usage_event c u ty fa ac s) = deposits s"
  "disputes (usage_event c u ty fa ac s) = disputes s"
  "promotions (usage_event c u ty fa ac s) = promotions s"
  "vouchers (usage_event c u ty fa ac s) = vouchers s"
  "usages (usage_event c u ty fa ac s) = usages s"
  "redemptions (usage_event c u ty fa ac s) = redemptions s"
  "redemption_events (usage_event c u ty fa ac s) = redemption_events s"
  "tasks (usage_event c u ty fa ac s) = tasks s"
  "task_events (usage_event c u ty fa ac s) = task_events s"
  "outbox (usage_event c u ty fa ac s) = outbox s"
  "next_id (usage_event c u ty fa ac s) = next_id s"
  by (simp_all add: usage_event_def)

lemma redemption_event_frame [frame_simps]:
  "properties (redemption_event c u ty re fa ac s) = properties s"
  "categories (redemption_event c u ty re fa ac s) = categories s"
  "resources (redemption_event c u ty re fa ac s) = resources s"
  "blocks (redemption_event c u ty re fa ac s) = blocks s"
  "occurrences (redemption_event c u ty re fa ac s) = occurrences s"
  "programs (redemption_event c u ty re fa ac s) = programs s"
  "memberships (redemption_event c u ty re fa ac s) = memberships s"
  "reservations (redemption_event c u ty re fa ac s) = reservations s"
  "allocations (redemption_event c u ty re fa ac s) = allocations s"
  "histories (redemption_event c u ty re fa ac s) = histories s"
  "changes (redemption_event c u ty re fa ac s) = changes s"
  "folio_lines (redemption_event c u ty re fa ac s) = folio_lines s"
  "payments (redemption_event c u ty re fa ac s) = payments s"
  "payment_requests (redemption_event c u ty re fa ac s) = payment_requests s"
  "payment_attempts (redemption_event c u ty re fa ac s) = payment_attempts s"
  "deposits (redemption_event c u ty re fa ac s) = deposits s"
  "disputes (redemption_event c u ty re fa ac s) = disputes s"
  "promotions (redemption_event c u ty re fa ac s) = promotions s"
  "vouchers (redemption_event c u ty re fa ac s) = vouchers s"
  "usages (redemption_event c u ty re fa ac s) = usages s"
  "usage_events (redemption_event c u ty re fa ac s) = usage_events s"
  "redemptions (redemption_event c u ty re fa ac s) = redemptions s"
  "tasks (redemption_event c u ty re fa ac s) = tasks s"
  "task_events (redemption_event c u ty re fa ac s) = task_events s"
  "outbox (redemption_event c u ty re fa ac s) = outbox s"
  "next_id (redemption_event c u ty re fa ac s) = next_id s"
  by (simp_all add: redemption_event_def)

lemma fold_usage_event_frame [frame_simps]:
  "properties (fold (\<lambda>u. usage_event c (i u) (ty u) (fa u) ac) xs s) = properties s"
  "categories (fold (\<lambda>u. usage_event c (i u) (ty u) (fa u) ac) xs s) = categories s"
  "resources (fold (\<lambda>u. usage_event c (i u) (ty u) (fa u) ac) xs s) = resources s"
  "blocks (fold (\<lambda>u. usage_event c (i u) (ty u) (fa u) ac) xs s) = blocks s"
  "occurrences (fold (\<lambda>u. usage_event c (i u) (ty u) (fa u) ac) xs s) = occurrences s"
  "programs (fold (\<lambda>u. usage_event c (i u) (ty u) (fa u) ac) xs s) = programs s"
  "memberships (fold (\<lambda>u. usage_event c (i u) (ty u) (fa u) ac) xs s) = memberships s"
  "reservations (fold (\<lambda>u. usage_event c (i u) (ty u) (fa u) ac) xs s) = reservations s"
  "allocations (fold (\<lambda>u. usage_event c (i u) (ty u) (fa u) ac) xs s) = allocations s"
  "histories (fold (\<lambda>u. usage_event c (i u) (ty u) (fa u) ac) xs s) = histories s"
  "changes (fold (\<lambda>u. usage_event c (i u) (ty u) (fa u) ac) xs s) = changes s"
  "folio_lines (fold (\<lambda>u. usage_event c (i u) (ty u) (fa u) ac) xs s) = folio_lines s"
  "payments (fold (\<lambda>u. usage_event c (i u) (ty u) (fa u) ac) xs s) = payments s"
  "payment_requests (fold (\<lambda>u. usage_event c (i u) (ty u) (fa u) ac) xs s) = payment_requests s"
  "payment_attempts (fold (\<lambda>u. usage_event c (i u) (ty u) (fa u) ac) xs s) = payment_attempts s"
  "deposits (fold (\<lambda>u. usage_event c (i u) (ty u) (fa u) ac) xs s) = deposits s"
  "disputes (fold (\<lambda>u. usage_event c (i u) (ty u) (fa u) ac) xs s) = disputes s"
  "promotions (fold (\<lambda>u. usage_event c (i u) (ty u) (fa u) ac) xs s) = promotions s"
  "vouchers (fold (\<lambda>u. usage_event c (i u) (ty u) (fa u) ac) xs s) = vouchers s"
  "usages (fold (\<lambda>u. usage_event c (i u) (ty u) (fa u) ac) xs s) = usages s"
  "redemptions (fold (\<lambda>u. usage_event c (i u) (ty u) (fa u) ac) xs s) = redemptions s"
  "redemption_events (fold (\<lambda>u. usage_event c (i u) (ty u) (fa u) ac) xs s) = redemption_events s"
  "tasks (fold (\<lambda>u. usage_event c (i u) (ty u) (fa u) ac) xs s) = tasks s"
  "task_events (fold (\<lambda>u. usage_event c (i u) (ty u) (fa u) ac) xs s) = task_events s"
  "outbox (fold (\<lambda>u. usage_event c (i u) (ty u) (fa u) ac) xs s) = outbox s"
  "next_id (fold (\<lambda>u. usage_event c (i u) (ty u) (fa u) ac) xs s) = next_id s"
  by (induction xs arbitrary: s) (simp_all add: frame_simps)

lemma fold_redemption_event_frame [frame_simps]:
  "properties (fold (\<lambda>u. redemption_event c (i u) (ty u) (re u) (fa u) ac) xs s) = properties s"
  "categories (fold (\<lambda>u. redemption_event c (i u) (ty u) (re u) (fa u) ac) xs s) = categories s"
  "resources (fold (\<lambda>u. redemption_event c (i u) (ty u) (re u) (fa u) ac) xs s) = resources s"
  "blocks (fold (\<lambda>u. redemption_event c (i u) (ty u) (re u) (fa u) ac) xs s) = blocks s"
  "occurrences (fold (\<lambda>u. redemption_event c (i u) (ty u) (re u) (fa u) ac) xs s) = occurrences s"
  "programs (fold (\<lambda>u. redemption_event c (i u) (ty u) (re u) (fa u) ac) xs s) = programs s"
  "memberships (fold (\<lambda>u. redemption_event c (i u) (ty u) (re u) (fa u) ac) xs s) = memberships s"
  "reservations (fold (\<lambda>u. redemption_event c (i u) (ty u) (re u) (fa u) ac) xs s) = reservations s"
  "allocations (fold (\<lambda>u. redemption_event c (i u) (ty u) (re u) (fa u) ac) xs s) = allocations s"
  "histories (fold (\<lambda>u. redemption_event c (i u) (ty u) (re u) (fa u) ac) xs s) = histories s"
  "changes (fold (\<lambda>u. redemption_event c (i u) (ty u) (re u) (fa u) ac) xs s) = changes s"
  "folio_lines (fold (\<lambda>u. redemption_event c (i u) (ty u) (re u) (fa u) ac) xs s) = folio_lines s"
  "payments (fold (\<lambda>u. redemption_event c (i u) (ty u) (re u) (fa u) ac) xs s) = payments s"
  "payment_requests (fold (\<lambda>u. redemption_event c (i u) (ty u) (re u) (fa u) ac) xs s) = payment_requests s"
  "payment_attempts (fold (\<lambda>u. redemption_event c (i u) (ty u) (re u) (fa u) ac) xs s) = payment_attempts s"
  "deposits (fold (\<lambda>u. redemption_event c (i u) (ty u) (re u) (fa u) ac) xs s) = deposits s"
  "disputes (fold (\<lambda>u. redemption_event c (i u) (ty u) (re u) (fa u) ac) xs s) = disputes s"
  "promotions (fold (\<lambda>u. redemption_event c (i u) (ty u) (re u) (fa u) ac) xs s) = promotions s"
  "vouchers (fold (\<lambda>u. redemption_event c (i u) (ty u) (re u) (fa u) ac) xs s) = vouchers s"
  "usages (fold (\<lambda>u. redemption_event c (i u) (ty u) (re u) (fa u) ac) xs s) = usages s"
  "usage_events (fold (\<lambda>u. redemption_event c (i u) (ty u) (re u) (fa u) ac) xs s) = usage_events s"
  "redemptions (fold (\<lambda>u. redemption_event c (i u) (ty u) (re u) (fa u) ac) xs s) = redemptions s"
  "tasks (fold (\<lambda>u. redemption_event c (i u) (ty u) (re u) (fa u) ac) xs s) = tasks s"
  "task_events (fold (\<lambda>u. redemption_event c (i u) (ty u) (re u) (fa u) ac) xs s) = task_events s"
  "outbox (fold (\<lambda>u. redemption_event c (i u) (ty u) (re u) (fa u) ac) xs s) = outbox s"
  "next_id (fold (\<lambda>u. redemption_event c (i u) (ty u) (re u) (fa u) ac) xs s) = next_id s"
  by (induction xs arbitrary: s) (simp_all add: frame_simps)

lemma confirm_promotions_frame [frame_simps]:
  "properties (confirm_promotions c r s) = properties s"
  "categories (confirm_promotions c r s) = categories s"
  "resources (confirm_promotions c r s) = resources s"
  "blocks (confirm_promotions c r s) = blocks s"
  "occurrences (confirm_promotions c r s) = occurrences s"
  "programs (confirm_promotions c r s) = programs s"
  "memberships (confirm_promotions c r s) = memberships s"
  "reservations (confirm_promotions c r s) = reservations s"
  "allocations (confirm_promotions c r s) = allocations s"
  "histories (confirm_promotions c r s) = histories s"
  "changes (confirm_promotions c r s) = changes s"
  "folio_lines (confirm_promotions c r s) = folio_lines s"
  "payments (confirm_promotions c r s) = payments s"
  "payment_requests (confirm_promotions c r s) = payment_requests s"
  "payment_attempts (confirm_promotions c r s) = payment_attempts s"
  "deposits (confirm_promotions c r s) = deposits s"
  "disputes (confirm_promotions c r s) = disputes s"
  "promotions (confirm_promotions c r s) = promotions s"
  "vouchers (confirm_promotions c r s) = vouchers s"
  "tasks (confirm_promotions c r s) = tasks s"
  "task_events (confirm_promotions c r s) = task_events s"
  "outbox (confirm_promotions c r s) = outbox s"
  "next_id (confirm_promotions c r s) = next_id s"
  by (simp_all add: confirm_promotions_def confirm_usages_def confirm_redemptions_def Let_def frame_simps)

lemma release_promotions_frame [frame_simps]:
  "properties (release_promotions c r why canc s) = properties s"
  "categories (release_promotions c r why canc s) = categories s"
  "resources (release_promotions c r why canc s) = resources s"
  "blocks (release_promotions c r why canc s) = blocks s"
  "occurrences (release_promotions c r why canc s) = occurrences s"
  "programs (release_promotions c r why canc s) = programs s"
  "memberships (release_promotions c r why canc s) = memberships s"
  "reservations (release_promotions c r why canc s) = reservations s"
  "allocations (release_promotions c r why canc s) = allocations s"
  "histories (release_promotions c r why canc s) = histories s"
  "changes (release_promotions c r why canc s) = changes s"
  "folio_lines (release_promotions c r why canc s) = folio_lines s"
  "payments (release_promotions c r why canc s) = payments s"
  "payment_requests (release_promotions c r why canc s) = payment_requests s"
  "payment_attempts (release_promotions c r why canc s) = payment_attempts s"
  "deposits (release_promotions c r why canc s) = deposits s"
  "disputes (release_promotions c r why canc s) = disputes s"
  "promotions (release_promotions c r why canc s) = promotions s"
  "vouchers (release_promotions c r why canc s) = vouchers s"
  "tasks (release_promotions c r why canc s) = tasks s"
  "task_events (release_promotions c r why canc s) = task_events s"
  "outbox (release_promotions c r why canc s) = outbox s"
  "next_id (release_promotions c r why canc s) = next_id s"
  by (simp_all add: release_promotions_def Let_def frame_simps)

lemma record_refund_completion_frame [frame_simps]:
  "properties (record_refund_completion c r ch ac s) = properties s"
  "categories (record_refund_completion c r ch ac s) = categories s"
  "resources (record_refund_completion c r ch ac s) = resources s"
  "blocks (record_refund_completion c r ch ac s) = blocks s"
  "occurrences (record_refund_completion c r ch ac s) = occurrences s"
  "programs (record_refund_completion c r ch ac s) = programs s"
  "memberships (record_refund_completion c r ch ac s) = memberships s"
  "reservations (record_refund_completion c r ch ac s) = reservations s"
  "allocations (record_refund_completion c r ch ac s) = allocations s"
  "histories (record_refund_completion c r ch ac s) = histories s"
  "changes (record_refund_completion c r ch ac s) = changes s"
  "folio_lines (record_refund_completion c r ch ac s) = folio_lines s"
  "payments (record_refund_completion c r ch ac s) = payments s"
  "payment_requests (record_refund_completion c r ch ac s) = payment_requests s"
  "payment_attempts (record_refund_completion c r ch ac s) = payment_attempts s"
  "deposits (record_refund_completion c r ch ac s) = deposits s"
  "disputes (record_refund_completion c r ch ac s) = disputes s"
  "promotions (record_refund_completion c r ch ac s) = promotions s"
  "vouchers (record_refund_completion c r ch ac s) = vouchers s"
  "tasks (record_refund_completion c r ch ac s) = tasks s"
  "task_events (record_refund_completion c r ch ac s) = task_events s"
  "outbox (record_refund_completion c r ch ac s) = outbox s"
  "next_id (record_refund_completion c r ch ac s) = next_id s"
  by (simp_all add: record_refund_completion_def Let_def frame_simps)

lemma usages_confirm [frame_simps]:
  "usages (confirm_promotions c r s) = upd_where (\<lambda>u. us_reservation u = r \<and> us_state u = ''reserved'')
     (\<lambda>u. u\<lparr>us_state := ''confirmed'', us_confirmed_at := Some (clock c), us_released_at := None\<rparr>) (usages s)"
  by (simp add: confirm_promotions_def confirm_usages_def confirm_redemptions_def Let_def frame_simps)

lemma usages_release [frame_simps]:
  "usages (release_promotions c r why canc s) = upd_where (\<lambda>u. us_reservation u = r \<and> in_use (us_state u)
     \<and> (\<not> canc \<or> reinstates s (us_promotion u))) (release_usage c) (usages s)"
  by (simp add: release_promotions_def Let_def frame_simps)

lemma usages_refund [frame_simps]:
  "usages (record_refund_completion c r ch ac s) = upd_where (\<lambda>u. us_reservation u = r_id r
     \<and> (r_status r \<in> {R_Cancelled, R_No_show} \<and> reinstates s (us_promotion u)) \<and> in_use (us_state u))
     (release_usage c) (usages s)"
  by (simp add: record_refund_completion_def Let_def frame_simps)

lemma usages_supersede [frame_simps]:
  "\<exists>n. usages (supersede_usage c q u s)
     = upd_row us_id (us_id u) (\<lambda>x. (release_usage c x)\<lparr>us_superseded_by := n\<rparr>) (usages s)"
  "promotions (supersede_usage c q u s) = promotions s"
  by (auto simp: supersede_usage_def Let_def frame_simps)

subsection \<open>Limits\<close>

definition load :: "(usage \<Rightarrow> int) \<Rightarrow> id set \<Rightarrow> id \<Rightarrow> usage list \<Rightarrow> int" where
  "load f without i us = sum_where (\<lambda>u. us_promotion u = i \<and> in_use (us_state u) \<and> us_id u \<notin> without) f us"

definition foreign_load :: "(usage \<Rightarrow> int) \<Rightarrow> id \<Rightarrow> id \<Rightarrow> usage list \<Rightarrow> int" where
  "foreign_load f r i us = sum_where (counts_usage True r i) f us"

definition bounded :: "int option \<Rightarrow> int \<Rightarrow> bool" where
  "bounded limit n \<longleftrightarrow> (\<forall>l. limit = Some l \<longrightarrow> n \<le> max 0 l)"

text \<open>No promotion is used more often than its limit or beyond its budget.\<close>

definition limits_ok :: "db \<Rightarrow> bool" where
  "limits_ok s \<longleftrightarrow> (\<forall>u \<in> set (usages s). 0 \<le> us_discount u)
     \<and> (\<forall>i p. find_row pm_id i (promotions s) = Some p \<longrightarrow>
          bounded (pm_usage_limit p) (load one {} i (usages s))
          \<and> bounded (pm_budget p) (load us_discount {} i (usages s)))"

lemma bounded_mono: "bounded l n \<Longrightarrow> m \<le> n \<Longrightarrow> bounded l m"
  by (auto simp: bounded_def intro: order_trans)

lemma not_reached_bounded: "\<not> reached l n \<Longrightarrow> bounded l (n + 1)"
  by (auto simp: bounded_def reached_def)

lemma not_exceeded_bounded: "\<not> exceeded l n \<Longrightarrow> bounded l n"
  by (auto simp: bounded_def exceeded_def)

lemma load_append [simp]: "load f w i (us @ vs) = load f w i us + load f w i vs"
  by (simp add: load_def)

lemma foreign_load_append [simp]: "foreign_load f r i (us @ vs) = foreign_load f r i us + foreign_load f r i vs"
  by (simp add: foreign_load_def)

text \<open>Changing states without putting a row into use never raises a load.\<close>

lemma load_upd_where_le:
  assumes "\<And>u. u \<in> set us \<Longrightarrow> P u \<Longrightarrow> in_use (us_state (g u)) \<Longrightarrow> in_use (us_state u)"
    and "\<And>u. us_promotion (g u) = us_promotion u \<and> us_id (g u) = us_id u \<and> f (g u) = f u"
    and "\<And>u. u \<in> set us \<Longrightarrow> 0 \<le> f u"
  shows "load f w i (upd_where P g us) \<le> load f w i us"
  unfolding load_def using assms by (intro sum_where_upd_where_le) auto

lemma limits_ok_upd_where:
  assumes "limits_ok s" and "usages t = upd_where P g (usages s)" and "promotions t = promotions s"
    and "\<And>u. P u \<Longrightarrow> in_use (us_state (g u)) \<Longrightarrow> in_use (us_state u)"
    and "\<And>u. us_promotion (g u) = us_promotion u \<and> us_id (g u) = us_id u \<and> us_discount (g u) = us_discount u"
  shows "limits_ok t"
proof -
  have nn: "\<And>u. u \<in> set (usages s) \<Longrightarrow> 0 \<le> us_discount u"
    and lim: "\<And>i p. find_row pm_id i (promotions s) = Some p \<Longrightarrow>
          bounded (pm_usage_limit p) (load one {} i (usages s))
          \<and> bounded (pm_budget p) (load us_discount {} i (usages s))"
    using assms(1) by (simp_all add: limits_ok_def)
  have le: "load one {} i (usages t) \<le> load one {} i (usages s)" for i
    unfolding assms(2) by (rule load_upd_where_le) (use assms(4,5) in \<open>auto simp: one_def\<close>)
  have le': "load us_discount {} i (usages t) \<le> load us_discount {} i (usages s)" for i
    unfolding assms(2) by (rule load_upd_where_le) (use assms(4,5) nn in auto)
  have "0 \<le> us_discount u" if "u \<in> set (usages t)" for u
    using that nn assms(5) by (auto simp: assms(2) set_upd_where split: if_splits)
  then show ?thesis
    unfolding limits_ok_def assms(3) using lim le le' by (blast intro: bounded_mono)
qed

text \<open>What one successful reservation step adds.\<close>

lemma usages_new_usage:
  "\<exists>u. usages (new_usage c q r guest f v s) = usages s @ [u] \<and> us_id u = next_id s
     \<and> us_promotion u = pf_promotion f \<and> us_quote u = qr_id q \<and> us_reservation u = r_id r
     \<and> in_use (us_state u) \<and> us_discount u = pf_discount f"
  "promotions (new_usage c q r guest f v s) = promotions s"
  "next_id (new_usage c q r guest f v s) = Suc (next_id s)"
  by (auto simp: new_usage_def Let_def frame_simps in_use_def)

lemma usages_new_redemption:
  "usages (new_redemption c q r guest f v s) = usages s"
  "promotions (new_redemption c q r guest f v s) = promotions s"
  "next_id (new_redemption c q r guest f v s) = Suc (next_id s)"
  by (auto simp: new_redemption_def Let_def frame_simps)

lemma reserve_one_Inr:
  assumes "reserve_one c q r guest am f s = Inr t"
  obtains (skip) "t = s"
  | (use) u p where "usages t = usages s @ [u]" "promotions t = promotions s"
      "next_id s \<le> us_id u" "next_id s \<le> next_id t"
      "us_promotion u = pf_promotion f" "us_quote u = qr_id q" "us_reservation u = r_id r"
      "in_use (us_state u)" "us_discount u = pf_discount f" "0 < pf_discount f"
      "find_row pm_id (pf_promotion f) (promotions s) = Some p"
      "\<not> promotion_exhausted s am (r_id r) guest (qr_session q) (pf_discount f) p"
      "\<forall>x \<in> set (usages s). \<not> (us_promotion x = pf_promotion f \<and> us_quote x = qr_id q)"
proof (cases "pf_discount f \<le> 0 \<or> (\<exists>u \<in> set (usages s). us_promotion u = pf_promotion f \<and> us_quote u = qr_id q)")
  case True
  with assms show ?thesis by (intro skip) (auto simp: reserve_one_def split: if_splits)
next
  case False
  then obtain p where p: "find_row pm_id (pf_promotion f) (promotions s) = Some p"
      "\<not> promotion_exhausted s am (r_id r) guest (qr_session q) (pf_discount f) p"
    and rest: "bindE (usable_voucher s am r guest (qr_session q) (pf_discount f) p (pf_voucher f)) (\<lambda>v.
        let s1 = new_usage c q r guest f (map_option vc_id v) s in
        Inr (case v of None \<Rightarrow> s1 | Some w \<Rightarrow> new_redemption c q r guest f (vc_id w) s1)) = Inr t"
    using assms by (auto simp: reserve_one_def bindE_eq_Inr find_or_fail_Inr split: if_splits)
  from rest obtain v :: "voucher option" where "(let s1 = new_usage c q r guest f (map_option vc_id v) s in
        Inr (case v of None \<Rightarrow> s1 | Some w \<Rightarrow> new_redemption c q r guest f (vc_id w) s1)) = (Inr t :: db res)"
    unfolding bindE_eq_Inr by blast
  then have t: "t = (case v of None \<Rightarrow> new_usage c q r guest f (map_option vc_id v) s
      | Some w \<Rightarrow> new_redemption c q r guest f (vc_id w) (new_usage c q r guest f (map_option vc_id v) s))"
    by (simp add: Let_def)
  obtain u where u: "usages (new_usage c q r guest f (map_option vc_id v) s) = usages s @ [u]"
      "us_id u = next_id s" "us_promotion u = pf_promotion f" "us_quote u = qr_id q"
      "us_reservation u = r_id r" "in_use (us_state u)" "us_discount u = pf_discount f"
    using usages_new_usage(1) by blast
  show ?thesis
    by (rule use [of u p])
      (use u p False in \<open>auto simp: t Let_def usages_new_usage(2,3) usages_new_redemption
        split: option.splits\<close>)
qed

lemma reserve_one_limits:
  assumes "reserve_one c q r guest False f s = Inr t" and "limits_ok s"
  shows "limits_ok t"
  using assms(1)
proof (cases rule: reserve_one_Inr)
  case skip
  with assms show ?thesis by simp
next
  case (use u p)
  have "load one {} (pm_id p) (usages s) = sum_where (counts_usage False (r_id r) (pm_id p)) one (usages s)"
    "load us_discount {} (pm_id p) (usages s) = sum_where (counts_usage False (r_id r) (pm_id p)) us_discount (usages s)"
    unfolding load_def by (intro sum_where_cong; simp add: counts_usage_def)+
  with use(12) have lim: "bounded (pm_usage_limit p) (load one {} (pm_id p) (usages s) + 1)"
      "bounded (pm_budget p) (load us_discount {} (pm_id p) (usages s) + pf_discount f)"
    by (auto simp: promotion_exhausted_def Let_def intro: not_reached_bounded not_exceeded_bounded)
  have pid: "pm_id p = pf_promotion f" using use(11) by (auto dest: find_row_Some)
  show ?thesis
    unfolding limits_ok_def
  proof (intro conjI ballI allI impI)
    show "0 \<le> us_discount x" if "x \<in> set (usages t)" for x
      using that use(1,9,10) assms(2) by (auto simp: limits_ok_def)
    fix i p' assume p': "find_row pm_id i (promotions t) = Some p'"
    then have old: "find_row pm_id i (promotions s) = Some p'" using use(2) by simp
    have one: "load one {} i [u] = (if i = pf_promotion f then 1 else 0)"
      and disc: "load us_discount {} i [u] = (if i = pf_promotion f then pf_discount f else 0)"
      using use(5,8,9) by (simp_all add: load_def one_def)
    show "bounded (pm_usage_limit p') (load one {} i (usages t))"
      using assms(2) old lim(1) pid use(1,11) one by (cases "i = pf_promotion f") (auto simp: limits_ok_def)
    show "bounded (pm_budget p') (load us_discount {} i (usages t))"
      using assms(2) old lim(2) pid use(1,11) disc by (cases "i = pf_promotion f") (auto simp: limits_ok_def)
  qed
qed

lemma reserve_limits:
  "reserve_for_commit c q r guest False s = Inr t \<Longrightarrow> limits_ok s \<Longrightarrow> limits_ok t"
  unfolding reserve_for_commit_def
  by (erule foldE_invariant [where P = limits_ok]) (auto intro: reserve_one_limits)

lemma confirm_limits: "limits_ok s \<Longrightarrow> limits_ok (confirm_promotions c r s)"
  by (rule limits_ok_upd_where [OF _ usages_confirm]) (auto simp: frame_simps in_use_def)

lemma release_limits: "limits_ok s \<Longrightarrow> limits_ok (release_promotions c r why canc s)"
  by (rule limits_ok_upd_where [OF _ usages_release]) (auto simp: frame_simps in_use_def release_usage_def)

lemma refund_limits: "limits_ok s \<Longrightarrow> limits_ok (record_refund_completion c r ch ac s)"
  by (rule limits_ok_upd_where [OF _ usages_refund]) (auto simp: frame_simps in_use_def release_usage_def)

subsection \<open>Amendments keep the limits\<close>

text \<open>
  While an amendment reserves, the reservation's own uses are not counted; they are released at the
  end. \<open>amending\<close> is what holds in between: the new uses come after the old ones, at most one per
  promotion, and together with the uses of other reservations they respect the limits.
\<close>

definition amending :: "db \<Rightarrow> quote_ref \<Rightarrow> id \<Rightarrow> db \<Rightarrow> bool" where
  "amending s0 q r s \<longleftrightarrow> (\<exists>new. usages s = usages s0 @ new \<and> promotions s = promotions s0
     \<and> next_id s0 \<le> next_id s
     \<and> (\<forall>u \<in> set new. next_id s0 \<le> us_id u \<and> us_reservation u = r \<and> us_quote u = qr_id q
          \<and> 0 \<le> us_discount u)
     \<and> (\<forall>i p. find_row pm_id i (promotions s0) = Some p \<longrightarrow>
          bounded (pm_usage_limit p) (foreign_load one r i (usages s0) + load one {} i new)
          \<and> bounded (pm_budget p) (foreign_load us_discount r i (usages s0) + load us_discount {} i new)))"

lemma foreign_le_load:
  "(\<And>u. u \<in> set us \<Longrightarrow> 0 \<le> f u) \<Longrightarrow> foreign_load f r i us \<le> load f {} i us"
  unfolding foreign_load_def load_def by (rule sum_where_mono) (auto simp: counts_usage_def)

lemma amending_start: "limits_ok s \<Longrightarrow> amending s q r s"
  unfolding amending_def
  by (rule exI [of _ "[]"])
    (auto simp: limits_ok_def load_def one_def intro!: bounded_mono [OF _ foreign_le_load, unfolded load_def])

lemma amending_step:
  assumes "reserve_one c q r guest True f s = Inr t" and "amending s0 q (r_id r) s"
  shows "amending s0 q (r_id r) t"
  using assms(1)
proof (cases rule: reserve_one_Inr)
  case skip
  with assms show ?thesis by simp
next
  case (use u p)
  from assms(2) obtain new where new: "usages s = usages s0 @ new" "promotions s = promotions s0"
      "next_id s0 \<le> next_id s"
      "\<And>x. x \<in> set new \<Longrightarrow> next_id s0 \<le> us_id x \<and> us_reservation x = r_id r \<and> us_quote x = qr_id q
          \<and> 0 \<le> us_discount x"
    and lim: "\<And>i p. find_row pm_id i (promotions s0) = Some p \<Longrightarrow>
          bounded (pm_usage_limit p) (foreign_load one (r_id r) i (usages s0) + load one {} i new)
          \<and> bounded (pm_budget p) (foreign_load us_discount (r_id r) i (usages s0) + load us_discount {} i new)"
    unfolding amending_def by blast
  have pid: "pm_id p = pf_promotion f" using use(11) by (auto dest: find_row_Some)
  have none: "load g {} (pf_promotion f) new = 0" for g
    unfolding load_def by (rule sum_where_none) (use new use(13) in auto)
  have own: "foreign_load g (r_id r) i new = 0" for g i
    unfolding foreign_load_def by (rule sum_where_none) (use new in \<open>auto simp: counts_usage_def\<close>)
  have "bounded (pm_usage_limit p) (foreign_load one (r_id r) (pf_promotion f) (usages s) + 1)"
    "bounded (pm_budget p) (foreign_load us_discount (r_id r) (pf_promotion f) (usages s) + pf_discount f)"
    using use(12) unfolding foreign_load_def pid [symmetric]
    by (auto simp: promotion_exhausted_def Let_def intro: not_reached_bounded not_exceeded_bounded)
  then have at_p: "bounded (pm_usage_limit p) (foreign_load one (r_id r) (pf_promotion f) (usages s0) + 1)"
    "bounded (pm_budget p) (foreign_load us_discount (r_id r) (pf_promotion f) (usages s0) + pf_discount f)"
    by (simp_all add: new(1) own)
  have one: "load one {} i [u] = (if i = pf_promotion f then 1 else 0)"
    and disc: "load us_discount {} i [u] = (if i = pf_promotion f then pf_discount f else 0)" for i
    using use(5,8,9) by (simp_all add: load_def one_def)
  show ?thesis
    unfolding amending_def
  proof (rule exI [of _ "new @ [u]"], intro conjI ballI allI impI)
    show "usages t = usages s0 @ new @ [u]" using use(1) new(1) by simp
    show "promotions t = promotions s0" "next_id s0 \<le> next_id t" using use new by simp_all
    fix x assume "x \<in> set (new @ [u])"
    then show "next_id s0 \<le> us_id x" "us_reservation x = r_id r" "us_quote x = qr_id q" "0 \<le> us_discount x"
      using new(3,4) use by (auto dest!: new(4))
  next
    fix i p' assume p': "find_row pm_id i (promotions s0) = Some p'"
    show "bounded (pm_usage_limit p') (foreign_load one (r_id r) i (usages s0) + load one {} i (new @ [u]))"
      using lim [OF p'] p' use(11) new(2) at_p one none by (cases "i = pf_promotion f") auto
    show "bounded (pm_budget p') (foreign_load us_discount (r_id r) i (usages s0) + load us_discount {} i (new @ [u]))"
      using lim [OF p'] p' use(11) new(2) at_p disc none by (cases "i = pf_promotion f") auto
  qed
qed

lemma load_upd_out:
  assumes "\<And>u. us_id (g u) = us_id u \<and> us_promotion (g u) = us_promotion u \<and> f (g u) = f u
      \<and> \<not> in_use (us_state (g u))"
  shows "load f w i (upd_row us_id j g us) = load f (insert j w) i us"
  unfolding upd_row_def upd_where_def load_def sum_where_map
  by (rule sum_where_cong) (use assms in auto)

lemma load_supersede:
  assumes "f \<in> {one, us_discount}"
  shows "load f w i (usages (fold (supersede_usage c q) us s)) = load f (w \<union> us_id ` set us) i (usages s)"
    and "promotions (fold (supersede_usage c q) us s) = promotions s"
proof (induction us arbitrary: s w)
  case (Cons u us)
  { case 1
    obtain n where n: "usages (supersede_usage c q u s)
        = upd_row us_id (us_id u) (\<lambda>x. (release_usage c x)\<lparr>us_superseded_by := n\<rparr>) (usages s)"
      using usages_supersede(1) by blast
    have "load f w' i (usages (supersede_usage c q u s)) = load f (insert (us_id u) w') i (usages s)" for w'
      unfolding n by (rule load_upd_out) (use assms in \<open>auto simp: release_usage_def one_def in_use_def\<close>)
    with Cons.IH(1) [of w "supersede_usage c q u s"] show ?case by simp
  next
    case 2
    with Cons.IH(2) [of "supersede_usage c q u s"] show ?case by (simp add: usages_supersede(2)) }
qed simp_all

lemma set_supersede_discount:
  assumes "\<forall>x \<in> set (usages s). 0 \<le> us_discount x"
  shows "\<forall>x \<in> set (usages (fold (supersede_usage c q) us s)). 0 \<le> us_discount x"
  using assms
proof (induction us arbitrary: s)
  case (Cons u us)
  obtain n where n: "usages (supersede_usage c q u s)
        = upd_row us_id (us_id u) (\<lambda>x. (release_usage c x)\<lparr>us_superseded_by := n\<rparr>) (usages s)"
    using usages_supersede(1) by blast
  then have "\<forall>x \<in> set (usages (supersede_usage c q u s)). 0 \<le> us_discount x"
    using Cons.prems by (auto simp: n upd_row_def set_upd_where release_usage_def)
  from Cons.IH [OF this] show ?case by simp
qed simp

lemma fold_supersede_redemption_frame:
  "usages (fold (supersede_redemption c q) ds s) = usages s"
  "promotions (fold (supersede_redemption c q) ds s) = promotions s"
  by (induction ds arbitrary: s) (simp_all add: supersede_redemption_def frame_simps)

lemma replace_limits:
  assumes "replace_for_amendment c q r guest s = Inr t" and "limits_ok s"
  shows "limits_ok t"
proof -
  define old where "old = filter (\<lambda>u. us_reservation u = r_id r \<and> in_use (us_state u)) (usages s)"
  obtain s1 ds where s1: "reserve_for_commit c q r guest True s = Inr s1"
    and t: "t = (let s3 = fold (supersede_redemption c q) ds (fold (supersede_usage c q) old s1) in
        if r_status r = R_Confirmed then confirm_promotions c (r_id r) s3 else s3)"
    using assms(1) by (auto simp: replace_for_amendment_def bindE_eq_Inr Let_def old_def)
  define s2 where "s2 = fold (supersede_usage c q) old s1"
  define s3 where "s3 = fold (supersede_redemption c q) ds s2"
  have "amending s q (r_id r) s1"
    using s1 unfolding reserve_for_commit_def
    by (rule foldE_invariant [where P = "amending s q (r_id r)"])
      (auto intro: amending_step amending_start assms(2))
  then obtain new where new: "usages s1 = usages s @ new" "promotions s1 = promotions s"
      "\<And>x. x \<in> set new \<Longrightarrow> 0 \<le> us_discount x"
    and lim: "\<And>i p. find_row pm_id i (promotions s) = Some p \<Longrightarrow>
          bounded (pm_usage_limit p) (foreign_load one (r_id r) i (usages s) + load one {} i new)
          \<and> bounded (pm_budget p) (foreign_load us_discount (r_id r) i (usages s) + load us_discount {} i new)"
    unfolding amending_def by blast
  have nn: "0 \<le> us_discount x" if "x \<in> set (usages s1)" for x
    using that new assms(2) by (auto simp: limits_ok_def)
  have le: "load f (us_id ` set old) i (usages s1) \<le> foreign_load f (r_id r) i (usages s) + load f {} i new"
    if f: "f \<in> {one, us_discount}" for f i
  proof -
    have pos: "0 \<le> f x" if "x \<in> set (usages s1)" for x using that f nn by (auto simp: one_def)
    have "load f (us_id ` set old) i (usages s) \<le> foreign_load f (r_id r) i (usages s)"
      unfolding load_def foreign_load_def
      by (rule sum_where_mono) (use pos new(1) in \<open>auto simp: counts_usage_def old_def\<close>)
    moreover have "load f (us_id ` set old) i new \<le> load f {} i new"
      unfolding load_def by (rule sum_where_mono) (use pos new(1) in auto)
    ultimately show ?thesis by (simp add: new(1))
  qed
  have load3: "load f {} i (usages s3) = load f (us_id ` set old) i (usages s1)"
    if "f \<in> {one, us_discount}" for f i
    using load_supersede(1) [OF that, of "{}" i c q old s1]
    by (simp add: s3_def s2_def fold_supersede_redemption_frame)
  have proms: "promotions s3 = promotions s"
    using load_supersede(2) [of one c q old s1] new(2)
    by (simp add: s3_def s2_def fold_supersede_redemption_frame)
  have "\<forall>x \<in> set (usages s3). 0 \<le> us_discount x"
    using set_supersede_discount [of s1 c q old] nn
    by (simp add: s3_def s2_def fold_supersede_redemption_frame)
  moreover have "bounded (pm_usage_limit p) (load one {} i (usages s3))
      \<and> bounded (pm_budget p) (load us_discount {} i (usages s3))"
    if "find_row pm_id i (promotions s) = Some p" for i p
    using bounded_mono [OF conjunct1 [OF lim [OF that]] le [of one i]]
      bounded_mono [OF conjunct2 [OF lim [OF that]] le [of us_discount i]]
      load3 [of one i] load3 [of us_discount i] by simp
  ultimately have "limits_ok s3" by (simp add: limits_ok_def proms)
  then show ?thesis
    unfolding t by (auto simp: Let_def intro: confirm_limits simp flip: s2_def s3_def)
qed

subsection \<open>Runs of the usage ledger\<close>

datatype promo_command =
    Reserve quote_ref reservation "id option"
  | Confirm_use id
  | Release_use id string bool
  | Amend quote_ref reservation "id option"
  | Refund_use reservation change "user_id option"

fun run_promo :: "ctx \<Rightarrow> promo_command \<Rightarrow> db \<Rightarrow> db res" where
  "run_promo c (Reserve q r guest) s = reserve_for_commit c q r guest False s"
| "run_promo c (Confirm_use i) s = Inr (confirm_promotions c i s)"
| "run_promo c (Release_use i why canc) s = Inr (release_promotions c i why canc s)"
| "run_promo c (Amend q r guest) s = replace_for_amendment c q r guest s"
| "run_promo c (Refund_use r ch ac) s = Inr (record_refund_completion c r ch ac s)"

definition promo_step :: "db \<Rightarrow> db \<Rightarrow> bool" where
  "promo_step s t \<longleftrightarrow> (\<exists>c cmd. run_promo c cmd s = Inr t)"

lemma promo_step_limits: "promo_step s t \<Longrightarrow> limits_ok s \<Longrightarrow> limits_ok t"
proof -
  assume "promo_step s t" and "limits_ok s"
  then obtain c cmd where "run_promo c cmd s = Inr t" by (auto simp: promo_step_def)
  with \<open>limits_ok s\<close> show ?thesis
    by (cases cmd) (auto intro: reserve_limits confirm_limits release_limits replace_limits refund_limits)
qed

subsection \<open>Properties\<close>

text \<open>C17: Promotion limits are never exceeded. Along any sequence of reservations for a commit,
  confirmations, releases, amendments and refund completions, the uses of a promotion that are
  reserved or confirmed never outnumber its usage limit and their discounts never exceed its budget.\<close>

theorem promotion_limits_hold:
  "promo_step\<^sup>*\<^sup>* s t \<Longrightarrow> limits_ok s \<Longrightarrow> limits_ok t"
  by (induction rule: rtranclp_induct) (auto intro: promo_step_limits)

definition demo_promotion :: promotion where
  "demo_promotion = \<lparr>pm_id = 11, pm_property = None, pm_state = ''published'', pm_currency = ''COP'',
     pm_version = 1, pm_discount_type = ''percentage'', pm_percentage = Some 1000, pm_fixed = None,
     pm_valid_from = None, pm_valid_until = None, pm_rate_plans = [], pm_categories = [],
     pm_programs = [], pm_minimum_stay = None, pm_maximum_stay = None, pm_requires_code = False,
     pm_exclusive = False, pm_stacking_group = Some ''summer'', pm_priority = 5,
     pm_usage_limit = Some 1, pm_budget = Some 20000, pm_per_guest = None, pm_per_session = None,
     pm_reinstate_on_cancel = True\<rparr>"

definition demo_quote :: "id \<Rightarrow> quote_ref" where
  "demo_quote i = \<lparr>qr_id = i, qr_currency = ''COP'', qr_session = None,
     qr_promotions = [\<lparr>pf_promotion = 11, pf_version = 1, pf_voucher = None, pf_priority = 5, pf_discount = 9000\<rparr>]\<rparr>"

lemmas promo_exec = reserve_for_commit_def reserve_one_def promotion_exhausted_def usable_voucher_def
  new_usage_def usage_event_def find_or_fail_def find_row_def reached_def exceeded_def
  counts_usage_def in_use_def demo_promotion_def demo_quote_def Let_def

theorem promotion_limits_hold_witness:
  "\<exists>t. promo_step (demo_db\<lparr>promotions := [demo_promotion]\<rparr>) t \<and> length (usages t) = 1 \<and> limits_ok t
     \<and> run_promo demo_ctx (Reserve (demo_quote 31) (demo_reservation 7 R_Draft) None) t = Inl voucher_error"
proof -
  let ?s = "demo_db\<lparr>promotions := [demo_promotion]\<rparr>"
  let ?run = "\<lambda>i. run_promo demo_ctx (Reserve (demo_quote i) (demo_reservation 7 R_Draft) None)"
  have "succeeds_with (\<lambda>t. length (usages t) = 1 \<and> ?run 31 t = Inl voucher_error) (?run 30 ?s)"
    by (simp add: promo_exec demo_defs one_def)
  then obtain t where t: "?run 30 ?s = Inr t" "length (usages t) = 1" "?run 31 t = Inl voucher_error"
    by (auto elim: succeeds_withE)
  then have step: "promo_step ?s t" unfolding promo_step_def by blast
  have "limits_ok ?s" by (simp add: limits_ok_def demo_defs load_def bounded_def)
  with promotion_limits_hold [OF r_into_rtranclp [of promo_step, OF step]] t step show ?thesis by blast
qed

lemma promotion_amount_bounds:
  assumes "promotion_amount p remaining = Inr a"
  shows "a \<le> remaining"
  using assms by (auto simp: promotion_amount_def bindE_eq_Inr split: if_splits)

fun discount_chain :: "money \<Rightarrow> discount_line list \<Rightarrow> money \<Rightarrow> bool" where
  "discount_chain start [] stop \<longleftrightarrow> start = stop"
| "discount_chain start (l # ls) stop \<longleftrightarrow>
     dl_pre l = start \<and> dl_amount l < 0 \<and> dl_post l = start + dl_amount l \<and> 0 \<le> dl_post l
     \<and> discount_chain (dl_post l) ls stop"

lemma discount_chain_append:
  "discount_chain a (ls @ ms) b \<longleftrightarrow> (\<exists>m. discount_chain a ls m \<and> discount_chain m ms b)"
  by (induction ls arbitrary: a) auto

lemma deduct_Inr:
  assumes "deduct index es remaining acc = Inr r" and "0 \<le> remaining"
    and "discount_chain start (dr_lines acc) remaining"
    and "dr_discount acc = start - remaining"
    and "sum_list (map pf_discount (dr_snapshot acc)) = dr_discount acc"
  shows "\<exists>stop. 0 \<le> stop \<and> discount_chain start (dr_lines r) stop \<and> dr_discount r = start - stop
    \<and> sum_list (map pf_discount (dr_snapshot r)) = dr_discount r"
  using assms
proof (induction index es remaining acc rule: deduct.induct)
  case (2 index e es remaining acc)
  then obtain a where a: "promotion_amount (ep_promotion e) remaining = Inr a"
    by (auto simp: bindE_eq_Inr)
  show ?case
  proof (cases "a \<le> 0")
    case True
    with 2 a show ?thesis by auto
  next
    case False
    note bound = promotion_amount_bounds [OF a]
    show ?thesis
      by (rule "2.IH"(2) [OF False refl refl])
        (use "2.prems" a False bound in \<open>auto simp: Let_def discount_chain_append\<close>)
  qed
qed auto

lemma discount_bounds:
  assumes "calculate_discounts es eligible_minor = Inr r"
  shows "0 \<le> dr_discount r \<and> dr_discount r \<le> max 0 eligible_minor
    \<and> discount_chain (max 0 eligible_minor) (dr_lines r) (max 0 eligible_minor - dr_discount r)
    \<and> sum_list (map pf_discount (dr_snapshot r)) = dr_discount r"
proof -
  have mono: "stop \<le> start" if "discount_chain start ls stop" for start ls stop
    using that
  proof (induction ls arbitrary: start)
    case (Cons l ls)
    then have lt: "dl_post l < start" by simp
    have "discount_chain (dl_post l) ls stop" using Cons.prems unfolding discount_chain.simps by blast
    then have "stop \<le> dl_post l" by (rule Cons.IH)
    with lt show ?case by linarith
  qed simp
  obtain stop where "0 \<le> stop" "discount_chain (max 0 eligible_minor) (dr_lines r) stop"
      "dr_discount r = max 0 eligible_minor - stop"
      "sum_list (map pf_discount (dr_snapshot r)) = dr_discount r"
    using deduct_Inr [OF assms [unfolded calculate_discounts_def], of "max 0 eligible_minor"] by auto
  with mono show ?thesis by fastforce
qed

text \<open>The deduction is a chain of caps. Applied to an eligible subtotal, the promotions never
  deduct more than it: every line starts where the previous one ended, takes a positive amount off and
  ends at zero or more; the total discount is what the lines take off and what the promotion snapshot
  of the quote records.\<close>

theorem discounts_within_subtotal:
  assumes "calculate_discounts es eligible_minor = Inr r"
  shows "0 \<le> dr_discount r \<and> dr_discount r \<le> max 0 eligible_minor
    \<and> discount_chain (max 0 eligible_minor) (dr_lines r) (max 0 eligible_minor - dr_discount r)
    \<and> sum_list (map pf_discount (dr_snapshot r)) = dr_discount r"
  using assms by (rule discount_bounds)

theorem discounts_within_subtotal_witness:
  "\<exists>r. calculate_discounts [\<lparr>ep_promotion = demo_promotion, ep_voucher = None, ep_session = None\<rparr>,
        \<lparr>ep_promotion = demo_promotion\<lparr>pm_discount_type := ''fixed'', pm_fixed := Some 100000\<rparr>,
         ep_voucher = None, ep_session = None\<rparr>] 90005 = Inr r
     \<and> map dl_amount (dr_lines r) = [-9001, -81004] \<and> dr_discount r = 90005 \<and> dr_discount r \<le> max 0 90005"
proof -
  let ?es = "[\<lparr>ep_promotion = demo_promotion, ep_voucher = None, ep_session = None\<rparr>,
        \<lparr>ep_promotion = demo_promotion\<lparr>pm_discount_type := ''fixed'', pm_fixed := Some 100000\<rparr>,
         ep_voucher = None, ep_session = None\<rparr>]"
  have "succeeds_with (\<lambda>r. map dl_amount (dr_lines r) = [-9001, -81004] \<and> dr_discount r = 90005)
      (calculate_discounts ?es 90005)"
    by (simp add: calculate_discounts_def promotion_amount_def promotion_percentage_def demo_promotion_def
        or_default_def php_int_max_def intdiv_def Let_def)
  then obtain r where r: "calculate_discounts ?es 90005 = Inr r"
      "map dl_amount (dr_lines r) = [-9001, -81004]" "dr_discount r = 90005"
    by (auto elim: succeeds_withE)
  show ?thesis
    by (intro exI [of _ r] conjI) (use discounts_within_subtotal [OF r(1)] r in simp_all)
qed

definition groups :: "promotion list \<Rightarrow> string list" where
  "groups ps = map (\<lambda>p. the (pm_stacking_group p)) (filter (\<lambda>p. pm_stacking_group p \<noteq> None) ps)"

lemma groups_simps [simp]:
  "groups [] = []"
  "groups (p # ps) = (case pm_stacking_group p of None \<Rightarrow> groups ps | Some g \<Rightarrow> g # groups ps)"
  by (simp_all add: groups_def split: option.splits)

lemma one_per_group_subset: "set (one_per_group seen ps) \<subseteq> set ps"
  by (induction seen ps rule: one_per_group.induct) (auto split: option.splits)

lemma one_per_group_distinct:
  "distinct (groups (one_per_group seen ps)) \<and> set (groups (one_per_group seen ps)) \<inter> set seen = {}"
  by (induction seen ps rule: one_per_group.induct) (auto split: option.splits)

lemma sort_key_in: "x \<in> set (sort_key f xs) \<longleftrightarrow> x \<in> set xs"
  by simp

text \<open>Stacking rules. The promotions a quote uses are published, in force and applicable ones;
  either a single exclusive promotion, or none is exclusive and no two share a stacking group.\<close>

theorem eligible_selection:
  assumes "eligible c s code_hash hmac inp currency business = Inr es"
  shows "(\<forall>e \<in> set es. ep_promotion e \<in> set (promotions s) \<and> published_for inp currency business (ep_promotion e))
    \<and> (\<forall>e \<in> set es. pi_nights inp \<ge> or_default (pm_minimum_stay (ep_promotion e)) 0)
    \<and> ((\<exists>e. es = [e] \<and> pm_exclusive (ep_promotion e))
       \<or> (\<forall>e \<in> set es. \<not> pm_exclusive (ep_promotion e)) \<and> distinct (groups (map ep_promotion es)))"
proof -
  obtain v session where es: "es = map (\<lambda>p. \<lparr>ep_promotion = p,
      ep_voucher = (if pm_requires_code p then map_option vc_id (v :: voucher option) else None),
      ep_session = session\<rparr>)
      (select_promotions (filter (applies v inp) (candidate_promotions s inp currency business)))"
    using assms unfolding eligible_def bindE_eq_Inr by blast
  define ps where "ps = filter (applies v inp) (candidate_promotions s inp currency business)"
  have "p \<in> set (promotions s) \<and> published_for inp currency business p \<and> applies v inp p" if "p \<in> set ps" for p
    using that by (auto simp: ps_def candidate_promotions_def)
  moreover have "set (select_promotions ps) \<subseteq> set ps"
    using one_per_group_subset [of "[]" ps]
    by (auto simp: select_promotions_def dest: find_SomeD split: option.splits)
  moreover have "(\<exists>p. select_promotions ps = [p] \<and> pm_exclusive p)
      \<or> (\<forall>p \<in> set (select_promotions ps). \<not> pm_exclusive p) \<and> distinct (groups (select_promotions ps))"
  proof (cases "find pm_exclusive ps")
    case None
    then have "select_promotions ps = one_per_group [] ps" by (simp add: select_promotions_def)
    moreover have "\<forall>p \<in> set ps. \<not> pm_exclusive p" using None by (simp add: find_None_iff)
    ultimately show ?thesis
      using one_per_group_subset [of "[]" ps] one_per_group_distinct [of "[]" ps] by auto
  next
    case (Some p)
    then show ?thesis by (auto simp: select_promotions_def dest: find_SomeD)
  qed
  moreover have sel: "map ep_promotion es = select_promotions ps"
    unfolding es ps_def [symmetric] by (simp add: comp_def)
  then have "ep_promotion e \<in> set (select_promotions ps)" if "e \<in> set es" for e
    using that by (metis image_eqI list.set_map)
  moreover have "\<exists>e. es = [e] \<and> pm_exclusive (ep_promotion e)"
    if "select_promotions ps = [p]" "pm_exclusive p" for p
    using sel that by (cases es) auto
  ultimately show ?thesis unfolding sel
    by (intro conjI ballI) (auto simp: applies_def)
qed

theorem eligible_selection_witness:
  "\<exists>es. eligible demo_ctx (demo_db\<lparr>promotions := [demo_promotion, demo_promotion\<lparr>pm_id := 12\<rparr>]\<rparr>)
      (\<lambda>_. None) id \<lparr>pi_property = 1, pi_rate_plan = None, pi_category = None, pi_program = None,
        pi_nights = 2, pi_voucher_code = None, pi_voucher_id = None, pi_amendment_of = None,
        pi_session_hash = None, pi_session_id = None\<rparr> ''COP'' 0 = Inr es
    \<and> length es = 1 \<and> distinct (groups (map ep_promotion es))"
proof -
  let ?run = "eligible demo_ctx (demo_db\<lparr>promotions := [demo_promotion, demo_promotion\<lparr>pm_id := 12\<rparr>]\<rparr>)
      (\<lambda>_. None) id \<lparr>pi_property = 1, pi_rate_plan = None, pi_category = None, pi_program = None,
        pi_nights = 2, pi_voucher_code = None, pi_voucher_id = None, pi_amendment_of = None,
        pi_session_hash = None, pi_session_id = None\<rparr> ''COP'' 0"
  have "succeeds_with (\<lambda>es. length es = 1) ?run"
    by (simp add: eligible_def resolve_voucher_def not_empty_def trusted_session_hash_def session_hash_def
        demo_db_def empty_db_def demo_promotion_def candidate_promotions_def published_for_def applies_def
        in_scope_def or_default_def select_promotions_def)
  then obtain es where es: "?run = Inr es" "length es = 1" by (auto elim: succeeds_withE)
  then obtain e where e: "es = [e]" by (cases es) auto
  have "distinct (groups (map ep_promotion es))"
    using eligible_selection [OF es(1)] by (auto simp: e split: option.splits)
  with es show ?thesis by blast
qed

lemma released_not_in_use:
  assumes "u \<in> set (usages (release_promotions c r why False s))" and "us_reservation u = r"
  shows "\<not> in_use (us_state u)"
proof
  assume use: "in_use (us_state u)"
  from assms(1) obtain x :: usage
    where x: "u = (if us_reservation x = r \<and> in_use (us_state x) then release_usage c x else x)"
    unfolding usages_release set_upd_where by (elim imageE) simp
  show False
  proof (cases "us_reservation x = r \<and> in_use (us_state x)")
    case True
    with x have "us_state u = ''released''" by (simp add: release_usage_def)
    with use show ?thesis by (simp add: in_use_def)
  next
    case False
    with x use assms(2) show ?thesis by auto
  qed
qed

text \<open>A hold that expired is not charged to the promotion any more, and confirming the reservation
  afterwards does not charge it again: no use of that reservation counts, so the discount kept in its
  total is outside the usage limit and the budget.\<close>

theorem expired_hold_uncounted:
  "\<forall>u \<in> set (usages (confirm_promotions c r (release_promotions c' r why False s))).
     us_reservation u = r \<longrightarrow> \<not> in_use (us_state u)"
proof -
  have "usages (confirm_promotions c r (release_promotions c' r why False s))
      = usages (release_promotions c' r why False s)"
    unfolding usages_confirm
    by (rule upd_where_idle) (use released_not_in_use [of _ c' r why s] in \<open>auto simp: in_use_def\<close>)
  then show ?thesis using released_not_in_use by metis
qed

theorem expired_hold_uncounted_witness:
  "\<exists>s u. u \<in> set (usages (confirm_promotions demo_ctx 7 (release_promotions demo_ctx 7 ''expired'' False s)))
     \<and> us_reservation u = 7 \<and> us_discount u = 9000 \<and> \<not> in_use (us_state u)"
proof -
  let ?s0 = "demo_db\<lparr>promotions := [demo_promotion]\<rparr>"
  have "succeeds_with (\<lambda>t. \<exists>u. usages (confirm_promotions demo_ctx 7 (release_promotions demo_ctx 7 ''expired'' False t)) = [u]
        \<and> us_reservation u = 7 \<and> us_discount u = 9000)
      (run_promo demo_ctx (Reserve (demo_quote 30) (demo_reservation 7 R_Draft) None) ?s0)"
    by (simp add: promo_exec demo_defs one_def usages_confirm usages_release upd_where_def release_usage_def)
  then obtain t u where "usages (confirm_promotions demo_ctx 7 (release_promotions demo_ctx 7 ''expired'' False t)) = [u]"
      "us_reservation u = 7" "us_discount u = 9000"
    by (auto elim: succeeds_withE)
  with expired_hold_uncounted [of demo_ctx 7 demo_ctx "''expired''" t] show ?thesis
    by (intro exI [of _ t] exI [of _ u]) simp
qed

end
