(* ===== verification/Tasks.thy ===== *)
theory Tasks
  imports Schema
begin

text \<open>
  Operational tasks: \<^verbatim>\<open>TaskLifecycleService\<close> with the access rules of
  \<^verbatim>\<open>OperationalTaskAccess\<close> and the eligibility rules of \<^verbatim>\<open>OperationalTaskAssigneeService\<close>. A
  task carries a revision that every change increments and that the client must present, and an
  event log; the theorems state the optimistic locking, the lifecycle and that the log replays to
  the task's status. Texts are compared as ASCII where the code lower-cases them.
\<close>

subsection \<open>Who may act\<close>

definition property_scope :: "ctx \<Rightarrow> id option" where
  "property_scope c = (case request_member c of
     None \<Rightarrow> None
   | Some m \<Rightarrow> if has_tenant_wide_property_access (mb_role m) then None else mb_property m)"

definition can_access_property :: "ctx \<Rightarrow> id \<Rightarrow> bool" where
  "can_access_property c p = (case property_scope c of None \<Rightarrow> True | Some q \<Rightarrow> q = p)"

definition active_membership :: "db \<Rightarrow> user_id \<Rightarrow> membership option" where
  "active_membership s u = find (\<lambda>m. mb_user m = u \<and> mb_active m) (memberships s)"

definition at_property :: "id \<Rightarrow> membership \<Rightarrow> bool" where
  "at_property p m \<longleftrightarrow> mb_property m = None \<or> mb_property m = Some p"

definition assert_may_schedule :: "ctx \<Rightarrow> db \<Rightarrow> user_id option \<Rightarrow> id \<Rightarrow> unit res" where
  "assert_may_schedule c s actor p = (case actor of
     None \<Rightarrow> Inl (Validation ''actor'')
   | Some u \<Rightarrow> (case active_membership s u of
       None \<Rightarrow> Inl (Validation ''property_id'')
     | Some m \<Rightarrow> if can_schedule_operations (mb_role m) \<and> at_property p m \<and> can_access_property c p
                 then Inr () else Inl (Validation ''property_id'')))"

definition task_template_of :: "db \<Rightarrow> task \<Rightarrow> task_template option" where
  "task_template_of s k = (case tk_template k of
     None \<Rightarrow> None
   | Some i \<Rightarrow> find_row tt_id i (concat (map pg_templates (programs s))))"

definition template_role :: "db \<Rightarrow> task \<Rightarrow> string option" where
  "template_role s k = (case task_template_of s k of None \<Rightarrow> None | Some t \<Rightarrow> tt_role t)"

definition task_access :: "db \<Rightarrow> user_id \<Rightarrow> task \<Rightarrow> membership_role \<Rightarrow> bool" where
  "task_access s u k role \<longleftrightarrow>
     can_schedule_operations role \<or> tk_assignee k = Some u
     \<or> (tk_assignee k = None
        \<and> (template_role s k = Some (membership_role_value role)
           \<or> J_Str (membership_role_value role) \<in> {data_get (tk_meta k) ''assignee_role'',
                data_get (tk_meta k) ''role'', data_get (tk_meta k) ''team''}))"

definition assert_may_manage :: "db \<Rightarrow> task \<Rightarrow> user_id option \<Rightarrow> unit res" where
  "assert_may_manage s k actor = (case actor of
     None \<Rightarrow> Inr ()
   | Some u \<Rightarrow> (case active_membership s u of
       None \<Rightarrow> Inl (Validation ''task'')
     | Some m \<Rightarrow> if can_manage_operations (mb_role m) \<and> at_property (tk_property k) m
                    \<and> task_access s (mb_user m) k (mb_role m)
                 then Inr () else Inl (Validation ''task'')))"

subsection \<open>Who may be assigned\<close>

definition coalesce :: "json list \<Rightarrow> json" where
  "coalesce js = (case find (\<lambda>j. j \<noteq> J_Null) js of None \<Rightarrow> J_Null | Some j \<Rightarrow> j)"

definition required_role :: "db \<Rightarrow> task \<Rightarrow> string option" where
  "required_role s k =
     (case coalesce [j_opt J_Str (template_role s k), data_get (tk_meta k) ''checklist_role'',
             data_get (tk_meta k) ''assignee_role'', data_get (tk_meta k) ''role'',
             data_get (tk_meta k) ''team''] of
        J_Str r \<Rightarrow> if trim r = [] then None else Some (lower (trim r))
      | _ \<Rightarrow> None)"

definition role_matches :: "membership_role \<Rightarrow> string \<Rightarrow> bool" where
  "role_matches actual required =
     (if actual \<in> {Role_Administrator, Role_Manager, Role_Operations} then True
      else if required = ''guide'' then actual = Role_Guide
      else if required = ''kitchen'' then actual = Role_Kitchen
      else if required = ''housekeeping'' then actual = Role_Housekeeping
      else if required = ''operations'' then False
      else membership_role_value actual = required)"

definition assert_eligible :: "db \<Rightarrow> task \<Rightarrow> user_id \<Rightarrow> unit res" where
  "assert_eligible s k u =
     (case find (\<lambda>m. mb_user m = u \<and> mb_active m \<and> at_property (tk_property k) m) (memberships s) of
        None \<Rightarrow> Inl (Validation ''assignee_id'')
      | Some m \<Rightarrow> (case required_role s k of
          None \<Rightarrow> Inr ()
        | Some r \<Rightarrow> if role_matches (mb_role m) r then Inr () else Inl (Validation ''assignee_id'')))"

subsection \<open>Events\<close>

definition log_task_event :: "ctx \<Rightarrow> task_event \<Rightarrow> db \<Rightarrow> db" where
  "log_task_event c e s = s\<lparr>task_events := task_events s @ [e]\<rparr>"

definition task_event_row ::
  "ctx \<Rightarrow> task \<Rightarrow> string \<Rightarrow> task_status \<Rightarrow> task_status \<Rightarrow> string option \<Rightarrow> user_id option \<Rightarrow> task_event" where
  "task_event_row c k type from to reason actor =
     \<lparr>te_task = tk_id k, te_actor = actor, te_type = type, te_from = from, te_to = to,
      te_reason = reason,
      te_snapshot = [(''revision'', J_Int (tk_revision k)), (''priority'', J_Str (tk_priority k)),
        (''assignee_id'', j_opt J_Id (tk_assignee k))],
      te_at = clock c\<rparr>"

definition task_payload :: "task \<Rightarrow> meta" where
  "task_payload k =
     [(''task_id'', J_Id (tk_id k)), (''reservation_id'', j_opt J_Id (tk_reservation k)),
      (''property_id'', J_Id (tk_property k)), (''status'', J_Str (task_status_value (tk_status k))),
      (''revision'', J_Int (tk_revision k)), (''due_at'', j_opt J_Int (tk_due_at k)),
      (''assignee_id'', j_opt J_Id (tk_assignee k))]"

definition save_task :: "task \<Rightarrow> db \<Rightarrow> db" where
  "save_task k s = s\<lparr>tasks := upd_row tk_id (tk_id k) (\<lambda>_. k) (tasks s)\<rparr>"

text \<open>Saving the changed task, logging the change and recording it in the outbox, in this order.\<close>

definition commit_task ::
  "ctx \<Rightarrow> task \<Rightarrow> task_event \<Rightarrow> string \<Rightarrow> meta \<Rightarrow> db \<Rightarrow> db" where
  "commit_task c k e message payload s =
     record_outbox c ''operational_task'' (tk_id k) message payload (log_task_event c e (save_task k s))"

subsection \<open>Creation\<close>

record task_input =
  ti_property :: id
  ti_reservation :: "id option"
  ti_title :: string
  ti_description :: string
  ti_priority :: "string option"
  ti_due_at :: "instant option"
  ti_meta :: meta
  ti_assignee :: "user_id option"

definition new_task :: "task_input \<Rightarrow> id \<Rightarrow> task" where
  "new_task d i =
     \<lparr>tk_id = i, tk_property = ti_property d, tk_reservation = ti_reservation d,
      tk_template = None, tk_checklist = None, tk_assignee = None, tk_title = ti_title d,
      tk_description = ti_description d, tk_status = T_Todo,
      tk_priority = or_default (ti_priority d) ''normal'', tk_due_at = ti_due_at d,
      tk_started_at = None, tk_completed_at = None, tk_failed_at = None, tk_reopened_at = None,
      tk_escalated_at = None, tk_failure_reason = None, tk_escalation_reason = None,
      tk_cancellation_reason = None, tk_revision = 1, tk_meta = ti_meta d\<rparr>"

definition insert_task :: "ctx \<Rightarrow> task \<Rightarrow> user_id option \<Rightarrow> db \<Rightarrow> db" where
  "insert_task c k actor s =
     commit_task c k (task_event_row c k ''created'' T_Todo T_Todo None actor)
       ''operational_task.created'' (task_payload k)
       (s\<lparr>tasks := tasks s @ [k], next_id := Suc (next_id s)\<rparr>)"

definition assign_new_task :: "ctx \<Rightarrow> task \<Rightarrow> user_id \<Rightarrow> user_id option \<Rightarrow> task action" where
  "assign_new_task c k u actor s =
     bindE (assert_eligible s k u) (\<lambda>_.
     let k' = k\<lparr>tk_assignee := Some u, tk_revision := 2\<rparr> in
     Inr (commit_task c k' (task_event_row c k' ''assigned'' T_Todo T_Todo None actor)
            ''operational_task.assigned'' (task_payload k') s, k'))"

definition create_task :: "ctx \<Rightarrow> task_input \<Rightarrow> user_id option \<Rightarrow> task action" where
  "create_task c d actor s =
     bindE (assert_may_schedule c s actor (ti_property d)) (\<lambda>_.
     if find (\<lambda>p. prop_id p = ti_property d \<and> prop_active p) (properties s) = None
     then Inl (NotFound ''properties'')
     else if (case ti_reservation d of None \<Rightarrow> False
              | Some i \<Rightarrow> \<not> (\<exists>r \<in> set (reservations s). r_id r = i \<and> r_property r = ti_property d))
     then Inl (Validation ''reservation_id'')
     else
       let k = new_task d (next_id s); s1 = insert_task c k actor s in
       (case ti_assignee d of None \<Rightarrow> Inr (s1, k) | Some u \<Rightarrow> assign_new_task c k u actor s1))"

subsection \<open>Transitions\<close>

record task_command =
  tc_expected_revision :: int
  tc_assignee :: "user_id option"
  tc_reason :: "string option"
  tc_reopen_authorized :: bool

definition required_reason :: "task_command \<Rightarrow> string res" where
  "required_reason d =
     (let reason = trim (or_default (tc_reason d) []) in
      if reason = [] then Inl (Validation ''reason'') else Inr reason)"

definition only_from ::
  "task \<Rightarrow> task_status set \<Rightarrow> task_status \<Rightarrow> (task \<Rightarrow> task) \<Rightarrow> string
   \<Rightarrow> (task_status \<times> (task \<Rightarrow> task) \<times> string) res" where
  "only_from k allowed to attributes event =
     (if tk_status k \<in> allowed then Inr (to, attributes, event) else Inl (Validation ''action''))"

definition transition_attributes ::
  "ctx \<Rightarrow> task \<Rightarrow> string \<Rightarrow> task_command \<Rightarrow> (task_status \<times> (task \<Rightarrow> task) \<times> string) res" where
  "transition_attributes c k action d =
     (let now = Some (clock c) in
      if action = ''assign'' then
        only_from k {T_Todo, T_In_progress, T_Blocked, T_Failed} (tk_status k)
          (tk_assignee_update (\<lambda>_. tc_assignee d)) ''assigned''
      else if action = ''start'' then
        only_from k {T_Todo, T_Blocked} T_In_progress (tk_started_at_update (\<lambda>_. now)) ''started''
      else if action = ''complete'' then
        only_from k {T_Todo, T_In_progress, T_Blocked} T_Done
          (\<lambda>k. k\<lparr>tk_completed_at := now, tk_failure_reason := None\<rparr>) ''completed''
      else if action = ''fail'' then
        bindE (required_reason d) (\<lambda>reason.
        only_from k {T_Todo, T_In_progress, T_Blocked} T_Failed
          (\<lambda>k. k\<lparr>tk_failed_at := now, tk_failure_reason := Some reason\<rparr>) ''failed'')
      else if action = ''reopen'' then
        only_from k {T_Done, T_Failed, T_Cancelled} T_Todo
          (\<lambda>k. k\<lparr>tk_completed_at := None, tk_reopened_at := now, tk_cancellation_reason := None\<rparr>) ''reopened''
      else if action = ''escalate'' then
        bindE (required_reason d) (\<lambda>reason.
        only_from k {T_Todo, T_In_progress, T_Blocked, T_Failed} T_Blocked
          (\<lambda>k. k\<lparr>tk_escalated_at := now, tk_escalation_reason := Some reason, tk_priority := ''urgent''\<rparr>)
          ''escalated'')
      else if action = ''cancel'' then
        bindE (required_reason d) (\<lambda>reason.
        only_from k {T_Todo, T_In_progress, T_Blocked, T_Failed} T_Cancelled
          (tk_cancellation_reason_update (\<lambda>_. Some reason)) ''cancelled'')
      else Inl (Validation ''action''))"

definition may_reopen :: "db \<Rightarrow> task \<Rightarrow> task_command \<Rightarrow> user_id option \<Rightarrow> unit res" where
  "may_reopen s k d actor =
     (case (case tk_reservation k of None \<Rightarrow> None | Some i \<Rightarrow> find_reservation s i) of
        None \<Rightarrow> Inr ()
      | Some r \<Rightarrow>
        if r_status r \<notin> {R_Cancelled, R_No_show, R_Checked_out} then Inr ()
        else if tc_reopen_authorized d \<and> actor \<noteq> None
          \<and> (\<exists>m \<in> set (memberships s). Some (mb_user m) = actor \<and> mb_active m
               \<and> mb_role m \<in> {Role_Administrator, Role_Manager} \<and> at_property (tk_property k) m)
        then Inr () else Inl (Validation ''reservation_reopen_authorized''))"

definition transition_task :: "ctx \<Rightarrow> id \<Rightarrow> string \<Rightarrow> task_command \<Rightarrow> user_id option \<Rightarrow> task action" where
  "transition_task c i action d actor s =
     bindE (find_or_fail ''operational_tasks'' tk_id i (tasks s)) (\<lambda>locked.
     bindE (assert_may_manage s locked actor) (\<lambda>_.
     if tc_expected_revision d \<noteq> tk_revision locked then Inl (Validation ''expected_revision'')
     else
       bindE (if action = ''assign''
              then (case tc_assignee d of None \<Rightarrow> Inl (Logic ''assignee_id'')
                    | Some u \<Rightarrow> assert_eligible s locked u)
              else Inr ()) (\<lambda>_.
       bindE (if action = ''reopen'' then may_reopen s locked d actor else Inr ()) (\<lambda>_.
       bindE (transition_attributes c locked action d) (\<lambda>(to, attributes, event).
       let k = (attributes locked)\<lparr>tk_status := to, tk_revision := tk_revision locked + 1\<rparr> in
       Inr (commit_task c k (task_event_row c k event (tk_status locked) to (tc_reason d) actor)
              (''operational_task.'' @ event) (task_payload k) s, k))))))"

subsection \<open>Details, cancellation and rescheduling\<close>

record task_details =
  td_expected_revision :: int
  td_title :: "string option"
  td_description :: "string option"
  td_priority :: "string option"
  td_due_at :: "instant option option"
  td_meta :: "meta option"

definition update_task_details :: "ctx \<Rightarrow> id \<Rightarrow> task_details \<Rightarrow> user_id option \<Rightarrow> task action" where
  "update_task_details c i d actor s =
     bindE (find_or_fail ''operational_tasks'' tk_id i (tasks s)) (\<lambda>locked.
     bindE (assert_may_manage s locked actor) (\<lambda>_.
     if td_expected_revision d \<noteq> tk_revision locked then Inl (Validation ''expected_revision'')
     else
       let k = locked\<lparr>tk_title := or_default (td_title d) (tk_title locked),
             tk_description := or_default (td_description d) (tk_description locked),
             tk_priority := or_default (td_priority d) (tk_priority locked),
             tk_due_at := or_default (td_due_at d) (tk_due_at locked),
             tk_meta := or_default (td_meta d) (tk_meta locked),
             tk_revision := tk_revision locked + 1\<rparr>;
           before = J_Obj [(''title'', J_Str (tk_title locked)),
             (''description'', J_Str (tk_description locked)), (''priority'', J_Str (tk_priority locked)),
             (''due_at'', j_opt J_Int (tk_due_at locked)), (''metadata'', J_Obj (tk_meta locked))];
           e = \<lparr>te_task = tk_id k, te_actor = actor, te_type = ''details_updated'',
             te_from = tk_status k, te_to = tk_status k, te_reason = None,
             te_snapshot = [(''revision'', J_Int (tk_revision k)), (''before'', before)], te_at = clock c\<rparr> in
       Inr (commit_task c k e ''operational_task.details_updated'' (task_payload k) s, k)))"

definition cancel_one :: "ctx \<Rightarrow> id \<Rightarrow> string \<Rightarrow> user_id option \<Rightarrow> task \<Rightarrow> db \<Rightarrow> db" where
  "cancel_one c i reason actor k s =
     (let k' = k\<lparr>tk_status := T_Cancelled, tk_cancellation_reason := Some reason,
           tk_revision := tk_revision k + 1\<rparr> in
      commit_task c k' (task_event_row c k' ''cancelled'' (tk_status k) T_Cancelled (Some reason) actor)
        ''operational_task.cancelled''
        [(''task_id'', J_Id (tk_id k)), (''reservation_id'', J_Id i), (''property_id'', J_Id (tk_property k)),
         (''status'', J_Str (task_status_value T_Cancelled))] s)"

definition open_task :: "id \<Rightarrow> task \<Rightarrow> bool" where
  "open_task i k \<longleftrightarrow> tk_reservation k = Some i \<and> tk_status k \<in> {T_Todo, T_In_progress, T_Blocked, T_Failed}"

definition cancel_open_tasks :: "ctx \<Rightarrow> id \<Rightarrow> string \<Rightarrow> user_id option \<Rightarrow> db \<Rightarrow> db \<times> int" where
  "cancel_open_tasks c i reason actor s =
     (let open = filter (open_task i) (tasks s) in
      (fold (cancel_one c i reason actor) open s, int (length open)))"

definition reschedule_one :: "ctx \<Rightarrow> id \<Rightarrow> int \<Rightarrow> user_id option \<Rightarrow> task \<Rightarrow> db \<Rightarrow> db" where
  "reschedule_one c i seconds actor k s =
     (let k' = k\<lparr>tk_due_at := map_option (\<lambda>t. t + seconds) (tk_due_at k), tk_revision := tk_revision k + 1\<rparr> in
      commit_task c k' (task_event_row c k' ''rescheduled'' (tk_status k) (tk_status k)
          (Some ''Reservation arrival changed.'') actor)
        ''operational_task.rescheduled''
        [(''task_id'', J_Id (tk_id k)), (''reservation_id'', J_Id i), (''property_id'', J_Id (tk_property k)),
         (''due_at'', j_opt J_Int (tk_due_at k'))] s)"

definition pending_task :: "id \<Rightarrow> task \<Rightarrow> bool" where
  "pending_task i k \<longleftrightarrow> tk_reservation k = Some i \<and> tk_checklist k \<noteq> None \<and> tk_status k = T_Todo
     \<and> tk_started_at k = None \<and> tk_failed_at k = None \<and> tk_escalated_at k = None"

definition rebase_pending_tasks ::
  "ctx \<Rightarrow> id \<Rightarrow> instant \<Rightarrow> instant \<Rightarrow> user_id option \<Rightarrow> db \<Rightarrow> db \<times> int" where
  "rebase_pending_tasks c i old_start new_start actor s =
     (let seconds = new_start - old_start; pending = filter (pending_task i) (tasks s) in
      if seconds = 0 then (s, 0)
      else (fold (reschedule_one c i seconds actor) pending s, int (length pending)))"

subsection \<open>What a committed change does\<close>

lemma commit_task_frame [frame_simps]:
  "tasks (commit_task c k e m p s) = upd_row tk_id (tk_id k) (\<lambda>_. k) (tasks s)"
  "task_events (commit_task c k e m p s) = task_events s @ [e]"
  "next_id (commit_task c k e m p s) = next_id s"
  "reservations (commit_task c k e m p s) = reservations s"
  "allocations (commit_task c k e m p s) = allocations s"
  "folio_lines (commit_task c k e m p s) = folio_lines s"
  "payments (commit_task c k e m p s) = payments s"
  "deposits (commit_task c k e m p s) = deposits s"
  "changes (commit_task c k e m p s) = changes s"
  "usages (commit_task c k e m p s) = usages s"
  "memberships (commit_task c k e m p s) = memberships s"
  by (simp_all add: commit_task_def log_task_event_def save_task_def frame_simps)

lemma task_event_row_simps [simp]:
  "te_task (task_event_row c k ty f t r a) = tk_id k"
  "te_from (task_event_row c k ty f t r a) = f"
  "te_to (task_event_row c k ty f t r a) = t"
  "te_type (task_event_row c k ty f t r a) = ty"
  by (simp_all add: task_event_row_def)

text \<open>
  The log of a task replays: its events chain, each starting where the previous one ended, and the
  last one ends at the task's status. A task without events yet is one that was generated.
\<close>

fun replays :: "task_status option \<Rightarrow> task_event list \<Rightarrow> task_status \<Rightarrow> bool" where
  "replays at [] final \<longleftrightarrow> (case at of None \<Rightarrow> True | Some st \<Rightarrow> st = final)"
| "replays at (e # es) final \<longleftrightarrow> (case at of None \<Rightarrow> True | Some st \<Rightarrow> te_from e = st)
     \<and> replays (Some (te_to e)) es final"

definition events_of :: "db \<Rightarrow> id \<Rightarrow> task_event list" where
  "events_of s i = filter (\<lambda>e. te_task e = i) (task_events s)"

definition logs_replay :: "db \<Rightarrow> bool" where
  "logs_replay s \<longleftrightarrow> keys_ok tk_id (tasks s) (next_id s)
     \<and> (\<forall>e \<in> set (task_events s). te_task e < next_id s)
     \<and> (\<forall>k \<in> set (tasks s). replays None (events_of s (tk_id k)) (tk_status k))"

lemma replays_snoc: "replays at es st \<Longrightarrow> te_from e = st \<Longrightarrow> replays at (es @ [e]) (te_to e)"
  by (induction es arbitrary: at) (auto split: option.splits)

lemma keys_ok_save:
  "keys_ok tk_id ks n \<Longrightarrow> keys_ok tk_id (upd_row tk_id (tk_id k) (\<lambda>_. k) ks) n"
proof -
  assume ok: "keys_ok tk_id ks n"
  have "map tk_id (upd_row tk_id (tk_id k) (\<lambda>_. k) ks) = map tk_id ks"
    by (induction ks) (auto simp: upd_row_def upd_where_def)
  then show ?thesis using ok keys_ok_cong by metis
qed

lemma logs_replay_commit:
  assumes "logs_replay s" and "k0 \<in> set (tasks s)" and "tk_id k = tk_id k0"
    and "te_task e = tk_id k0" and "te_from e = tk_status k0" and "te_to e = tk_status k"
  shows "logs_replay (commit_task c k e m p s)"
  unfolding logs_replay_def commit_task_frame
proof (intro conjI ballI)
  show "keys_ok tk_id (upd_row tk_id (tk_id k) (\<lambda>_. k) (tasks s)) (next_id s)"
    using assms(1) by (intro keys_ok_save) (simp add: logs_replay_def)
  show "te_task x < next_id s" if "x \<in> set (task_events s @ [e])" for x
    using that assms by (auto simp: logs_replay_def keys_ok_def)
  fix x assume x: "x \<in> set (upd_row tk_id (tk_id k) (\<lambda>_. k) (tasks s))"
  have ev: "events_of (commit_task c k e m p s) i = events_of s i @ (if tk_id k0 = i then [e] else [])" for i
    using assms(4) by (simp add: events_of_def commit_task_frame)
  show "replays None (events_of (commit_task c k e m p s) (tk_id x)) (tk_status x)"
  proof (cases "tk_id x = tk_id k0")
    case True
    with x have "x = k" using assms(3) by (auto simp: upd_row_def set_upd_where split: if_splits)
    moreover have "replays None (events_of s (tk_id k0)) (tk_status k0)"
      using assms(1,2) by (simp add: logs_replay_def)
    ultimately show ?thesis using replays_snoc [OF _ assms(5)] assms(3,6) by (simp add: ev)
  next
    case False
    with x assms(3) have "x \<in> set (tasks s)" by (auto simp: upd_row_def set_upd_where split: if_splits)
    with assms(1) False show ?thesis by (auto simp: ev logs_replay_def)
  qed
qed

lemma logs_replay_insert:
  assumes "logs_replay s" and "tk_id k = next_id s"
  shows "logs_replay (s\<lparr>tasks := tasks s @ [k], next_id := Suc (next_id s)\<rparr>)"
proof -
  have "events_of s (next_id s) = []"
    using assms(1) by (auto simp: logs_replay_def events_of_def filter_empty_conv)
  then show ?thesis
    using assms by (auto simp: logs_replay_def events_of_def keys_ok_insert less_Suc_eq)
qed

lemma logs_replay_task: "logs_replay s \<Longrightarrow> find_row tk_id i (tasks s) = Some k \<Longrightarrow> k \<in> set (tasks s) \<and> tk_id k = i"
  by (auto dest: find_row_Some)

subsection \<open>Every operation keeps the log\<close>

lemma only_from_Inr:
  "only_from k allowed to f ev = Inr (to', f', ev') \<longleftrightarrow> tk_status k \<in> allowed \<and> to' = to \<and> f' = f \<and> ev' = ev"
  by (auto simp: only_from_def)

definition open_statuses :: "task_status set" where
  "open_statuses = {T_Todo, T_In_progress, T_Blocked, T_Failed}"

lemma transition_attributes_Inr:
  assumes "transition_attributes c k action d = Inr (to, f, ev)"
  shows "tk_id (f x) = tk_id x"
    and "action = ''reopen'' \<and> tk_status k \<in> {T_Done, T_Failed, T_Cancelled} \<and> to = T_Todo
       \<or> action \<noteq> ''reopen'' \<and> tk_status k \<in> open_statuses"
proof -
  have acts: "action \<in> {''assign'', ''start'', ''complete'', ''fail'', ''reopen'', ''escalate'', ''cancel''}"
    using assms by (auto simp: transition_attributes_def Let_def split: if_splits)
  from acts assms show "tk_id (f x) = tk_id x"
    by (auto simp: transition_attributes_def Let_def only_from_Inr bindE_eq_Inr)
  from acts assms show "action = ''reopen'' \<and> tk_status k \<in> {T_Done, T_Failed, T_Cancelled} \<and> to = T_Todo
       \<or> action \<noteq> ''reopen'' \<and> tk_status k \<in> open_statuses"
    by (auto simp: transition_attributes_def Let_def only_from_Inr bindE_eq_Inr open_statuses_def
        split: if_splits)
qed

lemma transition_task_Inr:
  assumes "transition_task c i action d actor s = Inr (t, k)"
  obtains k0 to f ev where "find_row tk_id i (tasks s) = Some k0" "tc_expected_revision d = tk_revision k0"
    "transition_attributes c k0 action d = Inr (to, f, ev)"
    "k = (f k0)\<lparr>tk_status := to, tk_revision := tk_revision k0 + 1\<rparr>"
    "t = commit_task c k (task_event_row c k ev (tk_status k0) to (tc_reason d) actor)
           (''operational_task.'' @ ev) (task_payload k) s"
proof -
  from assms obtain k0 to f ev where "find_row tk_id i (tasks s) = Some k0"
    "tc_expected_revision d = tk_revision k0" "transition_attributes c k0 action d = Inr (to, f, ev)"
    and "(let k = (f k0)\<lparr>tk_status := to, tk_revision := tk_revision k0 + 1\<rparr> in
       Inr (commit_task c k (task_event_row c k ev (tk_status k0) to (tc_reason d) actor)
              (''operational_task.'' @ ev) (task_payload k) s, k)) = (Inr (t, k) :: (db \<times> task) res)"
    unfolding transition_task_def bindE_eq_Inr find_or_fail_Inr if_Inl_eq_Inr by (fastforce split: prod.splits)
  then show ?thesis by (intro that) (auto simp: Let_def)
qed

lemma transition_logs:
  assumes "transition_task c i action d actor s = Inr (t, k)" and "logs_replay s"
  shows "logs_replay t"
  using assms(1)
proof (rule transition_task_Inr)
  fix k0 to f ev
  assume k0: "find_row tk_id i (tasks s) = Some k0"
    and att: "transition_attributes c k0 action d = Inr (to, f, ev)"
    and k: "k = (f k0)\<lparr>tk_status := to, tk_revision := tk_revision k0 + 1\<rparr>"
    and t: "t = commit_task c k (task_event_row c k ev (tk_status k0) to (tc_reason d) actor)
           (''operational_task.'' @ ev) (task_payload k) s"
  have id: "tk_id k = tk_id k0" using transition_attributes_Inr(1) [OF att] by (simp add: k)
  show "logs_replay t"
    unfolding t by (rule logs_replay_commit [OF assms(2), of k0])
      (use logs_replay_task [OF assms(2) k0] id in \<open>simp_all add: k\<close>)
qed

lemma details_logs:
  assumes "update_task_details c i d actor s = Inr (t, k)" and "logs_replay s"
  shows "logs_replay t"
proof -
  from assms(1) obtain k0 where k0: "find_row tk_id i (tasks s) = Some k0"
    by (auto simp: update_task_details_def bindE_eq_Inr find_or_fail_Inr)
  from assms(1) obtain e p where t: "t = commit_task c k e ''operational_task.details_updated'' p s"
    and k: "tk_id k = tk_id k0" "tk_status k = tk_status k0"
    and e: "te_task e = tk_id k0" "te_from e = tk_status k0" "te_to e = tk_status k"
    using k0 by (auto simp: update_task_details_def bindE_eq_Inr find_or_fail_Inr Let_def split: if_splits)
  show ?thesis
    unfolding t by (rule logs_replay_commit [OF assms(2), of k0])
      (use logs_replay_task [OF assms(2) k0] k e in simp_all)
qed

lemma insert_task_logs:
  assumes "logs_replay s" and "tk_id k = next_id s" and "tk_status k = T_Todo"
  shows "logs_replay (insert_task c k actor s)" and "k \<in> set (tasks (insert_task c k actor s))"
proof -
  show "logs_replay (insert_task c k actor s)"
    unfolding insert_task_def
    by (rule logs_replay_commit [OF logs_replay_insert [OF assms(1,2)], of k]) (simp_all add: assms)
  show "k \<in> set (tasks (insert_task c k actor s))"
    by (simp add: insert_task_def commit_task_frame upd_row_def set_upd_where)
qed

lemma create_task_Inr:
  assumes "create_task c d actor s = Inr (t, k)"
  shows "(case ti_assignee d of
      None \<Rightarrow> Inr (insert_task c (new_task d (next_id s)) actor s, new_task d (next_id s))
    | Some u \<Rightarrow> assign_new_task c (new_task d (next_id s)) u actor
        (insert_task c (new_task d (next_id s)) actor s)) = Inr (t, k)"
proof (cases "assert_may_schedule c s actor (ti_property d)")
  case (Inr x)
  define A where "A = (find (\<lambda>p. prop_id p = ti_property d \<and> prop_active p) (properties s) = None)"
  define B where "B = (case ti_reservation d of None \<Rightarrow> False
    | Some i \<Rightarrow> \<not> (\<exists>r \<in> set (reservations s). r_id r = i \<and> r_property r = ti_property d))"
  show ?thesis
    using assms Inr
    unfolding create_task_def Let_def bindE_def A_def [symmetric] B_def [symmetric]
    by (cases A; cases B; simp)
qed (use assms in \<open>simp add: create_task_def\<close>)

lemma create_logs:
  assumes "create_task c d actor s = Inr (t, k)" and "logs_replay s"
  shows "logs_replay t"
proof -
  have new: "tk_id (new_task d i) = i" "tk_status (new_task d i) = T_Todo" for i
    by (simp_all add: new_task_def)
  note ins = insert_task_logs [OF assms(2) new]
  show ?thesis
  proof (cases "ti_assignee d")
    case None
    then show ?thesis using create_task_Inr [OF assms(1)] ins by auto
  next
    case (Some u)
    then have "assign_new_task c (new_task d (next_id s)) u actor
      (insert_task c (new_task d (next_id s)) actor s) = Inr (t, k)"
      using create_task_Inr [OF assms(1)] by simp
    then show ?thesis
      unfolding assign_new_task_def bindE_eq_Inr Let_def
      by (auto intro!: logs_replay_commit [OF ins(1) ins(2)] simp: new)
  qed
qed

lemma fold_commits_logs:
  assumes step: "\<And>k s. g k s = commit_task c (upd k) (ev k) m (p k) s"
    and upd: "\<And>k. tk_id (upd k) = tk_id k" "\<And>k. te_task (ev k) = tk_id k"
      "\<And>k. te_from (ev k) = tk_status k" "\<And>k. te_to (ev k) = tk_status (upd k)"
    and "logs_replay s" and "distinct (map tk_id ks)" and "set ks \<subseteq> set (tasks s)"
  shows "logs_replay (fold g ks s)"
  using assms(6-)
proof (induction ks arbitrary: s)
  case (Cons k ks)
  have "logs_replay (g k s)"
    unfolding step by (rule logs_replay_commit [OF Cons.prems(1), of k]) (use Cons.prems upd in auto)
  moreover have "x \<in> set (tasks (g k s))" if "x \<in> set ks" for x
  proof -
    have "tk_id k \<notin> tk_id ` set ks" "x \<in> set (tasks s)" using that Cons.prems by auto
    moreover from this(1) that have "tk_id x \<noteq> tk_id k" by (metis image_eqI)
    ultimately have "tk_id x \<noteq> tk_id k" "x \<in> set (tasks s)" by blast+
    then show ?thesis by (force simp: step commit_task_frame upd_row_def set_upd_where upd(1))
  qed
  ultimately show ?case using Cons.prems by (auto intro: Cons.IH)
qed simp

lemma distinct_filter_keys: "logs_replay s \<Longrightarrow> distinct (map tk_id (filter P (tasks s)))"
  by (simp add: logs_replay_def keys_ok_def distinct_map_filter)

lemma cancel_open_logs:
  "logs_replay s \<Longrightarrow> logs_replay (fst (cancel_open_tasks c i reason actor s))"
  unfolding cancel_open_tasks_def Let_def fst_conv
  by (rule fold_commits_logs [where upd = "\<lambda>k. k\<lparr>tk_status := T_Cancelled,
        tk_cancellation_reason := Some reason, tk_revision := tk_revision k + 1\<rparr>"])
    (auto simp: cancel_one_def Let_def distinct_filter_keys)

lemma rebase_logs:
  "logs_replay s \<Longrightarrow> logs_replay (fst (rebase_pending_tasks c i a b actor s))"
  unfolding rebase_pending_tasks_def Let_def
  by (cases "b - a = 0", simp, simp only: if_False fst_conv,
      rule fold_commits_logs [where upd = "\<lambda>k. k\<lparr>tk_due_at := map_option (\<lambda>t. t + (b - a)) (tk_due_at k),
        tk_revision := tk_revision k + 1\<rparr>"])
    (auto simp: reschedule_one_def Let_def distinct_filter_keys)

subsection \<open>Runs\<close>

datatype task_operation =
    Create_task task_input
  | Transition_task id string task_command
  | Update_task id task_details
  | Cancel_open id string
  | Rebase_pending id instant instant

fun run_task :: "ctx \<Rightarrow> user_id option \<Rightarrow> task_operation \<Rightarrow> db \<Rightarrow> db res" where
  "run_task c actor (Create_task d) s = bindE (create_task c d actor s) (\<lambda>(t, _). Inr t)"
| "run_task c actor (Transition_task i action d) s =
     bindE (transition_task c i action d actor s) (\<lambda>(t, _). Inr t)"
| "run_task c actor (Update_task i d) s = bindE (update_task_details c i d actor s) (\<lambda>(t, _). Inr t)"
| "run_task c actor (Cancel_open i reason) s = Inr (fst (cancel_open_tasks c i reason actor s))"
| "run_task c actor (Rebase_pending i a b) s = Inr (fst (rebase_pending_tasks c i a b actor s))"

definition task_step :: "db \<Rightarrow> db \<Rightarrow> bool" where
  "task_step s t \<longleftrightarrow> (\<exists>c actor op. run_task c actor op s = Inr t)"

lemma task_step_logs:
  assumes "task_step s t" and "logs_replay s"
  shows "logs_replay t"
proof -
  obtain c actor op where "run_task c actor op s = Inr t" using assms(1) by (auto simp: task_step_def)
  with assms(2) show ?thesis
    by (cases op) (auto simp: bindE_eq_Inr intro: create_logs transition_logs details_logs
        cancel_open_logs rebase_logs)
qed

subsection \<open>Properties\<close>

text \<open>Tasks use optimistic locking and follow their lifecycle. A successful transition was asked
  for at the task's current revision, stores the task at the next revision, and a second transition
  that presents the same revision always fails, so no update is lost. A done or cancelled task only
  changes by being reopened, to the to-do status.\<close>

theorem task_transition_exact:
  assumes "transition_task c i action d actor s = Inr (t, k)"
  shows "(\<exists>k0. find_row tk_id i (tasks s) = Some k0 \<and> tc_expected_revision d = tk_revision k0
      \<and> find_row tk_id i (tasks t) = Some k \<and> tk_revision k = tk_revision k0 + 1
      \<and> (tk_status k0 \<in> {T_Done, T_Cancelled} \<longrightarrow> action = ''reopen'' \<and> tk_status k = T_Todo))
    \<and> (tc_expected_revision d' = tc_expected_revision d \<longrightarrow>
         transition_task c' i action' d' actor' t \<noteq> Inr r)"
  using assms
proof (rule transition_task_Inr)
  fix k0 to f ev
  assume k0: "find_row tk_id i (tasks s) = Some k0" and rev: "tc_expected_revision d = tk_revision k0"
    and att: "transition_attributes c k0 action d = Inr (to, f, ev)"
    and k: "k = (f k0)\<lparr>tk_status := to, tk_revision := tk_revision k0 + 1\<rparr>"
    and t: "t = commit_task c k (task_event_row c k ev (tk_status k0) to (tc_reason d) actor)
           (''operational_task.'' @ ev) (task_payload k) s"
  have id: "tk_id k = i"
    using transition_attributes_Inr(1) [OF att, of k0] find_row_Some [OF k0] by (simp add: k)
  have upd: "find_row tk_id i (upd_row tk_id i (\<lambda>_. k) ks) = Some k" if "find_row tk_id i ks = Some k0" for ks
    using that by (induction ks) (auto simp: find_row_def upd_row_def upd_where_def id split: if_splits)
  then have found: "find_row tk_id i (tasks t) = Some k" using k0 by (simp add: t commit_task_frame id)
  moreover have "transition_task c' i action' d' actor' t \<noteq> Inr r"
    if same: "tc_expected_revision d' = tc_expected_revision d"
  proof
    assume "transition_task c' i action' d' actor' t = Inr r"
    then obtain t' k' where "transition_task c' i action' d' actor' t = Inr (t', k')" by (cases r) simp
    then show False
    proof (rule transition_task_Inr)
      fix k1 assume "find_row tk_id i (tasks t) = Some k1" "tc_expected_revision d' = tk_revision k1"
      with found rev same show False by (simp add: k)
    qed
  qed
  ultimately show ?thesis
    using k0 rev transition_attributes_Inr(2) [OF att] by (auto simp: k open_statuses_def)
qed

definition demo_task :: task where
  "demo_task = new_task \<lparr>ti_property = 1, ti_reservation = None, ti_title = ''Prepare boat'',
     ti_description = [], ti_priority = None, ti_due_at = None, ti_meta = [], ti_assignee = None\<rparr> 15"

theorem task_transition_exact_witness:
  "\<exists>t k. transition_task demo_ctx 15 ''start''
      \<lparr>tc_expected_revision = 1, tc_assignee = None, tc_reason = None, tc_reopen_authorized = False\<rparr>
      None (demo_db\<lparr>tasks := [demo_task]\<rparr>) = Inr (t, k) \<and> tk_status k = T_In_progress
    \<and> find_row tk_id 15 (tasks t) = Some k \<and> tk_revision k = 2"
proof -
  let ?run = "transition_task demo_ctx 15 ''start''
      \<lparr>tc_expected_revision = 1, tc_assignee = None, tc_reason = None, tc_reopen_authorized = False\<rparr>
      None (demo_db\<lparr>tasks := [demo_task]\<rparr>)"
  have "succeeds_with (\<lambda>(t, k). tk_status k = T_In_progress \<and> tk_revision k = 2) ?run"
    by (simp add: transition_task_def find_or_fail_def find_row_def demo_task_def new_task_def
        assert_may_manage_def transition_attributes_def only_from_def Let_def)
  then obtain t k where run: "?run = Inr (t, k)" "tk_status k = T_In_progress" "tk_revision k = 2"
    by (auto elim: succeeds_withE)
  with task_transition_exact [OF run(1)] show ?thesis by blast
qed

text \<open>C32: The event log of every task is complete: along any sequence of creations, transitions, edits,
  cancellations and reschedulings, the events of each task chain (each starts in the status the
  previous one ended in) and the last one ends in the status the task has.\<close>

theorem task_logs_replay:
  "task_step\<^sup>*\<^sup>* s t \<Longrightarrow> logs_replay s \<Longrightarrow> logs_replay t"
  by (induction rule: rtranclp_induct) (auto intro: task_step_logs)

theorem task_logs_replay_witness:
  "\<exists>t. task_step (demo_db\<lparr>tasks := [demo_task\<lparr>tk_reservation := Some 6\<rparr>]\<rparr>) t
     \<and> map tk_status (tasks t) = [T_Cancelled] \<and> logs_replay t"
proof -
  let ?s = "demo_db\<lparr>tasks := [demo_task\<lparr>tk_reservation := Some 6\<rparr>]\<rparr>"
  have "succeeds_with (\<lambda>t. map tk_status (tasks t) = [T_Cancelled])
      (run_task demo_ctx None (Cancel_open 6 ''closed'') ?s)"
    by (simp add: cancel_open_tasks_def open_task_def demo_task_def new_task_def cancel_one_def
        commit_task_frame upd_row_def upd_where_def Let_def)
  then obtain t where t: "run_task demo_ctx None (Cancel_open 6 ''closed'') ?s = Inr t"
      "map tk_status (tasks t) = [T_Cancelled]"
    by (auto elim: succeeds_withE)
  then have step: "task_step ?s t" unfolding task_step_def by blast
  have start: "logs_replay ?s"
    by (simp add: logs_replay_def keys_ok_def events_of_def demo_task_def new_task_def demo_db_def empty_db_def)
  show ?thesis
    by (intro exI [of _ t] conjI step t(2) task_logs_replay [OF r_into_rtranclp [of task_step, OF step] start])
qed

end
