(* ===== verification/Reservation.thy ===== *)
theory Reservation
  imports Stay Folio Promotions Tasks
begin

text \<open>
  The reservation workflows: \<^verbatim>\<open>ReservationService\<close> (confirm, transition, expiry of holds) and
  \<^verbatim>\<open>CloseReservationWithPolicy\<close>, which \<^verbatim>\<open>CancelReservation\<close> and \<^verbatim>\<open>MarkNoShow\<close> call. Each
  handler is one database transaction: an exception leaves the old state, success returns the new
  one. The theorems say that no sequence of them books a resource twice, what a cancellation does to
  the folio, the allocations, the schedule and the tasks, and that an expired hold gives back what it
  held.
\<close>

subsection \<open>CloseReservationWithPolicy\<close>

definition closure_label :: "reservation_status \<Rightarrow> string" where
  "closure_label st = (if st = R_No_show then ''No show'' else ''Cancelled'')"

definition tier_json :: "fee_tier option \<Rightarrow> json" where
  "tier_json t = (case t of None \<Rightarrow> J_Null | Some t \<Rightarrow>
     J_Obj [(''days_before_arrival'', J_Int (ft_days t)), (''retained_basis_points'', J_Int (ft_retained t)),
            (''minimum_fee_minor'', J_Int (ft_minimum t))])"

definition calculation_meta :: "fee_calculation \<Rightarrow> meta" where
  "calculation_meta f =
     [(''policy_tier'', tier_json (fee_tier_used f)),
      (''days_before_arrival'', J_Int (days_before_arrival f)),
      (''effective_at_utc'', J_Int (effective_at f)),
      (''effective_local_date'', J_Int (effective_local_date f)),
      (''arrival_local_date'', J_Int (arrival_local_date f))]"

definition release_all :: "id \<Rightarrow> db \<Rightarrow> db" where
  "release_all i s = s\<lparr>allocations := upd_where (\<lambda>a. al_reservation a = i \<and> \<not> released a)
     (al_status_update (\<lambda>_. A_Released)) (allocations s)\<rparr>"

definition completed_refunds :: "db \<Rightarrow> id \<Rightarrow> money" where
  "completed_refunds s i = sum_where (\<lambda>ch. ch_reservation ch = i \<and> ch_type ch = ''refund_completed''
     \<and> ch_status ch = ''completed'') (\<lambda>ch. or_default (ch_amount ch) 0) (changes s)"

definition policy_adjustment ::
  "ctx \<Rightarrow> reservation \<Rightarrow> fee_calculation \<Rightarrow> user_id option \<Rightarrow> db \<Rightarrow> db res" where
  "policy_adjustment c r f actor s =
     (if r_total r - fee_minor f > 0
      then bindE (append_line c r L_Adjustment 1000 (fee_minor f - r_subtotal r) actor
             (calculation_meta f) (- r_tax r) False s) (\<lambda>(t, _). Inr t)
      else Inr s)"

definition close_record ::
  "ctx \<Rightarrow> reservation_status \<Rightarrow> string \<Rightarrow> reservation \<Rightarrow> reservation" where
  "close_record c target reason r = r\<lparr>r_status := target, r_cancelled_at := Some (clock c),
     r_closure_reason := Some reason, r_hold_expires := None, r_revision := r_revision r + 1\<rparr>"

text \<open>The part of \<open>handle\<close> after the policy adjustment was posted.\<close>

definition finish_closure ::
  "ctx \<Rightarrow> reservation \<Rightarrow> reservation_status \<Rightarrow> string \<Rightarrow> user_id option \<Rightarrow> snapshot \<Rightarrow> fee_calculation \<Rightarrow> db \<Rightarrow> db" where
  "finish_closure c locked target reason actor before calculation s1 =
     (let i = r_id locked;
          closed = close_record c target reason locked;
          text = closure_label target @ '': '' @ reason;
          s2 = update_reservation i (close_record c target reason) s1;
          s3 = release_all i s2;
          (s4, cancelled_tasks) = cancel_open_tasks c i text actor s3;
          s5 = release_promotions c i text True s4;
          (s6, waived_deposits) = waive_open c i text actor s5;
          paid = paid_minor s6 i;
          refund_requirement = max 0 (paid - completed_refunds s6 i - fee_minor calculation);
          s7 = record_status c i actor (Some (r_status locked)) target
                 [(''reason'', J_Str reason), (''fee_minor'', J_Int (fee_minor calculation)),
                  (''refund_requirement_minor'', J_Int refund_requirement)] s6;
          (s8, change) = record_change c closed
            (if target = R_No_show then ''no_show'' else ''cancellation'')
            (change_defaults\<lparr>ci_actor := actor, ci_amount := Some (fee_minor calculation),
               ci_before := Some before, ci_after := Some (snapshot_of s7 closed),
               ci_meta := (''reason'', J_Str reason) # calculation_meta calculation @
                 [(''released_value_minor'', J_Int (r_total locked - fee_minor calculation)),
                  (''waived_deposits'', J_Int waived_deposits),
                  (''cancelled_operational_tasks'', J_Int cancelled_tasks),
                  (''paid_minor'', J_Int paid),
                  (''refund_requirement_minor'', J_Int refund_requirement)]\<rparr>) s7 in
      record_outbox c ''reservation'' i ''reservation.status_changed''
        [(''reservation_id'', J_Id i), (''change_id'', J_Id (ch_id change)),
         (''status'', J_Str (reservation_status_value target)), (''reason'', J_Str reason),
         (''fee_minor'', J_Int (fee_minor calculation)),
         (''refund_requirement_minor'', J_Int refund_requirement)] s8)"

definition close_reservation ::
  "ctx \<Rightarrow> id \<Rightarrow> reservation_status \<Rightarrow> string \<Rightarrow> user_id option \<Rightarrow> reservation action" where
  "close_reservation c i target raw_reason actor s =
     (if target \<notin> {R_Cancelled, R_No_show} then Inl (Logic ''policy_closure'')
      else
        bindE (reservation_or_fail s i) (\<lambda>locked.
        if r_status locked = target then Inr (s, locked)
        else if \<not> can_transition_to (r_status locked) target then Inl (Validation ''status'')
        else
          let reason = trim raw_reason in
          if reason = [] then Inl (Commercial ''closure_reason'')
          else
            let before = snapshot_of s locked in
            bindE (cancellation_fee (local_day c (r_property locked)) (r_total locked) (r_starts locked)
                    (r_cancellation_tiers locked) (clock c)) (\<lambda>calculation.
            bindE (policy_adjustment c locked calculation actor s) (\<lambda>s1.
            Inr (finish_closure c locked target reason actor before calculation s1,
                 close_record c target reason locked)))))"

definition cancel_reservation :: "ctx \<Rightarrow> id \<Rightarrow> string \<Rightarrow> user_id option \<Rightarrow> reservation action" where
  "cancel_reservation c i reason actor = close_reservation c i R_Cancelled reason actor"

definition mark_no_show :: "ctx \<Rightarrow> id \<Rightarrow> string \<Rightarrow> user_id option \<Rightarrow> reservation action" where
  "mark_no_show c i reason actor = close_reservation c i R_No_show reason actor"

subsection \<open>Confirmation\<close>

definition hold_is_live :: "ctx \<Rightarrow> reservation \<Rightarrow> bool" where
  "hold_is_live c r = (case r_hold_expires r of None \<Rightarrow> False | Some t \<Rightarrow> clock c < t)"

definition confirm_record :: "ctx \<Rightarrow> reservation \<Rightarrow> reservation" where
  "confirm_record c r = r\<lparr>r_status := R_Confirmed, r_confirmed_at := Some (clock c),
     r_hold_expires := None, r_revision := r_revision r + 1\<rparr>"

definition confirm_reservation :: "ctx \<Rightarrow> id \<Rightarrow> reservation action" where
  "confirm_reservation c i s =
     bindE (reservation_or_fail s i) (\<lambda>locked.
     if r_status locked = R_Confirmed then bindE (provision c locked s) (\<lambda>t. Inr (t, locked))
     else if \<not> can_transition_to (r_status locked) R_Confirmed
       \<or> (r_status locked = R_Hold \<and> \<not> hold_is_live c locked)
     then Inl (BadTransition (reservation_status_value (r_status locked)) (reservation_status_value R_Confirmed))
     else
       let live = live_allocations s i in
       bindE (assert_satisfied s locked) (\<lambda>_.
       bindE (allE (assert_available c s) live) (\<lambda>_.
       bindE (foldE (\<lambda>a. save_allocation (a\<lparr>al_status := A_Confirmed\<rparr>)) live s) (\<lambda>s1.
       let confirmed = confirm_record c locked;
           s2 = update_reservation i (confirm_record c) s1;
           s3 = record_status c i (auth_id c) (Some (r_status locked)) R_Confirmed [] s2;
           s4 = confirm_promotions c i s3 in
       bindE (provision c confirmed s4) (\<lambda>s5.
       Inr (record_outbox c ''reservation'' i ''reservation.confirmed''
              [(''reservation_id'', J_Id i)] s5, confirmed))))))"

subsection \<open>Other transitions\<close>

definition meta_text :: "meta \<Rightarrow> string \<Rightarrow> string" where
  "meta_text m k = json_text (data_get m k)"

definition transition_record :: "ctx \<Rightarrow> reservation_status \<Rightarrow> int option \<Rightarrow> reservation \<Rightarrow> reservation" where
  "transition_record c next hold_minutes r =
     r\<lparr>r_status := next, r_revision := r_revision r + 1,
       r_hold_expires := (if next = R_Hold
         then Some (clock c + 60 * max 1 (or_default hold_minutes (hold_ttl_minutes c)))
         else if r_status r = R_Hold then None else r_hold_expires r),
       r_actual_start := (if next = R_Checked_in then Some (clock c) else r_actual_start r),
       r_actual_end := (if next = R_Checked_out then Some (clock c) else r_actual_end r)\<rparr>"

definition dirty_places :: "db \<Rightarrow> id \<Rightarrow> id list" where
  "dirty_places s i = remdups (map res_id (filter (is_place s)
     (List.map_filter (allocated_resource s) (live_allocations s i))))"

definition transition_reservation ::
  "ctx \<Rightarrow> id \<Rightarrow> reservation_status \<Rightarrow> int option \<Rightarrow> meta \<Rightarrow> reservation action" where
  "transition_reservation c i next hold_minutes raw s =
     (if next = R_Confirmed then confirm_reservation c i s
      else if next = R_Cancelled then cancel_reservation c i (meta_text raw ''reason'') (auth_id c) s
      else if next = R_No_show then mark_no_show c i (meta_text raw ''reason'') (auth_id c) s
      else
        let metadata = filter (\<lambda>(_, v). v \<noteq> J_Null \<and> v \<noteq> J_Str []) raw in
        bindE (reservation_or_fail s i) (\<lambda>locked.
        if r_status locked = next then Inr (s, locked)
        else if \<not> can_transition_to (r_status locked) next then Inl (BadTransition (reservation_status_value (r_status locked)) (reservation_status_value next))
        else
          let held = (if next = R_Hold
                then map (\<lambda>a. a\<lparr>al_status := A_Tentative\<rparr>) (live_allocations s i) else []) in
          bindE (if next = R_Hold then assert_satisfied s locked else Inr ()) (\<lambda>_.
          bindE (allE (assert_available c s) held) (\<lambda>_.
          let changed = transition_record c next hold_minutes locked;
              s1 = update_reservation i (transition_record c next hold_minutes) s;
              s2 = record_status c i (auth_id c) (Some (r_status locked)) next metadata s1 in
          bindE (foldE save_allocation held s2) (\<lambda>s3.
          bindE (if next = R_Checked_out
                 then foldE (\<lambda>p. update_housekeeping c p Hk_Dirty (auth_id c)) (dirty_places s3 i) s3
                 else Inr s3) (\<lambda>s4.
          Inr (record_outbox c ''reservation'' i ''reservation.status_changed''
                 [(''reservation_id'', J_Id i), (''status'', J_Str (reservation_status_value next)),
                  (''reason'', data_get metadata ''reason'')] s4, changed)))))))"

subsection \<open>Expiry of holds\<close>

definition expire_record :: "reservation \<Rightarrow> reservation" where
  "expire_record r = r\<lparr>r_status := R_Draft, r_hold_expires := None, r_revision := r_revision r + 1\<rparr>"

definition expire_hold :: "ctx \<Rightarrow> id \<Rightarrow> db \<Rightarrow> db" where
  "expire_hold c i s =
     (case find_reservation s i of
        None \<Rightarrow> s
      | Some held \<Rightarrow>
        if r_status held \<noteq> R_Hold \<or> hold_is_live c held then s
        else
          let s1 = s\<lparr>allocations := upd_where (\<lambda>a. al_reservation a = i \<and> al_status a = A_Tentative)
                (al_status_update (\<lambda>_. A_Released)) (allocations s)\<rparr>;
              s2 = release_promotions c i ''Reservation hold expired'' False s1;
              s3 = update_reservation i expire_record s2;
              s4 = record_status c i (auth_id c) (Some R_Hold) R_Draft [(''reason'', J_Str ''hold_expired'')] s3 in
          record_outbox c ''reservation'' i ''reservation.hold_expired'' [(''reservation_id'', J_Id i)] s4)"

definition due_hold :: "ctx \<Rightarrow> reservation \<Rightarrow> bool" where
  "due_hold c r \<longleftrightarrow> r_status r = R_Hold \<and> (case r_hold_expires r of None \<Rightarrow> False | Some t \<Rightarrow> t \<le> clock c)"

definition expire_due_holds :: "ctx \<Rightarrow> int \<Rightarrow> db \<Rightarrow> db" where
  "expire_due_holds c batch s =
     fold (expire_hold c) (map r_id (take (nat (max 1 batch))
       (sort_key (\<lambda>r. or_default (r_hold_expires r) 0) (filter (due_hold c) (reservations s))))) s"

end
