(* ===== verification/Booking_Safety.thy ===== *)
theory Booking_Safety
  imports Reservation
begin

text \<open>
  No resource is booked twice. Two allocations clash when they are on the same resource in
  overlapping intervals; an allocation reserves its resource when it is confirmed, or tentative under
  a hold that has not expired. The theorems below show that the reservation workflows of
  \<^theory_text>\<open>Reservation\<close> keep the allocations that reserve free of clashes, for every order of
  commands and any passing of time between them.
\<close>

subsection \<open>The invariant\<close>

definition reserving :: "ctx \<Rightarrow> db \<Rightarrow> allocation \<Rightarrow> bool" where
  "reserving c s a \<longleftrightarrow> al_status a = A_Confirmed
     \<or> (al_status a = A_Tentative \<and> live_hold c s (al_reservation a))"

definition clash :: "allocation \<Rightarrow> allocation \<Rightarrow> bool" where
  "clash a b \<longleftrightarrow> al_id a \<noteq> al_id b \<and> al_resource a \<noteq> None \<and> al_resource a = al_resource b \<and> meets a b"

definition no_double_booking :: "ctx \<Rightarrow> db \<Rightarrow> bool" where
  "no_double_booking c s \<longleftrightarrow> keys_ok al_id (allocations s) (next_id s)
     \<and> (\<forall>a \<in> set (allocations s). \<forall>b \<in> set (allocations s).
          reserving c s a \<and> reserving c s b \<longrightarrow> \<not> clash a b)"

text \<open>Two versions of an allocation in the same place.\<close>

definition same_place :: "allocation \<Rightarrow> allocation \<Rightarrow> bool" where
  "same_place a b \<longleftrightarrow> al_id a = al_id b \<and> al_reservation a = al_reservation b
     \<and> al_resource a = al_resource b \<and> al_starts a = al_starts b \<and> al_ends a = al_ends b"

lemma same_place_refl [simp]: "same_place a a"
  by (simp add: same_place_def)

lemma same_place_trans: "same_place a b \<Longrightarrow> same_place b c \<Longrightarrow> same_place a c"
  by (simp add: same_place_def)

lemma clash_same_place: "same_place a' a \<Longrightarrow> same_place b' b \<Longrightarrow> clash a' b' \<longleftrightarrow> clash a b"
  by (simp add: clash_def same_place_def meets_def)

lemma reserving_active: "reserving c s b \<Longrightarrow> active_for c s a b"
  by (auto simp: reserving_def active_for_def)

lemma live_active:
  "b \<in> set (live_allocations s i) \<Longrightarrow> al_reservation a = i \<Longrightarrow> active_for c s a b"
  by (cases "al_status b") (auto simp: live_allocations_def own_allocations_def released_def active_for_def)

text \<open>A checked allocation has no active neighbour on its resource.\<close>

lemma available_no_clash:
  assumes "assert_available c s a = Inr ()" and "b \<in> set (allocations s)" and "active_for c s a b"
  shows "\<not> clash a b"
proof
  assume "clash a b"
  then obtain r where r: "al_resource a = Some r" "al_resource b = Some r"
    and "al_id b \<noteq> al_id a" "meets a b"
    by (auto simp: clash_def)
  with assms have "assert_resource c s a r = Inr ()" "competes c s a b"
    by (auto simp: assert_available_Inr competes_def)
  with assert_resource_exclusive [OF _ assms(2)] r show False by blast
qed

lemma available_same_place:
  "assert_available c s a' = Inr () \<Longrightarrow> same_place a' a \<Longrightarrow> b \<in> set (allocations s) \<Longrightarrow>
     active_for c s a b \<Longrightarrow> \<not> clash a b"
  using available_no_clash [of c s a' b] clash_same_place [of a' a b b]
  by (auto simp: active_for_def same_place_def)

text \<open>
  The two ways a step keeps the invariant: every reserving allocation was one before, or the step
  belongs to reservation \<open>i\<close>, whose live allocations were all checked.
\<close>

lemma no_double_booking_checked:
  assumes inv: "no_double_booking c s" and keys: "keys_ok al_id (allocations t) (next_id t)"
    and checked: "\<And>a. a \<in> set (live_allocations s i) \<Longrightarrow>
      \<exists>a'. same_place a' a \<and> assert_available c s a' = Inr ()"
    and source: "\<And>b. b \<in> set (allocations t) \<Longrightarrow> reserving c' t b \<Longrightarrow> al_resource b \<noteq> None \<Longrightarrow>
      \<exists>a \<in> set (allocations s). same_place b a \<and> (reserving c s a \<or> a \<in> set (live_allocations s i))"
  shows "no_double_booking c' t"
  unfolding no_double_booking_def
proof (intro conjI ballI impI)
  show "keys_ok al_id (allocations t) (next_id t)" by (rule keys)
next
  fix x y assume x: "x \<in> set (allocations t)" and y: "y \<in> set (allocations t)"
    and r: "reserving c' t x \<and> reserving c' t y"
  have free: "\<not> clash a b"
    if a: "a \<in> set (allocations s)" "a \<in> set (live_allocations s i)"
    and b: "b \<in> set (allocations s)" "reserving c s b \<or> b \<in> set (live_allocations s i)" for a b
  proof -
    from checked [OF a(2)] obtain a' where a': "same_place a' a" "assert_available c s a' = Inr ()" by blast
    have "al_reservation a = i" using a(2) by (simp add: live_allocations_def own_allocations_def)
    with b(2) have "active_for c s a b" by (auto intro: reserving_active live_active)
    from available_same_place [OF a'(2,1) b(1) this] show ?thesis .
  qed
  show "\<not> clash x y"
  proof
    assume cl: "clash x y"
    then have "al_resource x \<noteq> None" "al_resource y \<noteq> None" by (auto simp: clash_def)
    with source [OF x] source [OF y] r obtain a b
      where a: "a \<in> set (allocations s)" "same_place x a" "reserving c s a \<or> a \<in> set (live_allocations s i)"
        and b: "b \<in> set (allocations s)" "same_place y b" "reserving c s b \<or> b \<in> set (live_allocations s i)"
      by blast
    from cl have ab: "clash a b" by (simp add: clash_same_place [OF a(2) b(2)])
    then have ba: "clash b a" by (auto simp: clash_def meets_sym)
    from ab inv a(1) b(1) have "\<not> (reserving c s a \<and> reserving c s b)"
      by (auto simp: no_double_booking_def)
    with a(3) b(3) free [OF a(1) _ b(1,3)] free [OF b(1) _ a(1,3)] ab ba show False by blast
  qed
qed

lemma no_double_booking_weaker:
  assumes "no_double_booking c s" and "keys_ok al_id (allocations t) (next_id t)"
    and "\<And>b. b \<in> set (allocations t) \<Longrightarrow> reserving c' t b \<Longrightarrow> al_resource b \<noteq> None \<Longrightarrow>
      \<exists>a \<in> set (allocations s). same_place b a \<and> reserving c s a"
  shows "no_double_booking c' t"
  unfolding no_double_booking_def
proof (intro conjI ballI impI)
  fix x y assume x: "x \<in> set (allocations t)" and y: "y \<in> set (allocations t)"
    and r: "reserving c' t x \<and> reserving c' t y"
  show "\<not> clash x y"
  proof
    assume cl: "clash x y"
    then have "al_resource x \<noteq> None" "al_resource y \<noteq> None" by (auto simp: clash_def)
    with assms(3) [OF x] assms(3) [OF y] r obtain a b
      where a: "a \<in> set (allocations s)" "same_place x a" "reserving c s a"
        and b: "b \<in> set (allocations s)" "same_place y b" "reserving c s b"
      by blast
    from cl have "clash a b" by (simp add: clash_same_place [OF a(2) b(2)])
    with assms(1) a b show False by (auto simp: no_double_booking_def)
  qed
qed (rule assms(2))

subsection \<open>What each operation does to the allocations\<close>

text \<open>
  \<open>thins s t\<close>: every allocation of \<open>t\<close> that has a resource and is not released was in \<open>s\<close> already.
  \<open>aside s t\<close>: the step also leaves the reservations alone.
\<close>

definition thins :: "db \<Rightarrow> db \<Rightarrow> bool" where
  "thins s t \<longleftrightarrow> (keys_ok al_id (allocations s) (next_id s) \<longrightarrow> keys_ok al_id (allocations t) (next_id t))
     \<and> (\<forall>b \<in> set (allocations t). al_resource b = None \<or> al_status b = A_Released \<or> b \<in> set (allocations s))"

definition aside :: "db \<Rightarrow> db \<Rightarrow> bool" where
  "aside s t \<longleftrightarrow> reservations t = reservations s \<and> thins s t"

lemma thins_refl [simp]: "thins s s"
  by (simp add: thins_def)

lemma thins_trans: "thins s t \<Longrightarrow> thins t u \<Longrightarrow> thins s u"
  unfolding thins_def by blast

lemma aside_refl [simp]: "aside s s"
  by (simp add: aside_def)

lemma aside_trans: "aside s t \<Longrightarrow> aside t u \<Longrightarrow> aside s u"
  unfolding aside_def by (auto intro: thins_trans)

lemma asideI:
  "reservations t = reservations s \<Longrightarrow> allocations t = allocations s \<Longrightarrow> next_id s \<le> next_id t \<Longrightarrow> aside s t"
  by (auto simp: aside_def thins_def intro: keys_ok_mono)

lemma thins_update_reservation: "thins s (update_reservation i f s)"
  by (simp add: thins_def frame_simps)

lemma aside_outbox: "aside s (record_outbox c a i e p s)"
  by (rule asideI) (simp_all add: frame_simps)

lemma aside_status: "aside s (record_status c i actor from to m s)"
  by (rule asideI) (simp_all add: record_status_def)

lemma aside_change: "aside s (fst (record_change c r ty d s))"
  by (rule asideI) (simp_all add: record_change_def Let_def)

lemma aside_confirm_promotions: "aside s (confirm_promotions c i s)"
  by (rule asideI) (simp_all add: confirm_promotions_frame)

lemma aside_release_promotions: "aside s (release_promotions c i why canc s)"
  by (rule asideI) (simp_all add: release_promotions_frame)

lemma aside_waive_open: "aside s (fst (waive_open c i why actor s))"
  by (rule asideI) (simp_all add: waive_open_def waive_all_def)

lemma aside_posts: "posts s l t \<Longrightarrow> aside s t"
  by (rule asideI) (simp_all add: posts_def)

lemma aside_policy: "policy_adjustment c r f actor s = Inr t \<Longrightarrow> aside s t"
  by (auto simp: policy_adjustment_def bindE_eq_Inr split: if_splits dest: append_line_Inr(1) intro: aside_posts)

lemma aside_fold: "(\<And>x s. aside s (f x s)) \<Longrightarrow> aside s (fold f xs s)"
  by (induction xs arbitrary: s) (auto intro: aside_trans)

lemma aside_foldE:
  assumes "foldE f xs s = Inr t" and "\<And>x s s'. f x s = Inr s' \<Longrightarrow> aside s s'"
  shows "aside s t"
  by (rule foldE_invariant [OF assms(1), where P = "aside s"]) (auto intro: aside_trans assms(2))

lemma aside_cancel_tasks: "aside s (fst (cancel_open_tasks c i why actor s))"
  by (auto simp: cancel_open_tasks_def Let_def cancel_one_def commit_task_frame intro!: aside_fold asideI)

lemma aside_housekeeping: "update_housekeeping c p st actor s = Inr t \<Longrightarrow> aside s t"
  by (auto simp: update_housekeeping_def res_simps intro!: asideI)

lemma aside_provision_task: "aside s (provision_task r tt s)"
  by (rule asideI) (simp_all add: provision_task_def)

lemma aside_provision_tasks: "aside s (provision_tasks r s)"
  by (auto simp: provision_tasks_def intro: aside_fold aside_provision_task split: option.split)

lemma aside_provision_deposit: "aside s (provision_deposit c r sch a due s)"
  by (rule asideI) (auto simp: provision_deposit_def new_deposit_def Let_def frame_simps split: option.split)

lemma aside_provision_schedule: "provision_schedule c r s = Inr t \<Longrightarrow> aside s t"
  by (auto simp: provision_schedule_def bindE_eq_Inr Let_def intro: aside_trans aside_provision_deposit)

text \<open>Saving an allocation moves it nowhere and keeps its status; the hook only fills in the category.\<close>

lemma allocation_hook_Inr:
  "allocation_hook s a = Inr b \<Longrightarrow> same_place b a \<and> al_status b = al_status a \<and> al_quantity b = al_quantity a"
  by (auto simp: allocation_hook_def bindE_eq_Inr same_place_def split: option.splits if_splits)

lemma insert_allocation_Inr:
  assumes "insert_allocation a s = Inr (t, b)"
  shows "allocations t = allocations s @ [b]" "next_id t = Suc (next_id s)" "reservations t = reservations s"
    "al_id b = next_id s" "al_resource b = al_resource a" "al_status b = al_status a"
    "al_reservation b = al_reservation a" "al_starts b = al_starts a" "al_ends b = al_ends a"
  using assms
  by (auto simp: insert_allocation_def bindE_eq_Inr same_place_def dest!: allocation_hook_Inr)

lemma aside_provision_occurrence:
  assumes "provision_occurrence c r s = Inr t"
  shows "aside s t"
proof (cases "t = s")
  case False
  with assms obtain occ a0 s1 s2 a b where s1: "s1 = s\<lparr>occurrences := occ, next_id := Suc (next_id s)\<rparr>"
    and ins: "insert_allocation a0 s1 = Inr (s2, a)" and res: "al_resource a0 = None"
    and hook: "allocation_hook s2 (a\<lparr>al_status := A_Confirmed\<rparr>) = Inr b"
    and t: "t = s2\<lparr>allocations := upd_row al_id (al_id a) (\<lambda>_. b) (allocations s2)\<rparr>"
    by (auto simp: provision_occurrence_def save_allocation_def bindE_eq_Inr Let_def split: option.splits if_splits)
  note i = insert_allocation_Inr [OF ins]
  have b: "al_id b = al_id a" "al_resource b = None"
    using allocation_hook_Inr [OF hook] i(5) res by (auto simp: same_place_def)
  have "keys_ok al_id (allocations t) (next_id t)" if k: "keys_ok al_id (allocations s) (next_id s)"
  proof -
    have "keys_ok al_id (allocations s1) (next_id s1)" using k by (auto simp: s1 intro: keys_ok_mono)
    then have k2: "keys_ok al_id (allocations s2) (next_id s2)" using i by (simp add: keys_ok_insert)
    have "map al_id (upd_row al_id (al_id a) (\<lambda>_. b) xs) = map al_id xs" for xs
      by (induction xs) (auto simp: upd_row_def upd_where_def b)
    with k2 show ?thesis by (simp add: t keys_ok_def) (metis (no_types, lifting) imageE imageI list.set_map)
  qed
  moreover have "x \<in> set (allocations s) \<or> al_resource x = None" if "x \<in> set (allocations t)" for x
    using that b i(1) by (auto simp: t upd_row_def upd_where_def s1 split: if_splits)
  moreover have "reservations t = reservations s" using i(3) by (simp add: t s1)
  ultimately show ?thesis unfolding aside_def thins_def by blast
qed simp

lemma aside_provision:
  assumes "provision c r s = Inr t"
  shows "aside s t"
proof -
  obtain u where u: "provision_occurrence c r s = Inr u" "provision_schedule c r (provision_tasks r u) = Inr t"
    using assms by (auto simp: provision_def bindE_eq_Inr)
  have "aside s (provision_tasks r u)"
    by (rule aside_trans [OF aside_provision_occurrence [OF u(1)] aside_provision_tasks])
  then show ?thesis by (rule aside_trans) (rule aside_provision_schedule [OF u(2)])
qed

lemma aside_release:
  "aside s (s\<lparr>allocations := upd_where P (al_status_update (\<lambda>_. A_Released)) (allocations s)\<rparr>)"
  by (auto simp: aside_def thins_def table_simps)

lemma aside_release_all: "aside s (release_all i s)"
  unfolding release_all_def by (rule aside_release)

text \<open>Saving the live allocations of a reservation with a new status.\<close>

definition resaves :: "allocation list \<Rightarrow> db \<Rightarrow> db \<Rightarrow> bool" where
  "resaves xs s t \<longleftrightarrow> reservations t = reservations s \<and> next_id t = next_id s
     \<and> map al_id (allocations t) = map al_id (allocations s)
     \<and> (\<forall>b \<in> set (allocations t). b \<in> set (allocations s) \<or> (\<exists>a \<in> set xs. same_place b a))"

lemma save_allocation_resaves:
  assumes "save_allocation a' s = Inr t" and "same_place a' a"
  shows "resaves [a] s t"
proof -
  obtain b where b: "allocation_hook s a' = Inr b"
    and t: "t = s\<lparr>allocations := upd_row al_id (al_id a') (\<lambda>_. b) (allocations s)\<rparr>"
    using assms(1) by (auto simp: save_allocation_def bindE_eq_Inr)
  have p: "same_place b a'" using allocation_hook_Inr [OF b] by simp
  then have "map al_id (upd_row al_id (al_id a') (\<lambda>_. b) xs) = map al_id xs" for xs
    by (induction xs) (auto simp: upd_row_def upd_where_def same_place_def)
  with p assms(2) show ?thesis
    by (auto simp: resaves_def t upd_row_def upd_where_def split: if_splits intro: same_place_trans)
qed

lemma foldE_resaves:
  assumes "foldE (\<lambda>a. save_allocation (f a)) xs s = Inr t" and "\<And>a. same_place (f a) a"
  shows "resaves xs s t"
  using assms(1)
proof (induction xs arbitrary: s)
  case Nil
  then show ?case by (simp add: resaves_def)
next
  case (Cons a xs)
  then obtain u where "save_allocation (f a) s = Inr u" "foldE (\<lambda>a. save_allocation (f a)) xs u = Inr t"
    by (auto split: sum.splits)
  with Cons.IH save_allocation_resaves [OF _ assms(2)] have "resaves [a] s u" "resaves xs u t" by blast+
  then show ?case unfolding resaves_def by auto
qed

lemma resaves_keys:
  "resaves xs s t \<Longrightarrow> keys_ok al_id (allocations s) (next_id s) \<Longrightarrow> keys_ok al_id (allocations t) (next_id t)"
  using keys_ok_cong [of al_id "allocations t" "allocations s"] by (simp add: resaves_def)

subsection \<open>Live holds\<close>

lemma live_hold_cong: "reservations t = reservations s \<Longrightarrow> live_hold c t i = live_hold c s i"
  by (simp add: live_hold_def)

lemma live_hold_update:
  assumes "reservations t = upd_row r_id i f (reservations s)" and "\<And>r. r_id (f r) = r_id r"
  shows "live_hold c t j \<Longrightarrow> (j \<noteq> i \<and> live_hold c s j)
     \<or> (j = i \<and> (\<exists>r. find_reservation s i = Some r \<and> r_status (f r) = R_Hold))"
  using assms(1)
  by (cases "j = i")
    (auto simp: live_hold_def find_row_upd_same [of r_id, OF assms(2)] find_row_upd_other [of _ _ r_id, OF _ assms(2)]
      split: option.splits)

lemma live_hold_later: "clock c \<le> clock c' \<Longrightarrow> live_hold c' s i \<Longrightarrow> live_hold c s i"
  by (auto simp: live_hold_def split: option.splits)

lemma inv_thins:
  assumes "no_double_booking c s" and "thins s t" and "\<And>i. live_hold c' t i \<Longrightarrow> live_hold c s i"
  shows "no_double_booking c' t"
proof (rule no_double_booking_weaker [OF assms(1)])
  show "keys_ok al_id (allocations t) (next_id t)" using assms(1,2) by (simp add: no_double_booking_def thins_def)
next
  fix b assume "b \<in> set (allocations t)" "reserving c' t b" "al_resource b \<noteq> None"
  with assms(2,3) show "\<exists>a \<in> set (allocations s). same_place b a \<and> reserving c s a"
    by (intro bexI [of _ b]) (auto simp: thins_def reserving_def)
qed

lemma inv_aside: "no_double_booking c s \<Longrightarrow> aside s t \<Longrightarrow> no_double_booking c t"
  by (auto simp: aside_def intro: inv_thins dest: live_hold_cong)

subsection \<open>The workflows keep the invariant\<close>

lemmas aside_after = aside_trans [OF _ aside_outbox] aside_trans [OF _ aside_change]
  aside_trans [OF _ aside_status] aside_trans [OF _ aside_waive_open]
  aside_trans [OF _ aside_release_promotions] aside_trans [OF _ aside_cancel_tasks]
  aside_trans [OF _ aside_release_all] aside_trans [OF _ aside_confirm_promotions]

lemma aside_finish_closure:
  "aside (update_reservation (r_id locked) (close_record c target reason) s)
     (finish_closure c locked target reason actor before calculation s)"
  unfolding finish_closure_def Let_def split_beta by (intro aside_after aside_refl)

lemma close_reservation_Inr:
  assumes "close_reservation c i target raw actor s = Inr (t, r')"
  obtains (idle) "t = s" "find_reservation s i = Some r'" "r_status r' = target"
  | (closed) locked calculation s1 where "find_reservation s i = Some locked" "r_id locked = i"
      "target \<in> {R_Cancelled, R_No_show}" "can_transition_to (r_status locked) target" "trim raw \<noteq> []"
      "cancellation_fee (local_day c (r_property locked)) (r_total locked) (r_starts locked)
         (r_cancellation_tiers locked) (clock c) = Inr calculation"
      "policy_adjustment c locked calculation actor s = Inr s1"
      "t = finish_closure c locked target (trim raw) actor (snapshot_of s locked) calculation s1"
      "r' = close_record c target (trim raw) locked"
proof -
  from assms obtain locked where l: "find_reservation s i = Some locked"
    by (auto simp: close_reservation_def bindE_eq_Inr reservation_or_fail_Inr split: if_splits)
  then have id: "r_id locked = i" by (auto dest: find_row_Some)
  show thesis
  proof (cases "r_status locked = target")
    case True
    with assms l show thesis
      by (intro idle) (auto simp: close_reservation_def bindE_eq_Inr reservation_or_fail_Inr split: if_splits)
  next
    case False
    with assms l obtain calculation s1 where
      "target \<in> {R_Cancelled, R_No_show}" "can_transition_to (r_status locked) target" "trim raw \<noteq> []"
      "cancellation_fee (local_day c (r_property locked)) (r_total locked) (r_starts locked)
         (r_cancellation_tiers locked) (clock c) = Inr calculation"
      "policy_adjustment c locked calculation actor s = Inr s1"
      "t = finish_closure c locked target (trim raw) actor (snapshot_of s locked) calculation s1"
      "r' = close_record c target (trim raw) locked"
      by (simp add: close_reservation_def bindE_eq_Inr reservation_or_fail_Inr Let_def split: if_splits) blast
    then show thesis by (rule closed [OF l id])
  qed
qed

lemma close_keeps:
  assumes "no_double_booking c s" and "close_reservation c i target raw actor s = Inr (t, r')"
  shows "no_double_booking c t"
  using assms(2)
proof (cases rule: close_reservation_Inr)
  case idle
  with assms(1) show ?thesis by simp
next
  case (closed locked calculation s1)
  have "no_double_booking c s1" by (rule inv_aside [OF assms(1) aside_policy [OF closed(7)]])
  moreover have a: "aside (update_reservation i (close_record c target (trim raw)) s1) t"
    using aside_finish_closure [of locked] by (simp add: closed(2,8))
  moreover have "live_hold c s1 j" if "live_hold c t j" for j
  proof -
    have "reservations t = upd_row r_id i (close_record c target (trim raw)) (reservations s1)"
      using a by (simp add: aside_def frame_simps)
    from live_hold_update [OF this _ that] closed(3) show ?thesis by (auto simp: close_record_def)
  qed
  moreover have "thins s1 t" using a by (auto simp: aside_def intro: thins_trans thins_update_reservation)
  ultimately show ?thesis by (intro inv_thins [of c s1 t]) auto
qed

lemma confirm_reservation_Inr:
  assumes "confirm_reservation c i s = Inr (t, r')"
  obtains (again) "find_reservation s i = Some r'" "provision c r' s = Inr t" "r_status r' = R_Confirmed"
  | (confirmed) locked s1 where "find_reservation s i = Some locked"
      "\<forall>a \<in> set (live_allocations s i). assert_available c s a = Inr ()"
      "resaves (live_allocations s i) s s1" "aside (update_reservation i (confirm_record c) s1) t"
      "r' = confirm_record c locked" "r_status locked \<noteq> R_Confirmed"
      "can_transition_to (r_status locked) R_Confirmed" "r_status locked = R_Hold \<longrightarrow> hold_is_live c locked"
      "assert_satisfied s locked = Inr ()"
proof -
  obtain locked where l: "find_reservation s i = Some locked"
    using assms by (auto simp: confirm_reservation_def bindE_eq_Inr reservation_or_fail_Inr)
  show thesis
  proof (cases "r_status locked = R_Confirmed")
    case True
    with assms l show thesis
      by (intro again) (auto simp: confirm_reservation_def bindE_eq_Inr reservation_or_fail_Inr)
  next
    case False
    with assms l obtain s1 s5 where live: "\<forall>a \<in> set (live_allocations s i). assert_available c s a = Inr ()"
      and s1: "foldE (\<lambda>a. save_allocation (a\<lparr>al_status := A_Confirmed\<rparr>)) (live_allocations s i) s = Inr s1"
      and s5: "provision c (confirm_record c locked) (confirm_promotions c i (record_status c i (auth_id c)
          (Some (r_status locked)) R_Confirmed [] (update_reservation i (confirm_record c) s1))) = Inr s5"
      and t: "t = record_outbox c ''reservation'' i ''reservation.confirmed'' [(''reservation_id'', J_Id i)] s5"
      and r': "r' = confirm_record c locked" and ok: "assert_satisfied s locked = Inr ()"
      and may: "can_transition_to (r_status locked) R_Confirmed" "r_status locked = R_Hold \<longrightarrow> hold_is_live c locked"
      by (auto simp: confirm_reservation_def bindE_eq_Inr reservation_or_fail_Inr allE_eq_Inr Let_def split: if_splits)
    have "resaves (live_allocations s i) s s1"
      by (rule foldE_resaves [OF s1]) (simp add: same_place_def)
    moreover have "aside (update_reservation i (confirm_record c) s1) t"
      unfolding t by (rule aside_trans [OF _ aside_outbox], rule aside_trans [OF _ aside_provision [OF s5]])
        (intro aside_after aside_refl)
    ultimately show thesis by (intro confirmed [OF l live _ _ r' False may ok])
  qed
qed

lemma in_live_allocations:
  "a \<in> set (live_allocations s i) \<longleftrightarrow> a \<in> set (allocations s) \<and> al_reservation a = i \<and> al_status a \<noteq> A_Released"
  by (auto simp: live_allocations_def own_allocations_def released_def)

text \<open>A commit of reservation \<open>i\<close>: its live allocations were checked in \<open>s\<close> and saved again in between.\<close>

lemma commit_keeps:
  assumes inv: "no_double_booking c s"
    and chk: "\<And>a. a \<in> set (live_allocations s i) \<Longrightarrow> \<exists>a'. same_place a' a \<and> assert_available c s a' = Inr ()"
    and from_s: "\<And>b. b \<in> set (allocations t) \<Longrightarrow> al_resource b = None \<or> al_status b = A_Released
      \<or> b \<in> set (allocations s) \<or> (\<exists>a \<in> set (live_allocations s i). same_place b a)"
    and keys: "keys_ok al_id (allocations t) (next_id t)"
    and holds: "\<And>j. live_hold c t j \<Longrightarrow> j = i \<or> live_hold c s j"
  shows "no_double_booking c t"
proof (rule no_double_booking_checked [OF inv keys chk])
  fix b assume b: "b \<in> set (allocations t)" "reserving c t b" "al_resource b \<noteq> None"
  then have nr: "al_status b \<noteq> A_Released" by (auto simp: reserving_def)
  from from_s [OF b(1)] b(3) nr
  consider "b \<in> set (allocations s)" | a where "a \<in> set (live_allocations s i)" "same_place b a" by blast
  then show "\<exists>a \<in> set (allocations s). same_place b a \<and> (reserving c s a \<or> a \<in> set (live_allocations s i))"
  proof cases
    case 1
    have "reserving c s b \<or> b \<in> set (live_allocations s i)"
      using b(2) holds [of "al_reservation b"] 1 nr by (auto simp: reserving_def in_live_allocations)
    with 1 show ?thesis by (intro bexI [of _ b]) auto
  next
    case 2
    then show ?thesis by (intro bexI [of _ a]) (auto simp: in_live_allocations)
  qed
qed

lemma confirm_keeps:
  assumes "no_double_booking c s" and "confirm_reservation c i s = Inr (t, r')"
  shows "no_double_booking c t"
  using assms(2)
proof (cases rule: confirm_reservation_Inr)
  case again
  show ?thesis by (rule inv_aside [OF assms(1) aside_provision [OF again(2)]])
next
  case (confirmed locked s1)
  have th: "thins s1 t" using confirmed(4) by (auto simp: aside_def intro: thins_trans thins_update_reservation)
  show ?thesis
  proof (rule commit_keeps [OF assms(1), where i = i])
    show "\<exists>a'. same_place a' a \<and> assert_available c s a' = Inr ()" if "a \<in> set (live_allocations s i)" for a
      using that confirmed(2) by (intro exI [of _ a]) simp
    show "al_resource b = None \<or> al_status b = A_Released \<or> b \<in> set (allocations s)
        \<or> (\<exists>a \<in> set (live_allocations s i). same_place b a)" if "b \<in> set (allocations t)" for b
      using that th confirmed(3) unfolding thins_def resaves_def by blast
    show "keys_ok al_id (allocations t) (next_id t)"
      using resaves_keys [OF confirmed(3)] th assms(1) by (auto simp: thins_def no_double_booking_def)
    have "reservations t = upd_row r_id i (confirm_record c) (reservations s1)"
      using confirmed(4) by (simp add: aside_def frame_simps)
    from live_hold_update [OF this]
    show "live_hold c t j \<Longrightarrow> j = i \<or> live_hold c s j" for j
      using confirmed(3) live_hold_cong [of s1 s c j] by (auto simp: confirm_record_def resaves_def)
  qed
qed

lemma foldE_map: "foldE f (map g xs) s = foldE (\<lambda>x. f (g x)) xs s"
  by (induction xs arbitrary: s) (auto split: sum.splits)

lemma transition_reservation_Inr:
  assumes "transition_reservation c i next hold_minutes raw s = Inr (t, r')"
  obtains (confirm) "confirm_reservation c i s = Inr (t, r')"
  | (close) target actor where "close_reservation c i target (meta_text raw ''reason'') actor s = Inr (t, r')"
  | (idle) "t = s"
  | (hold) locked s2 s3 where "next = R_Hold" "find_reservation s i = Some locked"
      "\<forall>a \<in> set (live_allocations s i). assert_available c s (a\<lparr>al_status := A_Tentative\<rparr>) = Inr ()"
      "aside (update_reservation i (transition_record c R_Hold hold_minutes) s) s2"
      "resaves (live_allocations s i) s2 s3" "aside s3 t"
  | (move) locked where "next \<noteq> R_Hold" "find_reservation s i = Some locked"
      "aside (update_reservation i (transition_record c next hold_minutes) s) t"
proof -
  consider "next = R_Confirmed" | "next = R_Cancelled" | "next = R_No_show"
    | "next \<notin> {R_Confirmed, R_Cancelled, R_No_show}" by blast
  then show thesis
  proof cases
    case 1
    with assms show thesis by (intro confirm) (simp add: transition_reservation_def)
  next
    case 2
    with assms show thesis by (intro close) (simp add: transition_reservation_def cancel_reservation_def)
  next
    case 3
    with assms show thesis by (intro close) (simp add: transition_reservation_def mark_no_show_def)
  next
    case 4
    from assms 4 obtain locked where l: "find_reservation s i = Some locked"
      by (auto simp: transition_reservation_def Let_def bindE_eq_Inr reservation_or_fail_Inr)
    show thesis
    proof (cases "r_status locked = next")
      case True
      with assms 4 l show thesis
        by (intro idle) (simp add: transition_reservation_def Let_def reservation_or_fail_Inr [THEN iffD2])
    next
      case other: False
      define s2 where "s2 = record_status c i (auth_id c) (Some (r_status locked)) next
        (filter (\<lambda>(_, v). v \<noteq> J_Null \<and> v \<noteq> J_Str []) raw) (update_reservation i (transition_record c next hold_minutes) s)"
      have a2: "aside (update_reservation i (transition_record c next hold_minutes) s) s2"
        unfolding s2_def by (rule aside_status)
      show thesis
      proof (cases "next = R_Hold")
        case True
        with assms 4 l other obtain s3 p where
          "\<forall>a \<in> set (live_allocations s i). assert_available c s (a\<lparr>al_status := A_Tentative\<rparr>) = Inr ()"
          and s3: "foldE save_allocation (map (\<lambda>a. a\<lparr>al_status := A_Tentative\<rparr>) (live_allocations s i)) s2 = Inr s3"
          and t: "t = record_outbox c ''reservation'' i ''reservation.status_changed'' p s3"
          by (auto simp: transition_reservation_def Let_def bindE_eq_Inr reservation_or_fail_Inr allE_eq_Inr s2_def
              split: if_splits)
        moreover have "resaves (live_allocations s i) s2 s3"
          using s3 unfolding foldE_map by (rule foldE_resaves) (simp add: same_place_def)
        ultimately show thesis using True a2 by (intro hold [OF True l]) (auto intro: aside_outbox)
      next
        case False
        with assms 4 l other obtain s4 p where
          "(if next = R_Checked_out
            then foldE (\<lambda>p. update_housekeeping c p Hk_Dirty (auth_id c)) (dirty_places s2 i) s2 else Inr s2) = Inr s4"
          and t: "t = record_outbox c ''reservation'' i ''reservation.status_changed'' p s4"
          by (simp add: transition_reservation_def Let_def bindE_eq_Inr reservation_or_fail_Inr s2_def
              split: if_splits) blast+
        then have "aside s2 s4" by (auto split: if_splits intro: aside_foldE aside_housekeeping)
        with a2 have "aside (update_reservation i (transition_record c next hold_minutes) s) t"
          unfolding t by (blast intro: aside_trans aside_outbox)
        with False l show thesis by (intro move)
      qed
    qed
  qed
qed

lemma transition_keeps:
  assumes "no_double_booking c s" and "transition_reservation c i next hold_minutes raw s = Inr (t, r')"
  shows "no_double_booking c t"
  using assms(2)
proof (cases rule: transition_reservation_Inr)
  case confirm
  then show ?thesis by (rule confirm_keeps [OF assms(1)])
next
  case (close target actor)
  then show ?thesis by (rule close_keeps [OF assms(1)])
next
  case idle
  with assms(1) show ?thesis by simp
next
  case (hold locked s2 s3)
  have th: "thins s3 t" using hold(6) by (simp add: aside_def)
  have th2: "thins s s2" using hold(4) by (auto simp: aside_def intro: thins_trans thins_update_reservation)
  show ?thesis
  proof (rule commit_keeps [OF assms(1), where i = i])
    show "\<exists>a'. same_place a' a \<and> assert_available c s a' = Inr ()" if "a \<in> set (live_allocations s i)" for a
      using that hold(3) by (intro exI [of _ "a\<lparr>al_status := A_Tentative\<rparr>"]) (simp add: same_place_def)
    show "al_resource b = None \<or> al_status b = A_Released \<or> b \<in> set (allocations s)
        \<or> (\<exists>a \<in> set (live_allocations s i). same_place b a)" if "b \<in> set (allocations t)" for b
      using that th th2 hold(5) unfolding thins_def resaves_def by blast
    show "keys_ok al_id (allocations t) (next_id t)"
      using resaves_keys [OF hold(5)] th th2 assms(1) by (auto simp: thins_def no_double_booking_def)
    have "reservations t = upd_row r_id i (transition_record c R_Hold hold_minutes) (reservations s)"
      using hold(4,5,6) by (simp add: aside_def resaves_def frame_simps)
    from live_hold_update [OF this] show "live_hold c t j \<Longrightarrow> j = i \<or> live_hold c s j" for j
      by (auto simp: transition_record_def)
  qed
next
  case (move locked)
  have "live_hold c s j" if "live_hold c t j" for j
  proof -
    have "reservations t = upd_row r_id i (transition_record c next hold_minutes) (reservations s)"
      using move(3) by (simp add: aside_def frame_simps)
    from live_hold_update [OF this _ that] move(1) show ?thesis by (auto simp: transition_record_def)
  qed
  moreover have "thins s t" using move(3) by (auto simp: aside_def intro: thins_trans thins_update_reservation)
  ultimately show ?thesis using assms(1) by (intro inv_thins [of c s t]) auto
qed

lemma expire_hold_aside:
  assumes "find_reservation s i = Some held" and "r_status held = R_Hold" and "\<not> hold_is_live c held"
  obtains s2 where "aside s s2" "aside (update_reservation i expire_record s2) (expire_hold c i s)"
proof
  let ?s1 = "s\<lparr>allocations := upd_where (\<lambda>a. al_reservation a = i \<and> al_status a = A_Tentative)
    (al_status_update (\<lambda>_. A_Released)) (allocations s)\<rparr>"
  show "aside s (release_promotions c i ''Reservation hold expired'' False ?s1)"
    by (rule aside_trans [OF aside_release aside_release_promotions])
  show "aside (update_reservation i expire_record (release_promotions c i ''Reservation hold expired'' False ?s1))
      (expire_hold c i s)"
    using assms by (simp add: expire_hold_def Let_def) (intro aside_after aside_refl)
qed

lemma expire_hold_idle:
  "(\<And>held. find_reservation s i = Some held \<Longrightarrow> r_status held = R_Hold \<Longrightarrow> hold_is_live c held) \<Longrightarrow> expire_hold c i s = s"
  by (auto simp: expire_hold_def split: option.split)

lemma expire_hold_keeps:
  assumes "no_double_booking c s"
  shows "no_double_booking c (expire_hold c i s)"
proof (cases "\<exists>held. find_reservation s i = Some held \<and> r_status held = R_Hold \<and> \<not> hold_is_live c held")
  case True
  then obtain held where h: "find_reservation s i = Some held" "r_status held = R_Hold" "\<not> hold_is_live c held"
    by blast
  obtain s2 where a: "aside s s2" "aside (update_reservation i expire_record s2) (expire_hold c i s)"
    by (rule expire_hold_aside [OF h])
  have "no_double_booking c s2" by (rule inv_aside [OF assms a(1)])
  moreover have "live_hold c s2 j" if "live_hold c (expire_hold c i s) j" for j
  proof -
    have "reservations (expire_hold c i s) = upd_row r_id i expire_record (reservations s2)"
      using a(2) by (simp add: aside_def frame_simps)
    from live_hold_update [OF this _ that] show ?thesis by (auto simp: expire_record_def)
  qed
  moreover have "thins s2 (expire_hold c i s)"
    using a(2) by (auto simp: aside_def intro: thins_trans thins_update_reservation)
  ultimately show ?thesis by (intro inv_thins [of c s2 "expire_hold c i s"]) auto
next
  case False
  then have "expire_hold c i s = s" by (intro expire_hold_idle) blast
  with assms show ?thesis by simp
qed

lemma fold_keeps: "P s \<Longrightarrow> (\<And>x s. P s \<Longrightarrow> P (f x s)) \<Longrightarrow> P (fold f xs s)"
  by (induction xs arbitrary: s) auto

lemma expire_due_keeps: "no_double_booking c s \<Longrightarrow> no_double_booking c (expire_due_holds c n s)"
  unfolding expire_due_holds_def by (rule fold_keeps) (auto intro: expire_hold_keeps)

subsection \<open>Runs\<close>

text \<open>
  A state of the booking system is the request context, of which only the clock matters here, and the
  tables. A step is one transaction, or time passing until another request arrives.
\<close>

datatype booking_command =
    Confirm id
  | Move id reservation_status "int option" meta
  | Cancel id string "user_id option"
  | No_show id string "user_id option"
  | Expire_due int

fun run_booking :: "ctx \<Rightarrow> booking_command \<Rightarrow> db \<Rightarrow> db res" where
  "run_booking c (Confirm i) s = bindE (confirm_reservation c i s) (\<lambda>(t, _). Inr t)"
| "run_booking c (Move i next h m) s = bindE (transition_reservation c i next h m s) (\<lambda>(t, _). Inr t)"
| "run_booking c (Cancel i reason actor) s = bindE (cancel_reservation c i reason actor s) (\<lambda>(t, _). Inr t)"
| "run_booking c (No_show i reason actor) s = bindE (mark_no_show c i reason actor s) (\<lambda>(t, _). Inr t)"
| "run_booking c (Expire_due n) s = Inr (expire_due_holds c n s)"

inductive booking_step :: "ctx \<times> db \<Rightarrow> ctx \<times> db \<Rightarrow> bool" where
  command: "run_booking c cmd s = Inr t \<Longrightarrow> booking_step (c, s) (c, t)"
| time: "clock c \<le> clock c' \<Longrightarrow> booking_step (c, s) (c', s)"

inductive_cases booking_stepE: "booking_step (c, s) (c', t)"

lemma run_booking_keeps:
  "no_double_booking c s \<Longrightarrow> run_booking c cmd s = Inr t \<Longrightarrow> no_double_booking c t"
  by (cases cmd) (auto simp: bindE_eq_Inr cancel_reservation_def mark_no_show_def
      intro: confirm_keeps transition_keeps close_keeps expire_due_keeps)

lemma time_keeps: "no_double_booking c s \<Longrightarrow> clock c \<le> clock c' \<Longrightarrow> no_double_booking c' s"
  by (rule inv_thins [of c s s]) (auto dest: live_hold_later)

interpretation bookings: guarded_run booking_step "\<lambda>(c, s). no_double_booking c s"
  by unfold_locales (auto elim!: booking_step.cases intro: run_booking_keeps time_keeps)

subsection \<open>Properties\<close>

text \<open>No double booking. Along any sequence of confirmations, holds, check-ins, check-outs,
  cancellations, no-shows and expiries of holds, with any amount of time between them, no two
  allocations that reserve a resource overlap on it, if none did at the start.\<close>

theorem never_double_booked:
  assumes "booking_step\<^sup>*\<^sup>* (c, s) (c', t)" and "no_double_booking c s"
    and "a \<in> set (allocations t)" and "b \<in> set (allocations t)" and "al_id a \<noteq> al_id b"
    and "reserving c' t a" and "reserving c' t b" and "al_resource a = Some r" and "al_resource b = Some r"
  shows "\<not> overlaps (al_starts a) (al_ends a) (al_starts b) (al_ends b)"
proof -
  have "no_double_booking c' t" using bookings.run_keeps [OF assms(1)] assms(2) by simp
  then have "\<not> clash a b" using assms(3,4,6,7) by (auto simp: no_double_booking_def)
  with assms(5,8,9) show ?thesis by (simp add: clash_def meets_def overlaps_sym [of "al_starts b"])
qed

text \<open>The cabin is confirmed for one reservation and requested by a draft for the days after.\<close>

definition next_guest :: reservation where
  "next_guest = (demo_reservation 7 R_Draft)\<lparr>r_starts := 1036800, r_ends := 1123200\<rparr>"

definition cabin_db :: db where
  "cabin_db = demo_db\<lparr>reservations := [demo_reservation 6 R_Confirmed, next_guest],
     allocations := [demo_allocation 8 6 (Some 4) A_Confirmed,
       (demo_allocation 9 7 (Some 4) A_Tentative)\<lparr>al_starts := 1036800, al_ends := 1123200\<rparr>]\<rparr>"

lemmas availability_exec = assert_available_def assert_resource_def assert_category_capacity_def find_or_fail_def
  find_row_def blocking_def conflicting_ids_def exclusive_ids_def buyout_resources_def property_resources_def
  is_buyout_def data_get_def resource_conflicts_def competes_def meets_def overlaps_def active_for_def
  on_resources_def unassigned_in_def live_hold_def counts_as_stay_def active_inventory_def
  available_inventory_def category_reserved_def category_capacity_def

lemmas satisfied_exec = assert_satisfied_def reservation_program_def covers_stay_def allocated_resource_def
  requested_category_def live_allocations_def own_allocations_def released_def

lemma cabin_hold:
  "succeeds_with (\<lambda>t. allocations t = [
       demo_allocation 8 6 (Some 4) A_Confirmed,
       (demo_allocation 9 7 (Some 4) A_Tentative)\<lparr>al_starts := 1036800, al_ends := 1123200, al_category := Some 2\<rparr>]
     \<and> live_hold demo_ctx t 7) (run_booking demo_ctx (Move 7 R_Hold None []) cabin_db)"
  by (simp add: cabin_db_def next_guest_def demo_defs transition_reservation_def reservation_or_fail_def
      satisfied_exec availability_exec Let_def record_status_def update_reservation_def upd_row_def upd_where_def
      transition_record_def save_allocation_def allocation_hook_def record_outbox_def or_default_def)

theorem never_double_booked_witness:
  "\<exists>t a b. booking_step\<^sup>*\<^sup>* (demo_ctx, cabin_db) (demo_ctx, t) \<and> a \<in> set (allocations t) \<and> b \<in> set (allocations t)
     \<and> al_id a \<noteq> al_id b \<and> al_resource a = al_resource b \<and> reserving demo_ctx t a \<and> reserving demo_ctx t b
     \<and> \<not> overlaps (al_starts a) (al_ends a) (al_starts b) (al_ends b)"
proof -
  let ?a = "demo_allocation 8 6 (Some 4) A_Confirmed"
  let ?b = "(demo_allocation 9 7 (Some 4) A_Tentative)\<lparr>al_starts := 1036800, al_ends := 1123200, al_category := Some 2\<rparr>"
  from cabin_hold obtain t where run: "run_booking demo_ctx (Move 7 R_Hold None []) cabin_db = Inr t"
    and al: "allocations t = [?a, ?b]" and hold: "live_hold demo_ctx t 7"
    by (elim succeeds_withE conjE) blast
  have steps: "booking_step\<^sup>*\<^sup>* (demo_ctx, cabin_db) (demo_ctx, t)" by (intro r_into_rtranclp command [OF run])
  have start: "no_double_booking demo_ctx cabin_db"
    by (simp add: no_double_booking_def clash_def meets_def overlaps_def keys_ok_def cabin_db_def demo_db_def
        empty_db_def demo_allocation_def)
  have mem: "?a \<in> set (allocations t)" "?b \<in> set (allocations t)" by (simp_all add: al)
  have diff: "al_id ?a \<noteq> al_id ?b" and res: "al_resource ?a = Some 4" "al_resource ?b = Some 4"
    by (simp_all add: demo_allocation_def)
  have reserve: "reserving demo_ctx t ?a" "reserving demo_ctx t ?b"
    using hold by (simp_all add: reserving_def demo_allocation_def)
  note free = never_double_booked [OF steps start mem diff reserve res]
  show ?thesis
    by (intro exI [of _ t] exI [of _ ?a] exI [of _ ?b] conjI steps mem diff reserve free) (simp add: res)
qed

end
