(* ===== verification/Closure.thy ===== *)
theory Closure
  imports Booking_Safety
begin

text \<open>
  What closing a reservation does to its money and its operations: the policy adjustment on the folio,
  the released allocations, the waived deposits and the cancelled tasks; and what confirming one
  does.
\<close>

subsection \<open>The tables after a closure\<close>

lemma fold_cancel_frame:
  "folio_lines (fold (cancel_one c i why actor) ks s) = folio_lines s"
  "allocations (fold (cancel_one c i why actor) ks s) = allocations s"
  "reservations (fold (cancel_one c i why actor) ks s) = reservations s"
  "deposits (fold (cancel_one c i why actor) ks s) = deposits s"
  "payments (fold (cancel_one c i why actor) ks s) = payments s"
  "changes (fold (cancel_one c i why actor) ks s) = changes s"
  by (rule fold_frame; simp add: cancel_one_def Let_def commit_task_frame)+

definition cancelled_task :: "string \<Rightarrow> task \<Rightarrow> task" where
  "cancelled_task why k = k\<lparr>tk_status := T_Cancelled, tk_cancellation_reason := Some why, tk_revision := tk_revision k + 1\<rparr>"

lemma cancelled_task_id [simp]: "tk_id (cancelled_task why k) = tk_id k"
  by (simp add: cancelled_task_def)

lemma cancel_one_tasks: "tasks (cancel_one c i why actor k s) = upd_row tk_id (tk_id k) (\<lambda>_. cancelled_task why k) (tasks s)"
  by (simp add: cancel_one_def Let_def commit_task_frame cancelled_task_def)

text \<open>Each task has its own key, so cancelling the listed tasks one by one changes exactly them.\<close>

lemma fold_cancel_tasks:
  assumes "distinct (map tk_id (tasks s))" and "distinct (map tk_id ks)" and "set ks \<subseteq> set (tasks s)"
  shows "tasks (fold (cancel_one c i why actor) ks s) = map (\<lambda>k. if k \<in> set ks then cancelled_task why k else k) (tasks s)"
  using assms
proof (induction ks arbitrary: s)
  case (Cons x ks)
  let ?f = "\<lambda>k. if tk_id k = tk_id x then cancelled_task why x else k"
  have same: "k = x" if "k \<in> set (tasks s)" "tk_id k = tk_id x" for k
    using that Cons.prems by (auto simp: distinct_map inj_on_def)
  have t: "tasks (cancel_one c i why actor x s) = map ?f (tasks s)"
    by (simp add: cancel_one_tasks upd_row_def upd_where_def)
  have ids: "map tk_id (map ?f (tasks s)) = map tk_id (tasks s)" by simp
  have out: "k \<notin> set ks" if "tk_id k = tk_id x" for k
    using that Cons.prems(2) imageI [of k "set ks" tk_id] by auto
  have "set ks \<subseteq> set (map ?f (tasks s))"
  proof
    fix k assume k: "k \<in> set ks"
    then have "?f k = k" using out by auto
    with k Cons.prems(3) show "k \<in> set (map ?f (tasks s))" by (force simp: image_iff)
  qed
  then have "tasks (fold (cancel_one c i why actor) ks (cancel_one c i why actor x s))
      = map (\<lambda>k. if k \<in> set ks then cancelled_task why k else k) (map ?f (tasks s))"
    using Cons.prems(1,2) unfolding t [symmetric] by (intro Cons.IH) (simp_all only: t ids, simp_all)
  also have "\<dots> = map (\<lambda>k. if k \<in> set (x # ks) then cancelled_task why k else k) (tasks s)"
    using same out by (auto simp: comp_def)
  finally show ?case by simp
qed simp

lemma cancel_open_exact:
  assumes "distinct (map tk_id (tasks s))"
  shows "tasks (fst (cancel_open_tasks c i why actor s)) = map (\<lambda>k. if open_task i k then cancelled_task why k else k) (tasks s)"
proof -
  have "distinct (map tk_id (filter (open_task i) (tasks s)))" using assms by (rule distinct_map_filter)
  then show ?thesis
    unfolding cancel_open_tasks_def Let_def fst_conv by (subst fold_cancel_tasks [OF assms]) auto
qed

lemma cancel_open_frame:
  "folio_lines (fst (cancel_open_tasks c i why actor s)) = folio_lines s"
  "allocations (fst (cancel_open_tasks c i why actor s)) = allocations s"
  "deposits (fst (cancel_open_tasks c i why actor s)) = deposits s"
  "payments (fst (cancel_open_tasks c i why actor s)) = payments s"
  "changes (fst (cancel_open_tasks c i why actor s)) = changes s"
  by (simp_all add: cancel_open_tasks_def Let_def fold_cancel_frame)

lemma record_change_frame:
  "folio_lines (fst (record_change c r ty d s)) = folio_lines s"
  "allocations (fst (record_change c r ty d s)) = allocations s"
  "deposits (fst (record_change c r ty d s)) = deposits s"
  "payments (fst (record_change c r ty d s)) = payments s"
  "tasks (fst (record_change c r ty d s)) = tasks s"
  by (simp_all add: record_change_def Let_def)

lemma record_status_frame:
  "folio_lines (record_status c i actor from to m s) = folio_lines s"
  "allocations (record_status c i actor from to m s) = allocations s"
  "deposits (record_status c i actor from to m s) = deposits s"
  "payments (record_status c i actor from to m s) = payments s"
  "tasks (record_status c i actor from to m s) = tasks s"
  by (simp_all add: record_status_def)

lemma waive_open_frame:
  "folio_lines (fst (waive_open c i why actor s)) = folio_lines s"
  "allocations (fst (waive_open c i why actor s)) = allocations s"
  "tasks (fst (waive_open c i why actor s)) = tasks s"
  "payments (fst (waive_open c i why actor s)) = payments s"
  by (simp_all add: waive_open_def waive_all_def)

lemma release_promotions_folio: "folio_lines (release_promotions c i why canc s) = folio_lines s"
  and release_promotions_allocations: "allocations (release_promotions c i why canc s) = allocations s"
  and release_promotions_tasks: "tasks (release_promotions c i why canc s) = tasks s"
  by (simp_all add: release_promotions_frame)

lemmas folio_after = trans [OF record_outbox_frame(12)] trans [OF record_change_frame(1)]
  trans [OF record_status_frame(1)] trans [OF waive_open_frame(1)] trans [OF release_promotions_folio]
  trans [OF cancel_open_frame(1)]

lemmas allocations_after = trans [OF record_outbox_frame(9)] trans [OF record_change_frame(2)]
  trans [OF record_status_frame(2)] trans [OF waive_open_frame(2)] trans [OF release_promotions_allocations]
  trans [OF cancel_open_frame(2)]

lemmas deposits_after = trans [OF record_outbox_frame(16)] trans [OF record_change_frame(3)]
  trans [OF record_status_frame(3)]

lemmas tasks_after = trans [OF record_outbox_frame(24)] trans [OF record_change_frame(5)]
  trans [OF record_status_frame(5)] trans [OF waive_open_frame(3)] trans [OF release_promotions_tasks]

lemma finish_closure_folio:
  "folio_lines (finish_closure c locked target reason actor before calculation s) = folio_lines s"
  unfolding finish_closure_def Let_def split_beta
  by (intro folio_after) (simp add: release_all_def update_reservation_frame)

lemma finish_closure_allocations:
  "allocations (finish_closure c locked target reason actor before calculation s)
     = allocations (release_all (r_id locked) s)"
  unfolding finish_closure_def Let_def split_beta
  by (intro allocations_after) (simp add: release_all_def update_reservation_frame)

lemma release_all_exact:
  "allocations (release_all i s) = map (\<lambda>a. if al_reservation a = i then a\<lparr>al_status := A_Released\<rparr> else a) (allocations s)"
  by (auto simp: release_all_def upd_where_def released_def)

lemma finish_closure_deposits:
  "deposits (finish_closure c locked target reason actor before calculation s) = map (\<lambda>d. if open_deposit (r_id locked) d
     then waived c (closure_label target @ '': '' @ reason) actor d else d) (deposits s)"
proof -
  have "deposits (finish_closure c locked target reason actor before calculation s)
      = deposits (fst (waive_open c (r_id locked) (closure_label target @ '': '' @ reason) actor
          (release_promotions c (r_id locked) (closure_label target @ '': '' @ reason) True
             (fst (cancel_open_tasks c (r_id locked) (closure_label target @ '': '' @ reason) actor
                (release_all (r_id locked) (update_reservation (r_id locked) (close_record c target reason) s)))))))"
    unfolding finish_closure_def Let_def split_beta by (intro deposits_after) (rule refl)
  then show ?thesis
    by (simp add: waive_open_def waive_all_def upd_where_def release_promotions_frame cancel_open_frame release_all_def
        update_reservation_frame)
qed

lemma finish_closure_tasks:
  assumes "distinct (map tk_id (tasks s))"
  shows "tasks (finish_closure c locked target reason actor before calculation s) = map (\<lambda>k. if open_task (r_id locked) k
     then cancelled_task (closure_label target @ '': '' @ reason) k else k) (tasks s)"
proof -
  have "tasks (finish_closure c locked target reason actor before calculation s)
      = tasks (fst (cancel_open_tasks c (r_id locked) (closure_label target @ '': '' @ reason) actor
          (release_all (r_id locked) (update_reservation (r_id locked) (close_record c target reason) s))))"
    unfolding finish_closure_def Let_def split_beta by (intro tasks_after) (rule refl)
  with assms show ?thesis
    by (simp add: cancel_open_exact release_all_def update_reservation_frame)
qed

lemma policy_adjustment_tables:
  assumes "policy_adjustment c r f actor s = Inr t"
  shows "allocations t = allocations s" and "deposits t = deposits s" and "tasks t = tasks s"
  using assms
  by (auto simp: policy_adjustment_def bindE_eq_Inr posts_def split: if_splits dest!: append_line_Inr(1))

lemma policy_adjustment_balance:
  assumes "policy_adjustment c r f actor s = Inr t" and "r_subtotal r + r_tax r = r_total r"
    and "fee_minor f \<le> r_total r" and "r_total r' = r_total r" and "r_id r' = r_id r"
  shows "fs_balance (summary t r') = fs_balance (summary s r) - (r_total r - fee_minor f)"
proof (cases "r_total r - fee_minor f > 0")
  case True
  with assms(1) obtain l where app: "append_line c r L_Adjustment 1000 (fee_minor f - r_subtotal r) actor
      (calculation_meta f) (- r_tax r) False s = Inr (t, l)"
    by (auto simp: policy_adjustment_def bindE_eq_Inr)
  note l = append_line_Inr [OF app]
  have "fl_net l = fee_minor f - r_subtotal r" by (rule line_amount_1000_Inr [OF l(6)])
  with l(2,5,7) posts_balance [OF l(1), of r] assms(2)
  have "fs_balance (summary t r) = fs_balance (summary s r) - (r_total r - fee_minor f)" by simp
  then show ?thesis using assms(4,5) by (simp add: balance_eq)
next
  case False
  with assms show ?thesis by (auto simp: policy_adjustment_def balance_eq)
qed

subsection \<open>Properties\<close>

text \<open>C16: Cancelling a reservation or recording a no-show settles everything at once. The fee lies
  between zero and the booked total; the folio balance falls by exactly the part of the total that the
  policy releases; the reservation has its final status at the next revision. Every allocation of the reservation is
  released, every due deposit of it is waived and every open task of it cancelled, with the reason of the closure; the
  other rows of these tables, paid deposits and finished tasks among them, stay as they were.\<close>

theorem closure_settles:
  assumes "close_reservation c i target raw actor s = Inr (t, r')" and "find_reservation s i = Some r"
    and "r_status r \<noteq> target" and "r_subtotal r + r_tax r = r_total r" and "0 \<le> r_total r"
    and "distinct (map tk_id (tasks s))" and "why = closure_label target @ '': '' @ trim raw"
  shows "\<exists>fee. cancellation_fee (local_day c (r_property r)) (r_total r) (r_starts r)
        (r_cancellation_tiers r) (clock c) = Inr fee
    \<and> 0 \<le> fee_minor fee \<and> fee_minor fee \<le> r_total r
    \<and> fs_balance (summary t r') = fs_balance (summary s r) - (r_total r - fee_minor fee)
    \<and> find_reservation t i = Some r' \<and> r_status r' = target \<and> r_revision r' = r_revision r + 1
    \<and> allocations t = map (\<lambda>a. if al_reservation a = i then a\<lparr>al_status := A_Released\<rparr> else a) (allocations s)
    \<and> deposits t = map (\<lambda>d. if dep_reservation d = i \<and> dep_status d = D_Due
          then d\<lparr>dep_status := D_Waived, dep_waived_at := Some (clock c), dep_waived_by := actor, dep_waiver_reason := Some why\<rparr>
          else d) (deposits s)
    \<and> tasks t = map (\<lambda>k. if tk_reservation k = Some i \<and> tk_status k \<in> {T_Todo, T_In_progress, T_Blocked, T_Failed}
          then k\<lparr>tk_status := T_Cancelled, tk_cancellation_reason := Some why, tk_revision := tk_revision k + 1\<rparr> else k) (tasks s)"
  using assms(1)
proof (cases rule: close_reservation_Inr)
  case idle
  with assms(2,3) show ?thesis by simp
next
  case (closed locked fee s1)
  then have l: "locked = r" and id: "r_id r = i" using assms(2) by simp_all
  note same = policy_adjustment_tables [OF closed(7)]
  have fee: "0 \<le> fee_minor fee" "fee_minor fee \<le> r_total r"
    using closed(6) assms(5) unfolding l by (auto simp: cancellation_fee_Inr)
  have "fs_balance (summary s1 r') = fs_balance (summary s r) - (r_total r - fee_minor fee)"
    by (rule policy_adjustment_balance [OF closed(7) [unfolded l] assms(4) fee(2)])
      (simp_all add: closed(9) l close_record_def)
  then have balance: "fs_balance (summary t r') = fs_balance (summary s r) - (r_total r - fee_minor fee)"
    by (simp add: closed(8) balance_eq finish_closure_folio)
  have "reservations s1 = reservations s" using aside_policy [OF closed(7)] by (simp add: aside_def)
  then have row: "find_reservation t i = Some r'"
    using aside_finish_closure [of r c target "trim raw" s1] assms(2) closed(2)
    by (simp add: closed(8,9) l aside_def frame_simps find_row_upd_same close_record_def)
  have "distinct (map tk_id (tasks s1))" using assms(6) by (simp add: same)
  note exact = finish_closure_allocations finish_closure_deposits finish_closure_tasks [OF this]
  have "allocations t = map (\<lambda>a. if al_reservation a = i then a\<lparr>al_status := A_Released\<rparr> else a) (allocations s)"
    "deposits t = map (\<lambda>d. if open_deposit i d then waived c why actor d else d) (deposits s)"
    "tasks t = map (\<lambda>k. if open_task i k then cancelled_task why k else k) (tasks s)"
    unfolding closed(8) l exact by (simp_all only: release_all_exact same id assms(7))
  with balance row fee closed(6) show ?thesis unfolding l open_deposit_def open_task_def waived_def cancelled_task_def
    by (intro exI [of _ fee]) (simp add: closed(9) l close_record_def)
qed

lemma demo_fee:
  "cancellation_fee (local_day demo_ctx 1) 100000 864000 sample_tiers 1000 = Inr \<lparr>fee_minor = 25000,
     refundable_minor = 75000, days_before_arrival = 10,
     fee_tier_used = Some \<lparr>ft_days = 30, ft_retained = 2500, ft_minimum = 0\<rparr>,
     effective_at = 1000, effective_local_date = 0, arrival_local_date = 10\<rparr>"
  by (simp add: cancellation_fee_def cancellation_tier_def tier_fee_def sample_tiers_def demo_ctx_def
      normal_tier_def int_or_type_error_def fits_def php_int_max_def)

lemma demo_row: "find_reservation demo_db 6 = Some (demo_reservation 6 R_Confirmed)"
  by (simp add: demo_db_def find_row_def demo_reservation_def)

text \<open>The confirmed stay with the cabin, a due and a paid deposit, an open and a finished task.\<close>

definition demo_due :: "id \<Rightarrow> deposit_status \<Rightarrow> deposit" where
  "demo_due i st = \<lparr>dep_id = i, dep_reservation = 6, dep_payment = None, dep_schedule = None, dep_status = st,
     dep_currency = ''COP'', dep_amount = 1000, dep_due_at = 0, dep_paid_at = None, dep_waived_at = None,
     dep_waived_by = None, dep_waiver_reason = None\<rparr>"

definition demo_work :: "id \<Rightarrow> task_status \<Rightarrow> task" where
  "demo_work i st = demo_task\<lparr>tk_id := i, tk_reservation := Some 6, tk_status := st\<rparr>"

definition closing_db :: db where
  "closing_db = demo_db\<lparr>allocations := [demo_allocation 8 6 (Some 4) A_Confirmed, demo_allocation 9 7 (Some 5) A_Confirmed],
     deposits := [demo_due 10 D_Due, demo_due 11 D_Paid], tasks := [demo_work 12 T_Blocked, demo_work 13 T_Done]\<rparr>"

theorem closure_settles_witness:
  "\<exists>t r'. close_reservation demo_ctx 6 R_Cancelled ''Weather'' None closing_db = Inr (t, r')
     \<and> fs_balance (summary t r') = 25000 \<and> r_status r' = R_Cancelled
     \<and> map al_status (allocations t) = [A_Released, A_Confirmed] \<and> map dep_status (deposits t) = [D_Waived, D_Paid]
     \<and> map tk_status (tasks t) = [T_Cancelled, T_Done]"
proof -
  let ?r = "demo_reservation 6 R_Confirmed"
  let ?fee = "\<lparr>fee_minor = 25000, refundable_minor = 75000, days_before_arrival = 10,
     fee_tier_used = Some \<lparr>ft_days = 30, ft_retained = 2500, ft_minimum = 0\<rparr>,
     effective_at = 1000, effective_local_date = 0, arrival_local_date = 10\<rparr>"
  note fee = demo_fee [unfolded One_nat_def]
  have ctx: "clock demo_ctx = 1000" by (simp add: demo_ctx_def)
  have row: "r_property ?r = 1" "r_total ?r = 100000" "r_starts ?r = 864000" "r_cancellation_tiers ?r = sample_tiers"
    "r_status ?r = R_Confirmed" "r_subtotal ?r = 90000" "r_tax ?r = 10000" "r_folio_status ?r = F_Open" "r_id ?r = 6"
    by (simp_all add: demo_reservation_def)
  have found: "find_reservation closing_db 6 = Some ?r" using demo_row by (simp add: closing_db_def)
  have adj: "\<exists>s1. policy_adjustment demo_ctx ?r ?fee None closing_db = Inr s1"
    by (simp add: policy_adjustment_def append_line_def assert_open_def create_line_def line_amount_def row
        int_or_type_error_def fits_def php_int_max_def Let_def)
  then have "\<exists>t r'. close_reservation demo_ctx 6 R_Cancelled ''Weather'' None closing_db = Inr (t, r')"
    by (auto simp: close_reservation_def reservation_or_fail_def find_or_fail_def found row ctx fee Let_def
        trim_def php_blank_def)
  then obtain t r' where run: "close_reservation demo_ctx 6 R_Cancelled ''Weather'' None closing_db = Inr (t, r')"
    by blast
  have tables: "fs_balance (summary closing_db ?r) = 100000" "distinct (map tk_id (tasks closing_db))"
    "map al_reservation (allocations closing_db) = [6, 7]"
    by (simp_all add: balance_eq row closing_db_def demo_work_def demo_allocation_def demo_db_def empty_db_def)
  obtain f where f: "cancellation_fee (local_day demo_ctx (r_property ?r)) (r_total ?r) (r_starts ?r)
        (r_cancellation_tiers ?r) (clock demo_ctx) = Inr f"
    and settled: "fs_balance (summary t r') = fs_balance (summary closing_db ?r) - (r_total ?r - fee_minor f)" "r_status r' = R_Cancelled"
    "allocations t = map (\<lambda>a. if al_reservation a = 6 then a\<lparr>al_status := A_Released\<rparr> else a) (allocations closing_db)"
    "map dep_status (deposits t) = [D_Waived, D_Paid]" "map tk_status (tasks t) = [T_Cancelled, T_Done]"
    using closure_settles [OF run found _ _ _ tables(2) refl] row
    by (auto simp: closing_db_def demo_due_def demo_work_def)
  have "fee_minor f = 25000" using f fee by (auto simp: row ctx)
  with run settled tables show ?thesis
    by (intro exI [of _ t] exI [of _ r']) (simp add: row closing_db_def demo_allocation_def)
qed

text \<open>C18: Confirming a reservation that was not confirmed yet succeeds only when its status allows it, a
  hold has not expired and the program's requirements are met; the reservation is then confirmed at
  the next revision without a hold deadline, and every live allocation of it passed the availability
  check.\<close>

theorem confirm_commits:
  assumes "confirm_reservation c i s = Inr (t, r')" and "find_reservation s i = Some r"
    and "r_status r \<noteq> R_Confirmed"
  shows "r_status r \<in> {R_Draft, R_Hold} \<and> (r_status r = R_Hold \<longrightarrow> hold_is_live c r)
    \<and> assert_satisfied s r = Inr ()
    \<and> find_reservation t i = Some r' \<and> r_status r' = R_Confirmed \<and> r_hold_expires r' = None
    \<and> r_revision r' = r_revision r + 1
    \<and> (\<forall>a \<in> set (live_allocations s i). assert_available c s a = Inr ())"
  using assms(1)
proof (cases rule: confirm_reservation_Inr)
  case again
  with assms(2,3) show ?thesis by simp
next
  case (confirmed locked s1)
  then have l: "locked = r" using assms(2) by simp
  have "reservations s1 = reservations s" using confirmed(3) by (simp add: resaves_def)
  then have "find_reservation t i = Some r'"
    using confirmed(4) assms(2) by (simp add: aside_def frame_simps find_row_upd_same confirm_record_def confirmed(5) l)
  with confirmed l show ?thesis
    by (cases "r_status r") (auto simp: confirm_record_def)
qed

lemma cabin_row: "find_reservation cabin_db 7 = Some next_guest"
  by (simp add: cabin_db_def find_row_def next_guest_def demo_reservation_def)

lemma cabin_confirm: "succeeds_with (\<lambda>_. True) (confirm_reservation demo_ctx 7 cabin_db)"
  by (simp add: cabin_db_def next_guest_def demo_defs confirm_reservation_def reservation_or_fail_def
      satisfied_exec availability_exec Let_def record_status_def update_reservation_def upd_row_def upd_where_def
      confirm_record_def save_allocation_def allocation_hook_def record_outbox_def or_default_def
      confirm_promotions_def confirm_usages_def confirm_redemptions_def provision_def provision_occurrence_def
      provision_tasks_def provision_schedule_def required_deposit_def empty_policy_def int_or_type_error_def
      fits_def php_int_max_def)

theorem confirm_commits_witness:
  "\<exists>t r'. confirm_reservation demo_ctx 7 cabin_db = Inr (t, r') \<and> r_status r' = R_Confirmed \<and> r_revision r' = 2"
proof -
  obtain t r' where run: "confirm_reservation demo_ctx 7 cabin_db = Inr (t, r')"
    using cabin_confirm by (auto elim: succeeds_withE)
  have "r_status next_guest = R_Draft" "r_revision next_guest = 1"
    by (simp_all add: next_guest_def demo_reservation_def)
  with confirm_commits [OF run cabin_row] run show ?thesis by auto
qed

end
