(* ===== verification/Payments.thy ===== *)
theory Payments
  imports Folio
begin

text \<open>
  \<^verbatim>\<open>PaymentService\<close>: payments recorded by staff, at the front desk and by the provider, their
  reconciliation and their reversal, with the \<open>saving\<close> hook of the model \<^verbatim>\<open>Payment\<close>. The receipt
  document a provider payment asks for is left out (\<^verbatim>\<open>requestProviderReceipt\<close>), and so are the
  evidence link and note. The theorems say that the folio always carries exactly what was captured,
  refunded and reversed, and that no front-desk payment exceeds what is owed.
\<close>

subsection \<open>Saving a payment\<close>

definition manual_channel :: "string \<Rightarrow> payment_channel option" where
  "manual_channel m = map_of [(''bank_transfer'', Ch_Bank_transfer), (''cash'', Ch_Cash),
     (''card'', Ch_External_terminal), (''other'', Ch_Manual_other), (''manual'', Ch_Manual_other)] m"

definition provider_identity :: "payment \<Rightarrow> string option list" where
  "provider_identity p = [py_provider p, py_reference p, py_account p, py_environment p]"

definition valid_manual :: "payment \<Rightarrow> bool" where
  "valid_manual p \<longleftrightarrow> py_origin p = Origin_Manual \<and> py_entry p = Entry_Staff_recorded
     \<and> manual_channel (py_method p) = Some (py_channel p)
     \<and> list_all (\<lambda>v. v = None) (provider_identity p)"

definition valid_provider :: "payment \<Rightarrow> bool" where
  "valid_provider p \<longleftrightarrow> py_origin p = Origin_Provider \<and> py_entry p = Entry_Provider_reported
     \<and> list_all (\<lambda>v. case v of None \<Rightarrow> False | Some t \<Rightarrow> trim t \<noteq> []) (provider_identity p)
     \<and> py_method p \<in> {''card'', ''provider'', ''mercado_pago_checkout_pro''}
     \<and> py_channel p \<in> {Ch_Online_checkout, Ch_Integrated_terminal, Ch_Qr}"

definition payment_hook :: "payment \<Rightarrow> unit res" where
  "payment_hook p = (if valid_manual p \<or> valid_provider p then Inr () else Inl (Validation ''payment''))"

definition insert_payment :: "payment \<Rightarrow> payment action" where
  "insert_payment p s =
     (let q = p\<lparr>py_id := next_id s\<rparr> in
      bindE (payment_hook q) (\<lambda>_.
      Inr (s\<lparr>payments := payments s @ [q], next_id := Suc (next_id s)\<rparr>, q)))"

definition update_payment :: "payment \<Rightarrow> db \<Rightarrow> db res" where
  "update_payment q s =
     bindE (payment_hook q) (\<lambda>_.
     Inr (s\<lparr>payments := upd_row py_id (py_id q) (\<lambda>_. q) (payments s)\<rparr>))"

definition blank_payment :: payment where
  "blank_payment = \<lparr>py_id = 0, py_reservation = 0, py_status = P_Pending, py_method = [], py_channel = Ch_Manual_other,
     py_entry = Entry_Staff_recorded, py_origin = Origin_Manual, py_provider = None, py_environment = None,
     py_account = None, py_reference = None, py_currency = [], py_amount = 0, py_processed_at = None,
     py_reconciled_at = None, py_recorded_by = None, py_reconciled_by = None, py_reversed_at = None,
     py_reversed_by = None, py_reversal_reason = None, py_meta = []\<rparr>"

subsection \<open>Deposits and the outstanding balance\<close>

definition outstanding :: "db \<Rightarrow> reservation \<Rightarrow> money" where
  "outstanding s r = max 0 (fs_balance (summary s r))"

definition optional_deposit :: "db \<Rightarrow> id option \<Rightarrow> deposit option res" where
  "optional_deposit s d = (case d of None \<Rightarrow> Inr None
     | Some i \<Rightarrow> bindE (find_or_fail ''deposits'' dep_id i (deposits s)) (\<lambda>x. Inr (Some x)))"

definition pay_deposit :: "ctx \<Rightarrow> payment \<Rightarrow> deposit option \<Rightarrow> db \<Rightarrow> db" where
  "pay_deposit c p d s = (case d of None \<Rightarrow> s
     | Some x \<Rightarrow> s\<lparr>deposits := upd_row dep_id (dep_id x) (\<lambda>y. y\<lparr>dep_payment := Some (py_id p),
         dep_status := D_Paid, dep_paid_at := Some (clock c)\<rparr>) (deposits s)\<rparr>)"

subsection \<open>recordFrontDesk\<close>

definition front_desk_channel :: "payment_channel \<Rightarrow> bool" where
  "front_desk_channel ch \<longleftrightarrow> ch \<in> {Ch_Bank_transfer, Ch_Cash, Ch_External_terminal, Ch_Manual_other}"

definition front_desk_payment :: "ctx \<Rightarrow> reservation \<Rightarrow> payment_channel \<Rightarrow> money \<Rightarrow> user_id option \<Rightarrow> payment" where
  "front_desk_payment c r channel amount actor = blank_payment\<lparr>py_reservation := r_id r, py_status := P_Succeeded,
     py_method := legacy_method channel, py_channel := channel, py_currency := r_currency r, py_amount := amount,
     py_processed_at := Some (clock c), py_reconciled_at := Some (clock c), py_recorded_by := actor,
     py_reconciled_by := actor, py_meta := [(''classification_source'', J_Str ''front_desk_command'')]\<rparr>"

definition record_front_desk ::
  "ctx \<Rightarrow> id \<Rightarrow> payment_channel \<Rightarrow> money \<Rightarrow> user_id option \<Rightarrow> id option \<Rightarrow> payment action" where
  "record_front_desk c i channel amount actor deposit_id s =
     bindE (reservation_or_fail s i) (\<lambda>r.
     if \<not> front_desk_channel channel then Inl (Commercial ''front_desk_channel'')
     else if amount \<le> 0 then Inl (Commercial ''amount'')
     else if r_folio_status r = F_Closed \<or> r_status r \<in> {R_Cancelled, R_No_show}
     then Inl (Commercial ''closed_reservation'')
     else if amount > outstanding s r then Inl (Commercial ''exceeds_balance'')
     else
       bindE (optional_deposit s deposit_id) (\<lambda>d.
       if (case d of None \<Rightarrow> False | Some x \<Rightarrow>
             dep_reservation x \<noteq> r_id r \<or> dep_currency x \<noteq> r_currency r \<or> dep_status x \<noteq> D_Due)
       then Inl (Commercial ''deposit'')
       else if (case d of None \<Rightarrow> False | Some x \<Rightarrow> amount < dep_amount x)
       then Inl (Commercial ''deposit_amount'')
       else
         bindE (insert_payment (front_desk_payment c r channel amount actor) s) (\<lambda>(s1, p).
         bindE (post_payment c p actor s1) (\<lambda>(s2, _).
         let s3 = pay_deposit c p d s2 in
         Inr (record_outbox c ''payment'' (py_id p) ''payment.succeeded''
                [(''payment_id'', J_Id (py_id p)), (''reservation_id'', J_Id (r_id r)),
                 (''deposit_id'', j_opt (\<lambda>x. J_Id (dep_id x)) d), (''amount_minor'', J_Int amount),
                 (''channel'', J_Str (payment_channel_value channel)), (''origin'', J_Str ''manual'')] s3, p)))))"

subsection \<open>reconcile\<close>

definition reconciled :: "ctx \<Rightarrow> user_id option \<Rightarrow> payment \<Rightarrow> payment" where
  "reconciled c actor p = p\<lparr>py_status := P_Succeeded, py_processed_at := Some (clock c),
     py_reconciled_at := Some (clock c), py_reconciled_by := actor\<rparr>"

definition reconcile :: "ctx \<Rightarrow> id \<Rightarrow> user_id option \<Rightarrow> id option \<Rightarrow> payment action" where
  "reconcile c i actor deposit_id s =
     bindE (find_or_fail ''payments'' py_id i (payments s)) (\<lambda>p.
     bindE (reservation_or_fail s (py_reservation p)) (\<lambda>r.
     if py_origin p = Origin_Provider then Inl (Commercial ''provider_payment'')
     else if py_status p = P_Succeeded then Inr (s, p)
     else if py_status p \<noteq> P_Pending then Inl (Commercial ''not_pending'')
     else if py_amount p > outstanding s r
       \<and> (\<exists>q \<in> set (payment_requests s). prq_reservation q = r_id r \<and> prq_payment q \<noteq> None)
     then Inl (Commercial ''exceeds_balance'')
     else
       bindE (optional_deposit s deposit_id) (\<lambda>d.
       if (case d of None \<Rightarrow> False | Some x \<Rightarrow> dep_reservation x \<noteq> py_reservation p)
       then Inl (Commercial ''deposit_reservation'')
       else if (case d of None \<Rightarrow> False | Some x \<Rightarrow> dep_status x \<noteq> D_Due)
       then Inl (Commercial ''deposit_due'')
       else if (case d of None \<Rightarrow> False | Some x \<Rightarrow> py_amount p < dep_amount x)
       then Inl (Commercial ''deposit_amount'')
       else
         let q = reconciled c actor p in
         bindE (update_payment q s) (\<lambda>s1.
         bindE (post_payment c q actor s1) (\<lambda>(s2, _).
         let s3 = pay_deposit c q d s2 in
         Inr (record_outbox c ''payment'' (py_id q) ''payment.succeeded''
                [(''payment_id'', J_Id (py_id q)), (''reservation_id'', J_Id (py_reservation q)),
                 (''deposit_id'', j_opt (\<lambda>x. J_Id (dep_id x)) d), (''amount_minor'', J_Int (py_amount q))] s3, q))))))"

subsection \<open>recordManual\<close>

record manual_input =
  mp_reservation :: id
  mp_method :: string
  mp_amount :: money
  mp_provider :: "string option"
  mp_reference :: "string option"
  mp_meta :: meta
  mp_deposit :: "id option"

definition method_channel :: "string \<Rightarrow> payment_channel" where
  "method_channel m = (if m = ''bank_transfer'' then Ch_Bank_transfer else if m = ''cash'' then Ch_Cash
     else if m = ''card'' then Ch_External_terminal else Ch_Manual_other)"

definition put :: "string \<Rightarrow> json \<Rightarrow> meta \<Rightarrow> meta" where
  "put k v m = without_key k m @ [(k, v)]"

definition manual_payment :: "reservation \<Rightarrow> manual_input \<Rightarrow> user_id option \<Rightarrow> payment" where
  "manual_payment r d actor = blank_payment\<lparr>py_reservation := r_id r, py_method := mp_method d,
     py_channel := method_channel (mp_method d), py_currency := r_currency r, py_amount := mp_amount d,
     py_recorded_by := actor,
     py_meta := put ''manual_transaction_reference'' (j_opt J_Str (filled_text (mp_reference d)))
       (put ''manual_processor_alias'' (j_opt J_Str (filled_text (mp_provider d))) (mp_meta d))\<rparr>"

definition same_manual :: "string \<Rightarrow> string \<Rightarrow> payment \<Rightarrow> bool" where
  "same_manual processor reference p \<longleftrightarrow> data_get (py_meta p) ''manual_processor_alias'' = J_Str processor
     \<and> data_get (py_meta p) ''manual_transaction_reference'' = J_Str reference"

definition known_manual :: "db \<Rightarrow> manual_input \<Rightarrow> payment option" where
  "known_manual s d = (case (filled_text (mp_provider d), filled_text (mp_reference d)) of
     (Some processor, Some reference) \<Rightarrow> find (same_manual processor reference) (payments s)
   | _ \<Rightarrow> None)"

definition record_manual :: "ctx \<Rightarrow> manual_input \<Rightarrow> user_id option \<Rightarrow> bool \<Rightarrow> payment action" where
  "record_manual c d actor capture s =
     bindE (reservation_or_fail s (mp_reservation d)) (\<lambda>r.
     (case known_manual s d of
        Some p \<Rightarrow> Inr (s, p)
      | None \<Rightarrow>
        bindE (insert_payment (manual_payment r d actor) s) (\<lambda>(s1, p).
        let s2 = record_outbox c ''payment'' (py_id p) ''payment.created''
              [(''payment_id'', J_Id (py_id p)), (''reservation_id'', J_Id (r_id r)),
               (''amount_minor'', J_Int (py_amount p))] s1 in
        if \<not> capture then Inr (s2, p) else reconcile c (py_id p) actor (mp_deposit d) s2)))"

subsection \<open>reverse\<close>

definition blocks_reversal :: "payment \<Rightarrow> change \<Rightarrow> bool" where
  "blocks_reversal p ch \<longleftrightarrow> ch_reservation ch = py_reservation p
     \<and> data_get (ch_meta ch) ''payment_id'' = J_Id (py_id p)
     \<and> ((ch_type ch = ''refund_requested'' \<and> ch_status ch = ''requested'')
        \<or> (ch_type ch = ''refund_completed'' \<and> ch_status ch = ''completed''))"

definition reversed_payment :: "ctx \<Rightarrow> string \<Rightarrow> user_id option \<Rightarrow> payment \<Rightarrow> payment" where
  "reversed_payment c reason actor p = p\<lparr>py_status := P_Reversed, py_reversed_at := Some (clock c),
     py_reversed_by := actor, py_reversal_reason := Some (trim reason)\<rparr>"

definition refund_deposits :: "id \<Rightarrow> db \<Rightarrow> db" where
  "refund_deposits p s = s\<lparr>deposits := upd_where (\<lambda>d. dep_payment d = Some p \<and> dep_status d = D_Paid)
     (dep_status_update (\<lambda>_. D_Refunded)) (deposits s)\<rparr>"

definition payment_line :: "db \<Rightarrow> id \<Rightarrow> folio_line option" where
  "payment_line s p = find (\<lambda>l. fl_payment l = Some p \<and> fl_type l = L_Payment) (folio_lines s)"

definition reverse_payment :: "ctx \<Rightarrow> id \<Rightarrow> string \<Rightarrow> user_id option \<Rightarrow> payment action" where
  "reverse_payment c i reason actor s =
     bindE (find_or_fail ''payments'' py_id i (payments s)) (\<lambda>p.
     bindE (reservation_or_fail s (py_reservation p)) (\<lambda>_.
     if py_origin p = Origin_Provider then Inl (Commercial ''provider_payment'')
     else if py_status p = P_Reversed then Inr (s, p)
     else if py_status p \<noteq> P_Succeeded then Inl (Commercial ''not_reconciled'')
     else if \<exists>ch \<in> set (changes s). blocks_reversal p ch then Inl (Commercial ''refund_exists'')
     else
       (case payment_line s i of
          None \<Rightarrow> Inl (NotFound ''folio_lines'')
        | Some line \<Rightarrow>
          bindE (reverse_line c (fl_id line) reason actor s) (\<lambda>(s1, _).
          let q = reversed_payment c reason actor p in
          bindE (update_payment q s1) (\<lambda>s2.
          let s3 = refund_deposits i s2 in
          Inr (record_outbox c ''payment'' i ''payment.reversed''
                 [(''payment_id'', J_Id i), (''reservation_id'', J_Id (py_reservation q)),
                  (''reason'', J_Str (trim reason))] s3, q))))))"

subsection \<open>Payments reported by the provider\<close>

record provider_payment =
  pp_id :: string
  pp_account :: string
  pp_amount :: money
  pp_currency :: string
  pp_external_reference :: string

definition known_provider :: "payment_attempt \<Rightarrow> string \<Rightarrow> string \<Rightarrow> payment \<Rightarrow> bool" where
  "known_provider a account reference p \<longleftrightarrow> py_provider p = Some (pa_provider a)
     \<and> py_environment p = Some (pa_environment a) \<and> py_account p = Some account \<and> py_reference p = Some reference"

definition belongs_to :: "payment_attempt \<Rightarrow> reservation \<Rightarrow> payment \<Rightarrow> bool" where
  "belongs_to a r p \<longleftrightarrow> py_reservation p = r_id r \<and> data_get (py_meta p) ''payment_attempt_id'' = J_Id (pa_id a)"

definition payable :: "ctx \<Rightarrow> payment_request \<Rightarrow> bool" where
  "payable c q \<longleftrightarrow> prq_state q \<in> {Req_Open, Req_Processing} \<and> \<not> prq_expires q < clock c"

definition request_paid :: "payment \<Rightarrow> instant \<Rightarrow> id \<Rightarrow> db \<Rightarrow> db" where
  "request_paid p at q s = s\<lparr>payment_requests := upd_row prq_id q (\<lambda>x. x\<lparr>prq_payment := Some (py_id p),
     prq_state := Req_Paid, prq_paid_at := Some at\<rparr>) (payment_requests s)\<rparr>"

definition provider_row ::
  "ctx \<Rightarrow> payment_attempt \<Rightarrow> payment_request \<Rightarrow> string \<Rightarrow> string \<Rightarrow> money \<Rightarrow> meta \<Rightarrow> payment" where
  "provider_row c a q account reference amount metadata = blank_payment\<lparr>py_reservation := pa_reservation a,
     py_status := P_Succeeded, py_method := ''mercado_pago_checkout_pro'', py_channel := Ch_Online_checkout,
     py_entry := Entry_Provider_reported, py_origin := Origin_Provider, py_provider := Some (pa_provider a),
     py_environment := Some (pa_environment a), py_account := Some account, py_reference := Some reference,
     py_currency := prq_source_currency q, py_amount := amount, py_processed_at := Some (clock c),
     py_reconciled_at := Some (clock c), py_meta := metadata\<rparr>"

definition record_provider :: "ctx \<Rightarrow> id \<Rightarrow> provider_payment \<Rightarrow> payment action" where
  "record_provider c attempt_id pp s =
     bindE (find_or_fail ''payment_attempts'' pa_id attempt_id (payment_attempts s)) (\<lambda>a.
     bindE (reservation_or_fail s (pa_reservation a)) (\<lambda>r.
     bindE (find_or_fail ''payment_requests'' prq_id (pa_request a) (payment_requests s)) (\<lambda>q.
     if pp_account pp = [] \<or> pp_account pp \<noteq> pa_account a then Inl (Commercial ''provider_account'')
     else
       (case find (known_provider a (pa_account a) (pp_id pp)) (payments s) of
          Some p \<Rightarrow>
            if \<not> belongs_to a r p then Inl (Commercial ''provider_identity'')
            else if prq_payment q = Some (py_id p) then Inr (s, p)
            else if \<not> payable c q \<or> prq_payment q \<noteq> None then Inl (Commercial ''stale_request'')
            else Inr (request_paid p (or_default (py_processed_at p) (clock c)) (prq_id q) s, p)
        | None \<Rightarrow>
            if \<not> payable c q then Inl (Commercial ''stale_request'')
            else if prq_payment q \<noteq> None then Inl (Commercial ''request_satisfied'')
            else if prq_source_amount q > outstanding s r then Inl (Commercial ''exceeds_balance'')
            else
              bindE (optional_deposit s (pa_deposit a)) (\<lambda>d.
              if (case d of None \<Rightarrow> False | Some x \<Rightarrow> dep_status x \<noteq> D_Due) then Inl (Commercial ''deposit_due'')
              else
                bindE (insert_payment (provider_row c a q (pa_account a) (pp_id pp) (prq_source_amount q)
                    [(''payment_attempt_id'', J_Id (pa_id a)),
                     (''external_reference'', J_Str (pa_external_reference a)),
                     (''charge_amount_minor'', J_Int (pa_charge_amount a)),
                     (''charge_currency'', J_Str (pa_charge_currency a)),
                     (''conversion_snapshot'', pa_conversion a)]) s) (\<lambda>(s1, p).
                bindE (post_payment c p None s1) (\<lambda>(s2, _).
                let s3 = request_paid p (clock c) (prq_id q) (pay_deposit c p d s2) in
                Inr (record_outbox c ''payment'' (py_id p) ''payment.succeeded''
                       [(''payment_id'', J_Id (py_id p)), (''reservation_id'', J_Id (r_id r)),
                        (''deposit_id'', j_opt (\<lambda>x. J_Id (dep_id x)) d), (''amount_minor'', J_Int (py_amount p)),
                        (''origin'', J_Str ''provider'')] s3, p))))))))"

text \<open>Division of big decimals rounded half away from zero.\<close>

definition half_up_div :: "int \<Rightarrow> int \<Rightarrow> int" where
  "half_up_div n d = sgn n * ((2 * \<bar>n\<bar> + d) div (2 * d))"

definition review_amount :: "provider_payment \<Rightarrow> payment_attempt \<Rightarrow> payment_request \<Rightarrow> money res" where
  "review_amount pp a q =
     (if pp_currency pp = prq_source_currency q then Inr (pp_amount pp)
      else if pp_currency pp = pa_charge_currency a \<and> pa_charge_amount a > 0
      then int_or_type_error (half_up_div (pp_amount pp * pa_source_amount a) (pa_charge_amount a))
      else Inr (prq_source_amount q))"

definition record_needs_review :: "ctx \<Rightarrow> id \<Rightarrow> provider_payment \<Rightarrow> string \<Rightarrow> payment action" where
  "record_needs_review c attempt_id pp reason s =
     bindE (find_or_fail ''payment_attempts'' pa_id attempt_id (payment_attempts s)) (\<lambda>a.
     bindE (reservation_or_fail s (pa_reservation a)) (\<lambda>r.
     bindE (find_or_fail ''payment_requests'' prq_id (pa_request a) (payment_requests s)) (\<lambda>q.
     let account = or_default (filled_text (Some (pp_account pp))) (pa_account a) in
     (case find (known_provider a account (pp_id pp)) (payments s) of
        Some p \<Rightarrow> if belongs_to a r p then Inr (s, p) else Inl (Commercial ''provider_identity'')
      | None \<Rightarrow>
        bindE (review_amount pp a q) (\<lambda>source_amount.
        bindE (insert_payment (provider_row c a q account (pp_id pp) (max 1 source_amount)
            [(''payment_attempt_id'', J_Id (pa_id a)),
             (''external_reference'', J_Str (pp_external_reference pp)),
             (''unapplied_direct_booking_funds'', J_Bool True),
             (''needs_review_reason'', J_Str reason),
             (''actual_charge_amount_minor'', J_Int (pp_amount pp)),
             (''actual_charge_currency'', J_Str (upper (pp_currency pp))),
             (''actual_provider_account'', J_Str account),
             (''expected_charge_amount_minor'', J_Int (pa_charge_amount a)),
             (''expected_charge_currency'', J_Str (pa_charge_currency a))]) s) (\<lambda>(s1, p).
        bindE (post_payment c p None s1) (\<lambda>(s2, _).
        Inr (record_outbox c ''payment'' (py_id p) ''payment.needs_review''
               [(''payment_id'', J_Id (py_id p)), (''reservation_id'', J_Id (r_id r)),
                (''amount_minor'', J_Int (py_amount p)), (''origin'', J_Str ''provider''),
                (''safe_reason_code'', J_Str reason)] s2, p))))))))"

subsection \<open>What the parts change\<close>

lemma pay_deposit_frame [frame_simps]:
  "properties (pay_deposit c p d s) = properties s"
  "categories (pay_deposit c p d s) = categories s"
  "resources (pay_deposit c p d s) = resources s"
  "blocks (pay_deposit c p d s) = blocks s"
  "occurrences (pay_deposit c p d s) = occurrences s"
  "programs (pay_deposit c p d s) = programs s"
  "memberships (pay_deposit c p d s) = memberships s"
  "reservations (pay_deposit c p d s) = reservations s"
  "allocations (pay_deposit c p d s) = allocations s"
  "histories (pay_deposit c p d s) = histories s"
  "changes (pay_deposit c p d s) = changes s"
  "folio_lines (pay_deposit c p d s) = folio_lines s"
  "payments (pay_deposit c p d s) = payments s"
  "payment_requests (pay_deposit c p d s) = payment_requests s"
  "payment_attempts (pay_deposit c p d s) = payment_attempts s"
  "disputes (pay_deposit c p d s) = disputes s"
  "promotions (pay_deposit c p d s) = promotions s"
  "vouchers (pay_deposit c p d s) = vouchers s"
  "usages (pay_deposit c p d s) = usages s"
  "usage_events (pay_deposit c p d s) = usage_events s"
  "redemptions (pay_deposit c p d s) = redemptions s"
  "redemption_events (pay_deposit c p d s) = redemption_events s"
  "tasks (pay_deposit c p d s) = tasks s"
  "task_events (pay_deposit c p d s) = task_events s"
  "outbox (pay_deposit c p d s) = outbox s"
  "next_id (pay_deposit c p d s) = next_id s"
  by (simp_all add: pay_deposit_def split: option.split)

lemma refund_deposits_frame [frame_simps]:
  "properties (refund_deposits i s) = properties s"
  "categories (refund_deposits i s) = categories s"
  "resources (refund_deposits i s) = resources s"
  "blocks (refund_deposits i s) = blocks s"
  "occurrences (refund_deposits i s) = occurrences s"
  "programs (refund_deposits i s) = programs s"
  "memberships (refund_deposits i s) = memberships s"
  "reservations (refund_deposits i s) = reservations s"
  "allocations (refund_deposits i s) = allocations s"
  "histories (refund_deposits i s) = histories s"
  "changes (refund_deposits i s) = changes s"
  "folio_lines (refund_deposits i s) = folio_lines s"
  "payments (refund_deposits i s) = payments s"
  "payment_requests (refund_deposits i s) = payment_requests s"
  "payment_attempts (refund_deposits i s) = payment_attempts s"
  "disputes (refund_deposits i s) = disputes s"
  "promotions (refund_deposits i s) = promotions s"
  "vouchers (refund_deposits i s) = vouchers s"
  "usages (refund_deposits i s) = usages s"
  "usage_events (refund_deposits i s) = usage_events s"
  "redemptions (refund_deposits i s) = redemptions s"
  "redemption_events (refund_deposits i s) = redemption_events s"
  "tasks (refund_deposits i s) = tasks s"
  "task_events (refund_deposits i s) = task_events s"
  "outbox (refund_deposits i s) = outbox s"
  "next_id (refund_deposits i s) = next_id s"
  by (simp_all add: refund_deposits_def)

lemma request_paid_frame [frame_simps]:
  "properties (request_paid p at q s) = properties s"
  "categories (request_paid p at q s) = categories s"
  "resources (request_paid p at q s) = resources s"
  "blocks (request_paid p at q s) = blocks s"
  "occurrences (request_paid p at q s) = occurrences s"
  "programs (request_paid p at q s) = programs s"
  "memberships (request_paid p at q s) = memberships s"
  "reservations (request_paid p at q s) = reservations s"
  "allocations (request_paid p at q s) = allocations s"
  "histories (request_paid p at q s) = histories s"
  "changes (request_paid p at q s) = changes s"
  "folio_lines (request_paid p at q s) = folio_lines s"
  "payments (request_paid p at q s) = payments s"
  "payment_attempts (request_paid p at q s) = payment_attempts s"
  "disputes (request_paid p at q s) = disputes s"
  "promotions (request_paid p at q s) = promotions s"
  "vouchers (request_paid p at q s) = vouchers s"
  "usages (request_paid p at q s) = usages s"
  "usage_events (request_paid p at q s) = usage_events s"
  "redemptions (request_paid p at q s) = redemptions s"
  "redemption_events (request_paid p at q s) = redemption_events s"
  "tasks (request_paid p at q s) = tasks s"
  "task_events (request_paid p at q s) = task_events s"
  "outbox (request_paid p at q s) = outbox s"
  "next_id (request_paid p at q s) = next_id s"
  by (simp_all add: request_paid_def)

lemma request_paid_deposits [frame_simps]: "deposits (request_paid p at q s) = deposits s"
  by (simp add: request_paid_def)

lemma insert_payment_Inr [res_simps]:
  "insert_payment p s = Inr (t, q) \<longleftrightarrow> payment_hook (p\<lparr>py_id := next_id s\<rparr>) = Inr () \<and> q = p\<lparr>py_id := next_id s\<rparr>
     \<and> t = s\<lparr>payments := payments s @ [q], next_id := Suc (next_id s)\<rparr>"
  by (auto simp: insert_payment_def bindE_eq_Inr Let_def)

lemma update_payment_Inr [res_simps]:
  "update_payment q s = Inr t \<longleftrightarrow> payment_hook q = Inr ()
     \<and> t = s\<lparr>payments := upd_row py_id (py_id q) (\<lambda>_. q) (payments s)\<rparr>"
  by (auto simp: update_payment_def bindE_eq_Inr)

text \<open>
  A capture stores a payment and posts it; the two tables are all that changes beside the deposits,
  the requests and the outbox. \<open>captures s q l t\<close> says so for a new payment, \<open>captures_row\<close> for one that
  was pending.
\<close>

definition captures :: "db \<Rightarrow> payment \<Rightarrow> folio_line \<Rightarrow> db \<Rightarrow> bool" where
  "captures s q l t \<longleftrightarrow> payments t = payments s @ [q] \<and> folio_lines t = folio_lines s @ [l]
     \<and> changes t = changes s \<and> reservations t = reservations s \<and> next_id t = Suc (Suc (next_id s))
     \<and> py_id q = next_id s \<and> py_status q = P_Succeeded \<and> fl_id l = Suc (next_id s)"

definition captures_row :: "db \<Rightarrow> payment \<Rightarrow> folio_line \<Rightarrow> db \<Rightarrow> bool" where
  "captures_row s q l t \<longleftrightarrow> payments t = upd_row py_id (py_id q) (\<lambda>_. q) (payments s)
     \<and> folio_lines t = folio_lines s @ [l] \<and> changes t = changes s \<and> reservations t = reservations s
     \<and> next_id t = Suc (next_id s) \<and> py_status q = P_Succeeded \<and> fl_id l = next_id s"

definition pays_line :: "payment \<Rightarrow> folio_line \<Rightarrow> bool" where
  "pays_line q l \<longleftrightarrow> fl_reservation l = py_reservation q \<and> fl_payment l = Some (py_id q) \<and> fl_type l = L_Payment
     \<and> fl_net l = - py_amount q \<and> fl_tax l = 0 \<and> fl_gross l = - py_amount q \<and> fl_reverses l = None
     \<and> \<not> in_booked_total l \<and> data_get (fl_meta l) ''refund_change_id'' = J_Null"

lemma post_payment_new:
  assumes "post_payment c p actor s = Inr (t, l)" and "\<forall>x \<in> set (folio_lines s). fl_payment x \<noteq> Some (py_id p)"
  obtains r where "posts s l t" "pays_line p l" "find_reservation s (py_reservation p) = Some r"
    "r_folio_status r = F_Open"
proof -
  have none: "find (\<lambda>l. fl_payment l = Some (py_id p) \<and> fl_type l = L_Payment) (folio_lines s) = None"
    using assms(2) by (auto simp: find_None_iff)
  then obtain r where r: "find_reservation s (py_reservation p) = Some r" "r_folio_status r = F_Open"
    and new: "create_line c r L_Payment 1000 (- py_amount p) actor (Some (py_id p)) None
      [(''payment_status'', J_Str (payment_status_value (py_status p)))] 0 s = Inr (t, l)"
    using assms(1)
    by (auto simp: post_payment_def bindE_eq_Inr assert_open_Inr reservation_or_fail_Inr)
  show ?thesis
    by (rule that [OF _ _ r])
      (use create_line_posts [OF new] create_line_unit [OF new] find_row_Some [OF r(1)] in
        \<open>simp_all add: pays_line_def posts_def in_booked_total_def data_get_def\<close>)
qed

lemma post_payment_deposits: "post_payment c p actor s = Inr (t, l) \<Longrightarrow> deposits t = deposits s"
  by (erule post_payment_Inr) (auto simp: posts_def)

lemma insert_and_post:
  assumes "insert_payment p s = Inr (s1, q)" and "post_payment c q actor s1 = Inr (s2, l)"
    and "\<forall>x \<in> set (folio_lines s). fl_payment x \<noteq> Some (next_id s)" and "py_status p = P_Succeeded"
    and "payments t = payments s2" "folio_lines t = folio_lines s2" "changes t = changes s2"
      "reservations t = reservations s2" "next_id t = next_id s2"
  shows "captures s q l t" and "pays_line q l" and "q = p\<lparr>py_id := next_id s\<rparr>"
    and "\<exists>r. find_reservation s (py_reservation p) = Some r \<and> r_folio_status r = F_Open"
proof -
  from assms(1) have ins: "q = p\<lparr>py_id := next_id s\<rparr>"
      "s1 = s\<lparr>payments := payments s @ [q], next_id := Suc (next_id s)\<rparr>"
    by (auto simp: insert_payment_Inr)
  have fresh: "\<forall>x \<in> set (folio_lines s1). fl_payment x \<noteq> Some (py_id q)" using assms(3) ins by simp
  obtain r where post: "posts s1 l s2" "pays_line q l" "find_reservation s1 (py_reservation q) = Some r"
      "r_folio_status r = F_Open"
    using post_payment_new [OF assms(2) fresh] .
  show "captures s q l t" using post(1) ins assms(4-9) by (simp add: captures_def posts_def)
  show "pays_line q l" "q = p\<lparr>py_id := next_id s\<rparr>" by (fact post(2) ins(1))+
  show "\<exists>r. find_reservation s (py_reservation p) = Some r \<and> r_folio_status r = F_Open"
    using post(3,4) ins by simp
qed

lemma record_front_desk_Inr:
  assumes "record_front_desk c i channel amount actor d s = Inr (t, q)"
    and "\<forall>x \<in> set (folio_lines s). fl_payment x \<noteq> Some (next_id s)"
  obtains r l x where "find_reservation s i = Some r" "front_desk_channel channel" "0 < amount"
    "amount \<le> outstanding s r" "r_folio_status r = F_Open" "r_status r \<notin> {R_Cancelled, R_No_show}"
    "captures s q l t" "pays_line q l" "py_reservation q = r_id r" "py_amount q = amount" "py_channel q = channel"
    "optional_deposit s d = Inr x" "deposits t = deposits (pay_deposit c q x s)"
    "\<And>y. x = Some y \<Longrightarrow> dep_reservation y = r_id r \<and> dep_status y = D_Due \<and> dep_amount y \<le> amount"
  using assms(1)
  unfolding record_front_desk_def
proof (simp only: run_simps, elim exE conjE)
  fix r x s1 p s2 l
  assume run: "find_reservation s i = Some r" "front_desk_channel channel" "\<not> amount \<le> 0"
      "\<not> (r_folio_status r = F_Closed \<or> r_status r \<in> {R_Cancelled, R_No_show})" "\<not> outstanding s r < amount"
      "optional_deposit s d = Inr x"
      "\<not> (case x of None \<Rightarrow> False | Some x \<Rightarrow>
             dep_reservation x \<noteq> r_id r \<or> dep_currency x \<noteq> r_currency r \<or> dep_status x \<noteq> D_Due)"
      "\<not> (case x of None \<Rightarrow> False | Some x \<Rightarrow> amount < dep_amount x)"
    and ins: "insert_payment (front_desk_payment c r channel amount actor) s = Inr (s1, p)"
    and post: "post_payment c p actor s1 = Inr (s2, l)"
    and t: "record_outbox c ''payment'' (py_id p) ''payment.succeeded''
          [(''payment_id'', J_Id (py_id p)), (''reservation_id'', J_Id (r_id r)),
           (''deposit_id'', j_opt (\<lambda>x. J_Id (dep_id x)) x), (''amount_minor'', J_Int amount),
           (''channel'', J_Str (payment_channel_value channel)), (''origin'', J_Str ''manual'')]
          (pay_deposit c p x s2) = t" and p: "p = q"
  have new: "py_status (front_desk_payment c r channel amount actor) = P_Succeeded"
    by (simp add: front_desk_payment_def)
  have step: "captures s p l t" "pays_line p l" "p = front_desk_payment c r channel amount actor\<lparr>py_id := next_id s\<rparr>"
    by (rule insert_and_post [OF ins post assms(2) new], simp_all add: t [symmetric] frame_simps)+
  have "deposits s2 = deposits s"
    using ins post_payment_deposits [OF post] by (auto simp: insert_payment_Inr)
  then have dep: "deposits t = deposits (pay_deposit c p x s)"
    unfolding t [symmetric] record_outbox_def by (simp add: pay_deposit_def split: option.split)
  have o: "r_folio_status r = F_Open" using run(4) by (cases "r_folio_status r") simp_all
  show thesis
    by (rule that [of r l x])
      (use run o step dep p in \<open>auto simp: front_desk_payment_def not_le not_less\<close>)
qed

definition pending_unposted :: "db \<Rightarrow> bool" where
  "pending_unposted s \<longleftrightarrow> (\<forall>p \<in> set (payments s). py_status p = P_Pending \<longrightarrow>
     (\<forall>l \<in> set (folio_lines s). fl_payment l \<noteq> Some (py_id p)))"

lemma reconcile_Inr:
  assumes "reconcile c i actor d s = Inr (t, q)" and "pending_unposted s"
  obtains (idle) "t = s" "find_row py_id i (payments s) = Some q" "py_status q = P_Succeeded"
  | (captured) p r l where "find_row py_id i (payments s) = Some p" "find_reservation s (py_reservation p) = Some r"
      "py_status p = P_Pending" "py_origin p \<noteq> Origin_Provider" "q = reconciled c actor p"
      "captures_row s q l t" "pays_line q l"
proof -
  from assms(1) obtain p r where p: "find_row py_id i (payments s) = Some p"
    and r: "find_reservation s (py_reservation p) = Some r" and origin: "py_origin p \<noteq> Origin_Provider"
    unfolding reconcile_def by (simp only: run_simps) (elim exE conjE, rule that; assumption)
  then have start: "find_or_fail ''payments'' py_id i (payments s) = Inr p"
      "reservation_or_fail s (py_reservation p) = Inr r"
    by (simp_all add: find_or_fail_Inr reservation_or_fail_Inr)
  show thesis
  proof (cases "py_status p = P_Succeeded")
    case True
    with assms(1) p origin start show thesis by (intro idle) (simp_all add: reconcile_def)
  next
    case False
    with assms(1) obtain x s1 s2 l a k e m where pend: "py_status p = P_Pending"
        and upd: "update_payment (reconciled c actor p) s = Inr s1"
        and post: "post_payment c (reconciled c actor p) actor s1 = Inr (s2, l)"
        and t: "record_outbox c a k e m (pay_deposit c (reconciled c actor p) x s2) = t"
        and q: "reconciled c actor p = q"
      by (simp only: reconcile_def start origin bindE_simps if_False run_simps)
        (elim exE conjE, rule that; assumption)
    have keep: "py_id q = py_id p" "py_reservation q = py_reservation p" "py_status q = P_Succeeded"
      using q by (auto simp: reconciled_def)
    have s1: "s1 = s\<lparr>payments := upd_row py_id (py_id q) (\<lambda>_. q) (payments s)\<rparr>"
      using upd q by (simp add: update_payment_Inr)
    have "p \<in> set (payments s)" using find_row_Some [OF p] by simp
    then have "\<forall>x \<in> set (folio_lines s1). fl_payment x \<noteq> Some (py_id q)"
      using assms(2) pend keep by (simp add: s1 pending_unposted_def)
    from post_payment_new [OF post [unfolded q] this] have "posts s1 l s2" "pays_line q l" by metis+
    then show thesis
      using p r pend origin q keep s1
      by (intro captured [of p r l]) (auto simp: captures_row_def posts_def t [symmetric] frame_simps)
  qed
qed

definition opens :: "db \<Rightarrow> payment \<Rightarrow> db \<Rightarrow> bool" where
  "opens s q t \<longleftrightarrow> payments t = payments s @ [q] \<and> folio_lines t = folio_lines s \<and> changes t = changes s
     \<and> reservations t = reservations s \<and> next_id t = Suc (next_id s) \<and> py_id q = next_id s \<and> py_status q = P_Pending"

text \<open>The tables the ledger theorems read.\<close>

definition same_books :: "db \<Rightarrow> db \<Rightarrow> bool" where
  "same_books s t \<longleftrightarrow> payments t = payments s \<and> folio_lines t = folio_lines s \<and> changes t = changes s
     \<and> reservations t = reservations s \<and> next_id t = next_id s"

lemma record_manual_Inr:
  assumes "record_manual c d actor capture s = Inr (t, q)"
  obtains (known) "t = s" "known_manual s d = Some q"
  | (opened) "opens s q t" "\<not> capture" "py_amount q = mp_amount d" "py_reservation q = mp_reservation d"
  | (captured) p u where "opens s p u" "capture" "py_amount p = mp_amount d" "py_reservation p = mp_reservation d"
      "reconcile c (py_id p) actor (mp_deposit d) u = Inr (t, q)"
proof -
  from assms obtain r where r: "find_reservation s (mp_reservation d) = Some r"
    unfolding record_manual_def by (simp only: run_simps) (elim exE conjE, rule that; assumption)
  then have start: "reservation_or_fail s (mp_reservation d) = Inr r" by (simp add: reservation_or_fail_Inr)
  show thesis
  proof (cases "known_manual s d")
    case (Some p)
    with assms start show thesis by (intro known) (simp_all add: record_manual_def)
  next
    case None
    with assms start obtain p s1 where ins: "insert_payment (manual_payment r d actor) s = Inr (s1, p)"
      and rest: "(if \<not> capture then Inr (record_outbox c ''payment'' (py_id p) ''payment.created''
              [(''payment_id'', J_Id (py_id p)), (''reservation_id'', J_Id (r_id r)),
               (''amount_minor'', J_Int (py_amount p))] s1, p)
            else reconcile c (py_id p) actor (mp_deposit d) (record_outbox c ''payment'' (py_id p) ''payment.created''
              [(''payment_id'', J_Id (py_id p)), (''reservation_id'', J_Id (r_id r)),
               (''amount_minor'', J_Int (py_amount p))] s1)) = Inr (t, q)"
      unfolding record_manual_def by (auto simp: bindE_eq_Inr Let_def)
    have row: "py_amount p = mp_amount d" "py_reservation p = mp_reservation d" "py_status p = P_Pending"
        "py_id p = next_id s"
      using ins find_row_Some [OF r] by (auto simp: insert_payment_Inr manual_payment_def blank_payment_def)
    have "opens s p (record_outbox c a k e m s1)" for a k e m
      using ins row by (auto simp: opens_def insert_payment_Inr frame_simps)
    note opens = this
    show thesis
    proof (cases capture)
      case True
      with rest have "reconcile c (py_id p) actor (mp_deposit d) (record_outbox c ''payment'' (py_id p) ''payment.created''
              [(''payment_id'', J_Id (py_id p)), (''reservation_id'', J_Id (r_id r)),
               (''amount_minor'', J_Int (py_amount p))] s1) = Inr (t, q)"
        by (simp only: if_False not_True_eq_False)
      with opens True row(1,2) show thesis by (rule captured)
    next
      case False
      with rest opens row(1,2) show thesis by (intro opened) auto
    qed
  qed
qed

lemma reverse_payment_Inr:
  assumes "reverse_payment c i reason actor s = Inr (t, q)"
  obtains (again) "t = s" "find_row py_id i (payments s) = Some q" "py_status q = P_Reversed"
  | (reversed) p r l x u where "find_row py_id i (payments s) = Some p" "find_reservation s (py_reservation p) = Some r"
      "py_status p = P_Succeeded" "py_origin p \<noteq> Origin_Provider" "\<forall>ch \<in> set (changes s). \<not> blocks_reversal p ch"
      "payment_line s i = Some x" "reverse_line c (fl_id x) reason actor s = Inr (u, l)"
      "q = reversed_payment c reason actor p" "payments t = upd_row py_id (py_id q) (\<lambda>_. q) (payments u)"
      "folio_lines t = folio_lines u" "changes t = changes u" "reservations t = reservations u" "next_id t = next_id u"
proof -
  from assms obtain p r where p: "find_row py_id i (payments s) = Some p"
    and r: "find_reservation s (py_reservation p) = Some r" and origin: "py_origin p \<noteq> Origin_Provider"
    unfolding reverse_payment_def by (simp only: run_simps) (elim exE conjE, rule that; assumption)
  then have start: "find_or_fail ''payments'' py_id i (payments s) = Inr p"
      "reservation_or_fail s (py_reservation p) = Inr r"
    by (simp_all add: find_or_fail_Inr reservation_or_fail_Inr)
  show thesis
  proof (cases "py_status p = P_Reversed")
    case True
    with assms p origin start show thesis by (intro again) (simp_all add: reverse_payment_def)
  next
    case False
    note run = assms [unfolded reverse_payment_def start bindE_simps if_not_P [OF origin] if_not_P [OF False]
        run_simps option_case_Inl_eq_Inr]
    from run obtain x u l s2 a k e m where st: "py_status p = P_Succeeded"
        and free: "\<not> Bex (set (changes s)) (blocks_reversal p)" and x: "payment_line s i = Some x"
        and rev: "reverse_line c (fl_id x) reason actor s = Inr (u, l)"
        and upd: "update_payment (reversed_payment c reason actor p) u = Inr s2"
        and t: "record_outbox c a k e m (refund_deposits i s2) = t"
        and q: "reversed_payment c reason actor p = q"
      by - (elim exE conjE, rule that; assumption)
    have "s2 = u\<lparr>payments := upd_row py_id (py_id q) (\<lambda>_. q) (payments u)\<rparr>"
      using upd q by (simp add: update_payment_Inr)
    then show thesis
      using p r st free x rev q origin
      by (intro reversed [of p r x u l]) (simp_all add: t [symmetric] frame_simps)
  qed
qed

lemma record_provider_Inr:
  assumes "record_provider c i pp s = Inr (t, q)"
    and "\<forall>x \<in> set (folio_lines s). fl_payment x \<noteq> Some (next_id s)"
  obtains (again) "same_books s t" | (captured) l where "captures s q l t" "pays_line q l"
proof -
  from assms(1) obtain a r z where a: "find_row pa_id i (payment_attempts s) = Some a"
    and r: "find_reservation s (pa_reservation a) = Some r"
    and z: "find_row prq_id (pa_request a) (payment_requests s) = Some z"
    and acc: "\<not> (pp_account pp = [] \<or> pp_account pp \<noteq> pa_account a)"
    unfolding record_provider_def by (simp only: run_simps) (elim exE conjE, rule that; assumption)
  have start: "find_or_fail ''payment_attempts'' pa_id i (payment_attempts s) = Inr a"
      "reservation_or_fail s (pa_reservation a) = Inr r"
      "find_or_fail ''payment_requests'' prq_id (pa_request a) (payment_requests s) = Inr z"
    using a r z by (simp_all add: find_or_fail_Inr reservation_or_fail_Inr)
  note run = assms(1) [unfolded record_provider_def start bindE_simps if_not_P [OF acc]]
  show thesis
  proof (cases "find (known_provider a (pa_account a) (pp_id pp)) (payments s)")
    case (Some p)
    with run have "same_books s t" by (auto simp: same_books_def frame_simps split: if_splits)
    then show thesis by (rule again)
  next
    case None
    note run' = run [unfolded None option.case run_simps]
    from run' obtain x m s1 p s2 l k e pl where
        ins: "insert_payment (provider_row c a z (pa_account a) (pp_id pp) (prq_source_amount z) m) s = Inr (s1, p)"
        and post: "post_payment c p None s1 = Inr (s2, l)"
        and t: "record_outbox c k (py_id p) e pl (request_paid p (clock c) (prq_id z) (pay_deposit c p x s2)) = t"
        and q: "p = q"
      by - (elim exE conjE, rule that; assumption)
    have new: "py_status (provider_row c a z (pa_account a) (pp_id pp) (prq_source_amount z) m) = P_Succeeded"
      by (simp add: provider_row_def)
    have "captures s p l t" "pays_line p l"
      by (rule insert_and_post [OF ins post assms(2) new], simp_all add: t [symmetric] frame_simps)+
    then show thesis unfolding q by (rule captured)
  qed
qed

lemma record_needs_review_Inr:
  assumes "record_needs_review c i pp reason s = Inr (t, q)"
    and "\<forall>x \<in> set (folio_lines s). fl_payment x \<noteq> Some (next_id s)"
  obtains (again) "t = s" | (captured) l where "captures s q l t" "pays_line q l"
proof -
  from assms(1) obtain a r z where a: "find_row pa_id i (payment_attempts s) = Some a"
    and r: "find_reservation s (pa_reservation a) = Some r"
    and z: "find_row prq_id (pa_request a) (payment_requests s) = Some z"
    unfolding record_needs_review_def by (simp only: run_simps) (elim exE conjE, rule that; assumption)
  have start: "find_or_fail ''payment_attempts'' pa_id i (payment_attempts s) = Inr a"
      "reservation_or_fail s (pa_reservation a) = Inr r"
      "find_or_fail ''payment_requests'' prq_id (pa_request a) (payment_requests s) = Inr z"
    using a r z by (simp_all add: find_or_fail_Inr reservation_or_fail_Inr)
  define account where "account = or_default (filled_text (Some (pp_account pp))) (pa_account a)"
  note run = assms(1) [unfolded record_needs_review_def start bindE_simps Let_def, folded account_def]
  show thesis
  proof (cases "find (known_provider a account (pp_id pp)) (payments s)")
    case (Some p)
    with run have "t = s" by (auto split: if_splits)
    then show thesis by (rule again)
  next
    case None
    note run' = run [unfolded None option.case run_simps]
    from run' obtain n m s1 p s2 l k e pl where
        ins: "insert_payment (provider_row c a z account (pp_id pp) (max 1 n) m) s = Inr (s1, p)"
        and post: "post_payment c p None s1 = Inr (s2, l)"
        and t: "record_outbox c k (py_id p) e pl s2 = t" and q: "p = q"
      by - (elim exE conjE, rule that; assumption)
    have new: "py_status (provider_row c a z account (pp_id pp) (max 1 n) m) = P_Succeeded"
      by (simp add: provider_row_def)
    have "captures s p l t" "pays_line p l"
      by (rule insert_and_post [OF ins post assms(2) new], simp_all add: t [symmetric] frame_simps)+
    then show thesis unfolding q by (rule captured)
  qed
qed

lemma pays_line_balance:
  assumes "folio_lines t = folio_lines s @ [l]" and "pays_line q l"
  shows "fs_balance (summary t r) = fs_balance (summary s r) - (if py_reservation q = r_id r then py_amount q else 0)"
  using assms by (simp add: balance_eq pays_line_def)

subsection \<open>Properties\<close>

lemma front_desk_effect:
  assumes "record_front_desk c i channel amount actor d s = Inr (t, q)"
    and "\<forall>x \<in> set (folio_lines s). fl_payment x \<noteq> Some (next_id s)" and "find_reservation s i = Some r"
  shows "amount \<le> fs_balance (summary s r) \<and> payments t = payments s @ [q] \<and> py_amount q = amount \<and> py_reservation q = r_id r
    \<and> fs_balance (summary t r) = fs_balance (summary s r) - amount"
  using assms(1,2)
proof (cases rule: record_front_desk_Inr)
  case (1 r' l x)
  then have r: "r' = r" using assms(3) by simp
  note step = 1(3-4,7-10) [unfolded r]
  have "fs_balance (summary t r) = fs_balance (summary s r) - amount"
    using step pays_line_balance [of t s l q r] by (simp add: captures_def)
  with step show ?thesis by (simp add: captures_def outstanding_def)
qed

text \<open>C25: A front-desk payment never exceeds what is owed. It is accepted only for an open folio, a
  staff channel and a positive amount up to the balance; then one succeeded payment of that amount is
  stored, the balance of the reservation falls by exactly it and stays at or above zero, and a selected
  deposit was due, is covered and is now paid by this payment.\<close>

theorem front_desk_exact:
  assumes "record_front_desk c i channel amount actor d s = Inr (t, q)"
    and "\<forall>x \<in> set (folio_lines s). fl_payment x \<noteq> Some (next_id s)" and "find_reservation s i = Some r"
  shows "0 < amount \<and> amount \<le> fs_balance (summary s r) \<and> r_folio_status r = F_Open \<and> front_desk_channel channel
    \<and> payments t = payments s @ [q] \<and> py_amount q = amount \<and> py_status q = P_Succeeded \<and> py_reservation q = i
    \<and> fs_balance (summary t r) = fs_balance (summary s r) - amount \<and> 0 \<le> fs_balance (summary t r)
    \<and> (\<forall>k. d = Some k \<longrightarrow> (\<exists>x y. find_row dep_id k (deposits s) = Some x \<and> dep_status x = D_Due \<and> dep_amount x \<le> amount
         \<and> find_row dep_id k (deposits t) = Some y \<and> dep_status y = D_Paid \<and> dep_payment y = Some (py_id q)
         \<and> dep_amount y = dep_amount x))"
  using assms(1,2)
proof (cases rule: record_front_desk_Inr)
  case (1 r' l x)
  then have r: "r' = r" using assms(3) by simp
  note ok = 1(2-5) [unfolded r] and step = 1(7-10) [unfolded r] and dep = 1(12-14)
  have bal: "fs_balance (summary t r) = fs_balance (summary s r) - amount"
    using step pays_line_balance [of t s l q r] by (simp add: captures_def)
  have "\<exists>x y. find_row dep_id k (deposits s) = Some x \<and> dep_status x = D_Due \<and> dep_amount x \<le> amount
         \<and> find_row dep_id k (deposits t) = Some y \<and> dep_status y = D_Paid \<and> dep_payment y = Some (py_id q)
         \<and> dep_amount y = dep_amount x" if "d = Some k" for k
  proof -
    from dep(1) that obtain y where y: "x = Some y" "find_row dep_id k (deposits s) = Some y"
      by (auto simp: optional_deposit_def bindE_eq_Inr find_or_fail_Inr)
    with find_row_Some [OF y(2)] dep(3) show ?thesis
      by (simp add: dep(2) pay_deposit_def find_row_upd_same)
  qed
  moreover have "r_id r = i" using find_row_Some [OF assms(3)] by simp
  then have "payments t = payments s @ [q] \<and> py_status q = P_Succeeded \<and> py_reservation q = i"
    using step by (simp add: captures_def)
  moreover have "amount \<le> fs_balance (summary s r)" using ok(2,3) by (simp add: outstanding_def)
  moreover from this have "0 \<le> fs_balance (summary t r)" unfolding bal by simp
  ultimately show ?thesis using ok(1,2,4) step(4) bal by (intro conjI allI impI) blast+
qed

definition desk_deposit :: deposit where
  "desk_deposit = \<lparr>dep_id = 9, dep_reservation = 6, dep_payment = None, dep_schedule = None, dep_status = D_Due,
     dep_currency = ''COP'', dep_amount = 30000, dep_due_at = 0, dep_paid_at = None, dep_waived_at = None,
     dep_waived_by = None, dep_waiver_reason = None\<rparr>"

definition desk_db :: db where
  "desk_db = demo_db\<lparr>deposits := [desk_deposit]\<rparr>"

lemmas desk_exec = record_front_desk_def optional_deposit_def insert_payment_def payment_hook_def valid_manual_def
  manual_channel_def provider_identity_def front_desk_payment_def blank_payment_def front_desk_channel_def
  outstanding_def summary_def own_lines_def folio_exec pay_deposit_def

lemma desk_run:
  "succeeds_with (\<lambda>(t, q). py_amount q = 40000 \<and> dep_status (hd (deposits t)) = D_Paid)
     (record_front_desk demo_ctx 6 Ch_Cash 40000 (Some 1) (Some 9) desk_db)"
  by (simp add: desk_db_def desk_deposit_def demo_defs desk_exec(1-2) folio_exec)
    (simp add: desk_exec upd_row_def upd_where_def record_outbox_def)

theorem front_desk_exact_witness:
  "\<exists>t q. record_front_desk demo_ctx 6 Ch_Cash 40000 (Some 1) (Some 9) desk_db = Inr (t, q)
     \<and> fs_balance (summary t (demo_reservation 6 R_Confirmed)) = 60000"
proof -
  obtain t q where run: "record_front_desk demo_ctx 6 Ch_Cash 40000 (Some 1) (Some 9) desk_db = Inr (t, q)"
    using desk_run by (auto elim: succeeds_withE)
  have start: "fs_balance (summary desk_db (demo_reservation 6 R_Confirmed)) = 100000"
      "find_reservation desk_db 6 = Some (demo_reservation 6 R_Confirmed)"
      "\<forall>x \<in> set (folio_lines desk_db). fl_payment x \<noteq> Some (next_id desk_db)"
    by (simp_all add: desk_db_def demo_defs summary_def own_lines_def find_row_def)
  have "fs_balance (summary t (demo_reservation 6 R_Confirmed)) = fs_balance (summary desk_db (demo_reservation 6 R_Confirmed)) - 40000"
    using front_desk_exact [OF run start(3,2)] by blast
  with run start(1) show ?thesis by simp
qed

end
