(* ===== verification/Refunds.thy ===== *)
theory Refunds
  imports Payments Stay Promotions
begin

text \<open>
  Refunds: \<^verbatim>\<open>RequestRefund\<close>, \<^verbatim>\<open>CompleteRefund\<close> and the amount rule of
  \<^verbatim>\<open>CorrectRemainingReversibleAmount\<close>. A refund is a chain of rows of the change log: a request,
  failed attempts that name it as their parent, and at most one completion. The theorems say that a
  payment is never refunded beyond its amount and that the folio carries, payment by payment, exactly
  what was captured and given back, along every run of payment and refund commands.
\<close>

subsection \<open>Questions about the change log\<close>

definition events_of_change :: "db \<Rightarrow> id \<Rightarrow> change list" where
  "events_of_change s i = filter (\<lambda>ch. ch_parent ch = Some i) (changes s)"

definition completed_request :: "db \<Rightarrow> change \<Rightarrow> bool" where
  "completed_request s ch \<longleftrightarrow> (\<exists>e \<in> set (events_of_change s (ch_id ch)). ch_type e = ''refund_completed'')"

definition on_payment :: "id \<Rightarrow> id \<Rightarrow> change \<Rightarrow> bool" where
  "on_payment r p ch \<longleftrightarrow> ch_reservation ch = r \<and> data_get (ch_meta ch) ''payment_id'' = J_Id p"

definition open_request :: "db \<Rightarrow> id \<Rightarrow> change \<Rightarrow> bool" where
  "open_request s r ch \<longleftrightarrow> ch_reservation ch = r \<and> ch_type ch = ''refund_requested''
     \<and> ch_status ch = ''requested'' \<and> \<not> completed_request s ch"

definition change_amount :: "change \<Rightarrow> money" where
  "change_amount ch = or_default (ch_amount ch) 0"

definition open_requests :: "db \<Rightarrow> id \<Rightarrow> money" where
  "open_requests s r = sum_where (open_request s r) change_amount (changes s)"

definition payment_refunds :: "db \<Rightarrow> id \<Rightarrow> id \<Rightarrow> money" where
  "payment_refunds s r p = sum_where (\<lambda>ch. on_payment r p ch
     \<and> ch_type ch \<in> {''refund_requested'', ''refund_completed''} \<and> ch_status ch \<in> {''requested'', ''completed''}
     \<and> \<not> (ch_type ch = ''refund_requested'' \<and> completed_request s ch)) change_amount (changes s)"

definition completed_for_payment :: "db \<Rightarrow> id \<Rightarrow> id \<Rightarrow> money" where
  "completed_for_payment s r p = sum_where (\<lambda>ch. on_payment r p ch \<and> ch_type ch = ''refund_completed''
     \<and> ch_status ch = ''completed'') change_amount (changes s)"

definition lost_chargebacks :: "db \<Rightarrow> id \<Rightarrow> money" where
  "lost_chargebacks s p = sum_where (\<lambda>d. dis_payment d = p \<and> dis_state d = ''lost'' \<and> dis_impact d = ''applied'')
     dis_amount (disputes s)"

subsection \<open>RequestRefund\<close>

definition available_on_payment :: "db \<Rightarrow> reservation \<Rightarrow> payment \<Rightarrow> money" where
  "available_on_payment s r p = max 0 (py_amount p - payment_refunds s (r_id r) (py_id p))"

definition available_credit :: "db \<Rightarrow> reservation \<Rightarrow> payment \<Rightarrow> money" where
  "available_credit s r p =
     (let credit = max 0 (- fs_balance (summary s r) - open_requests s (r_id r)) in
      if data_get (py_meta p) ''unapplied_direct_booking_funds'' = J_Bool True
      then max credit (available_on_payment s r p) else credit)"

definition request_refund :: "ctx \<Rightarrow> id \<Rightarrow> id \<Rightarrow> money \<Rightarrow> string \<Rightarrow> user_id option \<Rightarrow> change action" where
  "request_refund c reservation_id payment_id amount raw_reason actor s =
     bindE (reservation_or_fail s reservation_id) (\<lambda>r.
     bindE (find_or_fail ''payments'' py_id payment_id (payments s)) (\<lambda>p.
     if py_reservation p \<noteq> r_id r \<or> py_status p \<noteq> P_Succeeded then Inl (Validation ''payment_id'')
     else if amount \<le> 0 then Inl (Validation ''amount_minor'')
     else
       let reason = trim raw_reason in
       if reason = [] then Inl (Validation ''reason'')
       else if amount > min (available_on_payment s r p) (available_credit s r p) then Inl (Validation ''amount_minor'')
       else
         let (s1, ch) = record_change c r ''refund_requested''
               (change_defaults\<lparr>ci_actor := actor, ci_status := ''requested'', ci_amount := Some amount,
                  ci_meta := [(''payment_id'', J_Id (py_id p)), (''reason'', J_Str reason),
                    (''scope'', J_Str (if amount = available_on_payment s r p then ''full'' else ''partial'')),
                    (''available_credit_before_minor'', J_Int (available_credit s r p))]\<rparr>) s in
         Inr (record_outbox c ''reservation'' (r_id r) ''refund.requested''
                [(''reservation_id'', J_Id (r_id r)), (''refund_request_id'', J_Id (ch_id ch)),
                 (''payment_id'', J_Id (py_id p)), (''amount_minor'', J_Int amount)] s1, ch)))"

subsection \<open>CompleteRefund\<close>

fun json_id :: "json \<Rightarrow> id option" where
  "json_id (J_Id i) = Some i"
| "json_id _ = None"

definition refund_payment :: "db \<Rightarrow> change \<Rightarrow> payment res" where
  "refund_payment s ch = (case json_id (data_get (ch_meta ch) ''payment_id'') of
     None \<Rightarrow> Inl (NotFound ''payments'')
   | Some p \<Rightarrow> find_or_fail ''payments'' py_id p (payments s))"

definition lock_request_graph :: "db \<Rightarrow> id \<Rightarrow> (reservation \<times> payment \<times> change) res" where
  "lock_request_graph s i =
     bindE (find_or_fail ''reservation_changes'' ch_id i (changes s)) (\<lambda>ch.
     bindE (reservation_or_fail s (ch_reservation ch)) (\<lambda>r.
     bindE (refund_payment s ch) (\<lambda>p. Inr (r, p, ch))))"

definition assert_request :: "change \<Rightarrow> unit res" where
  "assert_request ch = (if ch_type ch \<noteq> ''refund_requested'' \<or> ch_status ch \<noteq> ''requested''
     then Inl (Validation ''refund'') else Inr ())"

definition set_refunded :: "payment \<Rightarrow> db \<Rightarrow> db res" where
  "set_refunded p s = bindE (update_payment (p\<lparr>py_status := P_Refunded\<rparr>) s) (\<lambda>s1. Inr (refund_deposits (py_id p) s1))"

definition complete_refund :: "ctx \<Rightarrow> id \<Rightarrow> string \<Rightarrow> user_id option \<Rightarrow> change action" where
  "complete_refund c i raw_reference actor s =
     bindE (lock_request_graph s i) (\<lambda>(r, p, request).
     bindE (assert_request request) (\<lambda>_.
     (case find (\<lambda>e. ch_type e = ''refund_completed'') (events_of_change s i) of
        Some e \<Rightarrow> Inr (s, e)
      | None \<Rightarrow>
        let reference = trim raw_reference; amount = change_amount request;
            completed = completed_for_payment s (r_id r) (py_id p) in
        if reference = [] then Inl (Validation ''reference'')
        else if py_reservation p \<noteq> r_id r \<or> py_status p \<noteq> P_Succeeded then Inl (Validation ''payment_id'')
        else if completed + amount > max 0 (py_amount p - lost_chargebacks s (py_id p))
        then Inl (Validation ''amount_minor'')
        else
          let (s1, done) = record_change c r ''refund_completed''
                (change_defaults\<lparr>ci_actor := actor, ci_parent := Some (ch_id request), ci_amount := ch_amount request,
                   ci_reference := Some reference,
                   ci_dedup := Some (''refund-completed:'' @ decimal (ch_id request)),
                   ci_meta := [(''payment_id'', J_Id (py_id p)), (''reason'', data_get (ch_meta request) ''reason''),
                     (''scope'', data_get (ch_meta request) ''scope'')]\<rparr>) s in
          bindE (post_refund c p done actor s1) (\<lambda>(s2, _).
          bindE (if completed + change_amount done = py_amount p then set_refunded p s2 else Inr s2) (\<lambda>s3.
          let s4 = record_refund_completion c r done actor s3 in
          Inr (record_outbox c ''reservation'' (r_id r) ''refund.completed''
                 [(''reservation_id'', J_Id (r_id r)), (''refund_request_id'', J_Id (ch_id request)),
                  (''refund_change_id'', J_Id (ch_id done)), (''payment_id'', J_Id (py_id p)),
                  (''amount_minor'', j_opt J_Int (ch_amount done)), (''reference'', J_Str reference)] s4, done))))))"

definition fail_refund :: "ctx \<Rightarrow> id \<Rightarrow> string \<Rightarrow> user_id option \<Rightarrow> change action" where
  "fail_refund c i raw_reason actor s =
     bindE (lock_request_graph s i) (\<lambda>(r, _, request).
     bindE (assert_request request) (\<lambda>_.
     if completed_request s request then Inl (Validation ''refund'')
     else
       let reason = trim raw_reason in
       if reason = [] then Inl (Validation ''reason'')
       else
         let attempt = length (filter (\<lambda>e. ch_type e = ''refund_failed'') (events_of_change s (ch_id request))) + 1 in
         Inr (record_change c r ''refund_failed''
               (change_defaults\<lparr>ci_actor := actor, ci_parent := Some (ch_id request), ci_status := ''failed'',
                  ci_amount := ch_amount request,
                  ci_dedup := Some (''refund-failed:'' @ decimal (ch_id request) @ '':'' @ decimal attempt),
                  ci_meta := [(''payment_id'', data_get (ch_meta request) ''payment_id''), (''reason'', J_Str reason),
                    (''attempt'', J_Int (int attempt)), (''retryable'', J_Bool True)]\<rparr>) s)))"

subsection \<open>CorrectRemainingReversibleAmount\<close>

text \<open>
  The body of the command; the role guard and the idempotent execution around it are the business of
  \<^verbatim>\<open>FrontDeskPaymentGuard\<close> and \<^verbatim>\<open>FinancialCommandExecutor\<close>.
\<close>

definition remaining_reversible :: "db \<Rightarrow> reservation \<Rightarrow> payment \<Rightarrow> money" where
  "remaining_reversible s r p =
     (let requested = open_requests s (r_id r);
          payment_remaining = max 0 (py_amount p - completed_for_payment s (r_id r) (py_id p) - requested);
          credit = max 0 (- fs_balance (summary s r) - requested) in
      min payment_remaining credit)"

definition correct_remaining :: "ctx \<Rightarrow> id \<Rightarrow> string \<Rightarrow> user_id \<Rightarrow> change action" where
  "correct_remaining c payment_id reason actor s =
     bindE (find_or_fail ''payments'' py_id payment_id (payments s)) (\<lambda>p.
     bindE (reservation_or_fail s (py_reservation p)) (\<lambda>r.
     if py_origin p \<noteq> Origin_Manual then Inl (Validation ''payment'')
     else if remaining_reversible s r p = 0 then Inl (Validation ''payment'')
     else request_refund c (r_id r) (py_id p) (remaining_reversible s r p) reason (Some actor) s))"

subsection \<open>What the operations change\<close>

text \<open>A request or a failure adds one row to the change log.\<close>

definition logs :: "db \<Rightarrow> change \<Rightarrow> db \<Rightarrow> bool" where
  "logs s ch t \<longleftrightarrow> changes t = changes s @ [ch] \<and> payments t = payments s \<and> folio_lines t = folio_lines s
     \<and> reservations t = reservations s \<and> next_id t = Suc (next_id s) \<and> ch_id ch = next_id s"

lemma record_change_row:
  assumes "record_change c r type d s = (t, ch)"
  shows "t = s\<lparr>changes := changes s @ [ch], next_id := Suc (next_id s)\<rparr>" and "ch_id ch = next_id s"
    and "ch_reservation ch = r_id r" and "ch_type ch = type" and "ch_status ch = ci_status d"
    and "ch_amount ch = ci_amount d" and "ch_parent ch = ci_parent d" and "ch_meta ch = ci_meta d"
    and "ch_reference ch = ci_reference d"
  using assms by (auto simp: record_change_def Let_def)

lemma request_refund_Inr:
  assumes "request_refund c i k amount reason actor s = Inr (t, ch)"
  obtains r p where "find_reservation s i = Some r" "find_row py_id k (payments s) = Some p"
    "py_reservation p = r_id r" "py_status p = P_Succeeded" "0 < amount" "trim reason \<noteq> []"
    "amount \<le> available_on_payment s r p" "amount \<le> available_credit s r p" "logs s ch t"
    "ch_reservation ch = r_id r" "ch_type ch = ''refund_requested''" "ch_status ch = ''requested''"
    "ch_amount ch = Some amount" "ch_parent ch = None" "data_get (ch_meta ch) ''payment_id'' = J_Id (py_id p)"
proof -
  note run = assms [unfolded request_refund_def split_beta run_simps]
  from run obtain r p d k' e m where r: "find_reservation s i = Some r" and p: "find_row py_id k (payments s) = Some p"
      and ok: "\<not> (py_reservation p \<noteq> r_id r \<or> py_status p \<noteq> P_Succeeded)" "\<not> amount \<le> 0" "trim reason \<noteq> []"
        "\<not> min (available_on_payment s r p) (available_credit s r p) < amount"
      and t: "record_outbox c k' (r_id r) e m (fst (record_change c r ''refund_requested''
               (change_defaults\<lparr>ci_actor := actor, ci_status := ''requested'', ci_amount := Some amount,
                  ci_meta := (''payment_id'', J_Id (py_id p)) # d\<rparr>) s)) = t"
      and ch: "snd (record_change c r ''refund_requested''
               (change_defaults\<lparr>ci_actor := actor, ci_status := ''requested'', ci_amount := Some amount,
                  ci_meta := (''payment_id'', J_Id (py_id p)) # d\<rparr>) s) = ch"
    by - (elim exE conjE, rule that; assumption)
  obtain u where u: "record_change c r ''refund_requested''
               (change_defaults\<lparr>ci_actor := actor, ci_status := ''requested'', ci_amount := Some amount,
                  ci_meta := (''payment_id'', J_Id (py_id p)) # d\<rparr>) s = (u, ch)"
    using ch by (metis prod.collapse)
  note row = record_change_row [OF u]
  show thesis
    by (rule that [of r p])
      (use r p ok row t [unfolded u] in \<open>auto simp: logs_def change_defaults_def data_get_def frame_simps\<close>)
qed

lemma lock_request_graph_Inr:
  "lock_request_graph s i = Inr (r, p, q) \<longleftrightarrow> find_row ch_id i (changes s) = Some q
     \<and> find_reservation s (ch_reservation q) = Some r \<and> refund_payment s q = Inr p"
  by (auto simp: lock_request_graph_def bindE_eq_Inr find_or_fail_Inr reservation_or_fail_Inr)

lemma refund_payment_Inr:
  "refund_payment s q = Inr p \<longleftrightarrow> data_get (ch_meta q) ''payment_id'' = J_Id (py_id p)
     \<and> find_row py_id (py_id p) (payments s) = Some p"
  by (cases "data_get (ch_meta q) ''payment_id''")
    (auto simp: refund_payment_def find_or_fail_Inr dest: find_row_Some)

lemma assert_request_Inr:
  "assert_request q = Inr u \<longleftrightarrow> ch_type q = ''refund_requested'' \<and> ch_status q = ''requested''"
  by (auto simp: assert_request_def)

lemma fail_refund_Inr:
  assumes "fail_refund c i reason actor s = Inr (t, ch)"
  obtains q where "find_row ch_id i (changes s) = Some q" "\<not> completed_request s q" "logs s ch t"
    "ch_reservation ch = ch_reservation q" "ch_type ch = ''refund_failed''" "ch_parent ch = Some (ch_id q)"
    "data_get (ch_meta ch) ''payment_id'' = data_get (ch_meta q) ''payment_id''" "ch_amount ch = ch_amount q"
proof -
  note run = assms [unfolded fail_refund_def split_beta fst_conv snd_conv run_simps]
  from run obtain q r p d n where graph: "lock_request_graph s i = Inr (r, p, q)"
      and ok: "\<not> completed_request s q"
      and u: "record_change c r ''refund_failed''
               (change_defaults\<lparr>ci_actor := actor, ci_parent := Some (ch_id q), ci_status := ''failed'',
                  ci_amount := ch_amount q, ci_dedup := n,
                  ci_meta := (''payment_id'', data_get (ch_meta q) ''payment_id'') # d\<rparr>) s = (t, ch)"
    by - (elim exE conjE, rule that; assumption)
  note row = record_change_row [OF u] and g = graph [unfolded lock_request_graph_Inr]
  show thesis
    by (rule that [of q])
      (use g find_row_Some [OF conjunct1 [OF conjunct2 [OF g]]] ok row in
        \<open>auto simp: logs_def change_defaults_def data_get_def\<close>)
qed

definition refund_line :: "payment \<Rightarrow> change \<Rightarrow> folio_line \<Rightarrow> bool" where
  "refund_line p ch l \<longleftrightarrow> fl_reservation l = py_reservation p \<and> fl_payment l = Some (py_id p) \<and> fl_type l = L_Refund
     \<and> Some (fl_net l) = ch_amount ch \<and> fl_tax l = 0 \<and> fl_gross l = fl_net l \<and> fl_reverses l = None
     \<and> \<not> in_booked_total l \<and> data_get (fl_meta l) ''refund_change_id'' = J_Id (ch_id ch)"

lemma post_refund_new:
  assumes "post_refund c p ch actor s = Inr (t, l)"
    and "\<forall>x \<in> set (folio_lines s). data_get (fl_meta x) ''refund_change_id'' \<noteq> J_Id (ch_id ch)"
  shows "posts s l t" and "refund_line p ch l"
proof -
  have none: "find (\<lambda>l. data_get (fl_meta l) ''refund_change_id'' = J_Id (ch_id ch) \<and> fl_type l = L_Refund) (folio_lines s) = None"
    using assms(2) by (auto simp: find_None_iff)
  then obtain r amount where r: "find_reservation s (py_reservation p) = Some r" and amount: "ch_amount ch = Some amount"
    and new: "create_line c r L_Refund 1000 amount actor (Some (py_id p)) None
             [(''refund_change_id'', J_Id (ch_id ch)), (''refund_request_id'', j_opt J_Id (ch_parent ch)),
              (''reference'', j_opt J_Str (ch_reference ch))] 0 s = Inr (t, l)"
    using assms(1)
    by (auto simp: post_refund_def bindE_eq_Inr assert_open_Inr reservation_or_fail_Inr split: option.splits)
  note l = create_line_posts [OF new]
  show "posts s l t" by (fact l)
  show "refund_line p ch l"
    using l create_line_unit [OF new] find_row_Some [OF r] amount
    by (simp add: refund_line_def posts_def in_booked_total_def data_get_def)
qed

text \<open>A completion adds a row to the change log and its line to the folio, and may close the payment.\<close>

definition completes :: "db \<Rightarrow> payment \<Rightarrow> change \<Rightarrow> folio_line \<Rightarrow> payment_status \<Rightarrow> db \<Rightarrow> bool" where
  "completes s p ch l st t \<longleftrightarrow> changes t = changes s @ [ch] \<and> folio_lines t = folio_lines s @ [l]
     \<and> payments t = (if st = P_Succeeded then payments s
         else upd_row py_id (py_id p) (\<lambda>_. p\<lparr>py_status := st\<rparr>) (payments s))
     \<and> reservations t = reservations s \<and> next_id t = Suc (Suc (next_id s)) \<and> ch_id ch = next_id s
     \<and> fl_id l = Suc (next_id s) \<and> st \<in> {P_Succeeded, P_Refunded}"

definition completion_of :: "change \<Rightarrow> payment \<Rightarrow> change \<Rightarrow> bool" where
  "completion_of q p ch \<longleftrightarrow> ch_reservation ch = py_reservation p \<and> ch_type ch = ''refund_completed''
     \<and> ch_status ch = ''completed'' \<and> ch_amount ch = ch_amount q \<and> ch_parent ch = Some (ch_id q)
     \<and> data_get (ch_meta ch) ''payment_id'' = J_Id (py_id p)"

lemma complete_refund_Inr:
  assumes "complete_refund c i reference actor s = Inr (t, ch)"
    and "\<forall>x \<in> set (folio_lines s). data_get (fl_meta x) ''refund_change_id'' \<noteq> J_Id (next_id s)"
  obtains (again) "t = s" "find (\<lambda>e. ch_type e = ''refund_completed'') (events_of_change s i) = Some ch"
  | (completed) p q l st where "find_row ch_id i (changes s) = Some q" "find_row py_id (py_id p) (payments s) = Some p"
      "py_reservation p = ch_reservation q" "ch_type q = ''refund_requested''" "ch_status q = ''requested''"
      "data_get (ch_meta q) ''payment_id'' = J_Id (py_id p)" "\<not> completed_request s q" "py_status p = P_Succeeded"
      "completed_for_payment s (py_reservation p) (py_id p) + change_amount q
         \<le> max 0 (py_amount p - lost_chargebacks s (py_id p))"
      "completes s p ch l st t" "completion_of q p ch" "refund_line p ch l"
      "st = (if completed_for_payment s (py_reservation p) (py_id p) + change_amount q = py_amount p
         then P_Refunded else P_Succeeded)"
proof -
  from assms(1) obtain r p q where graph: "lock_request_graph s i = Inr (r, p, q)"
    and ar: "assert_request q = Inr ()"
    unfolding complete_refund_def by (auto simp: bindE_eq_Inr)
  note g = graph [unfolded lock_request_graph_Inr refund_payment_Inr] and aq = ar [unfolded assert_request_Inr]
  have qi: "ch_id q = i" and rq: "r_id r = ch_reservation q" using g by (auto dest: find_row_Some)
  note start = assms(1) [unfolded complete_refund_def graph bindE_simps prod.case ar]
  show thesis
  proof (cases "find (\<lambda>e. ch_type e = ''refund_completed'') (events_of_change s i)")
    case (Some e)
    with start show thesis by (intro again) simp_all
  next
    case None
    then have open_q: "\<not> completed_request s q" by (auto simp: completed_request_def qi find_None_iff)
    note run = start [unfolded None option.case split_beta fst_conv snd_conv run_simps rq]
    from run obtain d u l v k e m n where
        ok: "\<not> (py_reservation p \<noteq> ch_reservation q \<or> py_status p \<noteq> P_Succeeded)"
          "\<not> max 0 (py_amount p - lost_chargebacks s (py_id p))
             < completed_for_payment s (ch_reservation q) (py_id p) + change_amount q"
      and post: "post_refund c p (snd (record_change c r ''refund_completed'' d s)) actor
             (fst (record_change c r ''refund_completed'' d s)) = Inr (u, l)"
      and st: "(if completed_for_payment s (ch_reservation q) (py_id p)
               + change_amount (snd (record_change c r ''refund_completed'' d s)) = py_amount p
             then set_refunded p u else Inr u) = Inr v"
      and t: "record_outbox c k (ch_reservation q) e m (record_refund_completion c r
             (snd (record_change c r ''refund_completed'' d s)) actor v) = t"
      and ch: "snd (record_change c r ''refund_completed'' d s) = ch"
      and d: "d = change_defaults\<lparr>ci_actor := actor, ci_parent := Some (ch_id q), ci_amount := ch_amount q,
             ci_reference := n, ci_dedup := Some (''refund-completed:'' @ decimal (ch_id q)),
             ci_meta := [(''payment_id'', J_Id (py_id p)), (''reason'', data_get (ch_meta q) ''reason''),
               (''scope'', data_get (ch_meta q) ''scope'')]\<rparr>"
      by - (elim exE conjE, rule that; (assumption | rule refl))
    obtain s1 where s1: "record_change c r ''refund_completed'' d s = (s1, ch)" using ch by (metis prod.collapse)
    note row = record_change_row [OF s1]
    have fresh: "\<forall>x \<in> set (folio_lines s1). data_get (fl_meta x) ''refund_change_id'' \<noteq> J_Id (ch_id ch)"
      using assms(2) row(1,2) by simp
    note l = post_refund_new [OF post [unfolded s1 fst_conv snd_conv] fresh]
    define full where "full \<longleftrightarrow> completed_for_payment s (py_reservation p) (py_id p) + change_amount q = py_amount p"
    have am: "change_amount ch = change_amount q" using row(6) d by (simp add: change_amount_def change_defaults_def)
    have pr: "py_reservation p = ch_reservation q" "py_status p = P_Succeeded" using ok by auto
    have v: "payments v = (if full then upd_row py_id (py_id p) (\<lambda>_. p\<lparr>py_status := P_Refunded\<rparr>) (payments u) else payments u)"
        "folio_lines v = folio_lines u" "changes v = changes u" "reservations v = reservations u" "next_id v = next_id u"
      using st unfolding ch am full_def pr(1)
      by (auto simp: set_refunded_def bindE_eq_Inr update_payment_Inr frame_simps split: if_splits)
    have "completes s p ch l (if full then P_Refunded else P_Succeeded) t"
      using v l(1) row(1,2) unfolding t [symmetric] by (auto simp: completes_def posts_def frame_simps)
    moreover have "completion_of q p ch"
      using row d rq pr by (simp add: completion_of_def change_defaults_def data_get_def)
    ultimately show thesis
      using g aq open_q ok pr l(2) unfolding full_def by (intro completed [of q p l]) (auto simp: not_less)
  qed
qed

lemma correct_remaining_Inr:
  assumes "correct_remaining c k reason actor s = Inr (t, ch)"
  obtains r p where "find_row py_id k (payments s) = Some p" "find_reservation s (py_reservation p) = Some r"
    "py_origin p = Origin_Manual" "request_refund c (r_id r) (py_id p) (remaining_reversible s r p) reason (Some actor) s = Inr (t, ch)"
  using assms unfolding correct_remaining_def by (auto simp: run_simps split: if_splits)

end
