(* ===== verification/Books.thy ===== *)
theory Books
  imports Refunds
begin

text \<open>
  The ledger and the payments describe the same money. \<open>books\<close> is the invariant of the payment and
  refund services together: ids are fresh, every line and every refund points at a payment that
  exists, and each payment is posted exactly as its status says. Every command keeps it, so along any
  run the balance of a reservation is its total, plus its charges, less what its payments still hold,
  and no payment is ever refunded beyond its amount.
\<close>

subsection \<open>The invariant\<close>

definition refunded :: "db \<Rightarrow> payment \<Rightarrow> money" where
  "refunded s p = completed_for_payment s (py_reservation p) (py_id p)"

definition promised :: "db \<Rightarrow> payment \<Rightarrow> money" where
  "promised s p = payment_refunds s (py_reservation p) (py_id p)"

definition booked_net :: "db \<Rightarrow> payment \<Rightarrow> money" where
  "booked_net s p = sum_where (\<lambda>l. fl_payment l = Some (py_id p)) fl_gross (folio_lines s)"

definition taken :: "payment \<Rightarrow> bool" where
  "taken p \<longleftrightarrow> py_status p \<in> {P_Succeeded, P_Refunded}"

definition unreversed :: "db \<Rightarrow> payment \<Rightarrow> bool" where
  "unreversed s p \<longleftrightarrow> (\<exists>x. payment_line s (py_id p) = Some x \<and> pays_line p x
     \<and> (\<forall>y \<in> set (folio_lines s). fl_reverses y \<noteq> Some (fl_id x)))"

definition account_ok :: "db \<Rightarrow> payment \<Rightarrow> bool" where
  "account_ok s p \<longleftrightarrow> booked_net s p = (if taken p then refunded s p - py_amount p else 0)
     \<and> (taken p \<or> refunded s p = 0) \<and> promised s p \<le> max 0 (py_amount p)
     \<and> (py_status p = P_Succeeded \<longrightarrow> unreversed s p)
     \<and> (\<forall>l \<in> set (folio_lines s). fl_payment l = Some (py_id p) \<longrightarrow>
          fl_reservation l = py_reservation p \<and> \<not> in_booked_total l)"

definition line_refs_ok :: "db \<Rightarrow> folio_line \<Rightarrow> bool" where
  "line_refs_ok s l \<longleftrightarrow> (\<forall>k. fl_payment l = Some k \<longrightarrow> k \<in> py_id ` set (payments s))
     \<and> (\<forall>k. data_get (fl_meta l) ''refund_change_id'' = J_Id k \<longrightarrow> k < next_id s)
     \<and> (\<forall>k. fl_reverses l = Some k \<longrightarrow> k < next_id s)"

definition change_refs_ok :: "db \<Rightarrow> change \<Rightarrow> bool" where
  "change_refs_ok s ch \<longleftrightarrow> (\<forall>k. data_get (ch_meta ch) ''payment_id'' = J_Id k \<longrightarrow> k < next_id s)
     \<and> (\<forall>k. ch_parent ch = Some k \<longrightarrow> k < next_id s)
     \<and> (ch_type ch \<in> {''refund_requested'', ''refund_completed''} \<longrightarrow> 0 \<le> change_amount ch)
     \<and> (ch_type ch = ''refund_completed'' \<longrightarrow> (\<exists>p \<in> set (payments s). on_payment (py_reservation p) (py_id p) ch))"

definition ids_ok :: "db \<Rightarrow> bool" where
  "ids_ok s \<longleftrightarrow> keys_ok py_id (payments s) (next_id s) \<and> keys_ok fl_id (folio_lines s) (next_id s)
     \<and> keys_ok ch_id (changes s) (next_id s)
     \<and> (\<forall>l \<in> set (folio_lines s). line_refs_ok s l) \<and> (\<forall>ch \<in> set (changes s). change_refs_ok s ch)"

definition books :: "db \<Rightarrow> bool" where
  "books s \<longleftrightarrow> ids_ok s \<and> pending_unposted s \<and> (\<forall>p \<in> set (payments s). account_ok s p)"

subsection \<open>Sums over the change log\<close>

lemma refunded_append:
  "changes t = changes s @ [ch] \<Longrightarrow> refunded t p = refunded s p
     + (if on_payment (py_reservation p) (py_id p) ch \<and> ch_type ch = ''refund_completed'' \<and> ch_status ch = ''completed''
        then change_amount ch else 0)"
  by (simp add: refunded_def completed_for_payment_def)

lemma completed_request_append:
  "changes t = changes s @ [ch] \<Longrightarrow> completed_request t x \<longleftrightarrow> completed_request s x
     \<or> (ch_parent ch = Some (ch_id x) \<and> ch_type ch = ''refund_completed'')"
  by (auto simp: completed_request_def events_of_change_def)

definition counted :: "db \<Rightarrow> payment \<Rightarrow> change \<Rightarrow> bool" where
  "counted s p ch \<longleftrightarrow> on_payment (py_reservation p) (py_id p) ch
     \<and> ch_type ch \<in> {''refund_requested'', ''refund_completed''} \<and> ch_status ch \<in> {''requested'', ''completed''}
     \<and> \<not> (ch_type ch = ''refund_requested'' \<and> completed_request s ch)"

lemma promised_eq: "promised s p = sum_where (counted s p) change_amount (changes s)"
  by (simp add: promised_def payment_refunds_def counted_def [abs_def])

lemma refunds_cong:
  assumes "changes t = changes s"
  shows "refunded t p = refunded s p" and "promised t p = promised s p"
  using assms by (simp_all add: refunded_def completed_for_payment_def promised_eq counted_def [abs_def]
      completed_request_def [abs_def] events_of_change_def)

text \<open>A row that completes nothing adds its own amount at most.\<close>

lemma promised_log:
  assumes "changes t = changes s @ [ch]" and "ch_type ch \<noteq> ''refund_completed''"
  shows "promised t p = promised s p + (if counted t p ch then change_amount ch else 0)"
  using assms by (simp add: promised_eq counted_def [abs_def] completed_request_append [OF assms(1)])

text \<open>A completion moves its amount from the request to itself.\<close>

lemma promised_completion:
  assumes "changes t = changes s @ [ch]" and "completion_of q p ch" and "distinct (map ch_id (changes s))"
    and "q \<in> set (changes s)" and "ch_type q = ''refund_requested''" and "ch_status q = ''requested''"
    and "data_get (ch_meta q) ''payment_id'' = J_Id (py_id p)" and "ch_reservation q = py_reservation p"
    and "\<not> completed_request s q" and "py_id x = py_id p \<longrightarrow> x = p"
  shows "promised t x = promised s x"
proof -
  have compl: "completed_request t y \<longleftrightarrow> completed_request s y \<or> ch_id y = ch_id q" for y
    using assms(2) by (auto simp: completed_request_append [OF assms(1)] completion_of_def)
  have amount: "change_amount ch = change_amount q" using assms(2) by (simp add: change_amount_def completion_of_def)
  have new: "counted t x ch \<longleftrightarrow> x = p" if "py_id x = py_id p \<or> x = p"
    using assms(2,10) that by (auto simp: counted_def completion_of_def on_payment_def)
  show ?thesis
  proof (cases "x = p")
    case True
    have "sum_where (counted s x) change_amount (changes s)
        = sum_where (counted t x) change_amount (changes s) + change_amount q"
    proof (rule sum_where_except [OF assms(3,4)])
      show "counted s x q" using assms True by (simp add: counted_def on_payment_def)
      show "\<not> counted t x q" using assms(5) compl by (simp add: counted_def)
    qed (auto simp: counted_def compl)
    with True new amount show ?thesis by (simp add: promised_eq assms(1))
  next
    case False
    then have "py_id x \<noteq> py_id p" using assms(10) by blast
    then have "\<not> counted t x ch" using assms(2) by (simp add: counted_def completion_of_def on_payment_def)
    moreover have "counted t x y = counted s x y" if "y \<in> set (changes s)" for y
    proof (cases "ch_id y = ch_id q")
      case True
      then have "y = q" using assms(3,4) that by (auto simp: distinct_map dest: inj_onD)
      with assms(7) \<open>py_id x \<noteq> py_id p\<close> show ?thesis by (simp add: counted_def on_payment_def)
    next
      case False
      then show ?thesis by (simp add: counted_def compl)
    qed
    ultimately show ?thesis
      by (simp add: promised_eq assms(1)) (rule sum_where_cong; simp)
  qed
qed

subsection \<open>What each kind of step keeps\<close>

lemma unreversed_append:
  assumes "unreversed s p" and "folio_lines t = folio_lines s @ ls"
    and "\<And>l x. l \<in> set ls \<Longrightarrow> x \<in> set (folio_lines s) \<Longrightarrow> fl_payment x = Some (py_id p) \<Longrightarrow> fl_reverses l \<noteq> Some (fl_id x)"
  shows "unreversed t p"
proof -
  obtain x where x: "payment_line s (py_id p) = Some x" "pays_line p x"
      "\<forall>y \<in> set (folio_lines s). fl_reverses y \<noteq> Some (fl_id x)"
    using assms(1) by (auto simp: unreversed_def)
  then have "x \<in> set (folio_lines s)" "fl_payment x = Some (py_id p)"
    by (auto simp: payment_line_def dest: find_SomeD)
  with x assms(2,3) show ?thesis by (auto simp: unreversed_def payment_line_def find_append)
qed

lemma account_other:
  assumes "account_ok s p" and "refunded t p = refunded s p" and "promised t p \<le> promised s p"
    and "folio_lines t = folio_lines s @ ls"
    and "\<And>l. l \<in> set ls \<Longrightarrow> fl_payment l \<noteq> Some (py_id p)"
    and "\<And>l x. l \<in> set ls \<Longrightarrow> x \<in> set (folio_lines s) \<Longrightarrow> fl_payment x = Some (py_id p) \<Longrightarrow> fl_reverses l \<noteq> Some (fl_id x)"
  shows "account_ok t p"
proof -
  have "booked_net t p = booked_net s p"
    using assms(5) by (simp add: booked_net_def assms(4) sum_where_none)
  moreover have "unreversed s p \<Longrightarrow> unreversed t p" using unreversed_append [OF _ assms(4,6)] by blast
  moreover have "promised t p \<le> max 0 (py_amount p)" using assms(1,3) by (simp add: account_ok_def)
  moreover have "\<forall>l \<in> set (folio_lines t). fl_payment l = Some (py_id p) \<longrightarrow>
      fl_reservation l = py_reservation p \<and> \<not> in_booked_total l"
    using assms(1,5) unfolding assms(4) account_ok_def by auto
  ultimately show ?thesis using assms(1) unfolding account_ok_def assms(2) by simp
qed

lemma account_same:
  assumes "account_ok s p" and "folio_lines t = folio_lines s" and "changes t = changes s"
  shows "account_ok t p"
  by (rule account_other [OF assms(1), where ls = "[]"]) (simp_all add: assms(2) refunds_cong [OF assms(3)])

text \<open>Ids.\<close>

lemma line_refs_mono:
  "line_refs_ok s l \<Longrightarrow> py_id ` set (payments s) \<subseteq> py_id ` set (payments t) \<Longrightarrow> next_id s \<le> next_id t \<Longrightarrow> line_refs_ok t l"
  by (fastforce simp: line_refs_ok_def)

lemma change_refs_mono:
  assumes "change_refs_ok s ch" and "next_id s \<le> next_id t"
    and "\<And>p. p \<in> set (payments s) \<Longrightarrow> \<exists>p' \<in> set (payments t). py_id p' = py_id p \<and> py_reservation p' = py_reservation p"
  shows "change_refs_ok t ch"
  unfolding change_refs_ok_def
proof (intro conjI allI impI)
  assume "ch_type ch = ''refund_completed''"
  then obtain p where p: "p \<in> set (payments s)" "on_payment (py_reservation p) (py_id p) ch"
    using assms(1) by (auto simp: change_refs_ok_def)
  with assms(3) obtain p' where "p' \<in> set (payments t)" "on_payment (py_reservation p') (py_id p') ch" by metis
  then show "\<exists>p \<in> set (payments t). on_payment (py_reservation p) (py_id p) ch" by blast
qed (use assms(1,2) in \<open>auto simp: change_refs_ok_def intro: less_le_trans\<close>)

lemma ids_step:
  assumes "ids_ok s" and "next_id s \<le> next_id t" and "keys_ok py_id (payments t) (next_id t)"
    and "\<And>p. p \<in> set (payments s) \<Longrightarrow> \<exists>p' \<in> set (payments t). py_id p' = py_id p \<and> py_reservation p' = py_reservation p"
    and "folio_lines t = folio_lines s @ ls" and "keys_ok fl_id (folio_lines s @ ls) (next_id t)"
    and "\<And>l. l \<in> set ls \<Longrightarrow> line_refs_ok t l"
    and "changes t = changes s @ cs" and "keys_ok ch_id (changes s @ cs) (next_id t)"
    and "\<And>ch. ch \<in> set cs \<Longrightarrow> change_refs_ok t ch"
  shows "ids_ok t"
proof -
  have "py_id ` set (payments s) \<subseteq> py_id ` set (payments t)"
  proof
    fix k assume "k \<in> py_id ` set (payments s)"
    then obtain p where "p \<in> set (payments s)" "k = py_id p" by blast
    with assms(4) [of p] obtain p' where "p' \<in> set (payments t)" "k = py_id p'" by auto
    then show "k \<in> py_id ` set (payments t)" by simp
  qed
  then show ?thesis
    using assms unfolding ids_ok_def
    by (auto intro: line_refs_mono [of s] change_refs_mono [of s])
qed

lemma keys_ok_snoc: "keys_ok key xs n \<Longrightarrow> n \<le> key x \<Longrightarrow> key x < m \<Longrightarrow> keys_ok key (xs @ [x]) m"
  by (fastforce simp: keys_ok_def)

lemma ids_ok_fresh:
  assumes "ids_ok s"
  shows "\<forall>x \<in> set (folio_lines s). fl_payment x \<noteq> Some (next_id s)"
    and "\<forall>x \<in> set (folio_lines s). data_get (fl_meta x) ''refund_change_id'' \<noteq> J_Id (next_id s)"
    and "p \<in> set (payments s) \<Longrightarrow> p' \<in> set (payments s) \<Longrightarrow> py_id p = py_id p' \<Longrightarrow> p = p'"
    and "p \<in> set (payments s) \<Longrightarrow> py_id p < next_id s"
proof -
  have keys: "keys_ok py_id (payments s) (next_id s)" and refs: "\<forall>l \<in> set (folio_lines s). line_refs_ok s l"
    using assms by (simp_all add: ids_ok_def)
  show less: "p \<in> set (payments s) \<Longrightarrow> py_id p < next_id s" for p using keys by (simp add: keys_ok_def)
  show "\<forall>x \<in> set (folio_lines s). fl_payment x \<noteq> Some (next_id s)"
    using refs less unfolding line_refs_ok_def by (metis imageE less_irrefl)
  show "\<forall>x \<in> set (folio_lines s). data_get (fl_meta x) ''refund_change_id'' \<noteq> J_Id (next_id s)"
    using refs unfolding line_refs_ok_def by blast
  show "p \<in> set (payments s) \<Longrightarrow> p' \<in> set (payments s) \<Longrightarrow> py_id p = py_id p' \<Longrightarrow> p = p'"
    using keys by (auto simp: keys_ok_def distinct_map dest: inj_onD)
qed

lemma books_same:
  assumes "same_books s t" and "books s"
  shows "books t"
proof -
  have t: "payments t = payments s" "folio_lines t = folio_lines s" "changes t = changes s" "next_id t = next_id s"
    using assms(1) by (simp_all add: same_books_def)
  have "account_ok t p" if "p \<in> set (payments s)" for p
    by (rule account_same [OF _ t(2,3)]) (use assms(2) that in \<open>simp add: books_def\<close>)
  then show ?thesis
    using assms(2) unfolding books_def ids_ok_def line_refs_ok_def change_refs_ok_def pending_unposted_def t by blast
qed

lemma fresh_account:
  assumes "ids_ok s" and "py_id q = next_id s" and "changes t = changes s"
  shows "refunded t q = 0" and "promised t q = 0"
proof -
  have "\<not> on_payment (py_reservation q) (py_id q) ch" if "ch \<in> set (changes s)" for ch
    using assms(1,2) that by (fastforce simp: ids_ok_def change_refs_ok_def on_payment_def)
  note none = this
  show "refunded t q = 0"
    unfolding refunded_def completed_for_payment_def assms(3) by (rule sum_where_none) (use none in blast)
  show "promised t q = 0"
    unfolding promised_eq assms(3) by (rule sum_where_none) (use none in \<open>simp add: counted_def\<close>)
qed

lemma books_opens:
  assumes "opens s q t" and "books s"
  shows "books t"
proof -
  have t: "payments t = payments s @ [q]" "folio_lines t = folio_lines s" "changes t = changes s"
      "next_id t = Suc (next_id s)" "py_id q = next_id s" "py_status q = P_Pending"
    using assms(1) by (simp_all add: opens_def)
  have ok: "ids_ok s" "pending_unposted s" "\<And>p. p \<in> set (payments s) \<Longrightarrow> account_ok s p"
    using assms(2) by (simp_all add: books_def)
  note fresh = ids_ok_fresh [OF ok(1)]
  have "ids_ok t"
    by (rule ids_step [OF ok(1), where ls = "[]" and cs = "[]"])
      (use ok(1) t in \<open>auto simp: ids_ok_def keys_ok_insert intro: keys_ok_mono\<close>)
  moreover have "pending_unposted t" using ok(2) fresh(1) t by (auto simp: pending_unposted_def)
  moreover have "account_ok t p" if "p \<in> set (payments s)" for p
    using ok(3) [OF that] t(2,3) by (rule account_same)
  moreover have "booked_net t q = 0"
    using fresh(1) t by (auto simp: booked_net_def intro: sum_where_none)
  then have "account_ok t q"
    using fresh(1) t fresh_account [OF ok(1) t(5,3)] by (simp add: account_ok_def taken_def)
  ultimately show ?thesis using t by (auto simp: books_def)
qed

lemma books_captures:
  assumes "captures s q l t" and "pays_line q l" and "books s"
  shows "books t"
proof -
  have t: "payments t = payments s @ [q]" "folio_lines t = folio_lines s @ [l]" "changes t = changes s"
      "next_id t = Suc (Suc (next_id s))" "py_id q = next_id s" "py_status q = P_Succeeded" "fl_id l = Suc (next_id s)"
    using assms(1) by (simp_all add: captures_def)
  have l: "fl_payment l = Some (next_id s)" "fl_reverses l = None" "data_get (fl_meta l) ''refund_change_id'' = J_Null"
      "fl_gross l = - py_amount q" "fl_reservation l = py_reservation q" "\<not> in_booked_total l" "fl_type l = L_Payment"
    using assms(2) t(5) by (simp_all add: pays_line_def)
  have ok: "ids_ok s" "pending_unposted s" "\<And>p. p \<in> set (payments s) \<Longrightarrow> account_ok s p"
    using assms(3) by (simp_all add: books_def)
  note fresh = ids_ok_fresh [OF ok(1)]
  have "ids_ok t"
    by (rule ids_step [OF ok(1), where ls = "[l]" and cs = "[]"])
      (use ok(1) t l in \<open>auto simp: ids_ok_def line_refs_ok_def intro: keys_ok_snoc keys_ok_mono\<close>)
  moreover have "pending_unposted t" using ok(2) l(1) fresh(4) t by (fastforce simp: pending_unposted_def)
  moreover have "account_ok t p" if "p \<in> set (payments s)" for p
    by (rule account_other [OF ok(3) [OF that], where ls = "[l]"])
      (use l t fresh(4) [OF that] in \<open>simp_all add: refunds_cong [OF t(3)]\<close>)
  moreover have "booked_net t q = - py_amount q"
    using fresh(1) t l by (simp add: booked_net_def sum_where_none)
  moreover have "unreversed t q"
  proof -
    have "payment_line t (py_id q) = Some l"
      using fresh(1) l t by (auto simp: payment_line_def find_append split: option.split dest: find_SomeD)
    moreover have "\<forall>y \<in> set (folio_lines s). fl_reverses y \<noteq> Some (Suc (next_id s))"
      using ok(1) by (fastforce simp: ids_ok_def line_refs_ok_def)
    ultimately show ?thesis using t l assms(2) by (simp add: unreversed_def)
  qed
  ultimately show ?thesis
    using t l fresh(1) fresh_account [OF ok(1) t(5,3)] by (auto simp: books_def account_ok_def taken_def)
qed

text \<open>Replacing one payment row.\<close>

lemma map_key_replace: "key q = k \<Longrightarrow> map key (upd_row key k (\<lambda>_. q) tbl) = map key tbl"
  by (simp add: upd_row_def upd_where_def)

definition replaces :: "db \<Rightarrow> payment \<Rightarrow> payment \<Rightarrow> db \<Rightarrow> bool" where
  "replaces s p q t \<longleftrightarrow> p \<in> set (payments s) \<and> py_id q = py_id p \<and> py_reservation q = py_reservation p
     \<and> payments t = upd_row py_id (py_id q) (\<lambda>_. q) (payments s)"

lemma replaces_members:
  assumes "replaces s p q t" and "x \<in> set (payments t)"
  shows "x = q \<or> (x \<in> set (payments s) \<and> py_id x \<noteq> py_id q)"
  using assms by (auto simp: replaces_def upd_row_def upd_where_def split: if_splits)

lemma replaces_keys: "replaces s p q t \<Longrightarrow> keys_ok py_id (payments t) n \<longleftrightarrow> keys_ok py_id (payments s) n"
  unfolding replaces_def by (intro keys_ok_cong) (simp add: map_key_replace)

lemma replaces_refs:
  assumes "replaces s p q t" and "ids_ok s" and "x \<in> set (payments s)"
  shows "\<exists>x' \<in> set (payments t). py_id x' = py_id x \<and> py_reservation x' = py_reservation x"
proof (cases "py_id x = py_id q")
  case True
  with assms ids_ok_fresh(3) [OF assms(2), of x p] have "x = p" by (simp add: replaces_def)
  with assms(1) show ?thesis
    by (intro bexI [of _ q]) (auto simp: replaces_def upd_row_def upd_where_def image_iff)
next
  case False
  with assms(1,3) show ?thesis
    by (intro bexI [of _ x]) (auto simp: replaces_def upd_row_def upd_where_def image_iff)
qed

lemma books_replace:
  assumes "books s" and "replaces s p q t" and "ids_ok t" and "account_ok t q" and "py_status q \<noteq> P_Pending"
    and "folio_lines t = folio_lines s @ [l]" and "fl_payment l = Some (py_id p)"
    and "\<And>x. x \<in> set (payments s) \<Longrightarrow> py_id x \<noteq> py_id p \<Longrightarrow> refunded t x = refunded s x \<and> promised t x \<le> promised s x"
    and "\<And>y. y \<in> set (folio_lines s) \<Longrightarrow> fl_reverses l = Some (fl_id y) \<Longrightarrow> fl_payment y = Some (py_id p)"
  shows "books t"
proof -
  have qp: "py_id q = py_id p" using assms(2) by (simp add: replaces_def)
  have "account_ok t x" if "x \<in> set (payments t)" for x
    using replaces_members [OF assms(2) that]
  proof
    assume x: "x \<in> set (payments s) \<and> py_id x \<noteq> py_id q"
    then have "account_ok s x" using assms(1) by (simp add: books_def)
    then show ?thesis
      by (rule account_other [where ls = "[l]"]) (use assms(6-9) x qp in auto)
  qed (simp add: assms(4))
  moreover have "pending_unposted t"
    using assms(1,5,6,7) qp by (auto simp: pending_unposted_def books_def dest!: replaces_members [OF assms(2)])
  ultimately show ?thesis using assms(3) by (simp add: books_def)
qed

lemma refunds_row:
  assumes "py_id q = py_id p" and "py_reservation q = py_reservation p"
  shows "refunded t q = refunded t p" and "promised t q = promised t p" and "booked_net t q = booked_net t p"
  using assms by (simp_all add: refunded_def promised_def booked_net_def)

lemma books_captures_row:
  assumes "captures_row s q l t" and "pays_line q l" and "replaces s p q t" and "py_status p = P_Pending" and "books s"
    and "py_amount q = py_amount p"
  shows "books t"
proof -
  have t: "folio_lines t = folio_lines s @ [l]" "changes t = changes s"
      "next_id t = Suc (next_id s)" "py_status q = P_Succeeded" "fl_id l = next_id s"
    using assms(1) by (simp_all add: captures_row_def)
  have q: "py_id q = py_id p" "py_reservation q = py_reservation p" "p \<in> set (payments s)"
    using assms(3) by (simp_all add: replaces_def)
  have l: "fl_payment l = Some (py_id p)" "fl_reverses l = None" "data_get (fl_meta l) ''refund_change_id'' = J_Null"
      "fl_gross l = - py_amount q" "fl_reservation l = py_reservation q" "\<not> in_booked_total l" "fl_type l = L_Payment"
    using assms(2) q(1) by (simp_all add: pays_line_def)
  have ok: "ids_ok s" "pending_unposted s" "account_ok s p" using assms(5) q(3) by (simp_all add: books_def)
  have none: "\<forall>x \<in> set (folio_lines s). fl_payment x \<noteq> Some (py_id p)"
    using ok(2) assms(4) q(3) by (simp add: pending_unposted_def)
  have "py_id p \<in> py_id ` set (payments t)" using replaces_refs [OF assms(3) ok(1) q(3)] by (metis imageI)
  then have "line_refs_ok t l" using l t by (simp add: line_refs_ok_def)
  then have ids: "ids_ok t"
    using ok(1) t replaces_refs [OF assms(3) ok(1)] replaces_keys [OF assms(3)]
    by (intro ids_step [OF ok(1), where ls = "[l]" and cs = "[]"])
      (auto simp: ids_ok_def intro: keys_ok_snoc keys_ok_mono)
  have "payment_line t (py_id q) = Some l"
    using none l t q by (auto simp: payment_line_def find_append split: option.split dest: find_SomeD)
  moreover have "\<forall>y \<in> set (folio_lines s). fl_reverses y \<noteq> Some (next_id s)"
    using ok(1) by (fastforce simp: ids_ok_def line_refs_ok_def)
  ultimately have "unreversed t q" using t l assms(2) by (simp add: unreversed_def)
  moreover have "booked_net t q = - py_amount q" using none t l q by (simp add: booked_net_def sum_where_none)
  moreover have "refunded t q = 0" "promised t q \<le> max 0 (py_amount q)"
    using ok(3) assms(4,6) unfolding refunds_row [OF q(1,2)] refunds_cong [OF t(2)]
    by (simp_all add: account_ok_def taken_def)
  ultimately have "account_ok t q"
    using ok(3) none l t q by (auto simp: account_ok_def taken_def)
  then show ?thesis
    by (rule books_replace [OF assms(5,3) ids, where l = l])
      (use t l none in \<open>auto simp: refunds_cong [OF t(2)]\<close>)
qed

lemma replaces_line_refs:
  assumes "replaces s p q t" and "ids_ok s" and "fl_payment l = Some (py_id p)"
    and "\<And>k. data_get (fl_meta l) ''refund_change_id'' = J_Id k \<Longrightarrow> k < next_id t"
    and "\<And>k. fl_reverses l = Some k \<Longrightarrow> k < next_id t"
  shows "line_refs_ok t l"
proof -
  have "p \<in> set (payments s)" using assms(1) by (simp add: replaces_def)
  then have "py_id p \<in> py_id ` set (payments t)" using replaces_refs [OF assms(1,2)] by (metis imageI)
  with assms(3-5) show ?thesis by (simp add: line_refs_ok_def)
qed

lemma books_reversed:
  assumes "posts s l u" and "replaces s p q t" and "py_status p = P_Succeeded" and "py_status q = P_Reversed"
    and "payment_line s (py_id p) = Some x" and "fl_reverses l = Some (fl_id x)" and "fl_payment l = fl_payment x"
    and "fl_net l = - fl_net x" and "fl_tax l = - fl_tax x" and "fl_reservation l = fl_reservation x"
    and "\<not> in_booked_total l" and "data_get (fl_meta l) ''refund_change_id'' = J_Null"
    and "\<forall>ch \<in> set (changes s). \<not> blocks_reversal p ch" and "py_amount q = py_amount p"
    and "folio_lines t = folio_lines u" "changes t = changes u" "next_id t = next_id u" and "books s"
  shows "books t"
proof -
  have t: "folio_lines t = folio_lines s @ [l]" "changes t = changes s" "next_id t = Suc (next_id s)"
      "fl_id l = next_id s" "fl_gross l = fl_net l + fl_tax l"
    using assms(1,15-17) by (simp_all add: posts_def)
  have q: "py_id q = py_id p" "py_reservation q = py_reservation p" "p \<in> set (payments s)"
    using assms(2) by (simp_all add: replaces_def)
  have ok: "ids_ok s" "pending_unposted s" "account_ok s p" using assms(18) q(3) by (simp_all add: books_def)
  have "unreversed s p" using ok(3) assms(3) by (simp add: account_ok_def)
  then have x: "pays_line p x" using assms(5) by (simp add: unreversed_def)
  have xs: "x \<in> set (folio_lines s)" using assms(5) by (auto simp: payment_line_def dest: find_SomeD)
  have l: "fl_payment l = Some (py_id p)" "fl_gross l = py_amount p" "fl_reservation l = py_reservation p"
    using x assms(7-10) t(5) by (simp_all add: pays_line_def)
  have id_x: "fl_id x < next_id s" using ok(1) xs by (simp add: ids_ok_def keys_ok_def)
  have ids: "ids_ok t"
    using ok(1) t replaces_refs [OF assms(2) ok(1)] replaces_keys [OF assms(2)]
      replaces_line_refs [OF assms(2) ok(1) l(1)] assms(6,12) id_x
    by (intro ids_step [OF ok(1), where ls = "[l]" and cs = "[]"])
      (auto simp: ids_ok_def intro: keys_ok_snoc keys_ok_mono)
  have "refunded s p = 0"
    unfolding refunded_def completed_for_payment_def
    by (rule sum_where_none) (use assms(13) in \<open>auto simp: blocks_reversal_def on_payment_def\<close>)
  moreover have "booked_net t p = booked_net s p + py_amount p" using l by (simp add: booked_net_def t(1))
  ultimately have "account_ok t q"
    using ok(3) assms(3,4,11,14) l(1,3) q unfolding account_ok_def refunds_row [OF q(1,2)] refunds_cong [OF t(2)]
    by (auto simp: taken_def t(1))
  then show ?thesis
  proof (rule books_replace [OF assms(18,2) ids, where l = l])
    fix y assume "y \<in> set (folio_lines s)" "fl_reverses l = Some (fl_id y)"
    then have "y = x" using ok(1) xs assms(6) by (auto simp: ids_ok_def keys_ok_def distinct_map dest: inj_onD)
    then show "fl_payment y = Some (py_id p)" using x by (simp add: pays_line_def)
  qed (use assms(4) t(1) l(1) in \<open>simp_all add: refunds_cong [OF t(2)]\<close>)
qed

lemma books_logs:
  assumes "logs s ch t" and "books s" and "ch_type ch \<noteq> ''refund_completed''"
    and "\<And>k. data_get (ch_meta ch) ''payment_id'' = J_Id k \<Longrightarrow> k < next_id s"
    and "\<And>k. ch_parent ch = Some k \<Longrightarrow> k < next_id s"
    and "ch_type ch = ''refund_requested'' \<Longrightarrow> 0 \<le> change_amount ch"
    and "\<And>p. p \<in> set (payments s) \<Longrightarrow> counted t p ch \<Longrightarrow> promised s p + change_amount ch \<le> max 0 (py_amount p)"
  shows "books t"
proof -
  have t: "payments t = payments s" "folio_lines t = folio_lines s" "changes t = changes s @ [ch]"
      "next_id t = Suc (next_id s)" "ch_id ch = next_id s"
    using assms(1) by (simp_all add: logs_def)
  have ok: "ids_ok s" "pending_unposted s" "\<And>p. p \<in> set (payments s) \<Longrightarrow> account_ok s p"
    using assms(2) by (simp_all add: books_def)
  have "change_refs_ok t ch"
    using assms(3-6) t(4) by (auto simp: change_refs_ok_def intro: less_SucI)
  then have "ids_ok t"
    using ok(1) t by (intro ids_step [OF ok(1), where ls = "[]" and cs = "[ch]"])
      (auto simp: ids_ok_def intro: keys_ok_snoc keys_ok_mono)
  moreover have "account_ok t p" if p: "p \<in> set (payments s)" for p
  proof -
    have "promised t p \<le> max 0 (py_amount p)"
      using ok(3) [OF p] assms(7) [OF p] promised_log [OF t(3) assms(3), of p] by (auto simp: account_ok_def)
    moreover have "refunded t p = refunded s p" using assms(3) by (simp add: refunded_append [OF t(3)])
    ultimately show ?thesis
      using ok(3) [OF p] by (simp add: account_ok_def booked_net_def unreversed_def payment_line_def t(2))
  qed
  moreover have "pending_unposted t" using ok(2) by (simp add: pending_unposted_def t)
  ultimately show ?thesis by (simp add: books_def t)
qed

lemma replace_self:
  assumes "ids_ok s" and "p \<in> set (payments s)"
  shows "upd_row py_id (py_id p) (\<lambda>_. p) (payments s) = payments s"
  unfolding upd_row_def upd_where_def
  by (rule map_idI) (use ids_ok_fresh(3) [OF assms(1) _ assms(2)] in auto)

lemma completes_replaces:
  assumes "completes s p ch l st t" and "ids_ok s" and "p \<in> set (payments s)" and "py_status p = P_Succeeded"
  shows "replaces s p (p\<lparr>py_status := st\<rparr>) t"
proof -
  have same: "p\<lparr>py_status := P_Succeeded\<rparr> = p" by (simp add: assms(4) [symmetric])
  show ?thesis
    using assms(1,3) replace_self [OF assms(2,3)] by (auto simp: completes_def replaces_def same)
qed

lemma books_completes:
  assumes "completes s p ch l st t" and "completion_of q p ch" and "refund_line p ch l" and "books s"
    and "p \<in> set (payments s)" and "py_status p = P_Succeeded" and "q \<in> set (changes s)"
    and "ch_type q = ''refund_requested''" and "ch_status q = ''requested''" and "py_reservation p = ch_reservation q"
    and "data_get (ch_meta q) ''payment_id'' = J_Id (py_id p)" and "\<not> completed_request s q"
  shows "books t"
proof -
  have t: "changes t = changes s @ [ch]" "folio_lines t = folio_lines s @ [l]" "next_id t = Suc (Suc (next_id s))"
      "ch_id ch = next_id s" "fl_id l = Suc (next_id s)" "st \<in> {P_Succeeded, P_Refunded}"
    using assms(1) by (simp_all add: completes_def)
  have l: "fl_payment l = Some (py_id p)" "fl_reverses l = None" "fl_reservation l = py_reservation p"
      "\<not> in_booked_total l" "data_get (fl_meta l) ''refund_change_id'' = J_Id (ch_id ch)"
      "fl_gross l = change_amount ch"
    using assms(3) by (cases "ch_amount ch"; simp add: refund_line_def change_amount_def or_default_def)+
  have ok: "ids_ok s" "account_ok s p" using assms(4,5) by (simp_all add: books_def)
  define p' where "p' = p\<lparr>py_status := st\<rparr>"
  have rep: "replaces s p p' t" unfolding p'_def by (rule completes_replaces [OF assms(1) ok(1) assms(5,6)])
  have q: "py_id p' = py_id p" "py_reservation p' = py_reservation p" "py_amount p' = py_amount p" "py_status p' = st"
    by (simp_all add: p'_def)
  have uniq: "x \<in> set (payments s) \<Longrightarrow> py_id x = py_id p \<longrightarrow> x = p" for x
    using ids_ok_fresh(3) [OF ok(1) _ assms(5)] by blast
  have on: "on_payment (py_reservation x) (py_id x) ch \<longleftrightarrow> py_reservation x = py_reservation p \<and> py_id x = py_id p" for x
    using assms(2) by (auto simp: on_payment_def completion_of_def)
  have paid: "refunded t x = refunded s x + (if x = p then change_amount ch else 0)" if "x \<in> set (payments s)" for x
    using refunded_append [OF t(1), of x] assms(2) uniq [OF that] by (auto simp: on completion_of_def)
  have keep: "promised t x = promised s x" if "x \<in> set (payments s)" for x
    by (rule promised_completion [OF t(1) assms(2) _ assms(7-9,11) assms(10) [symmetric] assms(12) uniq [OF that]])
      (use ok(1) in \<open>simp add: ids_ok_def keys_ok_def\<close>)
  have "line_refs_ok t l"
    by (rule replaces_line_refs [OF rep ok(1) l(1)]) (use l t in auto)
  moreover have "change_refs_ok t ch"
  proof -
    have "change_refs_ok s q" using ok(1) assms(7) by (simp add: ids_ok_def)
    moreover have "ch_id q < next_id s" using ok(1) assms(7) by (simp add: ids_ok_def keys_ok_def)
    moreover obtain x where "x \<in> set (payments t)" "py_id x = py_id p" "py_reservation x = py_reservation p"
      using replaces_refs [OF rep ok(1) assms(5)] by blast
    then have "\<exists>x \<in> set (payments t). on_payment (py_reservation x) (py_id x) ch" using on by blast
    ultimately show ?thesis
      using assms(2,8) t(3) ids_ok_fresh(4) [OF ok(1) assms(5)]
      by (auto simp: change_refs_ok_def completion_of_def change_amount_def)
  qed
  ultimately have ids: "ids_ok t"
    using ok(1) t replaces_refs [OF rep ok(1)] replaces_keys [OF rep]
    by (intro ids_step [OF ok(1), where ls = "[l]" and cs = "[ch]"])
      (auto simp: ids_ok_def intro: keys_ok_snoc keys_ok_mono)
  have "booked_net t p' = booked_net s p + change_amount ch" using l(1,6) q(1) by (simp add: booked_net_def t(2))
  moreover have "refunded t p' = refunded s p + change_amount ch" "promised t p' = promised s p"
    using paid [OF assms(5)] keep [OF assms(5)] unfolding refunds_row [OF q(1,2)] by simp_all
  moreover have "unreversed t p'"
  proof -
    have "unreversed t p"
      using ok(2) assms(6) l(2) by (intro unreversed_append [OF _ t(2)]) (auto simp: account_ok_def)
    then show ?thesis using q by (simp add: unreversed_def pays_line_def)
  qed
  moreover have "taken p'" "taken p" using t(6) q(4) assms(6) by (auto simp: taken_def)
  ultimately have "account_ok t p'"
    using ok(2) l(1,3,4) q unfolding account_ok_def by (auto simp: t(2))
  then show ?thesis
  proof (rule books_replace [OF assms(4) rep ids, where l = l])
    show "py_status p' \<noteq> P_Pending" using t(6) q(4) by auto
    show "refunded t x = refunded s x \<and> promised t x \<le> promised s x"
      if "x \<in> set (payments s)" "py_id x \<noteq> py_id p" for x
      using paid [OF that(1)] keep [OF that(1)] that(2) by auto
  qed (use t(2) l(1,2) in simp_all)
qed

lemma books_charge:
  assumes "posts s l t" and "fl_payment l = None" and "fl_reverses l = None"
    and "\<forall>k. data_get (fl_meta l) ''refund_change_id'' \<noteq> J_Id k" and "books s"
  shows "books t"
proof -
  have t: "folio_lines t = folio_lines s @ [l]" "payments t = payments s" "changes t = changes s"
      "next_id t = Suc (next_id s)" "fl_id l = next_id s"
    using assms(1) by (simp_all add: posts_def)
  have ok: "ids_ok s" "pending_unposted s" "\<And>p. p \<in> set (payments s) \<Longrightarrow> account_ok s p"
    using assms(5) by (simp_all add: books_def)
  have "ids_ok t"
    by (rule ids_step [OF ok(1), where ls = "[l]" and cs = "[]"])
      (use ok(1) t assms(2-4) in \<open>auto simp: ids_ok_def line_refs_ok_def intro: keys_ok_snoc keys_ok_mono\<close>)
  moreover have "account_ok t p" if "p \<in> set (payments s)" for p
    by (rule account_other [OF ok(3) [OF that], where ls = "[l]"])
      (use t assms(2,3) in \<open>simp_all add: refunds_cong [OF t(3)]\<close>)
  moreover have "pending_unposted t" using ok(2) assms(2) by (auto simp: pending_unposted_def t)
  ultimately show ?thesis by (simp add: books_def t)
qed

subsection \<open>Runs of payment and refund commands\<close>

datatype money_command =
    Take_front_desk id payment_channel money "user_id option" "id option"
  | Take_manual manual_input "user_id option" bool
  | Reconcile_payment id "user_id option" "id option"
  | Undo_payment id string "user_id option"
  | Take_provider id provider_payment
  | Take_for_review id provider_payment string
  | Ask_refund id id money string "user_id option"
  | Complete_refund id string "user_id option"
  | Fail_refund id string "user_id option"
  | Correct_payment id string user_id
  | Post_charge id folio_line_type int money "user_id option" meta money bool

fun is_id :: "json \<Rightarrow> bool" where
  "is_id (J_Id _) = True"
| "is_id _ = False"

lemma is_id_iff [simp]: "is_id v \<longleftrightarrow> (\<exists>k. v = J_Id k)"
  by (cases v) simp_all

fun run_money :: "ctx \<Rightarrow> money_command \<Rightarrow> db \<Rightarrow> db res" where
  "run_money c (Take_front_desk i ch a actor d) s = bindE (record_front_desk c i ch a actor d s) (\<lambda>(t, _). Inr t)"
| "run_money c (Take_manual d actor capture) s = bindE (record_manual c d actor capture s) (\<lambda>(t, _). Inr t)"
| "run_money c (Reconcile_payment i actor d) s = bindE (reconcile c i actor d s) (\<lambda>(t, _). Inr t)"
| "run_money c (Undo_payment i why actor) s = bindE (reverse_payment c i why actor s) (\<lambda>(t, _). Inr t)"
| "run_money c (Take_provider i pp) s = bindE (record_provider c i pp s) (\<lambda>(t, _). Inr t)"
| "run_money c (Take_for_review i pp why) s = bindE (record_needs_review c i pp why s) (\<lambda>(t, _). Inr t)"
| "run_money c (Ask_refund i k a why actor) s = bindE (request_refund c i k a why actor s) (\<lambda>(t, _). Inr t)"
| "run_money c (Complete_refund i ref actor) s = bindE (complete_refund c i ref actor s) (\<lambda>(t, _). Inr t)"
| "run_money c (Fail_refund i why actor) s = bindE (fail_refund c i why actor s) (\<lambda>(t, _). Inr t)"
| "run_money c (Correct_payment i why actor) s = bindE (correct_remaining c i why actor s) (\<lambda>(t, _). Inr t)"
| "run_money c (Post_charge i type q u actor m tax inc) s =
     (if is_id (data_get m ''refund_change_id'') then Inl (Validation ''metadata'') else
      bindE (reservation_or_fail s i) (\<lambda>r.
      bindE (append_line c r type q u actor m tax inc s) (\<lambda>(t, _). Inr t)))"

definition money_step :: "db \<Rightarrow> db \<Rightarrow> bool" where
  "money_step s t \<longleftrightarrow> (\<exists>c cmd. run_money c cmd s = Inr t)"

lemma map_of_filter_other: "k \<noteq> k' \<Longrightarrow> map_of (filter (\<lambda>(j, _). j \<noteq> k') m) k = map_of m k"
  by (induction m) auto

lemma books_reconcile:
  assumes "reconcile c i actor d s = Inr (t, q)" and "books s"
  shows "books t"
proof -
  have "pending_unposted s" using assms(2) by (simp add: books_def)
  with assms(1) show ?thesis
  proof (cases rule: reconcile_Inr)
    case idle
    with assms(2) show ?thesis by simp
  next
    case (captured p r l)
    note p = find_row_Some [OF captured(1)]
    have "replaces s p q t" using captured(5,6) p by (simp add: replaces_def reconciled_def captures_row_def)
    then show ?thesis
      by (rule books_captures_row [OF captured(6,7) _ captured(3) assms(2)]) (simp add: captured(5) reconciled_def)
  qed
qed

lemma find_row_replace: "key q = k \<Longrightarrow> find_row key k tbl = Some p \<Longrightarrow> find_row key k (upd_row key k (\<lambda>_. q) tbl) = Some q"
  by (induction tbl) (auto simp: find_row_def upd_row_def upd_where_def)

text \<open>On good books a reversal finds the payment's one line, still unreversed, and posts its opposite.\<close>

lemma reverse_payment_books:
  assumes "reverse_payment c i reason actor s = Inr (t, q)" and "books s" and "find_row py_id i (payments s) = Some p"
  obtains (again) "t = s" "q = p" "py_status p = P_Reversed"
  | (reversed) r l x u where "find_reservation s (py_reservation p) = Some r" "py_status p = P_Succeeded"
      "py_origin p \<noteq> Origin_Provider" "\<forall>ch \<in> set (changes s). \<not> blocks_reversal p ch"
      "q = reversed_payment c reason actor p" "replaces s p q t"
      "posts s l u" "payment_line s (py_id p) = Some x" "pays_line p x" "fl_reverses l = Some (fl_id x)"
      "fl_payment l = fl_payment x" "fl_net l = - fl_net x" "fl_tax l = - fl_tax x" "fl_reservation l = fl_reservation x"
      "\<not> in_booked_total l" "data_get (fl_meta l) ''refund_change_id'' = J_Null"
      "folio_lines t = folio_lines u" "changes t = changes u" "reservations t = reservations u" "next_id t = next_id u"
  using assms(1)
proof (cases rule: reverse_payment_Inr)
  case a: again
  with assms(3) show ?thesis by (intro again) simp_all
next
  case a: (reversed p0 r0 l x u)
  have p0: "p0 = p" using assms(3) a(1) by simp
  note p = find_row_Some [OF assms(3)]
  have "unreversed s p" using assms(2) p a(3) by (auto simp: p0 books_def account_ok_def)
  moreover have x: "payment_line s (py_id p) = Some x" using a(6) p by simp
  ultimately have un: "\<forall>y \<in> set (folio_lines s). fl_reverses y \<noteq> Some (fl_id x)" "pays_line p x"
    by (simp_all add: unreversed_def)
  have "x \<in> set (folio_lines s)" using x by (auto simp: payment_line_def dest: find_SomeD)
  then have fx: "find_row fl_id (fl_id x) (folio_lines s) = Some x"
    using assms(2) by (auto simp: books_def ids_ok_def intro: keys_ok_find)
  from a(7) show ?thesis
  proof (cases rule: reverse_line_Inr)
    case (again y r')
    with un fx show ?thesis by (auto dest: find_SomeD)
  next
    case (posted y r')
    have y: "y = x" using posted(2) fx by simp
    have "replaces s p q t"
      using p a(8,9) posted(1) by (simp add: p0 replaces_def posts_def reversed_payment_def)
    moreover have "fl_reservation l = fl_reservation x" using posted(3,5) y by (auto dest: find_row_Some)
    ultimately show ?thesis
      using a p0 x un(2) posted y by (intro reversed [of r0 l u x]) simp_all
  qed
qed

lemma books_reverse:
  assumes "reverse_payment c i reason actor s = Inr (t, q)" and "books s"
  shows "books t"
proof -
  obtain p where p: "find_row py_id i (payments s) = Some p"
    using assms(1) by (auto simp: reverse_payment_def bindE_eq_Inr find_or_fail_Inr)
  from assms this show ?thesis
  proof (cases rule: reverse_payment_books)
    case again
    with assms(2) show ?thesis by simp
  next
    case (reversed r l x u)
    have "py_status q = P_Reversed" "py_amount q = py_amount p" by (simp_all add: reversed(5) reversed_payment_def)
    then show ?thesis
      by (intro books_reversed [OF reversed(7,6,2) _ reversed(8,10-16,4) _ reversed(17,18,20) assms(2)])
  qed
qed

lemma books_request:
  assumes "request_refund c i k amount reason actor s = Inr (t, ch)" and "books s"
  shows "books t"
  using assms(1)
proof (cases rule: request_refund_Inr)
  case (1 r p)
  note p = find_row_Some [OF 1(2)]
  have ids: "ids_ok s" using assms(2) by (simp add: books_def)
  show ?thesis
  proof (rule books_logs [OF 1(9) assms(2)])
    fix x assume x: "x \<in> set (payments s)" "counted t x ch"
    then have "py_id x = py_id p" using 1(15) by (auto simp: counted_def on_payment_def)
    then have "x = p" using ids_ok_fresh(3) [OF ids] x(1) p by blast
    then show "promised s x + change_amount ch \<le> max 0 (py_amount x)"
      using 1(3,5,7,13) by (simp add: available_on_payment_def promised_def change_amount_def or_default_def split: if_splits)
  qed (use 1 ids_ok_fresh(4) [OF ids, of p] p in \<open>simp_all add: change_amount_def or_default_def\<close>)
qed

lemma books_fail:
  assumes "fail_refund c i reason actor s = Inr (t, ch)" and "books s"
  shows "books t"
  using assms(1)
proof (cases rule: fail_refund_Inr)
  case (1 q)
  note q = find_row_Some [OF 1(1)]
  have ids: "ids_ok s" using assms(2) by (simp add: books_def)
  then have "ch_id q < next_id s" "change_refs_ok s q" using q by (auto simp: ids_ok_def keys_ok_def)
  then show ?thesis
    using 1(4-8) by (intro books_logs [OF 1(3) assms(2)]) (auto simp: change_refs_ok_def counted_def)
qed

lemma books_complete:
  assumes "complete_refund c i reference actor s = Inr (t, ch)" and "books s"
  shows "books t"
proof -
  have "ids_ok s" using assms(2) by (simp add: books_def)
  from assms(1) ids_ok_fresh(2) [OF this] show ?thesis
  proof (cases rule: complete_refund_Inr)
    case again
    with assms(2) show ?thesis by simp
  next
    case (completed p q l st)
    note found = find_row_Some [OF completed(1)] find_row_Some [OF completed(2)]
    show ?thesis
      by (rule books_completes [OF completed(10-12) assms(2) _ completed(8) _ completed(4,5,3,6,7)]) (use found in simp_all)
  qed
qed

lemma run_money_books:
  assumes "run_money c cmd s = Inr t" and "books s"
  shows "books t"
proof -
  have ids: "ids_ok s" using assms(2) by (simp add: books_def)
  note fresh = ids_ok_fresh(1) [OF ids]
  show ?thesis
  proof (cases cmd)
    case (Take_front_desk i ch a actor d)
    with assms(1) obtain q where "record_front_desk c i ch a actor d s = Inr (t, q)" by (auto simp: bindE_eq_Inr)
    then show ?thesis using fresh by (cases rule: record_front_desk_Inr) (rule books_captures [OF _ _ assms(2)])
  next
    case (Take_manual d actor capture)
    with assms(1) obtain q where "record_manual c d actor capture s = Inr (t, q)" by (auto simp: bindE_eq_Inr)
    then show ?thesis
    proof (cases rule: record_manual_Inr)
      case opened
      from opened(1) assms(2) show ?thesis by (rule books_opens)
    next
      case (captured p u)
      from captured(5) books_opens [OF captured(1) assms(2)] show ?thesis by (rule books_reconcile)
    qed (use assms(2) in simp)
  next
    case (Take_provider i pp)
    with assms(1) obtain q where "record_provider c i pp s = Inr (t, q)" by (auto simp: bindE_eq_Inr)
    then show ?thesis using fresh
      by (cases rule: record_provider_Inr) (auto intro: books_captures [OF _ _ assms(2)] books_same [OF _ assms(2)])
  next
    case (Take_for_review i pp why)
    with assms(1) obtain q where "record_needs_review c i pp why s = Inr (t, q)" by (auto simp: bindE_eq_Inr)
    then show ?thesis using fresh
      by (cases rule: record_needs_review_Inr) (auto intro: books_captures [OF _ _ assms(2)] simp: assms(2))
  next
    case (Correct_payment i why actor)
    with assms(1) obtain q where "correct_remaining c i why actor s = Inr (t, q)" by (auto simp: bindE_eq_Inr)
    then show ?thesis by (cases rule: correct_remaining_Inr) (rule books_request [OF _ assms(2)])
  next
    case (Post_charge i type q u actor m tax inc)
    with assms(1) obtain r l where run: "append_line c r type q u actor m tax inc s = Inr (t, l)"
        and m: "\<forall>k. data_get m ''refund_change_id'' \<noteq> J_Id k"
      by (auto simp: bindE_eq_Inr split: if_splits)
    have l: "fl_payment l = None" "fl_reverses l = None"
        "data_get (fl_meta l) ''refund_change_id'' = data_get m ''refund_change_id''"
      using run by (auto simp: append_line_def bindE_eq_Inr create_line_Inr Let_def data_get_def without_key_def
          map_of_filter_other split: if_splits option.splits)
    show ?thesis
      by (rule books_charge [OF append_line_Inr(1) [OF run] l(1,2) _ assms(2)]) (simp add: l(3) m)
  qed (use assms in \<open>auto simp: bindE_eq_Inr intro: books_reconcile books_reverse books_request books_complete books_fail\<close>)
qed

interpretation money: guarded_run money_step books
  by unfold_locales (auto simp: money_step_def intro: run_money_books)

subsection \<open>What the invariant says\<close>

definition held :: "db \<Rightarrow> id \<Rightarrow> money" where
  "held s i = sum_where (\<lambda>p. py_reservation p = i \<and> taken p) (\<lambda>p. py_amount p - refunded s p) (payments s)"

definition charges :: "db \<Rightarrow> id \<Rightarrow> money" where
  "charges s i = sum_where (\<lambda>l. fl_reservation l = i \<and> fl_payment l = None \<and> \<not> in_booked_total l) fl_gross (folio_lines s)"

lemma sum_where_split: "sum_where P f xs = sum_where (\<lambda>x. P x \<and> Q x) f xs + sum_where (\<lambda>x. P x \<and> \<not> Q x) f xs"
  by (induction xs) auto

lemma books_balance:
  assumes "books s"
  shows "fs_balance (summary s r) = r_total r + charges s (r_id r) - held s (r_id r)"
proof -
  have ids: "ids_ok s" and acc: "\<And>p. p \<in> set (payments s) \<Longrightarrow> account_ok s p"
    using assms by (simp_all add: books_def)
  let ?P = "\<lambda>l. fl_reservation l = r_id r \<and> \<not> in_booked_total l"
  have "sum_where (\<lambda>l. ?P l \<and> \<not> fl_payment l = None) fl_gross (folio_lines s)
      = sum_where (\<lambda>p. py_reservation p = r_id r) (booked_net s) (payments s)"
    unfolding booked_net_def
  proof (rule sum_where_by_owner [where link = "\<lambda>l k. fl_payment l = Some k"])
    show "distinct (map py_id (payments s))" using ids by (simp add: ids_ok_def keys_ok_def)
    fix l assume l: "l \<in> set (folio_lines s)"
    show "(?P l \<and> \<not> fl_payment l = None) \<longleftrightarrow> (\<exists>p \<in> set (payments s). py_reservation p = r_id r \<and> fl_payment l = Some (py_id p))"
    proof (cases "fl_payment l")
      case (Some k)
      have "line_refs_ok s l" using ids l by (simp add: ids_ok_def)
      with Some have "k \<in> py_id ` set (payments s)" by (simp add: line_refs_ok_def)
      then obtain p where p: "p \<in> set (payments s)" "k = py_id p" by blast
      with acc [OF p(1)] l Some have "fl_reservation l = py_reservation p" "\<not> in_booked_total l" by (auto simp: account_ok_def)
      with p Some ids_ok_fresh(3) [OF ids] show ?thesis by fastforce
    qed simp
  qed simp
  also have "\<dots> = sum_where (\<lambda>p. py_reservation p = r_id r) (\<lambda>p. if taken p then - (py_amount p - refunded s p) else 0) (payments s)"
    by (rule sum_where_cong) (use acc in \<open>auto simp: account_ok_def\<close>)
  also have "\<dots> = - held s (r_id r)"
  proof -
    have "sum_where (\<lambda>p. py_reservation p = k) (\<lambda>p. if taken p then - (py_amount p - refunded s p) else 0) xs
        = - sum_where (\<lambda>p. py_reservation p = k \<and> taken p) (\<lambda>p. py_amount p - refunded s p) xs" for k xs
      by (induction xs) auto
    then show ?thesis by (simp add: held_def)
  qed
  finally have "sum_where (\<lambda>l. ?P l \<and> \<not> fl_payment l = None) fl_gross (folio_lines s) = - held s (r_id r)" .
  moreover have "sum_where (\<lambda>l. ?P l \<and> fl_payment l = None) fl_gross (folio_lines s) = charges s (r_id r)"
    unfolding charges_def by (rule sum_where_cong) auto
  ultimately show ?thesis
    using sum_where_split [of ?P fl_gross "folio_lines s" "\<lambda>l. fl_payment l = None"] by (simp add: balance_eq)
qed

lemma books_refunds:
  assumes "books s" and "p \<in> set (payments s)"
  shows "0 \<le> refunded s p" and "refunded s p \<le> promised s p" and "promised s p \<le> max 0 (py_amount p)"
proof -
  have pos: "0 \<le> change_amount ch" if "ch \<in> set (changes s)" "ch_type ch \<in> {''refund_requested'', ''refund_completed''}" for ch
    using assms(1) that by (auto simp: books_def ids_ok_def change_refs_ok_def)
  show "0 \<le> refunded s p"
    unfolding refunded_def completed_for_payment_def by (rule sum_where_nonneg) (use pos in auto)
  show "refunded s p \<le> promised s p"
    unfolding refunded_def completed_for_payment_def promised_eq
    by (rule sum_where_mono) (use pos in \<open>auto simp: counted_def\<close>)
  show "promised s p \<le> max 0 (py_amount p)" using assms by (simp add: books_def account_ok_def)
qed

subsection \<open>Properties\<close>

text \<open>C9: The folio and the payments always agree. Along any run of payment and refund commands (front
  desk, manual and provider payments, reconciliation, reversal, refund requests, failures and
  completions, corrections, charges), the balance of every reservation is its booked total plus its
  charges less what its succeeded or refunded payments still hold, and the folio of each single payment
  nets to what was given back less what was captured, or to nothing if it is pending, failed or reversed.\<close>

theorem ledger_reconciles:
  assumes "money_step\<^sup>*\<^sup>* s t" and "books s"
  shows "books t \<and> fs_balance (summary t r) = r_total r + charges t (r_id r) - held t (r_id r)
    \<and> (\<forall>p \<in> set (payments t). booked_net t p = (if taken p then refunded t p - py_amount p else 0))"
proof -
  have "books t" using assms by (rule money.run_keeps)
  then show ?thesis using books_balance [of t r] by (auto simp: books_def account_ok_def)
qed

text \<open>C15: No payment is ever refunded beyond its amount. Along any run, the refunds completed for a payment,
  and even those together with its open requests, stay within what was paid; and a payment that is not
  captured has nothing refunded.\<close>

theorem refunds_within_payment:
  assumes "money_step\<^sup>*\<^sup>* s t" and "books s" and "p \<in> set (payments t)"
  shows "0 \<le> refunded t p \<and> refunded t p \<le> promised t p \<and> promised t p \<le> max 0 (py_amount p)
    \<and> (\<not> taken p \<longrightarrow> refunded t p = 0)"
proof -
  have "books t" using assms(1,2) by (rule money.run_keeps)
  then show ?thesis using books_refunds [of t p] assms(3) by (auto simp: books_def account_ok_def)
qed

text \<open>C19: Completing a refund is exact and happens once. It takes an open request on a succeeded payment of the
  same reservation, stays within the payment less lost chargebacks, raises the balance by exactly the
  requested amount, and marks the payment refunded precisely when nothing is left; completing the same
  request again, by whoever and with whatever reference, returns the first completion and changes nothing.\<close>

theorem completion_once:
  assumes "complete_refund c i reference actor s = Inr (t, ch)" and "books s"
  shows "ch_type ch = ''refund_completed'' \<and> ch_parent ch = Some i
    \<and> complete_refund c' i reference' actor' t = Inr (t, ch)
    \<and> (t = s \<or> (\<exists>p q p'. find_row ch_id i (changes s) = Some q \<and> p \<in> set (payments s) \<and> p' \<in> set (payments t)
        \<and> py_id p' = py_id p \<and> py_status p = P_Succeeded \<and> py_reservation p = ch_reservation q
        \<and> refunded t p = refunded s p + change_amount q
        \<and> refunded t p \<le> max 0 (py_amount p - lost_chargebacks s (py_id p))
        \<and> py_status p' = (if refunded t p = py_amount p then P_Refunded else P_Succeeded)
        \<and> fs_balance (summary t r) = fs_balance (summary s r)
            + (if py_reservation p = r_id r then change_amount q else 0)))"
proof -
  have ids: "ids_ok s" using assms(2) by (simp add: books_def)
  from assms(1) ids_ok_fresh(2) [OF ids] show ?thesis
  proof (cases rule: complete_refund_Inr)
    case again
    from assms(1) obtain r p q where "lock_request_graph s i = Inr (r, p, q)" "assert_request q = Inr ()"
      unfolding complete_refund_def by (auto simp: bindE_eq_Inr)
    then have "complete_refund c' i reference' actor' s = Inr (s, ch)"
      using again by (simp add: complete_refund_def)
    moreover have "ch_type ch = ''refund_completed'' \<and> ch_parent ch = Some i"
      using find_SomeD [OF again(2)] by (simp add: events_of_change_def)
    ultimately show ?thesis using again(1) by simp
  next
    case (completed p q l st)
    note found = find_row_Some [OF completed(1)] find_row_Some [OF completed(2)]
    have p: "p \<in> set (payments s)" and q: "ch_id q = i" using found by simp_all
    have t: "changes t = changes s @ [ch]" "folio_lines t = folio_lines s @ [l]" "reservations t = reservations s"
      using completed(10) by (simp_all add: completes_def)
    have rep: "replaces s p (p\<lparr>py_status := st\<rparr>) t" by (rule completes_replaces [OF completed(10) ids p completed(8)])
    obtain p' where p': "p' \<in> set (payments t)" "py_id p' = py_id p" using replaces_refs [OF rep ids p] by blast
    have status: "py_status p' = st" using replaces_members [OF rep p'(1)] p'(2) by auto
    have paid: "refunded t p = refunded s p + change_amount q"
      using completed(11) by (simp add: refunded_append [OF t(1)] on_payment_def completion_of_def change_amount_def)
    have l: "fl_gross l = change_amount q" "fl_reservation l = py_reservation p" "\<not> in_booked_total l"
      using completed(11,12) by (cases "ch_amount q"; simp add: completion_of_def refund_line_def change_amount_def or_default_def)+
    have "find_row ch_id i (changes t) = Some q" using completed(1) by (simp add: t find_row_append)
    moreover obtain r0 where "find_reservation t (ch_reservation q) = Some r0"
      using assms(1) completed(1) t(3)
      by (auto simp: complete_refund_def bindE_eq_Inr lock_request_graph_Inr)
    moreover have "keys_ok py_id (payments t) (next_id s)"
      using ids by (simp add: replaces_keys [OF rep] ids_ok_def)
    from keys_ok_find [OF this p'(1)] have "refund_payment t q = Inr p'"
      using completed(6) p'(2) by (simp add: refund_payment_Inr)
    ultimately have "lock_request_graph t i = Inr (r0, p', q)" by (simp add: lock_request_graph_Inr)
    moreover have "find (\<lambda>e. ch_type e = ''refund_completed'') (events_of_change t i) = Some ch"
      using completed(7,11) q by (auto simp: events_of_change_def t(1) find_append completed_request_def completion_of_def
          split: option.split dest: find_SomeD)
    ultimately have "complete_refund c' i reference' actor' t = Inr (t, ch)"
      using completed(4,5) by (simp add: complete_refund_def assert_request_def)
    moreover have "fs_balance (summary t r) = fs_balance (summary s r) + (if py_reservation p = r_id r then change_amount q else 0)"
      using l by (simp add: balance_eq t(2))
    moreover have "refunded t p \<le> max 0 (py_amount p - lost_chargebacks s (py_id p))"
        "st = (if refunded t p = py_amount p then P_Refunded else P_Succeeded)"
      using completed(9,13) paid by (simp_all add: refunded_def)
    moreover have "ch_type ch = ''refund_completed'' \<and> ch_parent ch = Some i" using completed(11) q by (simp add: completion_of_def)
    ultimately show ?thesis using completed(1,3,8) p p' status paid by blast
  qed
qed

text \<open>C24: Reversing a payment undoes it exactly once. Only a succeeded staff payment with no open or completed
  refund is reversed; the balance rises by its amount, its lines cancel, its row says reversed, and
  reversing it again changes nothing.\<close>

theorem payment_reversal_exact:
  assumes "reverse_payment c i reason actor s = Inr (t, q)" and "books s"
    and "find_row py_id i (payments s) = Some p"
  shows "py_status q = P_Reversed \<and> find_row py_id i (payments t) = Some q \<and> booked_net t q = 0
    \<and> (if py_status p = P_Reversed then t = s
       else py_status p = P_Succeeded \<and> py_origin p \<noteq> Origin_Provider \<and> refunded s p = 0
         \<and> (\<forall>ch \<in> set (changes s). \<not> blocks_reversal p ch)
         \<and> fs_balance (summary t r) = fs_balance (summary s r) + (if py_reservation p = r_id r then py_amount p else 0))
    \<and> reverse_payment c' i reason' actor' t = Inr (t, q)"
proof -
  obtain z where start: "find_reservation s (py_reservation p) = Some z" "py_origin p \<noteq> Origin_Provider"
    using assms(1,3) by (auto simp: reverse_payment_def run_simps split: if_splits)
  have row: "py_status q = P_Reversed \<and> find_row py_id i (payments t) = Some q \<and> py_origin q = py_origin p
      \<and> py_reservation q = py_reservation p \<and> reservations t = reservations s
      \<and> (if py_status p = P_Reversed then t = s
         else py_status p = P_Succeeded \<and> (\<forall>ch \<in> set (changes s). \<not> blocks_reversal p ch)
           \<and> fs_balance (summary t r) = fs_balance (summary s r) + (if py_reservation p = r_id r then py_amount p else 0))"
    using assms
  proof (cases rule: reverse_payment_books)
    case again
    with assms(3) show ?thesis by simp
  next
    case (reversed y l x u)
    have "find_row py_id i (payments t) = Some q"
      using reversed(5,6) find_row_Some [OF assms(3)] assms(3)
      by (simp add: replaces_def reversed_payment_def find_row_replace)
    moreover have "fs_balance (summary t r) = fs_balance (summary s r) + (if py_reservation p = r_id r then py_amount p else 0)"
      using reversed(7,9,12-15,17) by (simp add: balance_eq posts_def pays_line_def)
    ultimately show ?thesis using reversed by (simp add: reversed_payment_def posts_def)
  qed
  then have "q \<in> set (payments t)" by (auto dest: find_row_Some)
  then have "booked_net t q = 0" using books_reverse [OF assms(1,2)] row by (auto simp: books_def account_ok_def taken_def)
  moreover have "reverse_payment c' i reason' actor' t = Inr (t, q)"
    using row start by (auto simp: reverse_payment_def find_or_fail_def reservation_or_fail_def)
  moreover have "refunded s p = 0" if "\<forall>ch \<in> set (changes s). \<not> blocks_reversal p ch"
    unfolding refunded_def completed_for_payment_def
    by (rule sum_where_none) (use that in \<open>auto simp: blocks_reversal_def on_payment_def\<close>)
  ultimately show ?thesis using row start(2) by auto
qed

subsection \<open>A refund to complete\<close>

definition paid_row :: payment where
  "paid_row = blank_payment\<lparr>py_id := 10, py_reservation := 6, py_status := P_Succeeded, py_method := ''cash'',
     py_channel := Ch_Cash, py_amount := 40000\<rparr>"

definition paid_line :: folio_line where
  "paid_line = \<lparr>fl_id = 11, fl_reservation = 6, fl_payment = Some 10, fl_reverses = None, fl_type = L_Payment,
     fl_quantity = 1000, fl_unit = - 40000, fl_net = - 40000, fl_tax = 0, fl_gross = - 40000, fl_amount = - 40000,
     fl_currency = ''COP'', fl_posted_at = 0, fl_created_by = None, fl_meta = []\<rparr>"

definition asked_row :: change where
  "asked_row = \<lparr>ch_id = 12, ch_reservation = 6, ch_actor = None, ch_parent = None, ch_type = ''refund_requested'',
     ch_status = ''requested'', ch_currency = ''COP'', ch_amount = Some 25000, ch_reference = None, ch_dedup = None,
     ch_before = None, ch_after = None, ch_meta = [(''payment_id'', J_Id 10)], ch_at = 0\<rparr>"

definition paid_db :: db where
  "paid_db = demo_db\<lparr>payments := [paid_row], folio_lines := [paid_line]\<rparr>"

definition refund_db :: db where
  "refund_db = paid_db\<lparr>changes := [asked_row]\<rparr>"

lemmas refund_defs = refund_db_def paid_db_def paid_row_def paid_line_def asked_row_def blank_payment_def demo_defs

lemmas books_defs = books_def ids_ok_def keys_ok_def line_refs_ok_def change_refs_ok_def pending_unposted_def
  account_ok_def booked_net_def taken_def refunded_def promised_eq completed_for_payment_def counted_def on_payment_def
  unreversed_def payment_line_def pays_line_def in_booked_total_def data_get_def completed_request_def
  events_of_change_def change_amount_def or_default_def

lemma paid_db_books: "books paid_db"
  by (simp add: refund_defs books_defs)

lemma refund_db_books: "books refund_db"
  by (simp add: refund_defs books_defs)

lemma refund_db_run: "succeeds_with (\<lambda>_. True) (complete_refund demo_ctx 12 ''R-1'' (Some 1) refund_db)"
  by (simp add: complete_refund_def lock_request_graph_def refund_payment_def find_or_fail_def reservation_or_fail_def
      find_row_def assert_request_def refund_defs events_of_change_def data_get_def completed_for_payment_def
      on_payment_def lost_chargebacks_def change_amount_def or_default_def trim_def php_blank_def Let_def
      record_change_def change_defaults_def post_refund_def assert_open_def create_line_def line_amount_def
      int_or_type_error_def fits_def php_int_max_def)

lemma paid_db_run: "succeeds_with (\<lambda>_. True) (reverse_payment demo_ctx 10 ''wrong guest'' (Some 1) paid_db)"
  by (simp add: reverse_payment_def find_or_fail_def reservation_or_fail_def find_row_def refund_defs
      payment_line_def reverse_line_def assert_open_def create_line_def line_amount_def int_or_type_error_def fits_def
      php_int_max_def Let_def update_payment_def payment_hook_def reversed_payment_def valid_manual_def manual_channel_def
      provider_identity_def)

lemma refund_stepped: "\<exists>t ch. complete_refund demo_ctx 12 ''R-1'' (Some 1) refund_db = Inr (t, ch) \<and> money_step refund_db t"
proof -
  obtain t ch where run: "complete_refund demo_ctx 12 ''R-1'' (Some 1) refund_db = Inr (t, ch)"
    using refund_db_run by (auto elim: succeeds_withE)
  then have "run_money demo_ctx (Complete_refund 12 ''R-1'' (Some 1)) refund_db = Inr t" by simp
  then have "money_step refund_db t" unfolding money_step_def by blast
  with run show ?thesis by blast
qed

theorem ledger_reconciles_witness:
  "\<exists>t. money_step\<^sup>*\<^sup>* refund_db t \<and> books t
     \<and> fs_balance (summary t (demo_reservation 6 R_Confirmed)) = 100000 + charges t 6 - held t 6"
proof -
  obtain t where "money_step\<^sup>*\<^sup>* refund_db t" using refund_stepped by blast
  with ledger_reconciles [OF this refund_db_books, of "demo_reservation 6 R_Confirmed"] show ?thesis
    by (auto simp: demo_reservation_def)
qed

theorem completion_once_witness:
  "\<exists>t ch. complete_refund demo_ctx 12 ''R-1'' (Some 1) refund_db = Inr (t, ch)
     \<and> complete_refund demo_ctx 12 ''R-2'' None t = Inr (t, ch)"
proof -
  obtain t ch where "complete_refund demo_ctx 12 ''R-1'' (Some 1) refund_db = Inr (t, ch)" using refund_stepped by blast
  with completion_once [OF this refund_db_books, of demo_ctx "''R-2''" None] show ?thesis by blast
qed

theorem refunds_within_payment_witness:
  "paid_row \<in> set (payments refund_db) \<and> promised refund_db paid_row \<le> 40000"
proof -
  have "paid_row \<in> set (payments refund_db)" by (simp add: refund_db_def paid_db_def)
  with refunds_within_payment [OF rtranclp.rtrancl_refl refund_db_books this] show ?thesis
    by (simp add: paid_row_def blank_payment_def)
qed

theorem payment_reversal_exact_witness:
  "\<exists>t q. reverse_payment demo_ctx 10 ''wrong guest'' (Some 1) paid_db = Inr (t, q)
     \<and> fs_balance (summary t (demo_reservation 6 R_Confirmed)) = fs_balance (summary paid_db (demo_reservation 6 R_Confirmed)) + 40000"
proof -
  obtain t q where run: "reverse_payment demo_ctx 10 ''wrong guest'' (Some 1) paid_db = Inr (t, q)"
    using paid_db_run by (auto elim: succeeds_withE)
  have "find_row py_id 10 (payments paid_db) = Some paid_row"
    by (simp add: find_row_def paid_db_def paid_row_def blank_payment_def)
  with payment_reversal_exact [OF run paid_db_books this, of "demo_reservation 6 R_Confirmed"] run show ?thesis
    by (simp add: paid_row_def blank_payment_def demo_reservation_def)
qed

text \<open>The ledger can be corrected behind the payment's back. \<^verbatim>\<open>POST folio-lines/{id}/reverse\<close> reverses any line,
  a payment's line too: the balance rises by the whole payment while its row still says succeeded, so the
  folio and the payments disagree, and a later reversal of the payment itself leaves the balance as it is.\<close>

theorem line_reversal_bypasses_payment:
  assumes "books s" and "find_row py_id i (payments s) = Some p" and "py_status p = P_Succeeded"
    and "payment_line s i = Some x" and "reverse_line c (fl_id x) reason actor s = Inr (t, l)" and "py_amount p \<noteq> 0"
  shows "payments t = payments s \<and> taken p \<and> booked_net t p = refunded t p \<and> booked_net t p \<noteq> refunded t p - py_amount p
    \<and> (py_reservation p = r_id r \<longrightarrow> fs_balance (summary t r) = fs_balance (summary s r) + py_amount p)
    \<and> (reverse_payment c' i reason' actor' t = Inr (u, q) \<longrightarrow> fs_balance (summary u r) = fs_balance (summary t r))"
proof -
  note p = find_row_Some [OF assms(2)]
  have acc: "unreversed s p" "booked_net s p = refunded s p - py_amount p"
    using assms(1,3) p by (auto simp: books_def account_ok_def taken_def)
  then have x: "pays_line p x" "\<forall>y \<in> set (folio_lines s). fl_reverses y \<noteq> Some (fl_id x)"
    using assms(4) p by (auto simp: unreversed_def)
  have "x \<in> set (folio_lines s)" using assms(4) by (auto simp: payment_line_def dest: find_SomeD)
  then have fx: "find_row fl_id (fl_id x) (folio_lines s) = Some x"
    using assms(1) by (auto simp: books_def ids_ok_def intro: keys_ok_find)
  from assms(5) show ?thesis
  proof (cases rule: reverse_line_Inr)
    case (again y r')
    with x(2) fx show ?thesis by (auto dest: find_SomeD)
  next
    case (posted y r')
    have y: "y = x" using posted(2) fx by simp
    have t: "folio_lines t = folio_lines s @ [l]" "payments t = payments s" "changes t = changes s"
        "reservations t = reservations s" "fl_gross l = py_amount p" "fl_payment l = Some (py_id p)"
        "fl_reservation l = py_reservation p" "fl_reverses l = Some (fl_id x)"
      using posted x(1) y by (auto simp: posts_def pays_line_def dest: find_row_Some)
    have line: "payment_line t i = Some x" using assms(4) by (simp add: payment_line_def t(1) find_append)
    have "find (\<lambda>l. fl_reverses l = Some (fl_id x)) (folio_lines t) = Some l"
      using posted(12) t(8) y by (simp add: t(1) find_append)
    then have "reverse_line c' (fl_id x) reason' actor' t = Inr (t, l)"
      using posted(3,4) fx y by (simp add: reverse_line_def find_or_fail_def reservation_or_fail_def t find_row_append assert_open_def)
    note again = this
    have "fs_balance (summary u r) = fs_balance (summary t r)" if "reverse_payment c' i reason' actor' t = Inr (u, q)"
      using that by (cases rule: reverse_payment_Inr) (use again line in \<open>simp_all add: balance_eq\<close>)
    moreover have "booked_net t p = booked_net s p + py_amount p" using t by (simp add: booked_net_def)
    moreover have "refunded t p = refunded s p" by (rule refunds_cong(1) [OF t(3)])
    ultimately show ?thesis
      using acc(2) assms(3,6) t posted(11) by (simp add: taken_def balance_eq)
  qed
qed

theorem line_reversal_bypasses_payment_witness:
  "\<exists>t l. reverse_line demo_ctx 11 ''typo'' (Some 1) paid_db = Inr (t, l)
     \<and> fs_balance (summary t (demo_reservation 6 R_Confirmed)) = fs_balance (summary paid_db (demo_reservation 6 R_Confirmed)) + 40000"
proof -
  have "succeeds_with (\<lambda>_. True) (reverse_line demo_ctx 11 ''typo'' (Some 1) paid_db)"
    by (simp add: refund_defs folio_exec)
  then obtain t l where run: "reverse_line demo_ctx 11 ''typo'' (Some 1) paid_db = Inr (t, l)"
    by (auto elim: succeeds_withE)
  have row: "find_row py_id 10 (payments paid_db) = Some paid_row" "payment_line paid_db 10 = Some paid_line"
      "fl_id paid_line = 11" "py_status paid_row = P_Succeeded" "py_amount paid_row = 40000" "py_reservation paid_row = 6"
    by (simp_all add: find_row_def payment_line_def paid_db_def paid_row_def paid_line_def blank_payment_def)
  have "fs_balance (summary t (demo_reservation 6 R_Confirmed)) = fs_balance (summary paid_db (demo_reservation 6 R_Confirmed)) + 40000"
    using line_reversal_bypasses_payment [OF paid_db_books row(1,4,2) run [folded row(3)], of "demo_reservation 6 R_Confirmed"] row
    by (simp add: demo_reservation_def)
  with run show ?thesis by blast
qed

end
