(* ===== verification/Settlement.thy ===== *)
theory Settlement
  imports Closure Books
begin

text \<open>
  What a closure tells the staff to give back. \<^verbatim>\<open>CloseReservationWithPolicy\<close> records a refund
  requirement beside the cancellation: the succeeded payments, less the completed refunds, less the
  fee. On good books that difference is what the payments hold less the amount of every payment that
  was refunded in full, because such a payment leaves the first sum while its refunds stay in the
  second.
\<close>

subsection \<open>The recorded requirement\<close>

lemma release_promotions_payments: "payments (release_promotions c i why canc s) = payments s"
  and release_promotions_changes: "changes (release_promotions c i why canc s) = changes s"
  by (simp_all add: release_promotions_frame)

lemma waive_open_changes: "changes (fst (waive_open c i why actor s)) = changes s"
  by (simp add: waive_open_def waive_all_def)

definition requirement_row :: "id \<Rightarrow> money \<Rightarrow> change \<Rightarrow> bool" where
  "requirement_row i m ch \<longleftrightarrow> ch_reservation ch = i \<and> ch_type ch \<in> {''cancellation'', ''no_show''}
     \<and> data_get (ch_meta ch) ''refund_requirement_minor'' = J_Int m"

lemma record_change_requirement:
  assumes "target = R_No_show \<or> target = R_Cancelled"
  shows "requirement_row (r_id r) m (snd (record_change c r (if target = R_No_show then ''no_show'' else ''cancellation'')
    (change_defaults\<lparr>ci_actor := actor, ci_amount := a, ci_before := b, ci_after := d,
       ci_meta := (''reason'', J_Str why) # calculation_meta f @ [(''released_value_minor'', v), (''waived_deposits'', w),
         (''cancelled_operational_tasks'', k), (''paid_minor'', p), (''refund_requirement_minor'', J_Int m)]\<rparr>) s))"
  by (simp add: requirement_row_def record_change_def change_defaults_def data_get_def calculation_meta_def Let_def)

lemma finish_closure_requirement:
  assumes "target = R_No_show \<or> target = R_Cancelled"
  shows "\<exists>ch. changes (finish_closure c locked target why actor before f s) = changes s @ [ch]
    \<and> requirement_row (r_id locked)
        (max 0 (paid_minor s (r_id locked) - completed_refunds s (r_id locked) - fee_minor f)) ch"
proof -
  define s6 where "s6 = fst (waive_open c (r_id locked) (closure_label target @ '': '' @ why) actor
    (release_promotions c (r_id locked) (closure_label target @ '': '' @ why) True
      (fst (cancel_open_tasks c (r_id locked) (closure_label target @ '': '' @ why) actor
        (release_all (r_id locked) (update_reservation (r_id locked) (close_record c target why) s))))))"
  have s6: "payments s6 = payments s" "changes s6 = changes s"
    unfolding s6_def
    by (simp_all add: waive_open_frame waive_open_changes release_promotions_payments release_promotions_changes
        cancel_open_frame release_all_def update_reservation_frame)
  have m: "paid_minor s6 (r_id locked) = paid_minor s (r_id locked)"
      "completed_refunds s6 (r_id locked) = completed_refunds s (r_id locked)"
    using s6 by (simp_all add: paid_minor_def completed_refunds_def)
  have id: "r_id (close_record c target why locked) = r_id locked" by (simp add: close_record_def)
  show ?thesis
    unfolding finish_closure_def Let_def split_beta s6_def [symmetric] m
    by (rule exI, rule conjI [rotated], rule record_change_requirement [OF assms, of "close_record c target why locked", unfolded id])
      (simp add: record_outbox_frame record_change_def record_status_def s6 Let_def)
qed

lemma policy_adjustment_frame:
  assumes "policy_adjustment c r f actor s = Inr t"
  shows "payments t = payments s" and "changes t = changes s"
  using assms by (auto simp: policy_adjustment_def bindE_eq_Inr posts_def dest!: append_line_Inr(1) split: if_splits)

subsection \<open>What is held\<close>

lemma books_completed_refunds:
  assumes "books s"
  shows "completed_refunds s i = sum_where (\<lambda>p. py_reservation p = i \<and> taken p) (refunded s) (payments s)"
proof -
  have ids: "ids_ok s" and acc: "\<And>p. p \<in> set (payments s) \<Longrightarrow> account_ok s p"
    using assms by (simp_all add: books_def)
  let ?P = "\<lambda>ch. ch_reservation ch = i \<and> ch_type ch = ''refund_completed'' \<and> ch_status ch = ''completed''"
  have "completed_refunds s i = sum_where ?P change_amount (changes s)"
    by (simp add: completed_refunds_def change_amount_def [abs_def])
  also have "\<dots> = sum_where (\<lambda>p. py_reservation p = i) (\<lambda>p. sum_where (\<lambda>ch. ?P ch \<and>
      data_get (ch_meta ch) ''payment_id'' = J_Id (py_id p)) change_amount (changes s)) (payments s)"
  proof (rule sum_where_by_owner [where link = "\<lambda>ch k. ?P ch \<and> data_get (ch_meta ch) ''payment_id'' = J_Id k"])
    show "distinct (map py_id (payments s))" using ids by (simp add: ids_ok_def keys_ok_def)
    fix ch assume ch: "ch \<in> set (changes s)"
    then have "change_refs_ok s ch" using ids by (simp add: ids_ok_def)
    then show "?P ch \<longleftrightarrow> (\<exists>p \<in> set (payments s). py_reservation p = i \<and>
        ?P ch \<and> data_get (ch_meta ch) ''payment_id'' = J_Id (py_id p))"
      by (auto simp: change_refs_ok_def on_payment_def)
  qed simp
  also have "\<dots> = sum_where (\<lambda>p. py_reservation p = i) (refunded s) (payments s)"
  proof (rule sum_where_cong [OF refl])
    fix p :: payment assume "py_reservation p = i"
    then show "sum_where (\<lambda>ch. ?P ch \<and> data_get (ch_meta ch) ''payment_id'' = J_Id (py_id p)) change_amount (changes s)
        = refunded s p"
      unfolding refunded_def completed_for_payment_def by (intro sum_where_cong) (auto simp: on_payment_def)
  qed
  also have "\<dots> = sum_where (\<lambda>p. py_reservation p = i \<and> taken p) (refunded s) (payments s)
      + sum_where (\<lambda>p. py_reservation p = i \<and> \<not> taken p) (refunded s) (payments s)"
    by (rule sum_where_split)
  also have "sum_where (\<lambda>p. py_reservation p = i \<and> \<not> taken p) (refunded s) (payments s)
      = sum_where (\<lambda>p. py_reservation p = i \<and> \<not> taken p) (\<lambda>_. 0) (payments s)"
    by (rule sum_where_cong) (use acc in \<open>auto simp: account_ok_def\<close>)
  finally show ?thesis by simp
qed

lemma books_requirement:
  assumes "books s"
  shows "paid_minor s i - completed_refunds s i
    = held s i - sum_where (\<lambda>p. py_reservation p = i \<and> py_status p = P_Refunded) py_amount (payments s)"
proof -
  have "sum_where (\<lambda>p. py_reservation p = i \<and> py_status p = P_Succeeded) py_amount xs
      - sum_where (\<lambda>p. py_reservation p = i \<and> taken p) g xs
      = sum_where (\<lambda>p. py_reservation p = i \<and> taken p) (\<lambda>p. py_amount p - g p) xs
      - sum_where (\<lambda>p. py_reservation p = i \<and> py_status p = P_Refunded) py_amount xs" for g xs
    by (induction xs) (auto simp: taken_def)
  then show ?thesis unfolding books_completed_refunds [OF assms] held_def paid_minor_def by simp
qed

subsection \<open>Properties\<close>

text \<open>The refund requirement a closure records understates what is owed to the guest. On good books it is
  what the reservation's payments still hold, less the amount of every payment already refunded in full
  (whose refunds are subtracted although the payment itself is no longer counted), less the fee.\<close>

theorem closure_requirement_gap:
  assumes "close_reservation c i target raw actor s = Inr (t, r')" and "books s" and "find_reservation s i = Some r"
    and "r_status r \<noteq> target"
  shows "\<exists>fee ch. cancellation_fee (local_day c (r_property r)) (r_total r) (r_starts r) (r_cancellation_tiers r) (clock c)
        = Inr fee
    \<and> changes t = changes s @ [ch]
    \<and> requirement_row i (max 0 (held s i - sum_where (\<lambda>p. py_reservation p = i \<and> py_status p = P_Refunded) py_amount
        (payments s) - fee_minor fee)) ch"
  using assms(1)
proof (cases rule: close_reservation_Inr)
  case idle
  with assms(3,4) show ?thesis by simp
next
  case (closed locked fee s1)
  have l: "locked = r" "r_id r = i" using closed(1,2) assms(3) by simp_all
  note same = policy_adjustment_frame [OF closed(7)]
  have "paid_minor s1 i - completed_refunds s1 i
      = held s i - sum_where (\<lambda>p. py_reservation p = i \<and> py_status p = P_Refunded) py_amount (payments s)"
    using books_requirement [OF assms(2), of i] same by (simp add: paid_minor_def completed_refunds_def)
  with finish_closure_requirement [of target c locked "trim raw" actor "snapshot_of s locked" fee s1] closed(3,6,8) same l
  show ?thesis by auto
qed

text \<open>Two payments of 40000, the first one refunded in full; cancelling costs 25000 of the 100000 booked.\<close>

definition gap_db :: db where
  "gap_db = demo_db\<lparr>payments := [paid_row\<lparr>py_status := P_Refunded\<rparr>, paid_row\<lparr>py_id := 13\<rparr>],
     folio_lines := [paid_line, paid_line\<lparr>fl_id := 14, fl_payment := Some 13\<rparr>,
       paid_line\<lparr>fl_id := 15, fl_type := L_Refund, fl_unit := 40000, fl_net := 40000, fl_gross := 40000,
         fl_amount := 40000, fl_meta := [(''refund_change_id'', J_Id 16)]\<rparr>],
     changes := [asked_row\<lparr>ch_amount := Some 40000\<rparr>, asked_row\<lparr>ch_id := 16, ch_parent := Some 12,
       ch_type := ''refund_completed'', ch_status := ''completed'', ch_amount := Some 40000\<rparr>]\<rparr>"

lemma gap_db_books: "books gap_db"
  by (simp add: gap_db_def paid_row_def paid_line_def asked_row_def blank_payment_def demo_db_def empty_db_def books_defs)

lemma gap_db_run: "\<exists>t r'. close_reservation demo_ctx 6 R_Cancelled ''Weather'' None gap_db = Inr (t, r')"
proof -
  let ?r = "demo_reservation 6 R_Confirmed"
  have ctx: "clock demo_ctx = 1000" by (simp add: demo_ctx_def)
  have row: "r_property ?r = 1" "r_total ?r = 100000" "r_starts ?r = 864000" "r_cancellation_tiers ?r = sample_tiers"
    "r_status ?r = R_Confirmed" "r_subtotal ?r = 90000" "r_tax ?r = 10000" "r_folio_status ?r = F_Open" "r_id ?r = 6"
    by (simp_all add: demo_reservation_def)
  have found: "find_reservation gap_db 6 = Some ?r" using demo_row by (simp add: gap_db_def)
  show ?thesis
    by (auto simp: close_reservation_def reservation_or_fail_def find_or_fail_def found row ctx
        demo_fee [unfolded One_nat_def] Let_def trim_def php_blank_def policy_adjustment_def append_line_def
        assert_open_def create_line_def line_amount_def int_or_type_error_def fits_def php_int_max_def)
qed

theorem closure_requirement_gap_witness:
  "\<exists>t r' ch. close_reservation demo_ctx 6 R_Cancelled ''Weather'' None gap_db = Inr (t, r')
     \<and> ch \<in> set (changes t) \<and> requirement_row 6 0 ch \<and> held gap_db 6 - 25000 = 15000"
proof -
  obtain t r' where run: "close_reservation demo_ctx 6 R_Cancelled ''Weather'' None gap_db = Inr (t, r')"
    using gap_db_run by blast
  let ?r = "demo_reservation 6 R_Confirmed"
  have found: "find_reservation gap_db 6 = Some ?r" using demo_row by (simp add: gap_db_def)
  have held: "held gap_db 6 = 40000" "sum_where (\<lambda>p. py_reservation p = 6 \<and> py_status p = P_Refunded) py_amount (payments gap_db) = 40000"
    by (simp_all add: held_def gap_db_def paid_row_def blank_payment_def asked_row_def taken_def refunded_def
        completed_for_payment_def on_payment_def data_get_def change_amount_def or_default_def)
  have ctx: "clock demo_ctx = 1000" by (simp add: demo_ctx_def)
  have row: "r_property ?r = 1" "r_total ?r = 100000" "r_starts ?r = 864000" "r_cancellation_tiers ?r = sample_tiers"
    by (simp_all add: demo_reservation_def)
  have "r_status ?r \<noteq> R_Cancelled" by (simp add: demo_reservation_def)
  from closure_requirement_gap [OF run gap_db_books found this] obtain ch where
      "changes t = changes gap_db @ [ch]" "requirement_row 6 0 ch"
    by (auto simp: held demo_fee [unfolded One_nat_def] row ctx)
  with run held show ?thesis by auto
qed

end
