(* ===== verification/Assignments.thy ===== *)
theory Assignments
  imports Closure
begin

text \<open>
  Assignments by staff: \<^verbatim>\<open>AllocationWorkflowService\<close> (create, update and release an allocation) and
  \<^verbatim>\<open>ReallocateResource\<close> (move to another resource or swap two stays). The theorems extend the
  double-booking invariant of \<^theory_text>\<open>Booking_Safety\<close> to runs that mix these commands with the reservation
  workflows, and show where the code leaves it: a checked-in reservation.
\<close>

subsection \<open>Guards\<close>

definition operationally_active :: "ctx \<Rightarrow> reservation \<Rightarrow> bool" where
  "operationally_active c r \<longleftrightarrow> r_status r \<in> {R_Confirmed, R_Checked_in} \<or> (r_status r = R_Hold \<and> hold_is_live c r)"

definition assert_operational :: "ctx \<Rightarrow> reservation \<Rightarrow> unit res" where
  "assert_operational c r = (if operationally_active c r then Inr () else Inl (Validation ''status''))"

definition assert_targets ::
  "db \<Rightarrow> reservation \<Rightarrow> id option \<Rightarrow> id option \<Rightarrow> id option \<Rightarrow> unit res" where
  "assert_targets s r category resource occurrence =
     (if category = None \<and> resource = None \<and> occurrence = None then Inl (Validation ''requested_category_id'')
      else
        bindE (case category of None \<Rightarrow> Inr None
          | Some k \<Rightarrow> (case find (\<lambda>x. cat_id x = k \<and> cat_active x) (categories s) of
              None \<Rightarrow> Inl (Validation ''requested_category_id'')
            | Some x \<Rightarrow> if cat_property x \<noteq> r_property r then Inl (Validation ''requested_category_id'')
                else Inr (Some x))) (\<lambda>cat.
        bindE (case resource of None \<Rightarrow> Inr ()
          | Some k \<Rightarrow> (case find (\<lambda>x. res_id x = k \<and> res_active x) (resources s) of
              None \<Rightarrow> Inl (Validation ''resource_id'')
            | Some x \<Rightarrow> if res_property x \<noteq> r_property r then Inl (Validation ''resource_id'')
                else if (case cat of None \<Rightarrow> False | Some y \<Rightarrow> res_category x \<noteq> cat_id y)
                then Inl (Validation ''resource_id'') else Inr ())) (\<lambda>_.
        (case occurrence of None \<Rightarrow> Inr ()
          | Some k \<Rightarrow> (case find_row occ_id k (occurrences s) of
              None \<Rightarrow> Inl (Validation ''service_occurrence_id'')
            | Some x \<Rightarrow> if occ_property x \<noteq> r_property r \<or> occ_cancelled x
                then Inl (Validation ''service_occurrence_id'') else Inr ())))))"

definition reserves_capacity :: "ctx \<Rightarrow> reservation \<Rightarrow> allocation_status \<Rightarrow> bool" where
  "reserves_capacity c r st \<longleftrightarrow> st \<noteq> A_Released
     \<and> (r_status r = R_Confirmed \<or> (r_status r = R_Hold \<and> hold_is_live c r))"

definition bump_revision :: "reservation \<Rightarrow> reservation" where
  "bump_revision r = r\<lparr>r_revision := r_revision r + 1\<rparr>"

definition fresh_reservation :: "db \<Rightarrow> reservation \<Rightarrow> reservation" where
  "fresh_reservation s r = (case find_reservation s (r_id r) of None \<Rightarrow> r | Some x \<Rightarrow> x)"

definition record_mutation ::
  "ctx \<Rightarrow> reservation \<Rightarrow> string \<Rightarrow> snapshot \<Rightarrow> user_id option \<Rightarrow> string option \<Rightarrow> meta \<Rightarrow> db \<Rightarrow> db" where
  "record_mutation c r type before actor reason metadata s =
     (let s1 = update_reservation (r_id r) bump_revision s;
          (s2, ch) = record_change c r type
            (change_defaults\<lparr>ci_actor := actor, ci_before := Some before,
               ci_after := Some (snapshot_of s1 (fresh_reservation s1 r)),
               ci_meta := metadata @ [(''reason'', j_opt J_Str (filled_text reason))]\<rparr>) s1 in
      record_outbox c ''reservation'' (r_id r) (''reservation.'' @ type)
        ([(''reservation_id'', J_Id (r_id r)), (''change_id'', J_Id (ch_id ch))] @ metadata) s2)"

subsection \<open>create\<close>

record assignment_input =
  ai_category :: "id option"
  ai_resource :: "id option"
  ai_occurrence :: "id option"
  ai_starts :: instant
  ai_ends :: instant
  ai_quantity :: "int option"

definition new_allocation :: "reservation \<Rightarrow> assignment_input \<Rightarrow> allocation" where
  "new_allocation r d = \<lparr>al_id = 0, al_reservation = r_id r, al_category = ai_category d, al_resource = ai_resource d,
     al_occurrence = ai_occurrence d,
     al_status = (if r_status r \<in> {R_Confirmed, R_Checked_in} then A_Confirmed else A_Tentative),
     al_starts = ai_starts d, al_ends = ai_ends d, al_quantity = or_default (ai_quantity d) 1\<rparr>"

definition create_allocation ::
  "ctx \<Rightarrow> id \<Rightarrow> assignment_input \<Rightarrow> user_id option \<Rightarrow> string option \<Rightarrow> bool \<Rightarrow> allocation action" where
  "create_allocation c i d actor reason require_active s =
     bindE (reservation_or_fail s i) (\<lambda>r.
     bindE (if require_active then assert_operational c r else Inr ()) (\<lambda>_.
     bindE (assert_targets s r (ai_category d) (ai_resource d) (ai_occurrence d)) (\<lambda>_.
     bindE (insert_allocation (new_allocation r d) s) (\<lambda>(s1, a).
     bindE (if reserves_capacity c r (al_status a) then assert_available c s1 a else Inr ()) (\<lambda>_.
     Inr (record_mutation c r ''resource_assigned'' (snapshot_of s r) actor reason
            [(''allocation_id'', J_Id (al_id a)), (''resource_id'', j_opt J_Id (al_resource a)),
             (''requested_category_id'', j_opt J_Id (al_category a))] s1, a))))))"

subsection \<open>update\<close>

text \<open>A field that the request does not carry is \<open>None\<close>.\<close>

record assignment_patch =
  ap_category :: "id option option"
  ap_resource :: "id option option"
  ap_occurrence :: "id option option"
  ap_starts :: "instant option"
  ap_ends :: "instant option"
  ap_quantity :: "int option"
  ap_status :: "allocation_status option"

definition requested_status :: "reservation \<Rightarrow> assignment_patch \<Rightarrow> allocation \<Rightarrow> allocation_status" where
  "requested_status r d a =
     (let wanted = or_default (ap_status d) (al_status a) in
      if wanted = A_Released then A_Released
      else if r_status r = R_Confirmed then A_Confirmed else A_Tentative)"

definition patched :: "reservation \<Rightarrow> assignment_patch \<Rightarrow> allocation \<Rightarrow> allocation" where
  "patched r d a = a\<lparr>al_category := or_default (ap_category d) (al_category a),
     al_resource := or_default (ap_resource d) (al_resource a),
     al_occurrence := or_default (ap_occurrence d) (al_occurrence a),
     al_status := requested_status r d a, al_starts := or_default (ap_starts d) (al_starts a),
     al_ends := or_default (ap_ends d) (al_ends a), al_quantity := or_default (ap_quantity d) (al_quantity a)\<rparr>"

definition own_allocation :: "db \<Rightarrow> reservation \<Rightarrow> id \<Rightarrow> allocation res" where
  "own_allocation s r k = (case find (\<lambda>a. al_id a = k \<and> al_reservation a = r_id r) (allocations s) of
     None \<Rightarrow> Inl (NotFound ''allocations'') | Some a \<Rightarrow> Inr a)"

definition update_allocation ::
  "ctx \<Rightarrow> id \<Rightarrow> id \<Rightarrow> assignment_patch \<Rightarrow> user_id option \<Rightarrow> string option \<Rightarrow> bool \<Rightarrow> allocation action" where
  "update_allocation c i k d actor reason require_active s =
     bindE (reservation_or_fail s i) (\<lambda>r.
     bindE (if require_active then assert_operational c r else Inr ()) (\<lambda>_.
     bindE (own_allocation s r k) (\<lambda>a.
     let b = patched r d a in
     bindE (assert_targets s r (al_category b) (al_resource b) (al_occurrence b)) (\<lambda>_.
     bindE (if reserves_capacity c r (al_status b) then assert_available c s b else Inr ()) (\<lambda>_.
     bindE (save_allocation b s) (\<lambda>s1.
     Inr (record_mutation c r ''resource_assignment_updated'' (snapshot_of s r) actor reason
            [(''allocation_id'', J_Id (al_id b)), (''resource_id'', j_opt J_Id (al_resource b)),
             (''status'', J_Str (allocation_status_value (al_status b)))] s1,
          or_default (find_row al_id (al_id b) (allocations s1)) b)))))))"

subsection \<open>release\<close>

definition release_allocation ::
  "ctx \<Rightarrow> id \<Rightarrow> id \<Rightarrow> user_id option \<Rightarrow> string option \<Rightarrow> bool \<Rightarrow> db \<Rightarrow> db res" where
  "release_allocation c i k actor reason require_active s =
     bindE (reservation_or_fail s i) (\<lambda>r.
     bindE (if require_active then assert_operational c r else Inr ()) (\<lambda>_.
     bindE (own_allocation s r k) (\<lambda>a.
     if released a then Inl (Validation ''allocation_id'')
     else
       bindE (save_allocation (a\<lparr>al_status := A_Released\<rparr>) s) (\<lambda>s1.
       Inr (record_mutation c r ''resource_released'' (snapshot_of s r) actor reason
              [(''allocation_id'', J_Id (al_id a)), (''resource_id'', j_opt J_Id (al_resource a))] s1)))))"

subsection \<open>ReallocateResource\<close>

definition assert_compatible :: "reservation \<Rightarrow> allocation \<Rightarrow> resource \<Rightarrow> unit res" where
  "assert_compatible r a x =
     (if res_property x \<noteq> r_property r \<or> \<not> res_active x then Inl (Validation ''resource_id'')
      else if (case al_category a of None \<Rightarrow> False | Some k \<Rightarrow> k \<noteq> res_category x) then Inl (Validation ''resource_id'')
      else Inr ())"

definition replacement :: "reservation \<Rightarrow> allocation \<Rightarrow> id option \<Rightarrow> allocation action" where
  "replacement r source resource_id s =
     (case resource_id of
        None \<Rightarrow> Inl (Validation ''resource_id'')
      | Some k \<Rightarrow>
        bindE (find_or_fail ''resources'' res_id k (resources s)) (\<lambda>x.
        insert_allocation \<lparr>al_id = 0, al_reservation = r_id r, al_category = Some (res_category x),
          al_resource = Some (res_id x), al_occurrence = al_occurrence source,
          al_status = (if r_status r = R_Hold then A_Tentative else A_Confirmed),
          al_starts = al_starts source, al_ends = al_ends source, al_quantity = al_quantity source\<rparr> s))"

text \<open>
  The caller passes the allocation to swap with as it loaded it, so the reservations that are locked
  are its own and the one that row named. Reading a property of a row that is gone is a type error.
\<close>

definition swap_partner ::
  "ctx \<Rightarrow> db \<Rightarrow> id \<Rightarrow> allocation \<Rightarrow> resource \<Rightarrow> (id \<times> id) option \<Rightarrow> (allocation \<times> reservation) option res" where
  "swap_partner c s i current target swap =
     (case swap of
        None \<Rightarrow> Inr None
      | Some (k, j) \<Rightarrow>
        (case find_row al_id k (allocations s) of
           None \<Rightarrow> Inl (Validation ''swap_allocation_id'')
         | Some other \<Rightarrow>
           (case (if al_reservation other \<in> {i, j} then find_reservation s (al_reservation other) else None) of
              None \<Rightarrow> Inl (Validation ''swap_allocation_id'')
            | Some r \<Rightarrow>
              if released other \<or> al_resource other \<noteq> Some (res_id target) then Inl (Validation ''swap_allocation_id'')
              else
                bindE (assert_operational c r) (\<lambda>_.
                if al_resource current = None \<or> al_starts current \<noteq> al_starts other \<or> al_ends current \<noteq> al_ends other
                then Inl (Validation ''swap_allocation_id'')
                else Inr (Some (other, r))))))"

definition release_row :: "allocation \<Rightarrow> db \<Rightarrow> db res" where
  "release_row a s = save_allocation (a\<lparr>al_status := A_Released\<rparr>) s"

definition replace_checked :: "ctx \<Rightarrow> reservation \<Rightarrow> allocation \<Rightarrow> id option \<Rightarrow> allocation action" where
  "replace_checked c r source resource_id s =
     bindE (replacement r source resource_id s) (\<lambda>(t, a).
     bindE (assert_available c t a) (\<lambda>_. Inr (t, a)))"

definition soil :: "ctx \<Rightarrow> reservation \<Rightarrow> id option \<Rightarrow> user_id option \<Rightarrow> db \<Rightarrow> db res" where
  "soil c r resource_id actor s =
     (case resource_id of
        None \<Rightarrow> Inr s
      | Some k \<Rightarrow> if r_status r = R_Checked_in then update_housekeeping c k Hk_Dirty actor s else Inr s)"

definition move_payload :: "reservation \<Rightarrow> change \<Rightarrow> id option \<Rightarrow> id option \<Rightarrow> bool \<Rightarrow> meta" where
  "move_payload r ch from to swapped = [(''reservation_id'', J_Id (r_id r)), (''change_id'', J_Id (ch_id ch)),
     (''from_resource_id'', j_opt J_Id from), (''to_resource_id'', j_opt J_Id to), (''swap'', J_Bool swapped)]"

definition record_move ::
  "ctx \<Rightarrow> reservation \<Rightarrow> string \<Rightarrow> snapshot \<Rightarrow> user_id option \<Rightarrow> meta \<Rightarrow> db \<Rightarrow> db \<times> change" where
  "record_move c r type before actor metadata s =
     (let s1 = update_reservation (r_id r) bump_revision s in
      record_change c r type (change_defaults\<lparr>ci_actor := actor, ci_before := Some before,
        ci_after := Some (snapshot_of s1 (fresh_reservation s1 r)), ci_meta := metadata\<rparr>) s1)"

definition record_counterpart ::
  "ctx \<Rightarrow> (allocation \<times> reservation) option \<Rightarrow> allocation option \<Rightarrow> snapshot option \<Rightarrow> change \<Rightarrow> id option
   \<Rightarrow> string option \<Rightarrow> user_id option \<Rightarrow> db \<Rightarrow> db res" where
  "record_counterpart c partner replaced before ch old reason actor s =
     (case (partner, replaced, before) of
        (Some (other, r), Some b, Some sn) \<Rightarrow>
          let (s1, ch2) = record_move c r ''resource_swapped'' sn actor
                [(''reason'', j_opt J_Str (filled_text reason)), (''counterpart_change_id'', J_Id (ch_id ch)),
                 (''released_allocation_id'', J_Id (al_id other)), (''replacement_allocation_id'', J_Id (al_id b)),
                 (''from_resource_id'', j_opt J_Id (al_resource other)), (''to_resource_id'', j_opt J_Id old)] s;
              s2 = record_outbox c ''reservation'' (r_id r) ''reservation.resource_reallocated''
                (move_payload r ch2 (al_resource other) old True) s1 in
          soil c r (al_resource other) actor s2
      | _ \<Rightarrow> Inr s)"

definition reallocate ::
  "ctx \<Rightarrow> id \<Rightarrow> id \<Rightarrow> id \<Rightarrow> user_id option \<Rightarrow> (id \<times> id) option \<Rightarrow> string option \<Rightarrow> reservation action" where
  "reallocate c i k target_id actor swap reason s =
     (case find_reservation s i of None \<Rightarrow> Inl Type_Error | Some primary \<Rightarrow>
      bindE (assert_operational c primary) (\<lambda>_.
      (case find_row al_id k (allocations s) of None \<Rightarrow> Inl Type_Error | Some current \<Rightarrow>
       if al_reservation current \<noteq> r_id primary \<or> released current then Inl (Validation ''allocation_id'')
       else
         bindE (find_or_fail ''resources'' res_id target_id (resources s)) (\<lambda>target.
         bindE (assert_compatible primary current target) (\<lambda>_.
         bindE (swap_partner c s i current target swap) (\<lambda>partner.
         if al_resource current = Some (res_id target) \<and> partner = None then Inr (s, primary)
         else
           let old = al_resource current;
               type = (if partner = None then (if old = None then ''resource_assigned'' else ''resource_moved'')
                       else ''resource_swapped'') in
           bindE (release_row current s) (\<lambda>s1.
           bindE (case partner of None \<Rightarrow> Inr s1 | Some (other, _) \<Rightarrow> release_row other s1) (\<lambda>s2.
           bindE (replace_checked c primary current (Some (res_id target)) s2) (\<lambda>(s3, a).
           bindE (case partner of None \<Rightarrow> Inr (s3, None)
                  | Some (other, r) \<Rightarrow> bindE (replace_checked c r other old s3) (\<lambda>(u, b). Inr (u, Some b))) (\<lambda>(s4, b).
           let (s5, ch) = record_move c primary type (snapshot_of s primary) actor
                 [(''reason'', j_opt J_Str (filled_text reason)), (''released_allocation_id'', J_Id (al_id current)),
                  (''replacement_allocation_id'', J_Id (al_id a)), (''from_resource_id'', j_opt J_Id old),
                  (''to_resource_id'', J_Id (res_id target)),
                  (''swap_allocation_id'', j_opt (\<lambda>(other, _). J_Id (al_id other)) partner)] s4 in
           bindE (record_counterpart c partner b (map_option (\<lambda>(_, r). snapshot_of s r) partner) ch old reason actor s5) (\<lambda>s6.
           bindE (soil c primary old actor s6) (\<lambda>s7.
           let s8 = record_outbox c ''reservation'' (r_id primary) ''reservation.resource_reallocated''
                 (move_payload primary ch old (Some (res_id target)) (partner \<noteq> None)) s7 in
           Inr (s8, fresh_reservation s8 primary)))))))))))))"

subsection \<open>What the steps do to the allocations\<close>

text \<open>\<open>mild s t\<close>: the step adds no live allocation and revives no hold.\<close>

definition mild :: "db \<Rightarrow> db \<Rightarrow> bool" where
  "mild s t \<longleftrightarrow> thins s t \<and> (\<forall>c i. live_hold c t i \<longrightarrow> live_hold c s i)"

lemma mild_refl [simp]: "mild s s"
  by (simp add: mild_def)

lemma mild_trans: "mild s t \<Longrightarrow> mild t u \<Longrightarrow> mild s u"
  by (auto simp: mild_def intro: thins_trans)

lemma mild_aside: "aside s t \<Longrightarrow> mild s t"
  by (auto simp: mild_def aside_def dest: live_hold_cong)

lemma inv_mild: "no_double_booking c s \<Longrightarrow> mild s t \<Longrightarrow> no_double_booking c t"
  by (rule inv_thins [of c s t]) (auto simp: mild_def)

lemma mild_bump: "mild s (update_reservation i bump_revision s)"
proof -
  have "live_hold c s j" if "live_hold c (update_reservation i bump_revision s) j" for c j
    using that
    by (cases "j = i") (auto simp: live_hold_def frame_simps bump_revision_def
        find_row_upd_same [of r_id, unfolded bump_revision_def] find_row_upd_other [of _ _ r_id] split: option.splits)
  then show ?thesis by (simp add: mild_def thins_update_reservation)
qed

lemma mild_mutation: "mild s (record_mutation c r ty before actor reason m s)"
  unfolding record_mutation_def Let_def split_beta
  by (intro mild_trans [OF _ mild_aside [OF aside_outbox]] mild_trans [OF _ mild_aside [OF aside_change]] mild_bump)

lemma mutation_tables:
  "allocations (record_mutation c r ty before actor reason m s) = allocations s"
  "reservations (record_mutation c r ty before actor reason m s) = upd_row r_id (r_id r) bump_revision (reservations s)"
  by (simp_all add: record_mutation_def record_change_def Let_def frame_simps)

lemma mild_move:
  assumes "record_move c r ty before actor m s = (t, ch)"
  shows "mild s t"
proof -
  have "t = fst (record_move c r ty before actor m s)" using assms by simp
  then show ?thesis
    unfolding record_move_def Let_def
    by (simp only:) (intro mild_trans [OF _ mild_aside [OF aside_change]] mild_bump)
qed

lemma mild_soil: "soil c r k actor s = Inr t \<Longrightarrow> mild s t"
  by (auto simp: soil_def split: option.splits if_splits intro: mild_aside aside_housekeeping)

lemma mild_counterpart:
  assumes "record_counterpart c partner b before ch old reason actor s = Inr t"
  shows "mild s t"
proof (cases "t = s")
  case False
  then obtain other r x sn where "partner = Some (other, r)" "b = Some x" "before = Some sn"
    using assms by (auto simp: record_counterpart_def split: option.splits)
  with assms show ?thesis
    unfolding record_counterpart_def
    by (auto simp: Let_def split: prod.splits dest!: mild_move mild_soil
        intro: mild_trans [OF mild_trans [OF _ mild_aside [OF aside_outbox]]])
qed simp

lemma mild_release_row:
  assumes "release_row a s = Inr t"
  shows "mild s t"
proof -
  obtain b where b: "allocation_hook s (a\<lparr>al_status := A_Released\<rparr>) = Inr b"
    and t: "t = s\<lparr>allocations := upd_row al_id (al_id a) (\<lambda>_. b) (allocations s)\<rparr>"
    using assms by (auto simp: release_row_def save_allocation_def bindE_eq_Inr)
  have "al_id b = al_id a" "al_status b = A_Released" using allocation_hook_Inr [OF b] by (simp_all add: same_place_def)
  then have "map al_id (upd_row al_id (al_id a) (\<lambda>_. b) xs) = map al_id xs"
    and "x \<in> set (upd_row al_id (al_id a) (\<lambda>_. b) xs) \<Longrightarrow> al_status x = A_Released \<or> x \<in> set xs" for x xs
    by (auto simp: upd_row_def upd_where_def split: if_splits)
  moreover from this(1) have "keys_ok al_id (upd_row al_id (al_id a) (\<lambda>_. b) (allocations s)) n = keys_ok al_id (allocations s) n" for n
    by (rule keys_ok_cong)
  ultimately have "thins s t" unfolding thins_def by (simp add: t)
  moreover have "reservations t = reservations s" by (simp add: t)
  ultimately show ?thesis unfolding mild_def by (simp add: live_hold_cong [of t s])
qed

lemma clash_sym: "clash a b \<longleftrightarrow> clash b a"
  by (auto simp: clash_def meets_sym)

lemma inv_add:
  assumes "no_double_booking c s" and "allocations t = allocations s @ [a]" and "reservations t = reservations s"
    and "al_id a = next_id s" and "next_id t = Suc (next_id s)"
    and "reserving c t a \<Longrightarrow> assert_available c t a = Inr ()"
  shows "no_double_booking c t"
proof -
  have same: "reserving c t b = reserving c s b" for b
    by (simp add: reserving_def live_hold_cong [OF assms(3)])
  have free: "\<not> clash a b" if "reserving c t a" "b \<in> set (allocations s)" "reserving c s b" for b
    using available_no_clash [OF assms(6) [OF that(1)]] that assms(2) same by (auto intro: reserving_active)
  have self: "\<not> clash a a" by (simp add: clash_def)
  have old: "\<not> clash x y" if "x \<in> set (allocations s)" "y \<in> set (allocations s)" "reserving c s x" "reserving c s y" for x y
    using assms(1) that by (simp add: no_double_booking_def)
  have "\<not> clash x y" if "x \<in> set (allocations t)" "y \<in> set (allocations t)" "reserving c t x" "reserving c t y" for x y
  proof (cases "x = a \<or> y = a")
    case True
    with that free [of x] free [of y] show ?thesis
      unfolding assms(2) same using self by (auto simp: clash_sym [of x a])
  next
    case False
    with that old show ?thesis unfolding assms(2) same by auto
  qed
  moreover have "keys_ok al_id (allocations t) (next_id t)"
    using assms(1) keys_ok_insert [of al_id "allocations s" "next_id s" a] assms(4)
    by (simp add: assms(2,5) no_double_booking_def)
  ultimately show ?thesis by (simp add: no_double_booking_def)
qed

lemma inv_replace_checked:
  assumes "replace_checked c r source k s = Inr (t, a)" and "no_double_booking c s"
  shows "no_double_booking c t"
proof -
  obtain b where ins: "insert_allocation b s = Inr (t, a)" and ok: "assert_available c t a = Inr ()"
    using assms(1) by (auto simp: replace_checked_def replacement_def bindE_eq_Inr split: option.splits)
  note i = insert_allocation_Inr [OF ins]
  show ?thesis by (rule inv_add [OF assms(2) i(1,3,4,2)]) (rule ok)
qed

lemma inv_row:
  assumes "no_double_booking c s" and "allocations t = upd_row al_id (al_id b) (\<lambda>_. b) (allocations s)"
    and "reservations t = reservations s" and "next_id t = next_id s"
    and "\<And>x. reserving c s b \<Longrightarrow> x \<in> set (allocations s) \<Longrightarrow> reserving c s x \<Longrightarrow> \<not> clash b x"
  shows "no_double_booking c t"
proof -
  have same: "reserving c t x = reserving c s x" for x
    by (simp add: reserving_def live_hold_cong [OF assms(3)])
  have mem: "x = b \<or> x \<in> set (allocations s)" if "x \<in> set (allocations t)" for x
    using that unfolding assms(2) by (auto simp: upd_row_def upd_where_def split: if_splits)
  have self: "\<not> clash b b" by (simp add: clash_def)
  have old: "\<not> clash x y" if "x \<in> set (allocations s)" "y \<in> set (allocations s)" "reserving c s x" "reserving c s y" for x y
    using assms(1) that by (simp add: no_double_booking_def)
  have "\<not> clash x y" if "x \<in> set (allocations t)" "y \<in> set (allocations t)" "reserving c t x" "reserving c t y" for x y
    using mem [OF that(1)] mem [OF that(2)] that(3,4) old [of x y] assms(5) [of x] assms(5) [of y] self
    unfolding same by (auto simp: clash_sym [of x b])
  moreover have "map al_id (allocations t) = map al_id (allocations s)"
    by (simp add: assms(2) upd_row_def upd_where_def)
  then have "keys_ok al_id (allocations t) (next_id t)"
    using assms(1) keys_ok_cong [of al_id "allocations t" "allocations s" "next_id s"] assms(4)
    by (simp add: no_double_booking_def)
  ultimately show ?thesis by (simp add: no_double_booking_def)
qed

subsection \<open>The commands keep the invariant\<close>

lemma not_live_unless_hold:
  "find_reservation s i = Some r \<Longrightarrow> \<not> (r_status r = R_Hold \<and> hold_is_live c r) \<Longrightarrow> \<not> live_hold c s i"
  by (auto simp: live_hold_def hold_is_live_def split: option.splits)

lemma create_allocation_Inr:
  assumes "create_allocation c i d actor reason req s = Inr (t, a)"
  obtains r s1 where "find_reservation s i = Some r" "r_id r = i" "req \<longrightarrow> operationally_active c r"
    "assert_targets s r (ai_category d) (ai_resource d) (ai_occurrence d) = Inr ()"
    "insert_allocation (new_allocation r d) s = Inr (s1, a)"
    "reserves_capacity c r (al_status a) \<longrightarrow> assert_available c s1 a = Inr ()" "mild s1 t"
    "allocations t = allocations s1" "reservations t = upd_row r_id i bump_revision (reservations s)"
proof -
  from assms obtain r where r: "find_reservation s i = Some r"
    by (auto simp: create_allocation_def bindE_eq_Inr reservation_or_fail_Inr)
  then have id: "r_id r = i" by (auto dest: find_row_Some)
  from assms r obtain s1 where run: "req \<longrightarrow> operationally_active c r"
      "assert_targets s r (ai_category d) (ai_resource d) (ai_occurrence d) = Inr ()"
      "insert_allocation (new_allocation r d) s = Inr (s1, a)"
      "reserves_capacity c r (al_status a) \<longrightarrow> assert_available c s1 a = Inr ()"
      and t: "t = record_mutation c r ''resource_assigned'' (snapshot_of s r) actor reason
            [(''allocation_id'', J_Id (al_id a)), (''resource_id'', j_opt J_Id (al_resource a)),
             (''requested_category_id'', j_opt J_Id (al_category a))] s1"
    by (auto simp: create_allocation_def bindE_eq_Inr reservation_or_fail_Inr assert_operational_def split: if_splits)
  show thesis
    by (rule that [OF r id run])
      (use insert_allocation_Inr(3) [OF run(3)] in \<open>simp_all add: t mild_mutation mutation_tables id\<close>)
qed

lemma create_keeps:
  assumes "create_allocation c i d actor reason req s = Inr (t, a)" and "no_double_booking c s"
    and "\<And>r. find_reservation s i = Some r \<Longrightarrow> r_status r \<noteq> R_Checked_in"
  shows "no_double_booking c t"
  using assms(1)
proof (cases rule: create_allocation_Inr)
  case (1 r s1)
  note i = insert_allocation_Inr [OF 1(5)]
  have "no_double_booking c s1"
  proof (rule inv_add [OF assms(2) i(1,3,4,2)])
    assume "reserving c s1 a"
    then have "reserving c s a" by (simp add: reserving_def live_hold_cong [OF i(3)])
    then have "reserves_capacity c r (al_status a)"
      using assms(3) [OF 1(1)] not_live_unless_hold [OF 1(1), of c] i(6,7) 1(2)
      by (auto simp: reserving_def reserves_capacity_def new_allocation_def split: if_splits)
    with 1(6) show "assert_available c s1 a = Inr ()" by blast
  qed
  from this 1(7) show ?thesis by (rule inv_mild)
qed

lemma update_allocation_Inr:
  assumes "update_allocation c i k d actor reason req s = Inr (t, a)"
  obtains r a0 b s1 where "find_reservation s i = Some r" "r_id r = i" "req \<longrightarrow> operationally_active c r"
    "own_allocation s r k = Inr a0" "b = patched r d a0"
    "reserves_capacity c r (al_status b) \<longrightarrow> assert_available c s b = Inr ()"
    "save_allocation b s = Inr s1" "mild s1 t" "allocations t = allocations s1"
    "a = or_default (find_row al_id (al_id b) (allocations s1)) b"
proof -
  from assms obtain r where r: "find_reservation s i = Some r"
    by (auto simp: update_allocation_def bindE_eq_Inr reservation_or_fail_Inr)
  then have id: "r_id r = i" by (auto dest: find_row_Some)
  from assms r obtain a0 s1 where run: "req \<longrightarrow> operationally_active c r" "own_allocation s r k = Inr a0"
      "reserves_capacity c r (al_status (patched r d a0)) \<longrightarrow> assert_available c s (patched r d a0) = Inr ()"
      "save_allocation (patched r d a0) s = Inr s1"
      and out: "\<exists>m. t = record_mutation c r ''resource_assignment_updated'' (snapshot_of s r) actor reason m s1"
      "a = or_default (find_row al_id (al_id (patched r d a0)) (allocations s1)) (patched r d a0)"
    by (auto simp: update_allocation_def bindE_eq_Inr reservation_or_fail_Inr assert_operational_def Let_def split: if_splits)
  show thesis
    by (rule that [OF r id run(1,2) refl run(3,4)]) (use out in \<open>auto simp: mild_mutation mutation_tables\<close>)
qed

lemma own_allocation_Inr: "own_allocation s r k = Inr a \<Longrightarrow> a \<in> set (allocations s) \<and> al_id a = k \<and> al_reservation a = r_id r"
  by (auto simp: own_allocation_def split: option.splits dest: find_SomeD)

lemma update_keeps:
  assumes "update_allocation c i k d actor reason req s = Inr (t, a)" and "no_double_booking c s"
  shows "no_double_booking c t"
  using assms(1)
proof (cases rule: update_allocation_Inr)
  case (1 r a0 b s1)
  obtain b' where hook: "allocation_hook s b = Inr b'" and s1: "s1 = s\<lparr>allocations := upd_row al_id (al_id b) (\<lambda>_. b') (allocations s)\<rparr>"
    using 1(7) by (auto simp: save_allocation_def bindE_eq_Inr)
  note h = allocation_hook_Inr [OF hook]
  have ids: "al_id b = al_id b'" using h by (simp add: same_place_def)
  have res: "al_reservation b' = i" using h own_allocation_Inr [OF 1(4)] 1(2,5) by (simp add: same_place_def patched_def)
  have "no_double_booking c s1"
  proof (rule inv_row [OF assms(2)])
    show "allocations s1 = upd_row al_id (al_id b') (\<lambda>_. b') (allocations s)" by (simp add: s1 ids)
    fix x assume b: "reserving c s b'" and x: "x \<in> set (allocations s)" "reserving c s x"
    from b have "reserves_capacity c r (al_status b)"
      using not_live_unless_hold [OF 1(1), of c] h res 1(5)
      by (auto simp: reserving_def reserves_capacity_def patched_def requested_status_def Let_def split: if_splits)
    with 1(6) have "assert_available c s b = Inr ()" by blast
    with available_same_place [of c s b b' x] h x show "\<not> clash b' x"
      by (auto simp: same_place_def intro: reserving_active)
  qed (simp_all add: s1)
  from this 1(8) show ?thesis by (rule inv_mild)
qed

lemma release_keeps:
  assumes "release_allocation c i k actor reason req s = Inr t" and "no_double_booking c s"
  shows "no_double_booking c t"
proof -
  from assms(1) obtain r a s1 where "release_row a s = Inr s1"
      and t: "\<exists>m. t = record_mutation c r ''resource_released'' (snapshot_of s r) actor reason m s1"
    by (auto simp: release_allocation_def release_row_def bindE_eq_Inr split: if_splits)
  from inv_mild [OF assms(2) mild_release_row [OF this(1)]] t show ?thesis by (auto intro: inv_mild mild_mutation)
qed

lemma reallocate_Inr:
  assumes "reallocate c i k target actor swap reason s = Inr (t, r')"
  obtains (stays) current where "t = s" "find_row al_id k (allocations s) = Some current" "al_resource current = Some target"
  | (moves) primary current old s1 s2 s3 a partner b s4 s5 ch x s6 s7 ty m m2 e where
      "find_reservation s i = Some primary" "find_row al_id k (allocations s) = Some current" "operationally_active c primary"
      "al_reservation current = r_id primary" "\<not> released current" "old = al_resource current"
      "release_row current s = Inr s1" "(case partner of None \<Rightarrow> Inr s1 | Some (other, _) \<Rightarrow> release_row other s1) = Inr s2"
      "replace_checked c primary current (Some x) s2 = Inr (s3, a)"
      "(case partner of None \<Rightarrow> Inr (s3, None)
          | Some (other, r) \<Rightarrow> bindE (replace_checked c r other old s3) (\<lambda>(u, b). Inr (u, Some b))) = Inr (s4, b)"
      "record_move c primary ty (snapshot_of s primary) actor m s4 = (s5, ch)"
      "record_counterpart c partner b (map_option (\<lambda>(_, r). snapshot_of s r) partner) ch old reason actor s5 = Inr s6"
      "soil c primary old actor s6 = Inr s7" "t = record_outbox c ''reservation'' (r_id primary) e m2 s7"
      "swap = None \<longrightarrow> partner = None"
proof -
  from assms obtain primary current x partner where
      p: "find_reservation s i = Some primary" "operationally_active c primary" "find_row al_id k (allocations s) = Some current"
        "al_reservation current = r_id primary" "\<not> released current"
        "find_or_fail ''resources'' res_id target (resources s) = Inr x"
        "assert_compatible primary current x = Inr ()" "swap_partner c s i current x swap = Inr partner"
    unfolding reallocate_def by (auto simp: bindE_eq_Inr assert_operational_def split: option.splits if_splits)
  note start = assms [unfolded reallocate_def, simplified p option.case assert_operational_def if_True bindE_simps]
  show thesis
  proof (cases "al_resource current = Some (res_id x) \<and> partner = None")
    case True
    moreover have "res_id x = target" using p(6) by (auto simp: find_or_fail_Inr dest: find_row_Some)
    ultimately show thesis using start p(3,4,5) by (intro stays [of current]) simp_all
  next
    case False
    define ty where "ty = (if partner = None then (if al_resource current = None then ''resource_assigned'' else ''resource_moved'')
                       else ''resource_swapped'')"
    have "\<not> (al_reservation current \<noteq> r_id primary \<or> released current)" using p(4,5) by simp
    note run = start [unfolded if_not_P [OF this] if_not_P [OF False] run_simps
        prod_case_Inr [where p = "record_move c primary w sn act d u" for w sn act d u] ty_def [symmetric]]
    have alone: "swap = None \<longrightarrow> partner = None" using p(8) by (auto simp: swap_partner_def)
    from run show thesis
      by - (elim exE conjE, rule moves [OF p(1,3,2,4,5) refl _ _ _ _ _ _ _ _ alone]; (assumption | rule sym, assumption))
  qed
qed

lemma reallocate_keeps:
  assumes "reallocate c i k target actor swap reason s = Inr (t, r')" and "no_double_booking c s"
  shows "no_double_booking c t"
  using assms(1)
proof (cases rule: reallocate_Inr)
  case stays
  with assms(2) show ?thesis by simp
next
  case (moves primary current old s1 s2 s3 a partner b s4 s5 ch x s6 s7 ty m m2 e)
  have "no_double_booking c s1" by (rule inv_mild [OF assms(2) mild_release_row [OF moves(7)]])
  then have "no_double_booking c s2"
    using moves(8) by (cases partner) (auto intro: inv_mild mild_release_row)
  then have "no_double_booking c s3" by (rule inv_replace_checked [OF moves(9)])
  then have "no_double_booking c s4"
    using moves(10) by (cases partner) (auto simp: bindE_eq_Inr intro: inv_replace_checked)
  moreover have "mild s4 t"
    unfolding moves(14)
    by (intro mild_trans [OF mild_trans [OF mild_trans [OF mild_move [OF moves(11)] mild_counterpart [OF moves(12)]]
      mild_soil [OF moves(13)]] mild_aside [OF aside_outbox]])
  ultimately show ?thesis by (rule inv_mild)
qed

definition catalogue :: "db \<Rightarrow> resource list \<times> category list" where
  "catalogue s = (resources s, categories s)"

lemma catalogue_release_row: "release_row a s = Inr t \<Longrightarrow> catalogue t = catalogue s"
  by (auto simp: release_row_def save_allocation_def bindE_eq_Inr catalogue_def)

lemma catalogue_replace_checked: "replace_checked c r source k s = Inr (t, a) \<Longrightarrow> catalogue t = catalogue s"
  by (auto simp: replace_checked_def replacement_def insert_allocation_def bindE_eq_Inr catalogue_def split: option.splits)

lemma catalogue_move: "record_move c r ty before actor m s = (t, ch) \<Longrightarrow> catalogue t = catalogue s"
  by (auto simp: record_move_def record_change_def Let_def catalogue_def frame_simps)

subsection \<open>Runs\<close>

datatype assignment_command =
    Assign id assignment_input "user_id option" "string option" bool
  | Reassign id id assignment_patch "user_id option" "string option" bool
  | Unassign id id "user_id option" "string option" bool
  | Move_stay id id id "user_id option" "(id \<times> id) option" "string option"

fun run_assignment :: "ctx \<Rightarrow> assignment_command \<Rightarrow> db \<Rightarrow> db res" where
  "run_assignment c (Assign i d actor why req) s = bindE (create_allocation c i d actor why req s) (\<lambda>(t, _). Inr t)"
| "run_assignment c (Reassign i k d actor why req) s = bindE (update_allocation c i k d actor why req s) (\<lambda>(t, _). Inr t)"
| "run_assignment c (Unassign i k actor why req) s = release_allocation c i k actor why req s"
| "run_assignment c (Move_stay i k x actor swap why) s = bindE (reallocate c i k x actor swap why s) (\<lambda>(t, _). Inr t)"

text \<open>The one command the code does not check: a new allocation for a checked-in reservation.\<close>

fun checked_command :: "db \<Rightarrow> assignment_command \<Rightarrow> bool" where
  "checked_command s (Assign i _ _ _ _) = (\<forall>r. find_reservation s i = Some r \<longrightarrow> r_status r \<noteq> R_Checked_in)"
| "checked_command s _ = True"

lemma run_assignment_keeps:
  assumes "run_assignment c cmd s = Inr t" and "no_double_booking c s" and "checked_command s cmd"
  shows "no_double_booking c t"
  using assms
  by (cases cmd) (auto simp: bindE_eq_Inr intro: create_keeps update_keeps release_keeps reallocate_keeps)

inductive staff_step :: "ctx \<times> db \<Rightarrow> ctx \<times> db \<Rightarrow> bool" where
  workflow: "booking_step x y \<Longrightarrow> staff_step x y"
| assignment: "run_assignment c cmd s = Inr t \<Longrightarrow> checked_command s cmd \<Longrightarrow> staff_step (c, s) (c, t)"

lemma staff_step_keeps: "staff_step (c, s) (c', t) \<Longrightarrow> no_double_booking c s \<Longrightarrow> no_double_booking c' t"
  using bookings.keeps [of "(c, s)" "(c', t)"]
  by (auto elim!: staff_step.cases intro: run_assignment_keeps)

interpretation staff: guarded_run staff_step "\<lambda>(c, s). no_double_booking c s"
  by unfold_locales (auto intro: staff_step_keeps)

subsection \<open>Properties\<close>

text \<open>C3: No double booking by staff either. Along any run that mixes the reservation workflows and the passing of
  time with assignments, changes, releases, moves and swaps of allocations, no two reserving allocations
  overlap on a resource, provided that no allocation is created for a checked-in reservation.\<close>

theorem staff_never_double_book:
  assumes "staff_step\<^sup>*\<^sup>* (c, s) (c', t)" and "no_double_booking c s"
    and "a \<in> set (allocations t)" and "b \<in> set (allocations t)" and "al_id a \<noteq> al_id b"
    and "reserving c' t a" and "reserving c' t b" and "al_resource a = Some r" and "al_resource b = Some r"
  shows "\<not> overlaps (al_starts a) (al_ends a) (al_starts b) (al_ends b)"
proof -
  have "no_double_booking c' t" using staff.run_keeps [OF assms(1)] assms(2) by simp
  then have "\<not> clash a b" using assms(3,4,6,7) by (auto simp: no_double_booking_def)
  with assms(5,8,9) show ?thesis by (simp add: clash_def meets_def overlaps_sym [of "al_starts b"])
qed

text \<open>C37: A checked-in reservation is assigned anything. Creating an allocation for it runs no availability check:
  whenever the targets are valid it succeeds with a confirmed allocation on the requested resource,
  whoever else has that resource confirmed in the same interval.\<close>

theorem checked_in_unchecked:
  assumes "find_reservation s i = Some r" and "r_status r = R_Checked_in"
    and "assert_targets s r (ai_category d) (ai_resource d) (ai_occurrence d) = Inr ()"
    and "insert_allocation (new_allocation r d) s = Inr (s1, a)"
  shows "\<exists>t. create_allocation c i d actor reason req s = Inr (t, a) \<and> allocations t = allocations s @ [a]
    \<and> al_status a = A_Confirmed \<and> al_resource a = ai_resource d
    \<and> (\<forall>b \<in> set (allocations s). al_status b = A_Confirmed \<and> al_resource b = ai_resource d \<and> al_resource b \<noteq> None
         \<and> al_id b < next_id s \<and> meets a b \<longrightarrow> \<not> no_double_booking c t)"
proof -
  note i = insert_allocation_Inr [OF assms(4)]
  have a: "al_status a = A_Confirmed" "al_resource a = ai_resource d" "al_id a = next_id s"
    using i assms(2) by (simp_all add: new_allocation_def)
  obtain t where t: "create_allocation c i d actor reason req s = Inr (t, a)" "allocations t = allocations s1"
    using assms
    by (auto simp: create_allocation_def reservation_or_fail_def find_or_fail_def assert_operational_def
        operationally_active_def reserves_capacity_def mutation_tables)
  have bad: "\<forall>b \<in> set (allocations s). al_status b = A_Confirmed \<and> al_resource b = ai_resource d \<and> al_resource b \<noteq> None
      \<and> al_id b < next_id s \<and> meets a b \<longrightarrow> \<not> no_double_booking c t"
    using a i(1) t(2) by (auto simp: no_double_booking_def clash_def reserving_def)
  have "allocations t = allocations s @ [a]" using t(2) i(1) by simp
  with t(1) a(1,2) bad show ?thesis by blast
qed

text \<open>Changing an allocation of a checked-in guest gives the room away. The change stores the allocation as
  tentative, and it reserves nothing from then on, because only a confirmed allocation or one under a
  live hold does.\<close>

theorem checked_in_update_demotes:
  assumes "update_allocation c i k d actor reason req s = Inr (t, a)" and "find_reservation s i = Some r"
    and "r_status r = R_Checked_in" and "keys_ok al_id (allocations s) (next_id s)"
  shows "\<forall>x \<in> set (allocations t). al_id x = k \<longrightarrow> al_status x \<in> {A_Tentative, A_Released} \<and> \<not> reserving c t x"
  using assms(1)
proof (cases rule: update_allocation_Inr)
  case (1 r' a0 b s1)
  have r: "r' = r" using 1(1) assms(2) by simp
  obtain b' where hook: "allocation_hook s b = Inr b'" and s1: "s1 = s\<lparr>allocations := upd_row al_id (al_id b) (\<lambda>_. b') (allocations s)\<rparr>"
    using 1(7) by (auto simp: save_allocation_def bindE_eq_Inr)
  have b: "al_id b = k" "al_reservation b = i" "al_status b \<in> {A_Tentative, A_Released}"
    using own_allocation_Inr [OF 1(4)] 1(2) assms(3) r by (auto simp: 1(5) patched_def requested_status_def Let_def)
  have "\<not> live_hold c s i" using not_live_unless_hold [OF assms(2)] assms(3) by simp
  moreover have "reservations s1 = reservations s" by (simp add: s1)
  ultimately have "\<not> live_hold c t i" using 1(8) live_hold_cong [of s1 s c i] by (auto simp: mild_def)
  moreover have "x = b'" if "x \<in> set (allocations t)" "al_id x = k" for x
    using that b(1) unfolding 1(9) s1 by (auto simp: upd_row_def upd_where_def split: if_splits)
  ultimately show ?thesis
    using allocation_hook_Inr [OF hook] b by (auto simp: reserving_def same_place_def)
qed

text \<open>A checked-in guest's boat cannot be changed. Moving an allocation of a checked-in reservation away from
  a resource that is not a place always fails, because the old resource is marked dirty and only places
  may be; so the whole reallocation is rolled back.\<close>

theorem checked_in_asset_stuck:
  assumes "find_reservation s i = Some r" and "r_status r = R_Checked_in" and "find_row al_id k (allocations s) = Some a"
    and "al_resource a = Some old" and "old \<noteq> target"
    and "\<forall>x. find_row res_id old (resources s) = Some x \<longrightarrow> \<not> is_place s x"
  shows "\<not> (\<exists>t r'. reallocate c i k target actor None reason s = Inr (t, r'))"
proof
  assume "\<exists>t r'. reallocate c i k target actor None reason s = Inr (t, r')"
  then obtain t r' where "reallocate c i k target actor None reason s = Inr (t, r')" by blast
  then show False
  proof (cases rule: reallocate_Inr)
    case (stays current)
    with assms(3-5) show ?thesis by simp
  next
    case (moves primary current old' s1 s2 s3 a' partner b s4 s5 ch x s6 s7 ty m m2 e)
    have p: "primary = r" "current = a" "old' = Some old" using moves(1,2,6) assms(1,3,4) by simp_all
    have alone: "partner = None" "s2 = s1" "s4 = s3" "s6 = s5"
      using moves(8,10,12,15) by (auto simp: record_counterpart_def)
    have "catalogue s5 = catalogue s"
      using catalogue_release_row [OF moves(7)] catalogue_replace_checked [OF moves(9)] catalogue_move [OF moves(11)] alone
      by simp
    with assms(2,6) moves(13) show ?thesis
      by (auto simp: soil_def p alone update_housekeeping_def bindE_eq_Inr find_or_fail_Inr catalogue_def is_place_def
          split: if_splits)
  qed
qed

subsection \<open>Examples\<close>

definition later_cabin :: assignment_input where
  "later_cabin = \<lparr>ai_category = None, ai_resource = Some 4, ai_occurrence = None, ai_starts = 1200000,
     ai_ends = 1300000, ai_quantity = None\<rparr>"

lemmas assignment_exec = create_allocation_def assert_targets_def insert_allocation_def allocation_hook_def
  new_allocation_def reserves_capacity_def reservation_or_fail_def find_or_fail_def find_row_def or_default_def

lemma later_run:
  "succeeds_with (\<lambda>(t, a). allocations t = allocations cabin_db @ [a] \<and> al_id a = 20 \<and> al_resource a = Some 4
     \<and> al_status a = A_Confirmed) (create_allocation demo_ctx 6 later_cabin None None False cabin_db)"
  by (simp add: cabin_db_def next_guest_def demo_defs later_cabin_def assignment_exec availability_exec Let_def mutation_tables)

theorem staff_never_double_book_witness:
  "\<exists>t a b. staff_step\<^sup>*\<^sup>* (demo_ctx, cabin_db) (demo_ctx, t) \<and> a \<in> set (allocations t) \<and> b \<in> set (allocations t)
     \<and> al_id a \<noteq> al_id b \<and> al_resource a = al_resource b \<and> reserving demo_ctx t a \<and> reserving demo_ctx t b
     \<and> \<not> overlaps (al_starts a) (al_ends a) (al_starts b) (al_ends b)"
proof -
  let ?a = "demo_allocation 8 6 (Some 4) A_Confirmed"
  obtain t b where run: "create_allocation demo_ctx 6 later_cabin None None False cabin_db = Inr (t, b)"
    and al: "allocations t = allocations cabin_db @ [b]" and b: "al_id b = 20" "al_resource b = Some 4" "al_status b = A_Confirmed"
    using later_run by (auto elim: succeeds_withE)
  have "run_assignment demo_ctx (Assign 6 later_cabin None None False) cabin_db = Inr t" using run by simp
  moreover have "checked_command cabin_db (Assign 6 later_cabin None None False)"
    by (simp add: cabin_db_def find_row_def demo_reservation_def)
  ultimately have steps: "staff_step\<^sup>*\<^sup>* (demo_ctx, cabin_db) (demo_ctx, t)" by (intro r_into_rtranclp assignment)
  have start: "no_double_booking demo_ctx cabin_db"
    by (simp add: no_double_booking_def clash_def meets_def overlaps_def keys_ok_def cabin_db_def demo_db_def
        empty_db_def demo_allocation_def)
  have mem: "?a \<in> set (allocations t)" "b \<in> set (allocations t)" by (simp_all add: al cabin_db_def)
  have r: "reserving demo_ctx t ?a" "reserving demo_ctx t b" by (simp_all add: reserving_def demo_allocation_def b)
  have "al_id ?a \<noteq> al_id b" "al_resource ?a = Some 4" by (simp_all add: demo_allocation_def b)
  with staff_never_double_book [OF steps start mem _ r, of 4] b mem r steps show ?thesis by metis
qed

text \<open>A checked-in guest with a boat, and another guest who has the cabin confirmed.\<close>

definition guests_db :: db where
  "guests_db = demo_db\<lparr>reservations := [demo_reservation 6 R_Checked_in, demo_reservation 7 R_Confirmed],
     resources := [demo_resource 4 2 1, demo_resource 5 3 4, demo_resource 10 3 4],
     allocations := [demo_allocation 8 7 (Some 4) A_Confirmed,
       (demo_allocation 9 6 (Some 5) A_Confirmed)\<lparr>al_category := Some 3\<rparr>]\<rparr>"

definition same_cabin :: assignment_input where
  "same_cabin = later_cabin\<lparr>ai_starts := 864000, ai_ends := 1036800\<rparr>"

theorem checked_in_unchecked_witness:
  "no_double_booking demo_ctx guests_db
   \<and> (\<exists>t a. create_allocation demo_ctx 6 same_cabin None None True guests_db = Inr (t, a) \<and> \<not> no_double_booking demo_ctx t)"
proof -
  let ?r = "demo_reservation 6 R_Checked_in"
  have row: "find_reservation guests_db 6 = Some ?r" "r_status ?r = R_Checked_in"
    by (simp_all add: guests_db_def find_row_def demo_reservation_def)
  have targets: "assert_targets guests_db ?r (ai_category same_cabin) (ai_resource same_cabin) (ai_occurrence same_cabin) = Inr ()"
    by (simp add: assert_targets_def same_cabin_def later_cabin_def guests_db_def demo_resource_def demo_reservation_def)
  have "succeeds_with (\<lambda>(s1, a). al_starts a = 864000 \<and> al_ends a = 1036800)
      (insert_allocation (new_allocation ?r same_cabin) guests_db)"
    by (simp add: guests_db_def demo_defs same_cabin_def later_cabin_def assignment_exec)
  then obtain s1 a where ins: "insert_allocation (new_allocation ?r same_cabin) guests_db = Inr (s1, a)"
    and a: "al_starts a = 864000" "al_ends a = 1036800"
    by (auto elim: succeeds_withE)
  let ?b = "demo_allocation 8 7 (Some 4) A_Confirmed"
  have b: "?b \<in> set (allocations guests_db)" "al_status ?b = A_Confirmed" "al_resource ?b = ai_resource same_cabin"
      "al_resource ?b \<noteq> None" "al_id ?b < next_id guests_db" "meets a ?b"
    by (simp_all add: guests_db_def demo_db_def demo_allocation_def same_cabin_def later_cabin_def meets_def overlaps_def a)
  have "no_double_booking demo_ctx guests_db"
    by (simp add: no_double_booking_def clash_def keys_ok_def guests_db_def demo_db_def demo_allocation_def)
  with checked_in_unchecked [OF row targets ins, of demo_ctx None None True] b show ?thesis by blast
qed

theorem checked_in_update_demotes_witness:
  "\<exists>t a. update_allocation demo_ctx 6 9 \<lparr>ap_category = None, ap_resource = None, ap_occurrence = None, ap_starts = None,
       ap_ends = None, ap_quantity = Some 2, ap_status = None\<rparr> None None True guests_db = Inr (t, a)
     \<and> (\<forall>x \<in> set (allocations t). al_id x = 9 \<longrightarrow> \<not> reserving demo_ctx t x)"
proof -
  let ?d = "\<lparr>ap_category = None, ap_resource = None, ap_occurrence = None, ap_starts = None,
       ap_ends = None, ap_quantity = Some 2, ap_status = None\<rparr> :: assignment_patch"
  have "succeeds_with (\<lambda>_. True) (update_allocation demo_ctx 6 9 ?d None None True guests_db)"
    by (simp add: update_allocation_def guests_db_def demo_defs assignment_exec own_allocation_def patched_def
        requested_status_def assert_operational_def operationally_active_def save_allocation_def Let_def)
  then obtain t a where run: "update_allocation demo_ctx 6 9 ?d None None True guests_db = Inr (t, a)"
    by (auto elim: succeeds_withE)
  have row: "find_reservation guests_db 6 = Some (demo_reservation 6 R_Checked_in)"
      "r_status (demo_reservation 6 R_Checked_in) = R_Checked_in" "keys_ok al_id (allocations guests_db) (next_id guests_db)"
    by (simp_all add: guests_db_def find_row_def demo_reservation_def keys_ok_def demo_db_def demo_allocation_def)
  from checked_in_update_demotes [OF run row] run show ?thesis by blast
qed

theorem checked_in_asset_stuck_witness:
  "\<not> (\<exists>t r'. reallocate demo_ctx 6 9 10 (Some 1) None None guests_db = Inr (t, r'))"
proof -
  have "find_reservation guests_db 6 = Some (demo_reservation 6 R_Checked_in)"
      "r_status (demo_reservation 6 R_Checked_in) = R_Checked_in"
      "find_row al_id 9 (allocations guests_db) = Some ((demo_allocation 9 6 (Some 5) A_Confirmed)\<lparr>al_category := Some 3\<rparr>)"
      "al_resource ((demo_allocation 9 6 (Some 5) A_Confirmed)\<lparr>al_category := Some 3\<rparr>) = Some 5" "(5::nat) \<noteq> 10"
      "\<forall>x. find_row res_id 5 (resources guests_db) = Some x \<longrightarrow> \<not> is_place guests_db x"
    by (simp_all add: guests_db_def find_row_def demo_reservation_def demo_allocation_def demo_resource_def is_place_def demo_db_def)
  from checked_in_asset_stuck [OF this] show ?thesis .
qed

end
