(* ===== verification/Pricing.thy ===== *)
theory Pricing
  imports Promotions Tasks Availability
begin

text \<open>
  \<^verbatim>\<open>BookingQuoteService::preview\<close> and what it is made of: the search for free accommodation
  (\<^verbatim>\<open>AvailabilityQuery\<close>), the rate rule that governs a night, the price of a night, the lines for the
  program and the services, the deduction of promotions (\<^theory_text>\<open>Promotions\<close>) and the taxes. A day is
  counted from the epoch. Sums the code adds without a check are exact integers here, so the model speaks of
  totals within 64 bits. Descriptions, explanations and names are left out of the lines; rows whose order the
  code takes from a name or a sort column that is not modelled keep the order of their table.
\<close>

subsection \<open>The tariff\<close>

record group_tier =
  gt_minimum :: "int option"
  gt_adjustment :: "int option"

record rate_rule =
  rr_id :: id
  rr_version :: int
  rr_category :: "id option"
  rr_program :: "id option"
  rr_starts :: "day option"
  rr_ends :: "day option"
  rr_weekdays :: "int list"
  rr_price_type :: string
  rr_amount :: money
  rr_adult :: "money option"
  rr_child :: "money option"
  rr_infant :: "money option"
  rr_single_supplement :: money
  rr_group_tiers :: "group_tier list"
  rr_stay_adjustment :: int
  rr_minimum_stay :: int
  rr_maximum_stay :: "int option"
  rr_minimum_advance :: "int option"
  rr_maximum_advance :: "int option"
  rr_arrival_days :: "int list"
  rr_blackout :: bool
  rr_minimum_occupancy :: "int option"
  rr_maximum_occupancy :: "int option"
  rr_buyout_only :: bool
  rr_closed_to_arrival :: bool
  rr_closed_to_departure :: bool
  rr_stop_sell :: bool
  rr_priority :: int

record catalog_item =
  it_id :: id
  it_active :: bool
  it_currency :: string
  it_price :: money

record plan_service =
  ps_id :: id
  ps_version :: int
  ps_item :: catalog_item
  ps_selection :: string
  ps_basis :: string
  ps_amount :: "money option"
  ps_default_quantity :: int
  ps_maximum_quantity :: int
  ps_priority :: int
  ps_active :: bool

record rate_plan =
  rp_id :: id
  rp_property :: id
  rp_version :: int
  rp_state :: string
  rp_active :: bool
  rp_currency :: string
  rp_from :: "day option"
  rp_until :: "day option"
  rp_minimum_occupancy :: int
  rp_maximum_occupancy :: "int option"
  rp_deposit :: "deposit_policy option"
  rp_cancellation :: "policy_tier list option"
  rp_rules :: "rate_rule list"
  rp_services :: "plan_service list"

record tax_rule =
  tx_id :: id
  tx_property :: id
  tx_version :: int
  tx_state :: string
  tx_active :: bool
  tx_currency :: "string option"
  tx_from :: "day option"
  tx_until :: "day option"
  tx_priority :: int
  tx_calculation :: string
  tx_percentage :: "int option"
  tx_fixed :: "money option"
  tx_inclusive :: bool
  tx_allocation :: string
  tx_rounding_mode :: string
  tx_rounding_scope :: string

record 'p house_policy =
  hp_property :: id
  hp_active :: bool
  hp_default :: bool
  hp_policy :: 'p

record tariff =
  tf_plans :: "rate_plan list"
  tf_taxes :: "tax_rule list"
  tf_deposit_policies :: "deposit_policy house_policy list"
  tf_cancellation_policies :: "policy_tier list house_policy list"

text \<open>The order of the relations \<^verbatim>\<open>RatePlan::rules\<close> and \<^verbatim>\<open>RatePlan::services\<close>.\<close>

definition plan_rules :: "rate_plan \<Rightarrow> rate_rule list" where
  "plan_rules p = sort_key (\<lambda>r. - rr_priority r) (sort_key rr_id (rp_rules p))"

definition plan_services :: "rate_plan \<Rightarrow> plan_service list" where
  "plan_services p = sort_key ps_priority (sort_key ps_id (rp_services p))"

subsection \<open>AvailabilityQuery\<close>

record category_row =
  cr_category :: id
  cr_units :: int
  cr_maximum_occupancy :: int
  cr_available :: bool

record resource_row =
  rw_resource :: id
  rw_category :: id
  rw_capacity :: int
  rw_is_buyout :: bool
  rw_available :: bool

definition held_elsewhere ::
  "ctx \<Rightarrow> db \<Rightarrow> instant \<Rightarrow> instant \<Rightarrow> id option \<Rightarrow> allocation \<Rightarrow> bool" where
  "held_elsewhere c s starts ends excluded b \<longleftrightarrow>
     (case excluded of None \<Rightarrow> True | Some i \<Rightarrow> al_reservation b \<noteq> i)
     \<and> overlaps (al_starts b) (al_ends b) starts ends
     \<and> (al_status b = A_Confirmed \<or> (al_status b = A_Tentative \<and> live_hold c s (al_reservation b)))"

definition blocked_within :: "instant \<Rightarrow> instant \<Rightarrow> block \<Rightarrow> bool" where
  "blocked_within starts ends b \<longleftrightarrow> overlaps (blk_starts b) (blk_ends b) starts ends"

definition unavailable_resource_ids ::
  "ctx \<Rightarrow> db \<Rightarrow> id list \<Rightarrow> instant \<Rightarrow> instant \<Rightarrow> id option \<Rightarrow> id list" where
  "unavailable_resource_ids c s ids starts ends excluded =
     (if ids = [] then []
      else remdups
        (map blk_resource (filter (\<lambda>b. blk_resource b \<in> set ids \<and> blocked_within starts ends b) (blocks s))
         @ map (\<lambda>b. the (al_resource b))
             (filter (\<lambda>b. on_resources ids b \<and> held_elsewhere c s starts ends excluded b) (allocations s))))"

definition buyout_conflict :: "ctx \<Rightarrow> db \<Rightarrow> id \<Rightarrow> instant \<Rightarrow> instant \<Rightarrow> id option \<Rightarrow> bool" where
  "buyout_conflict c s p starts ends excluded \<longleftrightarrow>
     (let ids = map res_id (buyout_resources s p) in
      ids \<noteq> []
      \<and> ((\<exists>b \<in> set (blocks s). blk_resource b \<in> set ids \<and> blocked_within starts ends b)
         \<or> (\<exists>b \<in> set (allocations s). on_resources ids b \<and> held_elsewhere c s starts ends excluded b)))"

definition free_units ::
  "ctx \<Rightarrow> db \<Rightarrow> id \<Rightarrow> id list \<Rightarrow> instant \<Rightarrow> instant \<Rightarrow> int \<Rightarrow> id option \<Rightarrow> category \<Rightarrow> resource list" where
  "free_units c s p ids starts ends occupancy excluded k =
     filter (\<lambda>r. \<not> buyout_conflict c s p starts ends excluded
         \<and> res_id r \<notin> set (unavailable_resource_ids c s ids starts ends excluded)
         \<and> occupancy \<le> res_capacity r)
       (active_inventory s (cat_id k))"

definition for_stay ::
  "ctx \<Rightarrow> db \<Rightarrow> id \<Rightarrow> instant \<Rightarrow> instant \<Rightarrow> int \<Rightarrow> id option \<Rightarrow> id option
   \<Rightarrow> (category_row list \<times> resource_row list) res" where
  "for_stay c s p starts ends occupancy category excluded =
     (if ends \<le> starts then Inl (Validation ''ends_at'')
      else if occupancy < 1 then Inl (Validation ''adults'')
      else
        let ks = filter (\<lambda>k. cat_property k = p \<and> cat_counts_as_stay k \<and> cat_active k
                   \<and> (case category of None \<Rightarrow> True | Some i \<Rightarrow> cat_id k = i)) (categories s);
            ids = map res_id (concat (map (\<lambda>k. active_inventory s (cat_id k)) ks));
            free = free_units c s p ids starts ends occupancy excluded in
        Inr (map (\<lambda>k. \<lparr>cr_category = cat_id k, cr_units = int (length (free k)),
                 cr_maximum_occupancy = fold (\<lambda>r. max (res_capacity r)) (free k) 0,
                 cr_available = free k \<noteq> []\<rparr>) ks,
             concat (map (\<lambda>k. map (\<lambda>r. \<lparr>rw_resource = res_id r, rw_category = cat_id k,
                 rw_capacity = res_capacity r, rw_is_buyout = is_buyout r,
                 rw_available = res_id r \<in> res_id ` set (free k)\<rparr>) (active_inventory s (cat_id k))) ks)))"

subsection \<open>The rule that governs a night\<close>

definition iso_weekday :: "day \<Rightarrow> int" where
  "iso_weekday d = (d + 3) mod 7 + 1"

text \<open>What the rules of a plan are asked about: the stay, and how many days ahead it is booked.\<close>

record stay_terms =
  st_category :: id
  st_program :: "id option"
  st_arrival :: day
  st_nights :: int
  st_occupancy :: int
  st_buyout :: bool
  st_advance :: int

definition governs :: "stay_terms \<Rightarrow> day \<Rightarrow> rate_rule \<Rightarrow> bool" where
  "governs t date r \<longleftrightarrow>
     (rr_category r = None \<or> rr_category r = Some (st_category t))
     \<and> (rr_program r = None \<or> rr_program r = st_program t)
     \<and> (case rr_starts r of None \<Rightarrow> True | Some d \<Rightarrow> d \<le> date)
     \<and> (case rr_ends r of None \<Rightarrow> True | Some d \<Rightarrow> date \<le> d)
     \<and> (rr_weekdays r = [] \<or> iso_weekday date \<in> set (rr_weekdays r))
     \<and> (\<not> rr_buyout_only r \<or> st_buyout t)"

definition below :: "int \<Rightarrow> int option \<Rightarrow> bool" where
  "below n limit = (case limit of None \<Rightarrow> False | Some l \<Rightarrow> n < l)"

definition above :: "int \<Rightarrow> int option \<Rightarrow> bool" where
  "above n limit = (case limit of None \<Rightarrow> False | Some l \<Rightarrow> l < n)"

definition forbids :: "stay_terms \<Rightarrow> bool \<Rightarrow> bool \<Rightarrow> rate_rule \<Rightarrow> bool" where
  "forbids t arrival departure r \<longleftrightarrow>
     rr_blackout r \<or> rr_stop_sell r
     \<or> st_nights t < rr_minimum_stay r \<or> above (st_nights t) (rr_maximum_stay r)
     \<or> below (st_advance t) (rr_minimum_advance r) \<or> above (st_advance t) (rr_maximum_advance r)
     \<or> below (st_occupancy t) (rr_minimum_occupancy r) \<or> above (st_occupancy t) (rr_maximum_occupancy r)
     \<or> (arrival \<and> rr_arrival_days r \<noteq> [] \<and> iso_weekday (st_arrival t) \<notin> set (rr_arrival_days r))
     \<or> (arrival \<and> rr_closed_to_arrival r)
     \<or> (departure \<and> rr_closed_to_departure r)"

definition rule_for :: "rate_rule list \<Rightarrow> stay_terms \<Rightarrow> day \<Rightarrow> bool \<Rightarrow> bool \<Rightarrow> rate_rule res" where
  "rule_for rules t date arrival departure = (case find (governs t date) rules of
     None \<Rightarrow> Inl (Validation ''rate_plan_id'')
   | Some r \<Rightarrow> if forbids t arrival departure r then Inl (Validation ''rate_plan_id'') else Inr r)"

subsection \<open>The price of a night\<close>

definition base_price :: "rate_rule \<Rightarrow> int \<Rightarrow> int \<Rightarrow> int \<Rightarrow> (int \<times> money \<times> money \<times> string) res" where
  "base_price r adults children infants =
     (if rr_adult r \<noteq> None \<or> rr_child r \<noteq> None \<or> rr_infant r \<noteq> None then
        let adult_unit = or_default (rr_adult r) (rr_amount r) in
        bindE (checked_multiply adult_unit adults ''adults'') (\<lambda>a.
        bindE (checked_multiply (or_default (rr_child r) adult_unit) children ''children'') (\<lambda>ch.
        bindE (checked_multiply (or_default (rr_infant r) 0) infants ''infants'') (\<lambda>i.
        bindE (checked_add [a, ch, i, if adults = 1 then rr_single_supplement r else 0] ''guest pricing'') (\<lambda>amount.
        let quantity = adults + children + infants in
        Inr (quantity, if 0 < quantity then intdiv amount quantity else 0, amount, ''guest_categories'')))))
      else
        let per_person = (rr_price_type r = ''per_person'');
            quantity = (if per_person then adults + children else 1) in
        bindE (checked_multiply (rr_amount r) quantity ''guest pricing'') (\<lambda>amount.
        Inr (quantity, rr_amount r, amount, if per_person then ''per_person_night'' else ''per_night'')))"

definition group_tier_for :: "rate_rule \<Rightarrow> int \<Rightarrow> group_tier option" where
  "group_tier_for r guests =
     find (\<lambda>t. or_default (gt_minimum t) php_int_max \<le> guests)
       (sort_key (\<lambda>t. - or_default (gt_minimum t) 0) (rr_group_tiers r))"

definition adjusted :: "money \<Rightarrow> int \<Rightarrow> string \<Rightarrow> money res" where
  "adjusted amount basis_points field =
     bindE (basis_point_adjustment amount basis_points field) (\<lambda>d. checked_add [amount, d] field)"

definition nightly_price :: "rate_rule \<Rightarrow> int \<Rightarrow> int \<Rightarrow> int \<Rightarrow> (int \<times> money \<times> money \<times> string) res" where
  "nightly_price r adults children infants =
     bindE (base_price r adults children infants) (\<lambda>(quantity, unit_amount, base, basis).
     bindE (case group_tier_for r (adults + children) of
              None \<Rightarrow> Inr base
            | Some t \<Rightarrow> adjusted base (or_default (gt_adjustment t) 0) ''group tier'') (\<lambda>grouped.
     bindE (if rr_stay_adjustment r \<noteq> 0 then adjusted grouped (rr_stay_adjustment r) ''length_of_stay''
            else Inr grouped) (\<lambda>amount.
     if amount < 0 \<or> php_int_max < amount then Inl (Validation ''rate_plan_id'')
     else Inr (quantity, unit_amount, amount, basis))))"

subsection \<open>Lines\<close>

record quote_line =
  ql_type :: string
  ql_service_on :: "day option"
  ql_basis :: string
  ql_order :: int
  ql_quantity :: int
  ql_unit :: money
  ql_pre :: money
  ql_net :: money
  ql_tax :: money
  ql_gross :: money
  ql_post :: money
  ql_rounding :: string
  ql_meta :: meta

definition gross_total :: "quote_line list \<Rightarrow> money" where
  "gross_total ls = sum_list (map ql_gross ls)"

text \<open>A line without tax, after the lines so far.\<close>

definition price_line ::
  "string \<Rightarrow> day option \<Rightarrow> string \<Rightarrow> int \<Rightarrow> int \<Rightarrow> money \<Rightarrow> money \<Rightarrow> string \<Rightarrow> meta \<Rightarrow> quote_line list
   \<Rightarrow> quote_line list" where
  "price_line type service_on basis order quantity unit_amount amount rounding metadata ls =
     ls @ [\<lparr>ql_type = type, ql_service_on = service_on, ql_basis = basis, ql_order = order,
        ql_quantity = quantity, ql_unit = unit_amount, ql_pre = gross_total ls, ql_net = amount,
        ql_tax = 0, ql_gross = amount, ql_post = gross_total ls + amount, ql_rounding = rounding,
        ql_meta = metadata\<rparr>]"

definition night_line ::
  "rate_plan \<Rightarrow> stay_terms \<Rightarrow> int \<Rightarrow> int \<Rightarrow> int \<Rightarrow> int \<Rightarrow> quote_line list \<Rightarrow> quote_line list res" where
  "night_line plan t adults children infants night ls =
     (let service_on = st_arrival t + night in
      bindE (rule_for (plan_rules plan) t service_on (night = 0) False) (\<lambda>r.
      bindE (nightly_price r adults children infants) (\<lambda>(quantity, unit_amount, amount, basis).
      Inr (price_line ''nightly_rate'' (Some service_on) basis (100 + night) (quantity * 1000) unit_amount amount
             ''half_up''
             [(''rate_plan_id'', J_Id (rp_id plan)), (''rate_plan_version'', J_Int (rp_version plan)),
              (''rate_rule_id'', J_Id (rr_id r)), (''rate_rule_version'', J_Int (rr_version r)),
              (''price_type'', J_Str (rr_price_type r)), (''business_date'', J_Int service_on)] ls))))"

definition program_line :: "rate_plan \<Rightarrow> stay_terms \<Rightarrow> program option \<Rightarrow> quote_line list \<Rightarrow> quote_line list res" where
  "program_line plan t program ls = (case program of
     None \<Rightarrow> Inr ls
   | Some g \<Rightarrow>
     if pg_price g \<le> 0 then Inr ls
     else if pg_currency g \<noteq> rp_currency plan then Inl (Validation ''program_id'')
     else Inr (price_line ''service'' (Some (st_arrival t)) ''per_program'' 200 1000 (pg_price g) (pg_price g)
                 ''none'' [(''program_id'', J_Id (pg_id g))] ls))"

text \<open>The requested services, by id; of two entries for one item the later counts. An entry may carry no quantity.\<close>

type_synonym selection = "(id \<times> int option) list"

definition selected_service :: "selection \<Rightarrow> id \<Rightarrow> int option option" where
  "selected_service chosen i = map_of (rev chosen) i"

definition service_line ::
  "rate_plan \<Rightarrow> stay_terms \<Rightarrow> selection \<Rightarrow> plan_service \<Rightarrow> quote_line list \<Rightarrow> quote_line list res" where
  "service_line plan t chosen v ls =
     (if \<not> it_active (ps_item v) \<or> it_currency (ps_item v) \<noteq> rp_currency plan
      then Inl (Validation ''optional_services'')
      else
        let selected = selected_service chosen (it_id (ps_item v)) in
        if ps_selection v = ''optional'' \<and> selected = None then Inr ls
        else
          let requested = or_default (or_default selected None) (ps_default_quantity v) in
          if requested < 1 \<or> ps_maximum_quantity v < requested then Inl (Validation ''optional_services'')
          else
            bindE (if ps_basis v = ''per_night'' then Inr (st_nights t)
                   else if ps_basis v = ''per_person'' then Inr (st_occupancy t)
                   else if ps_basis v = ''per_person_night''
                   then checked_multiply (st_occupancy t) (st_nights t) ''optional_services''
                   else Inr 1) (\<lambda>multiplier.
            bindE (checked_multiply requested multiplier ''optional_services'') (\<lambda>quantity.
            let unit_amount = or_default (ps_amount v) (it_price (ps_item v));
                is_included = (ps_selection v = ''included'') in
            bindE (if is_included then Inr 0 else checked_multiply unit_amount quantity ''optional_services'') (\<lambda>amount.
            Inr (price_line (if is_included then ''included_service'' else ''optional_service'') None (ps_basis v)
                   (220 + ps_priority v) (quantity * 1000) (if is_included then 0 else unit_amount) amount ''none''
                   [(''rate_plan_service_id'', J_Id (ps_id v)), (''service_version'', J_Int (ps_version v)),
                    (''catalog_item_id'', J_Id (it_id (ps_item v))), (''selection_type'', J_Str (ps_selection v))]
                   ls)))))"

text \<open>The line of a promotion, with the facts of its use.\<close>

definition discount_quote_line :: "discount_line \<Rightarrow> promo_fact \<Rightarrow> quote_line" where
  "discount_quote_line d f =
     \<lparr>ql_type = ''discount'', ql_service_on = None, ql_basis = ''eligible_subtotal'', ql_order = dl_order d,
      ql_quantity = 1000, ql_unit = dl_amount d, ql_pre = dl_pre d, ql_net = dl_amount d, ql_tax = 0,
      ql_gross = dl_amount d, ql_post = dl_post d, ql_rounding = ''half_up'',
      ql_meta = [(''promotion_id'', J_Id (pf_promotion f)), (''promotion_version'', J_Int (pf_version f)),
        (''voucher_id'', j_opt J_Id (pf_voucher f)), (''priority'', J_Int (pf_priority f))]\<rparr>"

subsection \<open>Taxes\<close>

text \<open>
  Rounding per line: the discount is shared among the lines in proportion to their gross amount, rounded
  down, and the last line takes what is left of it.
\<close>

fun line_taxes ::
  "int \<Rightarrow> int \<Rightarrow> string \<Rightarrow> money \<Rightarrow> money \<Rightarrow> money \<Rightarrow> money list \<Rightarrow> money list res" where
  "line_taxes percentage denominator mode discount whole remaining [] = Inr []"
| "line_taxes percentage denominator mode discount whole remaining (gross # rest) =
     bindE (if rest = [] then Inr remaining
            else bindE (checked_multiply discount gross ''tax'') (\<lambda>p. Inr (intdiv p whole))) (\<lambda>allocated.
     bindE (checked_multiply (gross - allocated) percentage ''tax'') (\<lambda>p.
     bindE (round_ratio p denominator mode) (\<lambda>tax.
     bindE (line_taxes percentage denominator mode discount whole (remaining - allocated) rest) (\<lambda>taxes.
     Inr (tax # taxes)))))"

definition tax_for_rule :: "tax_rule \<Rightarrow> quote_line list \<Rightarrow> money \<Rightarrow> money \<Rightarrow> money res" where
  "tax_for_rule r ls taxable_base discount =
     (if tx_calculation r = ''fixed'' then Inr (or_default (tx_fixed r) 0)
      else
        let percentage = or_default (tx_percentage r) 0;
            denominator = (if tx_inclusive r then 10000 + percentage else 10000) in
        if tx_rounding_scope r \<noteq> ''line'' then
          bindE (checked_multiply taxable_base percentage ''tax'') (\<lambda>p.
          round_ratio p denominator (tx_rounding_mode r))
        else
          let grosses = filter (\<lambda>g. 0 < g) (map ql_gross ls) in
          if grosses = [] \<or> taxable_base = 0 then Inr 0
          else
            bindE (line_taxes percentage denominator (tx_rounding_mode r) discount (sum_list grosses) discount grosses)
              (\<lambda>taxes. checked_add taxes ''tax''))"

record tax_result =
  tr_tax :: money
  tr_exclusive :: money
  tr_lines :: "quote_line list"

definition tax_line :: "tax_rule \<Rightarrow> money \<Rightarrow> money \<Rightarrow> quote_line" where
  "tax_line r tax running =
     \<lparr>ql_type = ''tax'', ql_service_on = None,
      ql_basis = (if tx_allocation r = ''after_tax'' then ''pre_discount_total'' else ''discounted_total''),
      ql_order = 400 + tx_priority r, ql_quantity = 1000,
      ql_unit = (if tx_inclusive r then - tax else 0), ql_pre = running,
      ql_net = (if tx_inclusive r then - tax else 0), ql_tax = tax,
      ql_gross = (if tx_inclusive r then 0 else tax), ql_post = running, ql_rounding = tx_rounding_mode r,
      ql_meta = [(''tax_rule_id'', J_Id (tx_id r)), (''tax_rule_version'', J_Int (tx_version r)),
        (''currency'', j_opt J_Str (tx_currency r)), (''inclusive'', J_Bool (tx_inclusive r)),
        (''rounding_scope'', J_Str (tx_rounding_scope r)),
        (''taxable_discount_allocation'', J_Str (tx_allocation r))]\<rparr>"

definition add_tax :: "quote_line list \<Rightarrow> money \<Rightarrow> money \<Rightarrow> tax_rule \<Rightarrow> tax_result \<Rightarrow> tax_result res" where
  "add_tax ls base discount r acc =
     (let taxable = base - discount;
          rule_base = (if tx_allocation r = ''after_tax'' then base else taxable) in
      bindE (tax_for_rule r ls rule_base (base - rule_base)) (\<lambda>tax.
      bindE (checked_add [tr_tax acc, tax] ''tax'') (\<lambda>total.
      bindE (if tx_inclusive r then Inr (tr_exclusive acc)
             else checked_add [tr_exclusive acc, tax] ''tax'') (\<lambda>exclusive.
      Inr \<lparr>tr_tax = total, tr_exclusive = exclusive,
           tr_lines = tr_lines acc @ [tax_line r tax (taxable + exclusive)]\<rparr>))))"

definition tax_rules_for :: "tariff \<Rightarrow> id \<Rightarrow> string \<Rightarrow> day \<Rightarrow> day \<Rightarrow> tax_rule list" where
  "tax_rules_for tf p currency arrival departure =
     sort_key (\<lambda>r. - tx_priority r)
       (filter (\<lambda>r. tx_property r = p \<and> tx_active r \<and> tx_state r = ''published''
            \<and> (tx_currency r = None \<or> tx_currency r = Some (upper currency))
            \<and> (case tx_from r of None \<Rightarrow> True | Some d \<Rightarrow> d \<le> arrival)
            \<and> (case tx_until r of None \<Rightarrow> True | Some d \<Rightarrow> departure - 1 \<le> d)) (tf_taxes tf))"

end
