(* ===== verification/Quoting.thy ===== *)
theory Quoting
  imports Pricing
begin

text \<open>
  \<^verbatim>\<open>BookingQuoteService::preview\<close>: from the request of a guest or of staff to a priced offer. The checks
  run in the order of the code, so the error of a refused request is the one the code raises first.
\<close>

subsection \<open>The request\<close>

text \<open>
  What the surroundings of a quote provide: the request with its clock, the keyed hashes of voucher codes and
  session ids, the session of the web request (if it has one) with the promotion session id stored in it, the
  random id a new one would get, the configured life time and the hash of a quote's canonical text.
\<close>

record quote_ctx =
  quote_at :: ctx
  code_hash :: "string \<Rightarrow> string option"
  session_hmac :: "string \<Rightarrow> string"
  web_session :: "string option option"
  random_session :: string
  quote_ttl_minutes :: int
  quote_digest :: "json \<Rightarrow> string"

record quote_input =
  qi_property :: "id option"
  qi_category :: "id option"
  qi_plan :: "id option"
  qi_resource :: "id option"
  qi_program :: "id option"
  qi_starts :: "instant option"
  qi_ends :: "instant option"
  qi_adults :: "int option"
  qi_children :: "int option"
  qi_infants :: "int option"
  qi_buyout :: bool
  qi_services :: selection
  qi_voucher_code :: "string option"
  qi_voucher_id :: "id option"
  qi_session_id :: "string option"
  qi_session_hash :: "string option"
  qi_amendment_of :: "id option"

text \<open>The request after its first checks.\<close>

record party =
  pt_property :: id
  pt_category :: id
  pt_plan :: id
  pt_starts :: instant
  pt_ends :: instant
  pt_adults :: int
  pt_children :: int
  pt_infants :: int

definition occupancy :: "party \<Rightarrow> int" where
  "occupancy g = pt_adults g + pt_children g"

definition check_party :: "ctx \<Rightarrow> quote_input \<Rightarrow> party res" where
  "check_party c inp = (case (qi_starts inp, qi_ends inp) of
     (None, _) \<Rightarrow> Inl (Validation ''starts_at'')
   | (Some _, None) \<Rightarrow> Inl (Validation ''ends_at'')
   | (Some starts, Some ends) \<Rightarrow>
     let adults = or_default (qi_adults inp) 1; children = or_default (qi_children inp) 0;
         infants = or_default (qi_infants inp) 0 in
     if (case qi_property inp of None \<Rightarrow> False | Some p \<Rightarrow> \<not> can_access_property c p)
     then Inl (Validation ''property_id'')
     else (case (qi_property inp, qi_category inp, qi_plan inp) of
       (Some p, Some k, Some plan) \<Rightarrow>
         if ends \<le> starts then Inl (Validation ''ends_at'')
         else if adults < 1 \<or> children < 0 \<or> infants < 0 \<or> 1000 < adults + children
         then Inl (Validation ''adults'')
         else Inr \<lparr>pt_property = p, pt_category = k, pt_plan = plan, pt_starts = starts, pt_ends = ends,
                pt_adults = adults, pt_children = children, pt_infants = infants\<rparr>
     | _ \<Rightarrow> Inl (Validation ''rate_plan_id'')))"

subsection \<open>The place and the plan\<close>

definition or_fail :: "string \<Rightarrow> 'a option \<Rightarrow> 'a res" where
  "or_fail table x = (case x of None \<Rightarrow> Inl (NotFound table) | Some v \<Rightarrow> Inr v)"

definition choose_place :: "ctx \<Rightarrow> db \<Rightarrow> quote_input \<Rightarrow> party \<Rightarrow> (category \<times> resource option) res" where
  "choose_place c s inp g =
     bindE (or_fail ''properties'' (find (\<lambda>p. prop_id p = pt_property g \<and> prop_active p) (properties s))) (\<lambda>_.
     bindE (or_fail ''resource_categories'' (find (\<lambda>k. cat_id k = pt_category g \<and> cat_property k = pt_property g
              \<and> cat_counts_as_stay k \<and> cat_active k) (categories s))) (\<lambda>k.
     bindE (case qi_resource inp of
              None \<Rightarrow> Inr None
            | Some i \<Rightarrow> bindE (or_fail ''resources'' (find (\<lambda>r. res_id r = i \<and> res_property r = pt_property g
                \<and> res_category r = cat_id k \<and> res_active r) (resources s))) (\<lambda>r. Inr (Some r))) (\<lambda>place.
     if (case place of None \<Rightarrow> False | Some r \<Rightarrow> res_capacity r < occupancy g)
     then Inl (Validation ''resource_id'')
     else if (case qi_amendment_of inp of None \<Rightarrow> False | Some i \<Rightarrow>
       \<not> (\<exists>r \<in> set (reservations s). r_id r = i \<and> r_property r = pt_property g))
     then Inl (Validation ''reservation_id'')
     else
       bindE (for_stay c s (pt_property g) (pt_starts g) (pt_ends g) (occupancy g) (Some (cat_id k))
                (qi_amendment_of inp)) (\<lambda>(kinds, places).
       (case place of
          Some r \<Rightarrow>
            (case find (\<lambda>w. rw_resource w = res_id r) places of
               Some w \<Rightarrow> if rw_available w then Inr (k, place) else Inl (Validation ''resource_id'')
             | None \<Rightarrow> Inl (Validation ''resource_id''))
        | None \<Rightarrow>
            (case find (\<lambda>w. cr_category w = cat_id k) kinds of
               Some w \<Rightarrow> if cr_available w then Inr (k, None) else Inl (Validation ''resource_category_id'')
             | None \<Rightarrow> Inl (Validation ''resource_category_id'')))))))"

definition choose_plan :: "tariff \<Rightarrow> party \<Rightarrow> day \<Rightarrow> day \<Rightarrow> rate_plan res" where
  "choose_plan tf g arrival departure =
     bindE (or_fail ''rate_plans'' (find (\<lambda>p. rp_id p = pt_plan g \<and> rp_property p = pt_property g
              \<and> rp_active p \<and> rp_state p = ''published'') (tf_plans tf))) (\<lambda>plan.
     if below arrival (rp_from plan) \<or> above (departure - 1) (rp_until plan)
     then Inl (Validation ''rate_plan_id'')
     else if occupancy g < rp_minimum_occupancy plan \<or> above (occupancy g) (rp_maximum_occupancy plan)
     then Inl (Validation ''adults'')
     else if departure - arrival < 1 then Inl (Validation ''ends_at'')
     else Inr plan)"

subsection \<open>The lines before promotions and taxes\<close>

definition terms_of :: "ctx \<Rightarrow> quote_input \<Rightarrow> party \<Rightarrow> category \<Rightarrow> stay_terms" where
  "terms_of c inp g k =
     (let today = local_day c (pt_property g); arrival = today (pt_starts g) in
      \<lparr>st_category = cat_id k, st_program = qi_program inp, st_arrival = arrival,
       st_nights = today (pt_ends g) - arrival, st_occupancy = occupancy g, st_buyout = qi_buyout inp,
       st_advance = arrival - today (clock c)\<rparr>)"

definition chosen_program :: "db \<Rightarrow> quote_input \<Rightarrow> party \<Rightarrow> program option res" where
  "chosen_program s inp g = (case qi_program inp of
     None \<Rightarrow> Inr None
   | Some i \<Rightarrow> bindE (or_fail ''programs'' (find (\<lambda>x. pg_id x = i \<and> pg_property x = pt_property g \<and> pg_active x)
       (programs s))) (\<lambda>x. Inr (Some x)))"

definition base_lines ::
  "db \<Rightarrow> quote_input \<Rightarrow> party \<Rightarrow> rate_plan \<Rightarrow> stay_terms \<Rightarrow> (program option \<times> quote_line list) res" where
  "base_lines s inp g plan t =
     bindE (foldE (night_line plan t (pt_adults g) (pt_children g) (pt_infants g)) [0..st_nights t - 1] []) (\<lambda>nights.
     bindE (rule_for (plan_rules plan) t (st_arrival t + st_nights t) False True) (\<lambda>_.
     bindE (chosen_program s inp g) (\<lambda>program.
     bindE (program_line plan t program nights) (\<lambda>ls.
     bindE (foldE (service_line plan t (qi_services inp)) (filter ps_active (plan_services plan)) ls) (\<lambda>all.
     Inr (program, all))))))"

subsection \<open>The offer\<close>

record quote_calculation =
  cq_property :: id
  cq_plan :: id
  cq_plan_version :: int
  cq_category :: id
  cq_resource :: "id option"
  cq_program :: "id option"
  cq_starts :: instant
  cq_ends :: instant
  cq_adults :: int
  cq_children :: int
  cq_infants :: int
  cq_services :: selection
  cq_voucher :: "id option"
  cq_session :: "string option"
  cq_amendment_of :: "id option"
  cq_currency :: string
  cq_subtotal :: money
  cq_discount :: money
  cq_tax :: money
  cq_total :: money
  cq_deposit :: "deposit_policy option"
  cq_cancellation :: "policy_tier list option"
  cq_promotions :: "promo_fact list"
  cq_arrival :: day
  cq_departure :: day
  cq_expires :: instant
  cq_lines :: "quote_line list"

definition promo_session :: "quote_ctx \<Rightarrow> quote_input \<Rightarrow> string option" where
  "promo_session x inp =
     (if not_empty (qi_session_id inp) \<or> not_empty (qi_session_hash inp) then qi_session_id inp
      else (case web_session x of
        None \<Rightarrow> qi_session_id inp
      | Some stored \<Rightarrow> Some (case stored of
          None \<Rightarrow> random_session x
        | Some i \<Rightarrow> if length i < 16 then random_session x else i)))"

definition promotion_input :: "quote_ctx \<Rightarrow> quote_input \<Rightarrow> party \<Rightarrow> stay_terms \<Rightarrow> promo_input" where
  "promotion_input x inp g t =
     \<lparr>pi_property = pt_property g, pi_rate_plan = Some (pt_plan g), pi_category = Some (pt_category g),
      pi_program = qi_program inp, pi_nights = st_nights t, pi_voucher_code = qi_voucher_code inp,
      pi_voucher_id = qi_voucher_id inp, pi_amendment_of = qi_amendment_of inp,
      pi_session_hash = qi_session_hash inp, pi_session_id = promo_session x inp\<rparr>"

definition house_default :: "id \<Rightarrow> 'p house_policy list \<Rightarrow> 'p option" where
  "house_default p hs =
     map_option hp_policy (find (\<lambda>h. hp_property h = p \<and> hp_active h \<and> hp_default h) hs)"

text \<open>The requested services as they are stored: one entry per item.\<close>

definition distinct_selection :: "selection \<Rightarrow> selection" where
  "distinct_selection chosen =
     map (\<lambda>i. (i, or_default (selected_service chosen i) None)) (rev (remdups (rev (map fst chosen))))"

text \<open>The amounts: the lines before promotions, the discount, and the taxes on both.\<close>

definition offer_lines :: "quote_line list \<Rightarrow> discount_result \<Rightarrow> tax_result \<Rightarrow> quote_line list" where
  "offer_lines ls d t = ls @ map2 discount_quote_line (dr_lines d) (dr_snapshot d) @ tr_lines t"

definition offer ::
  "quote_ctx \<Rightarrow> tariff \<Rightarrow> quote_input \<Rightarrow> party \<Rightarrow> category \<Rightarrow> resource option \<Rightarrow> rate_plan \<Rightarrow> stay_terms
   \<Rightarrow> program option \<Rightarrow> quote_line list \<Rightarrow> discount_result \<Rightarrow> tax_result \<Rightarrow> quote_calculation" where
  "offer x tf inp g k place plan t program ls d taxes =
     (let base = gross_total ls in
      \<lparr>cq_property = pt_property g, cq_plan = rp_id plan, cq_plan_version = rp_version plan,
       cq_category = cat_id k, cq_resource = map_option res_id place, cq_program = map_option pg_id program,
       cq_starts = pt_starts g, cq_ends = pt_ends g, cq_adults = pt_adults g, cq_children = pt_children g,
       cq_infants = pt_infants g, cq_services = distinct_selection (qi_services inp), cq_voucher = dr_voucher d,
       cq_session = dr_session d, cq_amendment_of = qi_amendment_of inp, cq_currency = upper (rp_currency plan),
       cq_subtotal = base - dr_discount d - (tr_tax taxes - tr_exclusive taxes),
       cq_discount = dr_discount d, cq_tax = tr_tax taxes,
       cq_total = base - dr_discount d + tr_exclusive taxes,
       cq_deposit = first_some (rp_deposit plan) (house_default (pt_property g) (tf_deposit_policies tf)),
       cq_cancellation = first_some (rp_cancellation plan) (house_default (pt_property g) (tf_cancellation_policies tf)),
       cq_promotions = dr_snapshot d, cq_arrival = st_arrival t, cq_departure = st_arrival t + st_nights t,
       cq_expires = clock (quote_at x) + quote_ttl_minutes x * 60, cq_lines = offer_lines ls d taxes\<rparr>)"

definition preview :: "quote_ctx \<Rightarrow> tariff \<Rightarrow> db \<Rightarrow> quote_input \<Rightarrow> quote_calculation res" where
  "preview x tf s inp =
     (let c = quote_at x in
      bindE (check_party c inp) (\<lambda>g.
      bindE (choose_place c s inp g) (\<lambda>(k, place).
      let t = terms_of c inp g k in
      bindE (choose_plan tf g (st_arrival t) (st_arrival t + st_nights t)) (\<lambda>plan.
      bindE (base_lines s inp g plan t) (\<lambda>(program, ls).
      bindE (eligible c s (code_hash x) (session_hmac x) (promotion_input x inp g t) (upper (rp_currency plan))
               (st_arrival t)) (\<lambda>es.
      bindE (calculate_discounts es (gross_total ls)) (\<lambda>d.
      bindE (foldE (add_tax ls (gross_total ls) (dr_discount d))
               (tax_rules_for tf (pt_property g) (rp_currency plan) (st_arrival t) (st_arrival t + st_nights t))
               \<lparr>tr_tax = 0, tr_exclusive = 0, tr_lines = []\<rparr>) (\<lambda>taxes.
      Inr (offer x tf inp g k place plan t program ls d taxes)))))))))"

subsection \<open>A small tariff\<close>

text \<open>The request the examples price: two nights of 80000 for one adult, a breakfast per night, ten percent off and
  19 percent tax on what is left.\<close>

definition demo_night :: "id \<Rightarrow> money \<Rightarrow> int \<Rightarrow> int option \<Rightarrow> rate_rule" where
  "demo_night i amount minimum maximum =
     \<lparr>rr_id = i, rr_version = 1, rr_category = None, rr_program = None, rr_starts = None, rr_ends = None,
      rr_weekdays = [], rr_price_type = ''per_night'', rr_amount = amount, rr_adult = None, rr_child = None,
      rr_infant = None, rr_single_supplement = 0, rr_group_tiers = [], rr_stay_adjustment = 0,
      rr_minimum_stay = minimum, rr_maximum_stay = maximum, rr_minimum_advance = None, rr_maximum_advance = None,
      rr_arrival_days = [], rr_blackout = False, rr_minimum_occupancy = None, rr_maximum_occupancy = None,
      rr_buyout_only = False, rr_closed_to_arrival = False, rr_closed_to_departure = False, rr_stop_sell = False,
      rr_priority = 0\<rparr>"

definition demo_plan :: "rate_rule list \<Rightarrow> rate_plan" where
  "demo_plan rules =
     \<lparr>rp_id = 50, rp_property = 1, rp_version = 1, rp_state = ''published'', rp_active = True,
      rp_currency = ''COP'', rp_from = None, rp_until = None, rp_minimum_occupancy = 1,
      rp_maximum_occupancy = None, rp_deposit = None, rp_cancellation = Some sample_tiers, rp_rules = rules,
      rp_services = [\<lparr>ps_id = 53, ps_version = 1,
        ps_item = \<lparr>it_id = 54, it_active = True, it_currency = ''COP'', it_price = 5000\<rparr>,
        ps_selection = ''optional'', ps_basis = ''per_night'', ps_amount = None, ps_default_quantity = 1,
        ps_maximum_quantity = 2, ps_priority = 0, ps_active = True\<rparr>]\<rparr>"

definition demo_tax :: "string \<Rightarrow> tax_rule" where
  "demo_tax scope = \<lparr>tx_id = 60, tx_property = 1, tx_version = 1, tx_state = ''published'', tx_active = True,
     tx_currency = None, tx_from = None, tx_until = None, tx_priority = 0, tx_calculation = ''percentage'',
     tx_percentage = Some 1900, tx_fixed = None, tx_inclusive = False, tx_allocation = ''before_tax'',
     tx_rounding_mode = ''half_up'', tx_rounding_scope = scope\<rparr>"

definition demo_tenth_off :: promotion where
  "demo_tenth_off = \<lparr>pm_id = 70, pm_property = None, pm_state = ''published'', pm_currency = ''COP'', pm_version = 1,
     pm_discount_type = ''percentage'', pm_percentage = Some 1000, pm_fixed = None, pm_valid_from = None,
     pm_valid_until = None, pm_rate_plans = [], pm_categories = [], pm_programs = [], pm_minimum_stay = None,
     pm_maximum_stay = None, pm_requires_code = False, pm_exclusive = False, pm_stacking_group = None, pm_priority = 0,
     pm_usage_limit = Some 5, pm_budget = None, pm_per_guest = None, pm_per_session = None, pm_reinstate_on_cancel = True\<rparr>"

definition demo_tariff :: tariff where
  "demo_tariff = \<lparr>tf_plans = [demo_plan [demo_night 51 80000 1 None]], tf_taxes = [demo_tax ''total''],
     tf_deposit_policies = [], tf_cancellation_policies = []\<rparr>"

definition demo_quote_ctx :: quote_ctx where
  "demo_quote_ctx = \<lparr>quote_at = demo_ctx, code_hash = Some, session_hmac = (\<lambda>i. i), web_session = None,
     random_session = [], quote_ttl_minutes = 20, quote_digest = (\<lambda>_. ''digest'')\<rparr>"

definition demo_input :: quote_input where
  "demo_input = \<lparr>qi_property = Some 1, qi_category = Some 2, qi_plan = Some 50, qi_resource = Some 4, qi_program = None,
     qi_starts = Some 864000, qi_ends = Some 1036800, qi_adults = Some 1, qi_children = None, qi_infants = None,
     qi_buyout = False, qi_services = [(54, None)], qi_voucher_code = None, qi_voucher_id = None, qi_session_id = None,
     qi_session_hash = None, qi_amendment_of = None\<rparr>"

definition demo_sales_db :: db where
  "demo_sales_db = demo_db\<lparr>promotions := [demo_tenth_off]\<rparr>"

end
