(* ===== verification/Rate_Rules.thy ===== *)
theory Rate_Rules
  imports Quoting
begin

text \<open>
  Which rule prices a night. \<^verbatim>\<open>RatePlanPublicationValidator\<close> refuses to publish a plan whose rules are ambiguous;
  the theorems show what that gives the search of \<^theory_text>\<open>Pricing\<close>, and what it leaves to the order of the ids.
\<close>

subsection \<open>RatePlanPublicationValidator\<close>

definition ranges_overlap :: "int \<Rightarrow> int option \<Rightarrow> int \<Rightarrow> int option \<Rightarrow> bool" where
  "ranges_overlap lmin lmax rmin rmax \<longleftrightarrow> \<not> above rmin lmax \<and> \<not> above lmin rmax"

definition sets_overlap :: "int list \<Rightarrow> int list \<Rightarrow> bool" where
  "sets_overlap l r \<longleftrightarrow> l = [] \<or> r = [] \<or> (\<exists>d \<in> set l. d \<in> set r)"

definition starts_after :: "day option \<Rightarrow> day option \<Rightarrow> bool" where
  "starts_after ends starts = (case (ends, starts) of (Some e, Some b) \<Rightarrow> e < b | _ \<Rightarrow> False)"

definition ambiguous :: "rate_rule \<Rightarrow> rate_rule \<Rightarrow> bool" where
  "ambiguous l r \<longleftrightarrow>
     rr_priority l = rr_priority r \<and> rr_category l = rr_category r \<and> rr_program l = rr_program r
     \<and> rr_buyout_only l = rr_buyout_only r
     \<and> (\<not> starts_after (rr_ends l) (rr_starts r) \<and> \<not> starts_after (rr_ends r) (rr_starts l))
     \<and> sets_overlap (rr_weekdays l) (rr_weekdays r)
     \<and> ranges_overlap (rr_minimum_stay l) (rr_maximum_stay l) (rr_minimum_stay r) (rr_maximum_stay r)
     \<and> ranges_overlap (or_default (rr_minimum_occupancy l) 0) (rr_maximum_occupancy l)
         (or_default (rr_minimum_occupancy r) 0) (rr_maximum_occupancy r)
     \<and> ranges_overlap (or_default (rr_minimum_advance l) 0) (rr_maximum_advance l)
         (or_default (rr_minimum_advance r) 0) (rr_maximum_advance r)"

definition inverted :: "rate_rule \<Rightarrow> bool" where
  "inverted r \<longleftrightarrow> above (rr_minimum_stay r) (rr_maximum_stay r)
     \<or> (case rr_minimum_advance r of None \<Rightarrow> False | Some n \<Rightarrow> above n (rr_maximum_advance r))
     \<or> (case rr_minimum_occupancy r of None \<Rightarrow> False | Some n \<Rightarrow> above n (rr_maximum_occupancy r))"

definition sound_days :: "rate_rule \<Rightarrow> bool" where
  "sound_days r \<longleftrightarrow> (\<forall>d \<in> set (rr_weekdays r @ rr_arrival_days r). 1 \<le> d \<and> d \<le> 7)"

fun unambiguous :: "rate_rule list \<Rightarrow> bool" where
  "unambiguous [] \<longleftrightarrow> True"
| "unambiguous (l # rs) \<longleftrightarrow> (\<forall>r \<in> set rs. \<not> ambiguous l r) \<and> unambiguous rs"

definition validate_plan :: "rate_plan \<Rightarrow> unit res" where
  "validate_plan p =
     (let rules = plan_rules p in
      if rules = [] \<or> (\<exists>r \<in> set rules. inverted r \<or> \<not> sound_days r) \<or> \<not> unambiguous rules
      then Inl (Validation ''rules'') else Inr ())"

subsection \<open>The rule that governs\<close>

lemma ambiguous_sym: "ambiguous l r \<Longrightarrow> ambiguous r l"
  unfolding ambiguous_def by (auto simp: sets_overlap_def ranges_overlap_def)

lemma unambiguous_pair:
  "unambiguous rs \<Longrightarrow> l \<in> set rs \<Longrightarrow> r \<in> set rs \<Longrightarrow> l \<noteq> r \<Longrightarrow> \<not> ambiguous l r"
  by (induction rs) (auto dest: ambiguous_sym)

lemma set_plan_rules [simp]: "set (plan_rules p) = set (rp_rules p)"
  by (simp add: plan_rules_def)

lemma rule_for_Inr:
  "rule_for rules t date arrival departure = Inr r \<longleftrightarrow>
     find (governs t date) rules = Some r \<and> \<not> forbids t arrival departure r"
  by (auto simp: rule_for_def split: option.splits if_splits)

text \<open>Two rules of one priority and scope that both permit a stay on a date are ambiguous.\<close>

lemma both_permit:
  assumes "governs t date l" and "governs t date r" and "\<not> forbids t a d l" and "\<not> forbids t a' d' r"
    and "rr_priority l = rr_priority r" and "rr_category l = rr_category r" and "rr_program l = rr_program r"
    and "rr_buyout_only l = rr_buyout_only r" and "0 \<le> st_occupancy t" and "0 \<le> st_advance t"
  shows "ambiguous l r"
proof -
  have windows: "\<not> starts_after (rr_ends a) (rr_starts b)" if "governs t date a" "governs t date b" for a b
    using that by (auto simp: starts_after_def governs_def split: option.splits)
  have ranges: "ranges_overlap la lb ra rb" if "la \<le> n" "ra \<le> n" "\<not> above n lb" "\<not> above n rb" for n la lb ra rb
    using that by (auto simp: ranges_overlap_def above_def split: option.splits)
  have least: "or_default x 0 \<le> n" if "\<not> below n x" "0 \<le> n" for x n
    using that by (cases x) (auto simp: below_def or_default_def)
  have days: "sets_overlap (rr_weekdays l) (rr_weekdays r)"
    using assms(1,2) by (auto simp: governs_def sets_overlap_def)
  have "rr_minimum_stay l \<le> st_nights t" "rr_minimum_stay r \<le> st_nights t"
    "\<not> above (st_nights t) (rr_maximum_stay l)" "\<not> above (st_nights t) (rr_maximum_stay r)"
    "\<not> below (st_advance t) (rr_minimum_advance l)" "\<not> below (st_advance t) (rr_minimum_advance r)"
    "\<not> above (st_advance t) (rr_maximum_advance l)" "\<not> above (st_advance t) (rr_maximum_advance r)"
    "\<not> below (st_occupancy t) (rr_minimum_occupancy l)" "\<not> below (st_occupancy t) (rr_minimum_occupancy r)"
    "\<not> above (st_occupancy t) (rr_maximum_occupancy l)" "\<not> above (st_occupancy t) (rr_maximum_occupancy r)"
    using assms(3,4) unfolding forbids_def by simp_all
  with assms(5-10) days windows [OF assms(1,2)] windows [OF assms(2,1)] show ?thesis
    unfolding ambiguous_def by (blast intro: ranges least)
qed

text \<open>C27: A published plan prices a night by one rule of each scope. When the validator has passed a plan, then
  among the rules of one priority and one scope (category, program and buyout) at most one both covers the night and
  permits the stay; and the rule that prices the night permits it, has the highest priority of all that cover it, and
  no rule below it is asked.\<close>

theorem published_rules_decide:
  assumes "validate_plan p = Inr ()" and "0 \<le> st_occupancy t" and "0 \<le> st_advance t"
    and "rule_for (plan_rules p) t date arrival departure = Inr r"
  shows "r \<in> set (rp_rules p) \<and> governs t date r \<and> \<not> forbids t arrival departure r
    \<and> (\<forall>o' \<in> set (rp_rules p). governs t date o' \<longrightarrow> rr_priority o' \<le> rr_priority r)
    \<and> (\<forall>o' \<in> set (rp_rules p). o' \<noteq> r \<and> governs t date o' \<and> \<not> forbids t arrival departure o'
         \<and> rr_category o' = rr_category r \<and> rr_program o' = rr_program r \<and> rr_buyout_only o' = rr_buyout_only r
         \<longrightarrow> rr_priority o' < rr_priority r)"
proof -
  from assms(4) have fd: "find (governs t date) (plan_rules p) = Some r" and ok: "\<not> forbids t arrival departure r"
    by (simp_all add: rule_for_Inr)
  obtain i where i: "i < length (plan_rules p)" "governs t date (plan_rules p ! i)" "r = plan_rules p ! i"
      "\<And>j. j < i \<Longrightarrow> \<not> governs t date (plan_rules p ! j)"
    using fd by (auto simp: find_Some_iff)
  have mem: "r \<in> set (rp_rules p)" using nth_mem [OF i(1)] i(3) by simp
  have top: "rr_priority o' \<le> rr_priority r" if "o' \<in> set (rp_rules p)" "governs t date o'" for o'
  proof -
    have "o' \<in> set (plan_rules p)" using that(1) by simp
    then obtain j where j: "j < length (plan_rules p)" "o' = plan_rules p ! j"
      unfolding in_set_conv_nth by blast
    have "\<not> j < i" using i(4) that(2) j(2) by blast
    then have "i \<le> j" by simp
    have "sorted (map (\<lambda>r. - rr_priority r) (plan_rules p))" by (simp add: plan_rules_def)
    then have "map (\<lambda>r. - rr_priority r) (plan_rules p) ! i \<le> map (\<lambda>r. - rr_priority r) (plan_rules p) ! j"
      using \<open>i \<le> j\<close> j(1) by (simp add: sorted_iff_nth_mono)
    then show ?thesis using i(1) j unfolding i(3) by simp
  qed
  have gr: "governs t date r" using i(2) unfolding i(3) .
  have unamb: "unambiguous (plan_rules p)" using assms(1) by (auto simp: validate_plan_def Let_def split: if_splits)
  have distinct: "rr_priority o' \<noteq> rr_priority r"
    if "o' \<in> set (rp_rules p)" "o' \<noteq> r" "governs t date o'" "\<not> forbids t arrival departure o'"
      "rr_category o' = rr_category r" "rr_program o' = rr_program r" "rr_buyout_only o' = rr_buyout_only r" for o'
  proof
    assume "rr_priority o' = rr_priority r"
    then have amb: "ambiguous o' r" by (rule both_permit [OF that(3) gr that(4) ok _ that(5-7) assms(2,3)])
    have "o' \<in> set (plan_rules p)" "r \<in> set (plan_rules p)" using that(1) mem by simp_all
    from unambiguous_pair [OF unamb this that(2)] amb show False by contradiction
  qed
  have below: "rr_priority o' < rr_priority r"
    if "o' \<in> set (rp_rules p)" "o' \<noteq> r" "governs t date o'" "\<not> forbids t arrival departure o'"
      "rr_category o' = rr_category r" "rr_program o' = rr_program r" "rr_buyout_only o' = rr_buyout_only r" for o'
    using top [OF that(1,3)] distinct [OF that] by simp
  show ?thesis using mem ok gr top below by blast
qed

subsection \<open>A plan of two stay lengths\<close>

definition demo_terms :: "int \<Rightarrow> stay_terms" where
  "demo_terms nights = \<lparr>st_category = 2, st_program = None, st_arrival = 10, st_nights = nights, st_occupancy = 2,
     st_buyout = False, st_advance = 10\<rparr>"

definition split_plan :: rate_plan where
  "split_plan = demo_plan [demo_night 51 100 1 (Some 3), demo_night 52 80 4 None]"

lemma plan_rules_split: "plan_rules split_plan = [demo_night 51 100 1 (Some 3), demo_night 52 80 4 None]"
  by (simp add: plan_rules_def split_plan_def demo_plan_def demo_night_def)

lemma demo_night_governs: "governs t date (demo_night i amount minimum maximum)"
  by (simp add: governs_def demo_night_def)

lemma validate_split: "validate_plan split_plan = Inr ()"
  unfolding validate_plan_def plan_rules_split Let_def
  by (simp add: ambiguous_def ranges_overlap_def above_def inverted_def sound_days_def demo_night_def)

text \<open>A published rule can be unsellable. The validator compares stay lengths and lets two rules of one priority
  share their dates when one is for one to three nights and the other for four or more; the search for the rule of
  a night does not look at the length, so the first by id governs, refuses the longer stay, and the second never
  prices a night although it permits the stay.\<close>

theorem split_stays_unsold:
  "validate_plan split_plan = Inr () \<and> demo_night 52 80 4 None \<in> set (rp_rules split_plan)
   \<and> governs (demo_terms 5) 10 (demo_night 52 80 4 None) \<and> \<not> forbids (demo_terms 5) True False (demo_night 52 80 4 None)
   \<and> rule_for (plan_rules split_plan) (demo_terms 5) 10 True False = Inl (Validation ''rate_plan_id'')
   \<and> (\<nexists>t date arrival departure. rule_for (plan_rules split_plan) t date arrival departure = Inr (demo_night 52 80 4 None))"
proof -
  have first: "rule_for (plan_rules split_plan) t date a d =
      (if forbids t a d (demo_night 51 100 1 (Some 3)) then Inl (Validation ''rate_plan_id'')
       else Inr (demo_night 51 100 1 (Some 3)))" for t date a d
    by (simp add: rule_for_def plan_rules_split demo_night_governs)
  have "demo_night 51 100 1 (Some 3) \<noteq> demo_night 52 80 4 None" by (simp add: demo_night_def)
  moreover have "forbids (demo_terms 5) True False (demo_night 51 100 1 (Some 3))"
    "\<not> forbids (demo_terms 5) True False (demo_night 52 80 4 None)"
    by (simp_all add: forbids_def demo_night_def demo_terms_def above_def below_def)
  moreover have "demo_night 52 80 4 None \<in> set (rp_rules split_plan)" by (simp add: split_plan_def demo_plan_def)
  ultimately show ?thesis
    using validate_split demo_night_governs [of "demo_terms 5" 10 52 80 4 None] by (simp add: first)
qed

lemma demo_rule_for: "rule_for (plan_rules split_plan) (demo_terms 2) 10 True False = Inr (demo_night 51 100 1 (Some 3))"
proof -
  have "\<not> forbids (demo_terms 2) True False (demo_night 51 100 1 (Some 3))"
    by (simp add: forbids_def demo_night_def demo_terms_def above_def below_def)
  then show ?thesis by (simp add: rule_for_Inr plan_rules_split demo_night_governs)
qed

theorem published_rules_decide_witness:
  "rr_priority (demo_night 51 100 1 (Some 3)) = 0 \<and> governs (demo_terms 2) 10 (demo_night 51 100 1 (Some 3))"
  using published_rules_decide [OF validate_split _ _ demo_rule_for] demo_night_governs
  by (simp add: demo_terms_def demo_night_def [of 51 100 1 "Some 3"] del: set_plan_rules)

end
