(* ===== verification/Quote_Sums.thy ===== *)
theory Quote_Sums
  imports Quoting
begin

text \<open>
  What a priced offer adds up to: the lines before the taxes form a chain from zero to the discounted total, and
  the lines with the taxes sum to the subtotal, the tax and the total of the offer.
\<close>

subsection \<open>Chains of lines\<close>

fun line_chain :: "money \<Rightarrow> quote_line list \<Rightarrow> money \<Rightarrow> bool" where
  "line_chain a [] b \<longleftrightarrow> a = b"
| "line_chain a (l # ls) b \<longleftrightarrow> ql_pre l = a \<and> ql_post l = a + ql_gross l \<and> line_chain (ql_post l) ls b"

definition untaxed :: "quote_line \<Rightarrow> bool" where
  "untaxed l \<longleftrightarrow> ql_tax l = 0 \<and> ql_net l = ql_gross l"

text \<open>Lines of prices: chained from zero, untaxed and not negative.\<close>

definition priced :: "quote_line list \<Rightarrow> bool" where
  "priced ls \<longleftrightarrow> line_chain 0 ls (gross_total ls) \<and> (\<forall>l \<in> set ls. untaxed l \<and> 0 \<le> ql_gross l)"

lemma line_chain_append: "line_chain a (ls @ ms) b \<longleftrightarrow> (\<exists>m. line_chain a ls m \<and> line_chain m ms b)"
  by (induction ls arbitrary: a) auto

lemma gross_total_simps [simp]:
  "gross_total [] = 0" "gross_total (l # ls) = ql_gross l + gross_total ls"
  "gross_total (ls @ ms) = gross_total ls + gross_total ms"
  by (simp_all add: gross_total_def)

lemma priced_Nil [simp]: "priced []"
  by (simp add: priced_def)

lemma priced_price_line: "priced ls \<Longrightarrow> 0 \<le> amount \<Longrightarrow> priced (price_line ty d b o' q u amount r m ls)"
  by (auto simp: priced_def price_line_def line_chain_append untaxed_def)

lemma priced_nonneg: "priced ls \<Longrightarrow> 0 \<le> gross_total ls"
  by (auto simp: priced_def gross_total_def intro!: sum_list_nonneg)

lemma nightly_price_nonneg: "nightly_price r a ch i = Inr (q, u, n, b) \<Longrightarrow> 0 \<le> n \<and> n \<le> php_int_max"
  by (auto simp: nightly_price_def bindE_eq_Inr not_less split: if_splits)

lemma night_line_priced: "night_line plan t a ch i night ls = Inr ms \<Longrightarrow> priced ls \<Longrightarrow> priced ms"
  by (auto simp: night_line_def Let_def bindE_eq_Inr intro!: priced_price_line dest: nightly_price_nonneg)

lemma program_line_priced: "program_line plan t g ls = Inr ms \<Longrightarrow> priced ls \<Longrightarrow> priced ms"
  by (auto simp: program_line_def intro!: priced_price_line split: option.splits if_splits)

lemma service_line_Inr:
  assumes "service_line plan t chosen v ls = Inr ms"
  obtains "ms = ls"
    | ty b o' q u amount r m where "ms = price_line ty None b o' q u amount r m ls" and "0 \<le> amount"
proof (cases "it_active (ps_item v) \<and> it_currency (ps_item v) = rp_currency plan
    \<and> \<not> (ps_selection v = ''optional'' \<and> selected_service chosen (it_id (ps_item v)) = None)")
  case True
  define requested where "requested =
    or_default (or_default (selected_service chosen (it_id (ps_item v))) None) (ps_default_quantity v)"
  note cond = True
  have run: "\<exists>quantity amount.
      (if ps_selection v = ''included'' then Inr 0
       else checked_multiply (or_default (ps_amount v) (it_price (ps_item v))) quantity ''optional_services'') = Inr amount
      \<and> (\<exists>ty b o' q u r m. ms = price_line ty None b o' q u amount r m ls)"
    using assms cond unfolding service_line_def Let_def requested_def [symmetric]
    by (simp only: bindE_eq_Inr if_Inl_eq_Inr de_Morgan_disj de_Morgan_conj simp_thms if_not_P if_False sum.inject) blast
  from run obtain quantity amount ty b o' q u r m where
    am: "(if ps_selection v = ''included'' then Inr 0
      else checked_multiply (or_default (ps_amount v) (it_price (ps_item v))) quantity ''optional_services'') = Inr amount"
    and ms: "ms = price_line ty None b o' q u amount r m ls"
    by - (elim exE conjE, rule that; assumption)
  from am have "0 \<le> amount" by (auto simp: checked_multiply_Inr split: if_splits)
  with ms show ?thesis by (rule that(2))
next
  case False
  with assms show ?thesis using that(1) by (auto simp: service_line_def Let_def split: if_splits)
qed

lemma service_line_priced: "service_line plan t chosen v ls = Inr ms \<Longrightarrow> priced ls \<Longrightarrow> priced ms"
  by (erule service_line_Inr) (auto intro: priced_price_line)

lemma base_lines_Inr:
  assumes "base_lines s inp g plan t = Inr (program, ls)"
  obtains nights ms where
    "foldE (night_line plan t (pt_adults g) (pt_children g) (pt_infants g)) [0..st_nights t - 1] [] = Inr nights"
    and "program_line plan t program nights = Inr ms"
    and "foldE (service_line plan t (qi_services inp)) (filter ps_active (plan_services plan)) ms = Inr ls"
  using assms by (auto simp: base_lines_def bindE_eq_Inr)

lemma base_lines_priced:
  assumes "base_lines s inp g plan t = Inr (program, ls)"
  shows "priced ls"
proof -
  obtain nights ms where
    n: "foldE (night_line plan t (pt_adults g) (pt_children g) (pt_infants g)) [0..st_nights t - 1] [] = Inr nights"
    and m: "program_line plan t program nights = Inr ms"
    and l: "foldE (service_line plan t (qi_services inp)) (filter ps_active (plan_services plan)) ms = Inr ls"
    using assms by (rule base_lines_Inr)
  have "priced nights" by (rule foldE_invariant [OF n]) (auto dest: night_line_priced)
  then have "priced ms" using m by (rule program_line_priced [rotated])
  then show ?thesis by (rule foldE_invariant [OF l]) (auto dest: service_line_priced)
qed

subsection \<open>Discounts as lines\<close>

lemma deduct_lengths:
  "deduct index es remaining acc = Inr r \<Longrightarrow> length (dr_lines acc) = length (dr_snapshot acc) \<Longrightarrow>
     length (dr_lines r) = length (dr_snapshot r)"
  by (induction index es remaining acc rule: deduct.induct) (auto simp: bindE_eq_Inr Let_def split: if_splits)

lemma discount_lines_chain:
  "discount_chain a ds b \<Longrightarrow> length ds = length fs \<Longrightarrow>
     line_chain a (map2 discount_quote_line ds fs) b
     \<and> gross_total (map2 discount_quote_line ds fs) = b - a
     \<and> (\<forall>l \<in> set (map2 discount_quote_line ds fs). untaxed l)"
proof (induction ds fs arbitrary: a rule: list_induct2')
  case (4 d ds f fs)
  have d: "dl_pre d = a" "dl_post d = a + dl_amount d" "discount_chain (dl_post d) ds b"
    using 4(2) unfolding discount_chain.simps by blast+
  have "length ds = length fs" using 4(3) by simp
  note ih = 4(1) [OF d(3) this]
  have "map2 discount_quote_line (d # ds) (f # fs) = discount_quote_line d f # map2 discount_quote_line ds fs"
    by simp
  moreover have "ql_pre (discount_quote_line d f) = a" "ql_gross (discount_quote_line d f) = dl_amount d"
    "ql_post (discount_quote_line d f) = dl_post d" "untaxed (discount_quote_line d f)"
    by (simp_all add: discount_quote_line_def untaxed_def d)
  ultimately show ?case using ih d(2) by (simp only: line_chain.simps gross_total_simps list.set) simp
qed auto

subsection \<open>Taxes as lines\<close>

lemma round_ratio_nonneg: "round_ratio n d mode = Inr m \<Longrightarrow> 0 \<le> n \<Longrightarrow> 0 \<le> m"
  unfolding round_ratio_def Let_def
  by (auto simp: bindE_eq_Inr res_simps intdiv_nonneg pos_imp_zdiv_nonneg_iff split: if_splits)

lemma line_taxes_nonneg:
  "line_taxes p d mode discount whole remaining gs = Inr ts \<Longrightarrow> t \<in> set ts \<Longrightarrow> 0 \<le> t"
  by (induction gs arbitrary: remaining ts)
    (fastforce simp: bindE_eq_Inr res_simps dest: round_ratio_nonneg)+

lemma tax_for_rule_nonneg:
  assumes "tax_for_rule r ls base discount = Inr tax" and "0 \<le> or_default (tx_fixed r) 0"
  shows "0 \<le> tax"
  using assms
  by (auto simp: tax_for_rule_def Let_def bindE_eq_Inr res_simps dest!: checked_add_Inr
      intro: sum_list_nonneg round_ratio_nonneg dest: line_taxes_nonneg split: if_splits)

text \<open>The tax lines sum to the totals, and each carries the running total with itself already in it.\<close>

definition taxed :: "money \<Rightarrow> tax_result \<Rightarrow> bool" where
  "taxed start t \<longleftrightarrow> sum_list (map ql_tax (tr_lines t)) = tr_tax t
     \<and> gross_total (tr_lines t) = tr_exclusive t
     \<and> sum_list (map ql_net (tr_lines t)) = tr_exclusive t - tr_tax t
     \<and> (\<forall>n < length (tr_lines t). ql_pre (tr_lines t ! n) = start + gross_total (take (Suc n) (tr_lines t))
          \<and> ql_post (tr_lines t ! n) = ql_pre (tr_lines t ! n))"

lemma add_tax_taxed:
  assumes "add_tax ls base discount r acc = Inr t" and "taxed (base - discount) acc"
  shows "taxed (base - discount) t"
  using assms
  by (auto simp: add_tax_def Let_def bindE_eq_Inr taxed_def tax_line_def nth_append less_Suc_eq gross_total_def
      dest!: checked_add_Inr split: if_splits)

lemma add_tax_mono:
  assumes "add_tax ls base discount r acc = Inr t" and "0 \<le> or_default (tx_fixed r) 0"
  shows "tr_exclusive acc \<le> tr_exclusive t"
  using assms
  by (auto simp: add_tax_def Let_def bindE_eq_Inr dest!: checked_add_Inr tax_for_rule_nonneg split: if_splits)

subsection \<open>The whole offer\<close>

lemma untaxed_sums:
  "\<forall>l \<in> set ls. untaxed l \<Longrightarrow> sum_list (map ql_net ls) = gross_total ls \<and> sum_list (map ql_tax ls) = 0"
  by (induction ls) (auto simp: untaxed_def)

lemma preview_Inr:
  assumes "preview x tf s inp = Inr q"
  obtains g k place plan program ls es d taxes t where
    "check_party (quote_at x) inp = Inr g" and "choose_place (quote_at x) s inp g = Inr (k, place)"
    and "t = terms_of (quote_at x) inp g k"
    and "choose_plan tf g (st_arrival t) (st_arrival t + st_nights t) = Inr plan"
    and "base_lines s inp g plan t = Inr (program, ls)"
    and "eligible (quote_at x) s (code_hash x) (session_hmac x) (promotion_input x inp g t) (upper (rp_currency plan))
           (st_arrival t) = Inr es"
    and "calculate_discounts es (gross_total ls) = Inr d"
    and "foldE (add_tax ls (gross_total ls) (dr_discount d))
           (tax_rules_for tf (pt_property g) (rp_currency plan) (st_arrival t) (st_arrival t + st_nights t))
           \<lparr>tr_tax = 0, tr_exclusive = 0, tr_lines = []\<rparr> = Inr taxes"
    and "q = offer x tf inp g k place plan t program ls d taxes"
  using assms unfolding preview_def Let_def bindE_eq_Inr prod_case_Inr sum.inject by blast

lemma taxed_start: "taxed start \<lparr>tr_tax = 0, tr_exclusive = 0, tr_lines = []\<rparr>"
  by (simp add: taxed_def)

lemma preview_sums:
  assumes "preview x tf s inp = Inr q"
  shows "sum_list (map ql_net (cq_lines q)) = cq_subtotal q \<and> sum_list (map ql_tax (cq_lines q)) = cq_tax q
    \<and> gross_total (cq_lines q) = cq_total q \<and> cq_total q = cq_subtotal q + cq_tax q
    \<and> (\<exists>prices cuts taxes. cq_lines q = prices @ cuts @ taxes \<and> gross_total cuts = - cq_discount q
        \<and> 0 \<le> cq_discount q \<and> cq_discount q \<le> gross_total prices
        \<and> line_chain 0 (prices @ cuts) (gross_total prices - cq_discount q) \<and> (\<forall>l \<in> set (prices @ cuts). untaxed l)
        \<and> (\<forall>n. n < length taxes \<longrightarrow> ql_pre (taxes ! n) = gross_total prices - cq_discount q + gross_total (take (Suc n) taxes)
             \<and> ql_post (taxes ! n) = ql_pre (taxes ! n))
        \<and> ((\<forall>r \<in> set (tf_taxes tf). 0 \<le> or_default (tx_fixed r) 0) \<longrightarrow>
             gross_total prices - cq_discount q \<le> cq_total q \<and> 0 \<le> cq_total q))"
  using assms
proof (cases rule: preview_Inr)
  case (1 g k place plan program ls es d taxes t)
  let ?base = "gross_total ls" and ?rules = "tax_rules_for tf (pt_property g) (rp_currency plan) (st_arrival t) (st_arrival t + st_nights t)"
  let ?ds = "map2 discount_quote_line (dr_lines d) (dr_snapshot d)"
  have ls: "priced ls" by (rule base_lines_priced [OF 1(5)])
  note nonneg = priced_nonneg [OF ls] and dis = discount_bounds [OF 1(7)]
  have "length (dr_lines d) = length (dr_snapshot d)"
    using deduct_lengths [OF 1(7) [unfolded calculate_discounts_def]] by simp
  then have ds: "line_chain ?base ?ds (?base - dr_discount d)" "gross_total ?ds = - dr_discount d" "\<forall>l \<in> set ?ds. untaxed l"
    using discount_lines_chain [of ?base "dr_lines d" "?base - dr_discount d" "dr_snapshot d"] dis nonneg by simp_all
  have tx: "taxed (?base - dr_discount d) taxes"
    by (rule foldE_invariant [OF 1(8)]) (auto intro: taxed_start add_tax_taxed)
  have mono: "0 \<le> tr_exclusive taxes" if "\<forall>r \<in> set (tf_taxes tf). 0 \<le> or_default (tx_fixed r) 0"
  proof (rule foldE_invariant [OF 1(8), where P = "\<lambda>t. 0 \<le> tr_exclusive t"])
    fix r a b
    assume "r \<in> set ?rules" "0 \<le> tr_exclusive a" "add_tax ls ?base (dr_discount d) r a = Inr b"
    then show "0 \<le> tr_exclusive b" using that add_tax_mono [of ls ?base "dr_discount d" r a b] by (force simp: tax_rules_for_def)
  qed simp
  have untaxed: "\<forall>l \<in> set (ls @ ?ds). untaxed l" using ls ds(3) by (auto simp: priced_def)
  note nets = untaxed_sums [OF untaxed]
  have lines: "cq_lines q = ls @ ?ds @ tr_lines taxes" and amounts: "cq_discount q = dr_discount d"
    "cq_subtotal q = ?base - dr_discount d - (tr_tax taxes - tr_exclusive taxes)" "cq_tax q = tr_tax taxes"
    "cq_total q = ?base - dr_discount d + tr_exclusive taxes"
    unfolding 1(9) by (simp_all add: offer_def Let_def offer_lines_def)
  have sums: "sum_list (map ql_net (cq_lines q)) = cq_subtotal q" "sum_list (map ql_tax (cq_lines q)) = cq_tax q"
    "gross_total (cq_lines q) = cq_total q" "cq_total q = cq_subtotal q + cq_tax q"
    using nets ds(2) tx unfolding lines amounts taxed_def by simp_all
  have chain: "line_chain 0 (ls @ ?ds) (?base - cq_discount q)"
    using ls ds(1) by (auto simp: priced_def line_chain_append amounts)
  show ?thesis
    using sums
  proof (intro conjI exI)
    show "cq_lines q = ls @ ?ds @ tr_lines taxes" by (rule lines)
    show "(\<forall>r \<in> set (tf_taxes tf). 0 \<le> or_default (tx_fixed r) 0) \<longrightarrow>
        gross_total ls - cq_discount q \<le> cq_total q \<and> 0 \<le> cq_total q"
      using mono dis nonneg by (auto simp: amounts)
    show "\<forall>n. n < length (tr_lines taxes) \<longrightarrow>
        ql_pre (tr_lines taxes ! n) = gross_total ls - cq_discount q + gross_total (take (Suc n) (tr_lines taxes))
        \<and> ql_post (tr_lines taxes ! n) = ql_pre (tr_lines taxes ! n)"
      using tx by (simp add: taxed_def amounts)
  qed (use untaxed chain ds dis nonneg in \<open>simp_all add: amounts\<close>)
qed

subsection \<open>Property\<close>

text \<open>C6: The offer adds up. The net amounts of its lines sum to the subtotal, the taxes to the tax and the gross
  amounts to the total, which is the subtotal and the tax; the discount lies between zero and the price of the
  lines before it; the lines without the taxes chain from zero to the discounted price, each starting where the
  one before it ended; a tax line carries the running total with its own tax before and after it; and the total is not negative when no fixed tax is.\<close>

theorem quote_adds_up:
  assumes "preview x tf s inp = Inr q"
  shows "sum_list (map ql_net (cq_lines q)) = cq_subtotal q \<and> sum_list (map ql_tax (cq_lines q)) = cq_tax q
    \<and> gross_total (cq_lines q) = cq_total q \<and> cq_total q = cq_subtotal q + cq_tax q
    \<and> (\<exists>prices cuts taxes. cq_lines q = prices @ cuts @ taxes \<and> gross_total cuts = - cq_discount q
        \<and> 0 \<le> cq_discount q \<and> cq_discount q \<le> gross_total prices
        \<and> line_chain 0 (prices @ cuts) (gross_total prices - cq_discount q) \<and> (\<forall>l \<in> set (prices @ cuts). untaxed l)
        \<and> (\<forall>n. n < length taxes \<longrightarrow> ql_pre (taxes ! n) = gross_total prices - cq_discount q + gross_total (take (Suc n) taxes)
             \<and> ql_post (taxes ! n) = ql_pre (taxes ! n))
        \<and> ((\<forall>r \<in> set (tf_taxes tf). 0 \<le> or_default (tx_fixed r) 0) \<longrightarrow>
             gross_total prices - cq_discount q \<le> cq_total q \<and> 0 \<le> cq_total q))"
  using assms by (rule preview_sums)

subsection \<open>Example\<close>

lemma demo_preview: "succeeds_with (\<lambda>q. cq_subtotal q = 153000 \<and> cq_tax q = 29070 \<and> cq_total q = 182070 \<and> length (cq_lines q) = 5)
    (preview demo_quote_ctx demo_tariff demo_sales_db demo_input)"
  by code_simp

theorem quote_adds_up_witness:
  "\<exists>q. preview demo_quote_ctx demo_tariff demo_sales_db demo_input = Inr q \<and> cq_total q = 182070
     \<and> gross_total (cq_lines q) = 182070"
proof -
  obtain q where q: "preview demo_quote_ctx demo_tariff demo_sales_db demo_input = Inr q" "cq_total q = 182070"
    using demo_preview by (auto elim: succeeds_withE)
  then show ?thesis using quote_adds_up [OF q(1)] by auto
qed

end
