(* ===== verification/Commands.thy ===== *)
theory Commands
  imports Books Tasks "HOL-Library.List_Lexorder"
begin

text \<open>
  The frame of every front-desk command: the rows of the drawer, of the tenders and of the evidence, the
  role checks of \<^verbatim>\<open>FrontDeskPaymentGuard\<close>, the canonical form a request is hashed in (\<^verbatim>\<open>CanonicalJson\<close>), and
  \<^verbatim>\<open>FinancialCommandExecutor\<close>, which runs a command once per key and answers a retry with the stored
  result. The database of a front desk is the database of the money services (\<open>core\<close>) and these tables, so
  a command that does not name a drawer leaves it alone by construction.
\<close>

subsection \<open>Rows\<close>

record shift =
  sh_id :: id
  sh_property :: id
  sh_cashier :: user_id
  sh_currency :: string
  sh_state :: cash_shift_state
  sh_float :: money
  sh_expected :: "money option"
  sh_counted :: "money option"
  sh_variance :: "money option"
  sh_day :: day
  sh_opened :: instant
  sh_closed_at :: "instant option"
  sh_closed_by :: "user_id option"
  sh_close_reason :: "string option"
  sh_calculation :: "string option"
  sh_approved_at :: "instant option"
  sh_approved_by :: "user_id option"
  sh_approval_reason :: "string option"
  sh_key :: string
  sh_checksum :: string

record movement =
  mv_id :: id
  mv_property :: id
  mv_shift :: id
  mv_payment :: "id option"
  mv_refund :: "id option"
  mv_reverses :: "id option"
  mv_type :: cash_movement_type
  mv_amount :: money
  mv_currency :: string
  mv_reason :: string
  mv_by :: user_id
  mv_at :: instant
  mv_key :: string
  mv_checksum :: string

record tender =
  td_id :: id
  td_property :: id
  td_reservation :: id
  td_payment :: "id option"
  td_deposit :: "id option"
  td_channel :: payment_channel
  td_amount :: money
  td_currency :: string
  td_processor :: string
  td_merchant :: string
  td_terminal :: string
  td_transaction :: "string option"
  td_authorization :: "string option"
  td_batch :: "string option"
  td_brand :: "string option"
  td_last_four :: "string option"
  td_note :: "string option"
  td_state :: string
  td_duplicate_of :: "id option"
  td_review_reason :: "string option"
  td_resolved_by :: "user_id option"
  td_resolved_at :: "instant option"
  td_recorded_by :: user_id
  td_received_at :: instant
  td_day :: day
  td_key :: string
  td_checksum :: string

record evidence =
  ge_id :: id
  ge_reservation :: id
  ge_payment :: "id option"
  ge_refund :: "id option"
  ge_tender :: "id option"
  ge_scan :: string
  ge_status :: evidence_status
  ge_reviewed_by :: "user_id option"
  ge_reviewed_at :: "instant option"
  ge_decided_at :: "instant option"
  ge_note :: "string option"
  ge_requested_note :: "string option"

record audit =
  au_actor :: user_id
  au_event :: string
  au_subject :: id
  au_values :: meta

record fin_command =
  fc_type :: string
  fc_key :: string
  fc_checksum :: string
  fc_model :: string
  fc_result :: id

text \<open>\<open>variance_limits p\<close> is the object \<^verbatim>\<open>cash_variance_threshold_minor_by_currency\<close> in the settings of property \<open>p\<close>;
  a null in it is \<open>None\<close>.\<close>

record desk =
  core :: db
  shifts :: "shift list"
  movements :: "movement list"
  tenders :: "tender list"
  evidences :: "evidence list"
  audits :: "audit list"
  commands :: "fin_command list"
  variance_limits :: "id \<Rightarrow> (string \<times> int option) list"

text \<open>
  The request, the hash of a canonical value (\<^verbatim>\<open>sha256\<close> of its JSON text) and of a text, which the model only
  compares, and the configuration file \<^verbatim>\<open>config/front_desk_tenders.php\<close>.
\<close>

record desk_ctx =
  at_request :: ctx
  digest :: "json \<Rightarrow> string"
  text_hash :: "string \<Rightarrow> string"
  stale_hours :: int
  variance_threshold :: int

abbreviation now :: "desk_ctx \<Rightarrow> instant" where
  "now x \<equiv> clock (at_request x)"

type_synonym 'a desk_action = "desk \<Rightarrow> failure + (desk \<times> 'a)"

text \<open>An operation of the money services inside a desk command.\<close>

definition on_core :: "'a action \<Rightarrow> 'a desk_action" where
  "on_core f d = bindE (f (core d)) (\<lambda>(s, a). Inr (d\<lparr>core := s\<rparr>, a))"

lemma on_core_Inr [res_simps]:
  "on_core f d = Inr (t, a) \<longleftrightarrow> (\<exists>s. f (core d) = Inr (s, a) \<and> t = d\<lparr>core := s\<rparr>)"
  by (auto simp: on_core_def bindE_eq_Inr)

text \<open>Row ids of the desk's own tables come from the counter of the database.\<close>

definition take_id :: "desk \<Rightarrow> desk" where
  "take_id d = d\<lparr>core := (core d)\<lparr>next_id := Suc (next_id (core d))\<rparr>\<rparr>"

abbreviation fresh :: "desk \<Rightarrow> id" where
  "fresh d \<equiv> next_id (core d)"

subsection \<open>FrontDeskPaymentGuard\<close>

definition assert_role :: "ctx \<Rightarrow> user_id \<Rightarrow> id \<Rightarrow> membership_role list \<Rightarrow> unit res" where
  "assert_role c actor p roles = (case request_member c of
     None \<Rightarrow> Inl (Validation ''authorization'')
   | Some m \<Rightarrow> if \<not> mb_active m \<or> mb_user m \<noteq> actor \<or> mb_role m \<notin> set roles \<or> \<not> can_access_property c p
       then Inl (Validation ''authorization'') else Inr ())"

definition record_tender_roles :: "membership_role list" where
  "record_tender_roles = [Role_Administrator, Role_Manager, Role_Operations, Role_Finance]"

definition operate_cash_roles :: "membership_role list" where
  "operate_cash_roles = [Role_Administrator, Role_Manager, Role_Operations]"

definition resolve_roles :: "membership_role list" where
  "resolve_roles = [Role_Administrator, Role_Manager, Role_Finance]"

definition guard_record_tender :: "ctx \<Rightarrow> user_id \<Rightarrow> id \<Rightarrow> unit res" where
  "guard_record_tender c actor p = assert_role c actor p record_tender_roles"

definition guard_operate_cash :: "ctx \<Rightarrow> user_id \<Rightarrow> id \<Rightarrow> unit res" where
  "guard_operate_cash c actor p = assert_role c actor p operate_cash_roles"

definition guard_resolve :: "ctx \<Rightarrow> user_id \<Rightarrow> id \<Rightarrow> unit res" where
  "guard_resolve c actor p = assert_role c actor p resolve_roles"

lemma assert_role_Inr [res_simps]:
  "assert_role c actor p roles = Inr u \<longleftrightarrow> (\<exists>m. request_member c = Some m \<and> mb_active m \<and> mb_user m = actor
     \<and> mb_role m \<in> set roles \<and> can_access_property c p)"
  by (auto simp: assert_role_def split: option.splits)

subsection \<open>CanonicalJson\<close>

text \<open>Objects are ordered by key, as bytes; lists keep their order.\<close>

definition key_bytes :: "string \<times> json \<Rightarrow> nat list" where
  "key_bytes kv = map of_char (fst kv)"

fun canonical :: "json \<Rightarrow> json" where
  "canonical (J_Arr xs) = J_Arr (map canonical xs)"
| "canonical (J_Obj kvs) = J_Obj (sort_key key_bytes (map (\<lambda>(k, v). (k, canonical v)) kvs))"
| "canonical v = v"

definition checksum :: "desk_ctx \<Rightarrow> json \<Rightarrow> string" where
  "checksum x v = digest x (canonical v)"

subsection \<open>FinancialCommandExecutor\<close>

text \<open>A row of one of the models a command may return, and how the stored class name finds it again.\<close>

datatype tenant_row =
    Shift_Row shift
  | Movement_Row movement
  | Tender_Row tender
  | Change_Row change
  | Evidence_Row evidence

fun row_model :: "tenant_row \<Rightarrow> string" where
  "row_model (Shift_Row _) = ''CashShift''"
| "row_model (Movement_Row _) = ''CashShiftMovement''"
| "row_model (Tender_Row _) = ''PaymentTenderDetail''"
| "row_model (Change_Row _) = ''ReservationChange''"
| "row_model (Evidence_Row _) = ''GuestPaymentEvidence''"

fun row_key :: "tenant_row \<Rightarrow> id" where
  "row_key (Shift_Row r) = sh_id r"
| "row_key (Movement_Row r) = mv_id r"
| "row_key (Tender_Row r) = td_id r"
| "row_key (Change_Row r) = ch_id r"
| "row_key (Evidence_Row r) = ge_id r"

definition stored_row :: "desk \<Rightarrow> string \<Rightarrow> id \<Rightarrow> tenant_row res" where
  "stored_row d model i =
     (if model = ''CashShift'' then bindE (find_or_fail ''cash_shifts'' sh_id i (shifts d)) (\<lambda>r. Inr (Shift_Row r))
      else if model = ''CashShiftMovement''
      then bindE (find_or_fail ''cash_shift_movements'' mv_id i (movements d)) (\<lambda>r. Inr (Movement_Row r))
      else if model = ''PaymentTenderDetail''
      then bindE (find_or_fail ''payment_tender_details'' td_id i (tenders d)) (\<lambda>r. Inr (Tender_Row r))
      else if model = ''ReservationChange''
      then bindE (find_or_fail ''reservation_changes'' ch_id i (changes (core d))) (\<lambda>r. Inr (Change_Row r))
      else if model = ''GuestPaymentEvidence''
      then bindE (find_or_fail ''guest_payment_evidence'' ge_id i (evidences d)) (\<lambda>r. Inr (Evidence_Row r))
      else Inl (Logic ''result_model''))"

definition is_alnum :: "char \<Rightarrow> bool" where
  "is_alnum c \<longleftrightarrow> (48 \<le> (of_char c :: nat) \<and> (of_char c :: nat) \<le> 57)
     \<or> (97 \<le> (of_char (lower_char c) :: nat) \<and> (of_char (lower_char c) :: nat) \<le> 122)"

definition valid_key :: "string \<Rightarrow> bool" where
  "valid_key k \<longleftrightarrow> 8 \<le> length k \<and> length k \<le> 160 \<and> is_alnum (hd k)
     \<and> list_all (\<lambda>c. is_alnum c \<or> c \<in> set ''._:-'') (tl k)"

definition known_command :: "desk \<Rightarrow> string \<Rightarrow> string \<Rightarrow> fin_command option" where
  "known_command d type key = find (\<lambda>r. fc_type r = type \<and> fc_key r = key) (commands d)"

definition run_command ::
  "desk_ctx \<Rightarrow> string \<Rightarrow> string \<Rightarrow> json \<Rightarrow> tenant_row desk_action \<Rightarrow> tenant_row desk_action" where
  "run_command x type raw_key payload callback d =
     (let key = trim raw_key in
      if \<not> valid_key key then Inl (Validation ''idempotency_key'')
      else
        (case known_command d type key of
           Some r \<Rightarrow>
             if fc_checksum r \<noteq> checksum x payload then Inl (Validation ''idempotency_key'')
             else bindE (stored_row d (fc_model r) (fc_result r)) (\<lambda>row. Inr (d, row))
         | None \<Rightarrow>
             bindE (callback d) (\<lambda>(t, row).
             Inr (t\<lparr>commands := commands t @ [\<lparr>fc_type = type, fc_key = key, fc_checksum = checksum x payload,
                    fc_model = row_model row, fc_result = row_key row\<rparr>]\<rparr>, row))))"

lemma run_command_Inr:
  assumes "run_command x type k payload callback d = Inr (t, row)"
  obtains (again) r where "t = d" "known_command d type (trim k) = Some r" "fc_checksum r = checksum x payload"
      "stored_row d (fc_model r) (fc_result r) = Inr row"
  | (ran) u where "known_command d type (trim k) = None" "callback d = Inr (u, row)" "valid_key (trim k)"
      "t = u\<lparr>commands := commands u @ [\<lparr>fc_type = type, fc_key = trim k, fc_checksum = checksum x payload,
         fc_model = row_model row, fc_result = row_key row\<rparr>]\<rparr>"
  using assms
  by (auto simp: run_command_def Let_def bindE_eq_Inr split: if_splits option.splits)

text \<open>A command that was run answers the same request with its stored row and changes nothing.\<close>

lemma run_command_again:
  assumes "known_command d type (trim k) = Some r" and "valid_key (trim k)"
  shows "run_command x type k payload callback d = (if fc_checksum r \<noteq> checksum x payload
    then Inl (Validation ''idempotency_key'')
    else bindE (stored_row d (fc_model r) (fc_result r)) (\<lambda>row. Inr (d, row)))"
  using assms by (simp add: run_command_def)

end
