(* ===== verification/Quotes.thy ===== *)
theory Quotes
  imports Quoting Assignments Commands
begin

text \<open>
  Quotes from their creation to a reservation: the stored quote with its checksum
  (\<^verbatim>\<open>BookingQuoteService::create\<close>, \<^verbatim>\<open>createAmendment\<close> and \<^verbatim>\<open>checksumFor\<close>), the booking of a quote
  (\<^verbatim>\<open>CommitBookingQuote\<close>) and the amendment of a reservation by a new quote (\<^verbatim>\<open>AmendReservation\<close>). The
  state is the database of the stay and money services with the tables of quotes, guests and stay guests
  beside it. Every column of a quote but its status, reservation and commit time is frozen (\<^verbatim>\<open>BookingQuote\<close>
  refuses other updates), so the row keeps the calculation. The confirmation number, the source, the notes and the price
  snapshot that a reservation copies from its quote are not modelled.
\<close>

subsection \<open>Rows\<close>

record booking_quote =
  bq_id :: id
  bq_calculation :: quote_calculation
  bq_lines :: "(id \<times> quote_line) list"
  bq_checksum :: string
  bq_status :: booking_quote_status
  bq_reservation :: "id option"
  bq_committed_at :: "instant option"

record guest_row =
  gu_id :: id
  gu_first_name :: string
  gu_last_name :: "string option"
  gu_email :: "string option"
  gu_phone :: "string option"
  gu_language :: "string option"
  gu_dietary :: "string option"

record stay_guest =
  sg_reservation :: id
  sg_guest :: id
  sg_role :: string

record sales =
  sl_db :: db
  sl_quotes :: "booking_quote list"
  sl_guests :: "guest_row list"
  sl_stay_guests :: "stay_guest list"

subsection \<open>The checksum\<close>

definition line_json :: "quote_line \<Rightarrow> json" where
  "line_json l = J_Obj
     [(''type'', J_Str (ql_type l)), (''service_on'', j_opt J_Int (ql_service_on l)), (''basis'', J_Str (ql_basis l)),
      (''calculation_order'', J_Int (ql_order l)), (''quantity_thousandths'', J_Int (ql_quantity l)),
      (''unit_amount_minor'', J_Int (ql_unit l)), (''pre_total_minor'', J_Int (ql_pre l)),
      (''net_amount_minor'', J_Int (ql_net l)), (''tax_amount_minor'', J_Int (ql_tax l)),
      (''gross_amount_minor'', J_Int (ql_gross l)), (''post_total_minor'', J_Int (ql_post l)),
      (''rounding_mode'', J_Str (ql_rounding l)), (''metadata'', J_Obj (ql_meta l))]"

definition inputs_json :: "quote_calculation \<Rightarrow> json" where
  "inputs_json q = J_Obj
     [(''property_id'', J_Id (cq_property q)), (''rate_plan_id'', J_Id (cq_plan q)),
      (''resource_category_id'', J_Id (cq_category q)), (''resource_id'', j_opt J_Id (cq_resource q)),
      (''program_id'', j_opt J_Id (cq_program q)), (''starts_at'', J_Int (cq_starts q)), (''ends_at'', J_Int (cq_ends q)),
      (''adults'', J_Int (cq_adults q)), (''children'', J_Int (cq_children q)), (''infants'', J_Int (cq_infants q)),
      (''optional_services'', J_Arr (map (\<lambda>(i, n). J_Obj [(''id'', J_Id i), (''quantity'', j_opt J_Int n)]) (cq_services q))),
      (''voucher_id'', j_opt J_Id (cq_voucher q)), (''promotion_session_hash'', j_opt J_Str (cq_session q)),
      (''amendment_of_reservation_id'', j_opt J_Id (cq_amendment_of q))]"

definition deposit_policy_json :: "deposit_policy \<Rightarrow> json" where
  "deposit_policy_json p = J_Obj
     [(''requirement_type'', j_opt J_Str (dp_requirement p)), (''fixed_amount_minor'', j_opt J_Int (dp_fixed p)),
      (''percentage_basis_points'', j_opt J_Int (dp_percentage p)),
      (''deposit_due_offset_days'', j_opt J_Int (dp_deposit_offset_days p)),
      (''balance_due_offset_days'', j_opt J_Int (dp_balance_offset_days p))]"

definition policy_tier_json :: "policy_tier \<Rightarrow> json" where
  "policy_tier_json t = J_Obj
     [(''days_before_arrival'', j_opt J_Int (tier_days t)), (''retained_basis_points'', j_opt J_Int (tier_retained t)),
      (''minimum_fee_minor'', j_opt J_Int (tier_minimum t))]"

definition promo_fact_json :: "promo_fact \<Rightarrow> json" where
  "promo_fact_json f = J_Obj
     [(''promotion_id'', J_Id (pf_promotion f)), (''promotion_version'', J_Int (pf_version f)),
      (''voucher_id'', j_opt J_Id (pf_voucher f)), (''priority'', J_Int (pf_priority f)),
      (''discount_minor'', J_Int (pf_discount f))]"

definition calculation_json :: "quote_calculation \<Rightarrow> json" where
  "calculation_json q = J_Obj
     [(''rate_plan'', J_Obj [(''id'', J_Id (cq_plan q)), (''version'', J_Int (cq_plan_version q))]),
      (''promotion_versions'', J_Arr (map promo_fact_json (cq_promotions q))),
      (''voucher_id'', j_opt J_Id (cq_voucher q)), (''promotion_session_hash'', j_opt J_Str (cq_session q)),
      (''business_dates'', J_Obj [(''arrival'', J_Int (cq_arrival q)), (''departure'', J_Int (cq_departure q))])]"

text \<open>The lines are hashed by calculation order, then id; the rest of the payload does not depend on the row.\<close>

definition quote_payload :: "booking_quote \<Rightarrow> json" where
  "quote_payload b =
     (let q = bq_calculation b; ls = sort_key (\<lambda>(_, l). ql_order l) (sort_key fst (bq_lines b)) in
      J_Obj
       [(''property_id'', J_Id (cq_property q)), (''rate_plan_id'', J_Id (cq_plan q)),
        (''resource_category_id'', J_Id (cq_category q)), (''resource_id'', j_opt J_Id (cq_resource q)),
        (''program_id'', j_opt J_Id (cq_program q)), (''infants'', J_Int (cq_infants q)),
        (''currency'', J_Str (cq_currency q)), (''subtotal_minor'', J_Int (cq_subtotal q)),
        (''discount_minor'', J_Int (cq_discount q)), (''tax_minor'', J_Int (cq_tax q)),
        (''total_minor'', J_Int (cq_total q)), (''inputs'', inputs_json q),
        (''deposit_policy_snapshot'', j_opt deposit_policy_json (cq_deposit q)),
        (''cancellation_policy_snapshot'', j_opt (\<lambda>ts. J_Obj [(''tiers'', J_Arr (map policy_tier_json ts))]) (cq_cancellation q)),
        (''calculation_snapshot'', calculation_json q), (''lines'', J_Arr (map (\<lambda>(_, l). line_json l) ls))])"

definition checksum_for :: "quote_ctx \<Rightarrow> booking_quote \<Rightarrow> string" where
  "checksum_for x b = quote_digest x (canonical (quote_payload b))"

subsection \<open>Creating a quote\<close>

fun numbered :: "id \<Rightarrow> 'a list \<Rightarrow> (id \<times> 'a) list" where
  "numbered n [] = []"
| "numbered n (x # xs) = (n, x) # numbered (Suc n) xs"

definition skip_ids :: "nat \<Rightarrow> db \<Rightarrow> db" where
  "skip_ids n s = s\<lparr>next_id := next_id s + n\<rparr>"

definition create_quote ::
  "quote_ctx \<Rightarrow> tariff \<Rightarrow> quote_input \<Rightarrow> sales \<Rightarrow> failure + (sales \<times> booking_quote)" where
  "create_quote x tf inp s =
     bindE (preview x tf (sl_db s) inp) (\<lambda>q.
     let n = next_id (sl_db s);
         row = \<lparr>bq_id = n, bq_calculation = q, bq_lines = numbered (Suc n) (cq_lines q), bq_checksum = [],
           bq_status = Q_Pending, bq_reservation = None, bq_committed_at = None\<rparr>;
         row' = row\<lparr>bq_checksum := checksum_for x row\<rparr> in
     Inr (s\<lparr>sl_quotes := sl_quotes s @ [row'], sl_db := skip_ids (Suc (length (cq_lines q))) (sl_db s)\<rparr>, row'))"

definition source_session :: "sales \<Rightarrow> reservation \<Rightarrow> string option" where
  "source_session s r = (case r_quote r of None \<Rightarrow> None | Some i \<Rightarrow>
     (case find_row bq_id i (sl_quotes s) of None \<Rightarrow> None | Some b \<Rightarrow> cq_session (bq_calculation b)))"

definition amendment_input :: "sales \<Rightarrow> reservation \<Rightarrow> quote_input \<Rightarrow> quote_input" where
  "amendment_input s r inp = inp\<lparr>
     qi_session_hash :=
       (if \<not> not_empty (qi_session_id inp) \<and> \<not> not_empty (qi_session_hash inp) \<and> source_session s r \<noteq> None
        then source_session s r else qi_session_hash inp),
     qi_property := Some (r_property r), qi_amendment_of := Some (r_id r),
     qi_voucher_id := map_option rd_voucher (find (\<lambda>d. rd_reservation d = r_id r) (redemptions (sl_db s)))\<rparr>"

definition create_amendment ::
  "quote_ctx \<Rightarrow> tariff \<Rightarrow> reservation \<Rightarrow> quote_input \<Rightarrow> sales \<Rightarrow> failure + (sales \<times> booking_quote)" where
  "create_amendment x tf r inp s = create_quote x tf (amendment_input s r inp) s"

subsection \<open>Booking a quote\<close>

record guest_data =
  gd_first_name :: "string option"
  gd_last_name :: "string option"
  gd_email :: "string option"
  gd_phone :: "string option"
  gd_language :: "string option"
  gd_dietary :: "string option"

text \<open>The order of the relation \<^verbatim>\<open>BookingQuote::lines\<close>: by day, lines without a day last.\<close>

definition ordered_lines :: "booking_quote \<Rightarrow> (id \<times> quote_line) list" where
  "ordered_lines b =
     sort_key (\<lambda>(_, l). the (ql_service_on l)) (filter (\<lambda>(_, l). ql_service_on l \<noteq> None) (bq_lines b))
     @ filter (\<lambda>(_, l). ql_service_on l = None) (bq_lines b)"

definition quote_ref_of :: "booking_quote \<Rightarrow> quote_ref" where
  "quote_ref_of b = \<lparr>qr_id = bq_id b, qr_currency = cq_currency (bq_calculation b),
     qr_session = cq_session (bq_calculation b), qr_promotions = cq_promotions (bq_calculation b)\<rparr>"

definition quote_is_open :: "quote_ctx \<Rightarrow> booking_quote \<Rightarrow> bool" where
  "quote_is_open x b \<longleftrightarrow> bq_status b = Q_Pending \<and> clock (quote_at x) < cq_expires (bq_calculation b)"

definition new_guest :: "guest_data \<Rightarrow> id \<Rightarrow> guest_row" where
  "new_guest d i =
     \<lparr>gu_id = i, gu_first_name = trim (or_default (gd_first_name d) []), gu_last_name = filled_text (gd_last_name d),
      gu_email = map_option lower (filled_text (gd_email d)), gu_phone = filled_text (gd_phone d),
      gu_language = gd_language d, gu_dietary = (if not_empty (gd_dietary d) then gd_dietary d else None)\<rparr>"

definition resolve_guest :: "id option \<Rightarrow> guest_data \<Rightarrow> sales \<Rightarrow> failure + (sales \<times> guest_row)" where
  "resolve_guest gid d s =
     bindE (case gid of
       None \<Rightarrow> (let g = new_guest d (next_id (sl_db s)) in
                Inr (s\<lparr>sl_guests := sl_guests s @ [g], sl_db := skip_ids 1 (sl_db s)\<rparr>, g))
     | Some i \<Rightarrow> bindE (find_or_fail ''guests'' gu_id i (sl_guests s)) (\<lambda>g. Inr (s, g))) (\<lambda>(t, g).
     if trim (gu_first_name g) = [] then Inl (Validation ''guest_first_name'') else Inr (t, g))"

text \<open>The saving hook of \<^verbatim>\<open>Reservation\<close>: a program belongs to the property.\<close>

definition program_at :: "db \<Rightarrow> id \<Rightarrow> id option \<Rightarrow> unit res" where
  "program_at s p program = (case program of
     None \<Rightarrow> Inr ()
   | Some i \<Rightarrow> if \<exists>g \<in> set (programs s). pg_id g = i \<and> pg_property g = p then Inr ()
               else Inl (Logic ''reservation_program''))"

definition reservation_of_quote :: "booking_quote \<Rightarrow> id \<Rightarrow> id \<Rightarrow> reservation" where
  "reservation_of_quote b guest i =
     (let q = bq_calculation b in
      \<lparr>r_id = i, r_property = cq_property q, r_program = cq_program q, r_guest = Some guest, r_quote = Some (bq_id b),
       r_status = R_Hold, r_starts = cq_starts q, r_ends = cq_ends q, r_adults = cq_adults q,
       r_children = cq_children q, r_infants = cq_infants q, r_currency = cq_currency q,
       r_subtotal = cq_subtotal q, r_tax = cq_tax q, r_total = cq_total q, r_revision = 1,
       r_hold_expires = Some (cq_expires q), r_confirmed_at = None, r_actual_start = None, r_actual_end = None,
       r_cancelled_at = None, r_closure_reason = None, r_deposit_policy = cq_deposit q,
       r_cancellation_tiers = or_default (cq_cancellation q) [], r_folio_status = F_Open, r_folio_closed_at = None,
       r_folio_closed_by = None\<rparr>)"

definition insert_reservation :: "reservation \<Rightarrow> db \<Rightarrow> db res" where
  "insert_reservation r s =
     bindE (program_at s (r_property r) (r_program r)) (\<lambda>_.
     Inr (s\<lparr>reservations := reservations s @ [r], next_id := Suc (r_id r)\<rparr>))"

definition stay_allocation :: "booking_quote \<Rightarrow> id \<Rightarrow> allocation_status \<Rightarrow> allocation" where
  "stay_allocation b i st =
     (let q = bq_calculation b in
      \<lparr>al_id = 0, al_reservation = i, al_category = Some (cq_category q), al_resource = cq_resource q,
       al_occurrence = None, al_status = st, al_starts = cq_starts q, al_ends = cq_ends q, al_quantity = 1\<rparr>)"

definition first_occurrences :: "'a list \<Rightarrow> 'a list" where
  "first_occurrences xs = rev (remdups (rev xs))"

definition add_companion :: "id \<Rightarrow> id \<Rightarrow> id \<Rightarrow> sales \<Rightarrow> sales res" where
  "add_companion i primary k s =
     bindE (find_or_fail ''guests'' gu_id k (sl_guests s)) (\<lambda>g.
     Inr (s\<lparr>sl_stay_guests := sl_stay_guests s @ [\<lparr>sg_reservation = i, sg_guest = gu_id g,
       sg_role = (if gu_id g = primary then ''primary'' else ''guest'')\<rparr>]\<rparr>))"

definition charge_line :: "ctx \<Rightarrow> reservation \<Rightarrow> id \<times> quote_line \<Rightarrow> db \<Rightarrow> db res" where
  "charge_line c r nl s =
     (case nl of (i, l) \<Rightarrow>
      bindE (append_line c r L_Charge 1000 (ql_net l) (auth_id c)
               [(''booking_quote_line_id'', J_Id i), (''quoted_quantity_thousandths'', J_Int (ql_quantity l)),
                (''quoted_unit_amount_minor'', J_Int (ql_unit l)), (''basis'', J_Str (ql_basis l))]
               (ql_tax l) True s) (\<lambda>(t, _). Inr t))"

definition mark_committed :: "ctx \<Rightarrow> id \<Rightarrow> id \<Rightarrow> booking_quote list \<Rightarrow> booking_quote list" where
  "mark_committed c i rid =
     upd_row bq_id i (\<lambda>b. b\<lparr>bq_status := Q_Committed, bq_reservation := Some rid, bq_committed_at := Some (clock c)\<rparr>)"

text \<open>The booking of a quote that is open, from the locking of the property on.\<close>

definition book_quote ::
  "ctx \<Rightarrow> booking_quote \<Rightarrow> id option \<Rightarrow> guest_data \<Rightarrow> id list \<Rightarrow> sales \<Rightarrow> failure + (sales \<times> reservation)" where
  "book_quote c b gid d companions s =
     bindE (find_or_fail ''properties'' prop_id (cq_property (bq_calculation b)) (properties (sl_db s))) (\<lambda>_.
     bindE (resolve_guest gid d s) (\<lambda>(s1, g).
     let r = reservation_of_quote b (gu_id g) (next_id (sl_db s1)) in
     bindE (insert_reservation r (sl_db s1)) (\<lambda>d1.
     bindE (insert_allocation (stay_allocation b (r_id r) A_Tentative) d1) (\<lambda>(d2, a).
     bindE (assert_available c d2 a) (\<lambda>_.
     bindE (foldE (add_companion (r_id r) (gu_id g)) (first_occurrences (gu_id g # companions)) s1) (\<lambda>s2.
     bindE (foldE (charge_line c r) (ordered_lines b) d2) (\<lambda>d3.
     bindE (reserve_for_commit c (quote_ref_of b) r (Some (gu_id g)) False d3) (\<lambda>d4.
     Inr (s2\<lparr>sl_db := d4, sl_quotes := mark_committed c (bq_id b) (r_id r) (sl_quotes s2)\<rparr>, r)))))))))"

definition commit_quote ::
  "quote_ctx \<Rightarrow> id \<Rightarrow> id option \<Rightarrow> guest_data \<Rightarrow> id list \<Rightarrow> sales \<Rightarrow> failure + (sales \<times> reservation)" where
  "commit_quote x i gid d companions s =
     bindE (find_or_fail ''booking_quotes'' bq_id i (sl_quotes s)) (\<lambda>b.
     if bq_status b = Q_Committed \<and> bq_reservation b \<noteq> None then
       bindE (reservation_or_fail (sl_db s) (the (bq_reservation b))) (\<lambda>r.
       if gid = None \<or> r_guest r \<noteq> gid then Inl (Validation ''guest_id'') else Inr (s, r))
     else if \<not> quote_is_open x b then Inl (Validation ''rate_plan_id'')
     else if bq_checksum b \<noteq> checksum_for x b then Inl (Validation ''rate_plan_id'')
     else book_quote (quote_at x) b gid d companions s)"

subsection \<open>Amending a reservation\<close>

definition is_stay_allocation :: "db \<Rightarrow> allocation \<Rightarrow> bool" where
  "is_stay_allocation s a = (case requested_category s a of None \<Rightarrow> False | Some k \<Rightarrow> cat_counts_as_stay k)"

definition amended :: "booking_quote \<Rightarrow> reservation \<Rightarrow> reservation" where
  "amended b r =
     (let q = bq_calculation b in
      r\<lparr>r_program := cq_program q, r_quote := Some (bq_id b), r_starts := cq_starts q, r_ends := cq_ends q,
        r_adults := cq_adults q, r_children := cq_children q, r_infants := cq_infants q,
        r_subtotal := cq_subtotal q, r_tax := cq_tax q, r_total := cq_total q, r_deposit_policy := cq_deposit q,
        r_cancellation_tiers := or_default (cq_cancellation q) [], r_revision := r_revision r + 1\<rparr>)"

text \<open>The stay moves: its one allocation is released and a checked one takes its place.\<close>

definition move_stay ::
  "ctx \<Rightarrow> booking_quote \<Rightarrow> reservation \<Rightarrow> db \<Rightarrow> failure + (db \<times> allocation)" where
  "move_stay c b r s =
     (let q = bq_calculation b; active = live_allocations s (r_id r); stays = filter (is_stay_allocation s) active in
      if length stays \<noteq> 1 then Inl (Validation ''reservation'')
      else if \<exists>a \<in> set active. a \<notin> set stays \<and> (al_starts a < cq_starts q \<or> cq_ends q < al_ends a)
      then Inl (Validation ''starts_at'')
      else
        bindE (foldE release_row stays s) (\<lambda>s1.
        bindE (insert_allocation (stay_allocation b (r_id r)
                 (if r_status r = R_Confirmed then A_Confirmed else A_Tentative)) s1) (\<lambda>(s2, a).
        bindE (assert_available c s2 a) (\<lambda>_. Inr (s2, a)))))"

definition post_delta :: "ctx \<Rightarrow> booking_quote \<Rightarrow> reservation \<Rightarrow> user_id option \<Rightarrow> db \<Rightarrow> db res" where
  "post_delta c b r actor s =
     (let q = bq_calculation b in
      if cq_total q - r_total r \<noteq> 0 then
        bindE (append_line c r L_Adjustment 1000 (cq_subtotal q - r_subtotal r) actor
                 [(''amendment_quote_id'', J_Id (bq_id b))] (cq_tax q - r_tax r) True s) (\<lambda>(t, _). Inr t)
      else Inr s)"

definition record_amendment ::
  "ctx \<Rightarrow> booking_quote \<Rightarrow> reservation \<Rightarrow> reservation \<Rightarrow> snapshot \<Rightarrow> allocation \<Rightarrow> schedule_result \<Rightarrow> int
   \<Rightarrow> user_id option \<Rightarrow> db \<Rightarrow> db" where
  "record_amendment c b r r' before a effects rescheduled actor s =
     (let delta = cq_total (bq_calculation b) - r_total r;
          (s1, ch) = record_change c r' ''amendment''
            (change_defaults\<lparr>ci_actor := actor, ci_amount := Some delta, ci_before := Some before,
               ci_after := Some (snapshot_of s (fresh_reservation s r')),
               ci_meta := [(''quote_id'', J_Id (bq_id b)), (''replacement_allocation_id'', J_Id (al_id a)),
                 (''price_delta_minor'', J_Int delta),
                 (''deposit_payment_effects'', J_Obj [(''paid_minor'', J_Int (sr_paid effects)),
                    (''due_minor'', J_Int (sr_due effects)),
                    (''refund_requirement_minor'', J_Int (sr_refund_requirement effects))]),
                 (''rescheduled_operational_tasks'', J_Int rescheduled)]\<rparr>) s in
      record_outbox c ''reservation'' (r_id r) ''reservation.amended''
        [(''reservation_id'', J_Id (r_id r)), (''change_id'', J_Id (ch_id ch)), (''price_delta_minor'', J_Int delta)] s1)"

text \<open>The amendment by a quote that passed the checks.\<close>

definition rebook ::
  "ctx \<Rightarrow> booking_quote \<Rightarrow> reservation \<Rightarrow> user_id option \<Rightarrow> sales \<Rightarrow> failure + (sales \<times> reservation)" where
  "rebook c b r actor s =
     bindE (replace_for_amendment c (quote_ref_of b) r (r_guest r) (sl_db s)) (\<lambda>d1.
     bindE (move_stay c b r d1) (\<lambda>(d2, a).
     bindE (post_delta c b r actor d2) (\<lambda>d3.
     bindE (program_at d3 (r_property r) (cq_program (bq_calculation b))) (\<lambda>_.
     let r' = amended b r;
         d4 = update_reservation (r_id r) (\<lambda>_. r') d3;
         moved = rebase_pending_tasks c (r_id r) (r_starts r) (cq_starts (bq_calculation b)) actor d4 in
     bindE (rebuild_schedule c r' ''Superseded by reservation amendment'' actor (fst moved)) (\<lambda>(d6, effects).
     let d7 = record_amendment c b r r' (snapshot_of d1 r) a effects (snd moved) actor d6 in
     Inr (s\<lparr>sl_db := d7, sl_quotes := mark_committed c (bq_id b) (r_id r) (sl_quotes s)\<rparr>, r'))))))"

definition apply_amendment ::
  "quote_ctx \<Rightarrow> id \<Rightarrow> id \<Rightarrow> user_id option \<Rightarrow> sales \<Rightarrow> failure + (sales \<times> reservation)" where
  "apply_amendment x i k actor s =
     bindE (reservation_or_fail (sl_db s) i) (\<lambda>r.
     if r_status r \<notin> {R_Hold, R_Confirmed} then Inl (Validation ''status'')
     else
       bindE (find_or_fail ''booking_quotes'' bq_id k (sl_quotes s)) (\<lambda>b.
       if \<not> quote_is_open x b then Inl (Validation ''rate_plan_id'')
       else if cq_property (bq_calculation b) \<noteq> r_property r \<or> cq_currency (bq_calculation b) \<noteq> r_currency r
       then Inl (Validation ''rate_plan_id'')
       else if bq_checksum b \<noteq> checksum_for x b then Inl (Validation ''rate_plan_id'')
       else rebook (quote_at x) b r actor s))"

text \<open>
  \<^verbatim>\<open>AmendReservation::handle\<close>. The quote is created in a transaction of its own, so a refused amendment leaves
  it behind; the result is then that state with the error.
\<close>

definition amend_reservation ::
  "quote_ctx \<Rightarrow> tariff \<Rightarrow> reservation \<Rightarrow> quote_input \<Rightarrow> user_id option \<Rightarrow> sales \<Rightarrow> sales \<times> (failure + reservation)" where
  "amend_reservation x tf r inp actor s =
     (case create_amendment x tf r inp s of
        Inl e \<Rightarrow> (s, Inl e)
      | Inr (s1, b) \<Rightarrow> (case apply_amendment x (r_id r) (bq_id b) actor s1 of
          Inl e \<Rightarrow> (s1, Inl e)
        | Inr (s2, r') \<Rightarrow> (s2, Inr r')))"

subsection \<open>A small sale\<close>

text \<open>A quote of one line on the cabin, and a sale with given quotes, reservations and allocations.\<close>

definition demo_line :: "money \<Rightarrow> money \<Rightarrow> quote_line" where
  "demo_line net tax = \<lparr>ql_type = ''night'', ql_service_on = Some 10, ql_basis = ''per_night'', ql_order = 1,
     ql_quantity = 1000, ql_unit = net, ql_pre = 0, ql_net = net, ql_tax = tax, ql_gross = net + tax, ql_post = net + tax,
     ql_rounding = ''half_up'', ql_meta = []\<rparr>"

definition demo_offer :: "instant \<Rightarrow> money \<Rightarrow> money \<Rightarrow> quote_calculation" where
  "demo_offer e net tax = \<lparr>cq_property = 1, cq_plan = 50, cq_plan_version = 1, cq_category = 2, cq_resource = Some 4,
     cq_program = None, cq_starts = 864000, cq_ends = e, cq_adults = 1, cq_children = 0, cq_infants = 0, cq_services = [],
     cq_voucher = None, cq_session = None, cq_amendment_of = None, cq_currency = ''COP'', cq_subtotal = net,
     cq_discount = 0, cq_tax = tax, cq_total = net + tax, cq_deposit = None, cq_cancellation = None, cq_promotions = [],
     cq_arrival = 10, cq_departure = 12, cq_expires = 2200, cq_lines = [demo_line net tax]\<rparr>"

definition demo_quote :: "id \<Rightarrow> instant \<Rightarrow> money \<Rightarrow> money \<Rightarrow> booking_quote" where
  "demo_quote i e net tax = \<lparr>bq_id = i, bq_calculation = demo_offer e net tax, bq_lines = [(Suc i, demo_line net tax)],
     bq_checksum = ''digest'', bq_status = Q_Pending, bq_reservation = None, bq_committed_at = None\<rparr>"

definition demo_sales :: "booking_quote list \<Rightarrow> reservation list \<Rightarrow> allocation list \<Rightarrow> sales" where
  "demo_sales qs rs als = \<lparr>sl_db = demo_db\<lparr>reservations := rs, allocations := als, next_id := 40\<rparr>, sl_quotes = qs,
     sl_guests = [], sl_stay_guests = []\<rparr>"

definition demo_guest :: guest_data where
  "demo_guest = \<lparr>gd_first_name = Some ''Ana'', gd_last_name = None, gd_email = None, gd_phone = None, gd_language = None,
     gd_dietary = None\<rparr>"

abbreviation two_nights :: booking_quote where
  "two_nights \<equiv> demo_quote 20 1036800 100000 19000"

abbreviation three_nights :: booking_quote where
  "three_nights \<equiv> demo_quote 20 1123200 135000 15000"

abbreviation demo_stay :: sales where
  "demo_stay \<equiv> demo_sales [three_nights] [demo_reservation 6 R_Confirmed]
     [(demo_allocation 8 6 (Some 4) A_Confirmed)\<lparr>al_category := Some 2\<rparr>]"

lemma demo_quote_digest [simp]: "checksum_for demo_quote_ctx b = ''digest''"
  by (simp add: checksum_for_def demo_quote_ctx_def)

lemma demo_quote_at [simp]: "quote_at demo_quote_ctx = demo_ctx"
  by (simp add: demo_quote_ctx_def)

lemma demo_quote_sel [simp]:
  "bq_id (demo_quote i e n x) = i" "bq_calculation (demo_quote i e n x) = demo_offer e n x"
  "bq_checksum (demo_quote i e n x) = ''digest''" "bq_status (demo_quote i e n x) = Q_Pending"
  "bq_reservation (demo_quote i e n x) = None" "bq_committed_at (demo_quote i e n x) = None"
  "quote_is_open demo_quote_ctx (demo_quote i e n x)"
  by (simp_all add: demo_quote_def quote_is_open_def demo_offer_def demo_ctx_def)

lemma demo_sales_sel [simp]:
  "sl_quotes (demo_sales qs rs als) = qs" "reservations (sl_db (demo_sales qs rs als)) = rs"
  "allocations (sl_db (demo_sales qs rs als)) = als" "folio_lines (sl_db (demo_sales qs rs als)) = []"
  "next_id (sl_db (demo_sales qs rs als)) = 40"
  by (simp_all add: demo_sales_def demo_defs)

end
