(* ===== verification/Tax_Rounding.thy ===== *)
theory Tax_Rounding
  imports Quote_Sums Quotes
begin

text \<open>
  The tax of a percentage rule that rounds line by line, against the exact percentage of the discounted price and
  against the same rule rounded once; and the discounts for which the line-wise rule has no result.
\<close>

subsection \<open>One rounding\<close>

text \<open>How far a rounded quotient, multiplied out again, may lie from its numerator.\<close>

lemma round_ratio_near:
  assumes "round_ratio n d mode = Inr m" and "0 \<le> n" and "mode = ''half_even'' \<Longrightarrow> n < 2 ^ 52 \<and> d < 2 ^ 53"
  shows "\<bar>m * d - n\<bar> \<le> d" and "mode \<notin> {''down'', ''up''} \<Longrightarrow> 2 * \<bar>m * d - n\<bar> \<le> d"
proof -
  have d: "0 < d" using assms(1) by (auto simp: round_ratio_def split: if_splits)
  have quot: "(a div d) * d \<le> a" "a < (a div d) * d + d" for a
    using d minus_mod_eq_div_mult [of a d] pos_mod_bound [of d a] pos_mod_sign [of d a] by linarith+
  consider "mode = ''down''" "m = n div d" | "mode = ''up''" "m = (n + d - 1) div d"
    | "mode \<notin> {''down'', ''up'', ''half_even''}" "m = (n + d div 2) div d" | "mode = ''half_even''"
    using assms(1,2) d by (auto simp: round_ratio_def Let_def bindE_eq_Inr res_simps intdiv_nonneg split: if_splits)
  then have "\<bar>m * d - n\<bar> \<le> d \<and> (mode \<notin> {''down'', ''up''} \<longrightarrow> 2 * \<bar>m * d - n\<bar> \<le> d)"
  proof cases
    case 1
    with quot [of n] show ?thesis by auto
  next
    case 2
    with quot [of "n + d - 1"] show ?thesis by auto
  next
    case 3
    define h x where "h = d div 2" and "x = m * d"
    have "2 * h \<le> d" "d \<le> 2 * h + 1" unfolding h_def by presburger+
    moreover have "x \<le> n + h" "n + h < x + d" using quot [of "n + h"] by (simp_all add: x_def h_def 3(2))
    ultimately have "2 * (x - n) \<le> d" "2 * (n - x) \<le> d" by presburger+
    then have "2 * \<bar>x - n\<bar> \<le> d" by (cases "n \<le> x") simp_all
    moreover from this have "\<bar>x - n\<bar> \<le> d" using d by simp
    ultimately show ?thesis by (simp add: x_def)
  next
    case 4
    then obtain q where "round_ratio n d mode = Inr q" "2 * \<bar>q * d - n\<bar> \<le> d"
      using half_even_exact [of n d] assms(2,3) d by auto
    with assms(1) d show ?thesis by auto
  qed
  then show "\<bar>m * d - n\<bar> \<le> d" and "mode \<notin> {''down'', ''up''} \<Longrightarrow> 2 * \<bar>m * d - n\<bar> \<le> d" by auto
qed

subsection \<open>The lines\<close>

text \<open>The taxable part of each line: its gross amount less its share of the discount.\<close>

fun line_bases :: "money \<Rightarrow> money \<Rightarrow> money \<Rightarrow> money list \<Rightarrow> money list" where
  "line_bases discount whole remaining [] = []"
| "line_bases discount whole remaining (gross # rest) =
     (let allocated = (if rest = [] then remaining else intdiv (discount * gross) whole) in
      (gross - allocated) # line_bases discount whole (remaining - allocated) rest)"

lemma length_line_bases [simp]: "length (line_bases discount whole remaining gs) = length gs"
  by (induction gs arbitrary: remaining) (simp_all add: Let_def)

lemma sum_line_bases: "gs \<noteq> [] \<Longrightarrow> sum_list (line_bases discount whole remaining gs) = sum_list gs - remaining"
proof (induction gs arbitrary: remaining)
  case (Cons g gs)
  then show ?case by (cases "gs = []") (simp_all add: Let_def)
qed simp

lemma line_taxes_Inr:
  "line_taxes p d mode discount whole remaining gs = Inr ts \<Longrightarrow>
     list_all2 (\<lambda>b t. 0 \<le> b \<and> 0 \<le> b * p \<and> round_ratio (b * p) d mode = Inr t) (line_bases discount whole remaining gs) ts"
  by (induction gs arbitrary: remaining ts)
    (fastforce simp: bindE_eq_Inr checked_multiply_Inr Let_def)+

lemma rounded_sum:
  assumes "list_all2 (\<lambda>b t. 0 \<le> b \<and> 0 \<le> b * p \<and> round_ratio (b * p) d mode = Inr t) bs ts"
    and "\<forall>b \<in> set bs. mode = ''half_even'' \<longrightarrow> b * p < 2 ^ 52 \<and> d < 2 ^ 53"
  shows "\<bar>sum_list ts * d - sum_list bs * p\<bar> \<le> int (length ts) * d
    \<and> (mode \<notin> {''down'', ''up''} \<longrightarrow> 2 * \<bar>sum_list ts * d - sum_list bs * p\<bar> \<le> int (length ts) * d)"
  using assms
proof (induction rule: list_all2_induct)
  case (Cons b bs t ts)
  have "\<bar>t * d - b * p\<bar> \<le> d" "mode \<notin> {''down'', ''up''} \<longrightarrow> 2 * \<bar>t * d - b * p\<bar> \<le> d"
    using round_ratio_near [of "b * p" d mode t] Cons.hyps(1) Cons.prems by auto
  moreover have "sum_list (t # ts) * d - sum_list (b # bs) * p = (t * d - b * p) + (sum_list ts * d - sum_list bs * p)"
    and "int (length (t # ts)) * d = d + int (length ts) * d"
    by (simp_all add: algebra_simps)
  moreover have "\<bar>sum_list ts * d - sum_list bs * p\<bar> \<le> int (length ts) * d
      \<and> (mode \<notin> {''down'', ''up''} \<longrightarrow> 2 * \<bar>sum_list ts * d - sum_list bs * p\<bar> \<le> int (length ts) * d)"
    using Cons.prems by (intro Cons.IH) auto
  ultimately show ?case using abs_triangle_ineq [of "t * d - b * p" "sum_list ts * d - sum_list bs * p"] by auto
qed simp

lemma member_le_sum_list_int: "x \<in> set xs \<Longrightarrow> (\<And>y. y \<in> set xs \<Longrightarrow> 0 \<le> y) \<Longrightarrow> x \<le> sum_list xs" for xs :: "int list"
proof (induction xs)
  case (Cons y ys)
  then have "0 \<le> sum_list ys" by (intro sum_list_nonneg) auto
  with Cons show ?case by force
qed simp

definition positive_grosses :: "quote_line list \<Rightarrow> money list" where
  "positive_grosses ls = filter (\<lambda>g. 0 < g) (map ql_gross ls)"

definition rounds_lines :: "tax_rule \<Rightarrow> bool" where
  "rounds_lines r \<longleftrightarrow> tx_calculation r \<noteq> ''fixed'' \<and> tx_rounding_scope r = ''line''"

definition tax_denominator :: "tax_rule \<Rightarrow> int" where
  "tax_denominator r = (if tx_inclusive r then 10000 + or_default (tx_percentage r) 0 else 10000)"

lemma line_rule_Inr:
  assumes "tax_for_rule r ls base discount = Inr tax" and "rounds_lines r"
  obtains "tax = 0" and "positive_grosses ls = [] \<or> base = 0"
    | ts where "base \<noteq> 0" and "positive_grosses ls \<noteq> []" and "tax = sum_list ts" and
      "list_all2 (\<lambda>b t. 0 \<le> b \<and> 0 \<le> b * or_default (tx_percentage r) 0
          \<and> round_ratio (b * or_default (tx_percentage r) 0) (tax_denominator r) (tx_rounding_mode r) = Inr t)
        (line_bases discount (sum_list (positive_grosses ls)) discount (positive_grosses ls)) ts"
proof (cases "positive_grosses ls = [] \<or> base = 0")
  case True
  with assms show ?thesis using that(1) by (auto simp: tax_for_rule_def rounds_lines_def positive_grosses_def Let_def)
next
  case False
  then obtain ts where "line_taxes (or_default (tx_percentage r) 0) (tax_denominator r) (tx_rounding_mode r) discount
      (sum_list (positive_grosses ls)) discount (positive_grosses ls) = Inr ts" "checked_add ts ''tax'' = Inr tax"
    using assms by (auto simp: tax_for_rule_def rounds_lines_def positive_grosses_def tax_denominator_def Let_def bindE_eq_Inr)
  with False show ?thesis using that(2) line_taxes_Inr checked_add_Inr by blast
qed

text \<open>C28: Rounding line by line stays close. In each of the four modes the tax of a percentage rule rounded per line differs
  from the exact percentage of the discounted price by at most one unit for every priced line, and by at most half a unit
  for every line when it rounds to the nearest (any mode but \<^verbatim>\<open>down\<close> and \<^verbatim>\<open>up\<close>); so it is then within half a unit per
  line, and half a unit, of the same rule rounded once. The mode \<^verbatim>\<open>half_even\<close> divides in floating point: for it the
  product of price and percentage is below \<open>2 ^ 52\<close>, where this division loses nothing that the rounding sees.\<close>

theorem line_tax_close:
  assumes "tax_for_rule r ls base discount = Inr tax" and "rounds_lines r"
    and "base = sum_list (positive_grosses ls) - discount" and "0 \<le> discount" and "0 \<le> base"
    and "0 \<le> or_default (tx_percentage r) 0"
    and "tx_rounding_mode r = ''half_even'' \<longrightarrow> base * or_default (tx_percentage r) 0 < 2 ^ 52 \<and> or_default (tx_percentage r) 0 < 2 ^ 52"
  shows "\<bar>tax * tax_denominator r - base * or_default (tx_percentage r) 0\<bar>
      \<le> int (length (positive_grosses ls)) * tax_denominator r
    \<and> (tx_rounding_mode r \<notin> {''down'', ''up''} \<longrightarrow>
        2 * \<bar>tax * tax_denominator r - base * or_default (tx_percentage r) 0\<bar>
          \<le> int (length (positive_grosses ls)) * tax_denominator r
        \<and> (\<forall>u. tax_for_rule (r\<lparr>tx_rounding_scope := ''total''\<rparr>) ls base discount = Inr u \<longrightarrow>
              2 * \<bar>tax - u\<bar> \<le> int (length (positive_grosses ls)) + 1))"
proof -
  define p d n where "p = or_default (tx_percentage r) 0" and "d = tax_denominator r"
    and "n = int (length (positive_grosses ls))"
  have d: "0 < d" using assms(6) by (auto simp: d_def tax_denominator_def)
  have exact: "b * p < 2 ^ 52 \<and> d < 2 ^ 53" if "b \<le> base" "tx_rounding_mode r = ''half_even''" for b
    using that assms(6,7) mult_right_mono [of b base p] by (auto simp: p_def d_def tax_denominator_def)
  have "\<bar>tax * d - base * p\<bar> \<le> n * d \<and> (tx_rounding_mode r \<notin> {''down'', ''up''} \<longrightarrow> 2 * \<bar>tax * d - base * p\<bar> \<le> n * d)"
    using assms(1,2)
  proof (cases rule: line_rule_Inr)
    case 1
    then have "base = 0" using assms(3-5) by auto
    with 1(1) d show ?thesis by (simp add: n_def)
  next
    case (2 ts)
    have "length ts = length (positive_grosses ls)"
      using list_all2_lengthD [OF 2(4)] by simp
    let ?bs = "line_bases discount (sum_list (positive_grosses ls)) discount (positive_grosses ls)"
    have sum: "sum_list ?bs = base" using sum_line_bases [OF 2(2)] assms(3) by simp
    have "0 \<le> b" if "b \<in> set ?bs" for b
      using 2(4) that by (auto simp: list_all2_conv_all_nth in_set_conv_nth)
    then have "\<forall>b \<in> set ?bs. b \<le> base" using member_le_sum_list_int [of _ ?bs] sum by simp
    then have "\<forall>b \<in> set ?bs. tx_rounding_mode r = ''half_even'' \<longrightarrow> b * p < 2 ^ 52 \<and> d < 2 ^ 53" using exact by blast
    from rounded_sum [OF 2(4), folded p_def d_def, OF this] show ?thesis
      using \<open>length ts = _\<close> sum by (simp add: 2(3) n_def)
  qed
  moreover have "2 * \<bar>tax - u\<bar> \<le> n + 1"
    if "tax_for_rule (r\<lparr>tx_rounding_scope := ''total''\<rparr>) ls base discount = Inr u"
      "tx_rounding_mode r \<notin> {''down'', ''up''}" "2 * \<bar>tax * d - base * p\<bar> \<le> n * d" for u
  proof -
    have "round_ratio (base * p) d (tx_rounding_mode r) = Inr u"
      using that(1) assms(2) by (auto simp: tax_for_rule_def rounds_lines_def Let_def bindE_eq_Inr checked_multiply_Inr p_def d_def tax_denominator_def)
    then have "2 * \<bar>u * d - base * p\<bar> \<le> d"
      using round_ratio_near(2) [of "base * p" d "tx_rounding_mode r" u] exact [of base] assms(5,6) that(2) by (simp add: p_def)
    moreover have "(n + 1) * d = n * d + d" by (simp add: algebra_simps)
    moreover have "\<bar>tax * d - u * d\<bar> \<le> \<bar>tax * d - base * p\<bar> + \<bar>u * d - base * p\<bar>"
      using abs_triangle_ineq4 [of "tax * d - base * p" "u * d - base * p"] by simp
    ultimately have "2 * \<bar>tax * d - u * d\<bar> \<le> (n + 1) * d" using that(3) by simp
    then have "(2 * \<bar>tax - u\<bar>) * d \<le> (n + 1) * d"
      using d by (simp add: abs_mult left_diff_distrib [symmetric])
    then show ?thesis using d by simp
  qed
  ultimately show ?thesis by (simp add: p_def d_def n_def)
qed

subsection \<open>The last line\<close>

lemma last_line_base:
  "gs \<noteq> [] \<Longrightarrow> last (line_bases discount whole remaining gs) =
     last gs - (remaining - sum_list (map (\<lambda>g. intdiv (discount * g) whole) (butlast gs)))"
proof (induction gs arbitrary: remaining)
  case (Cons g gs)
  show ?case
  proof (cases "gs = []")
    case False
    then have "line_bases discount whole r gs \<noteq> []" for r by (cases gs) (simp_all add: Let_def)
    with False show ?thesis using Cons.IH [OF False] by (simp add: Let_def)
  qed simp
qed simp

lemma small_last_line:
  assumes "rounds_lines r" and "base \<noteq> 0" and "positive_grosses ls = gs @ [g]"
    and "g < discount - sum_list (map (\<lambda>x. intdiv (discount * x) (sum_list (gs @ [g]))) gs)"
  shows "tax_for_rule r ls base discount \<noteq> Inr tax"
proof
  assume "tax_for_rule r ls base discount = Inr tax"
  then show False using assms(1)
  proof (cases rule: line_rule_Inr)
    case (2 ts)
    let ?bs = "line_bases discount (sum_list (positive_grosses ls)) discount (positive_grosses ls)"
    have "?bs \<noteq> []" using length_line_bases [of discount "sum_list (positive_grosses ls)" discount "positive_grosses ls"] assms(3)
      by (metis length_0_conv snoc_eq_iff_butlast)
    moreover have "0 \<le> b" if "b \<in> set ?bs" for b
      using 2(4) that by (auto simp: list_all2_conv_all_nth in_set_conv_nth)
    ultimately have "0 \<le> last ?bs" by simp
    then show False using assms(4) last_line_base [of "positive_grosses ls" discount "sum_list (positive_grosses ls)" discount]
      by (simp add: assms(3))
  qed (use assms in auto)
qed

lemma foldE_stuck:
  assumes "y \<in> set ys" and "\<And>a b. f y a \<noteq> Inr b"
  shows "foldE f ys a \<noteq> Inr b"
  using assms(1)
proof (induction ys arbitrary: a)
  case (Cons z zs)
  show ?case
  proof
    assume "foldE f (z # zs) a = Inr b"
    then obtain c where "f z a = Inr c" "foldE f zs c = Inr b" by (auto split: sum.splits)
    with Cons assms(2) show False by auto
  qed
qed simp

lemma upper_upper [simp]: "upper (upper s) = upper s"
proof -
  have "upper_char (upper_char ch) = upper_char ch" for ch by (auto simp: upper_char_def)
  then show ?thesis by (simp add: upper_def)
qed

lemma tax_rules_upper [simp]: "tax_rules_for tf p (upper currency) a d = tax_rules_for tf p currency a d"
  by (simp add: tax_rules_for_def)

lemma no_positive_discounts:
  "discount_chain a ds b \<Longrightarrow> positive_grosses (map2 discount_quote_line ds fs) = []"
proof (induction ds fs arbitrary: a rule: list_induct2')
  case (4 d ds f fs)
  then have "dl_amount d < 0" "discount_chain (dl_post d) ds b" unfolding discount_chain.simps by blast+
  with 4(1) show ?case by (simp add: positive_grosses_def discount_quote_line_def)
qed (simp_all add: positive_grosses_def)

text \<open>The same offer over the tariff without its taxes.\<close>

definition untaxed_tariff :: "tariff \<Rightarrow> tariff" where
  "untaxed_tariff tf = tf\<lparr>tf_taxes := []\<rparr>"

lemma untaxed_preview:
  assumes "preview x (untaxed_tariff tf) s inp = Inr q"
  obtains ls where "positive_grosses (cq_lines q) = positive_grosses ls" and "gross_total ls = cq_total q + cq_discount q"
    and "(\<exists>q'. preview x tf s inp = Inr q') \<longrightarrow> (\<exists>taxes.
       foldE (add_tax ls (gross_total ls) (cq_discount q))
         (tax_rules_for tf (cq_property q) (cq_currency q) (cq_arrival q) (cq_departure q))
         \<lparr>tr_tax = 0, tr_exclusive = 0, tr_lines = []\<rparr> = Inr taxes)"
  using assms
proof (cases rule: preview_Inr)
  case (1 g k place plan program ls es d taxes t)
  have plan: "choose_plan tf g (st_arrival t) (st_arrival t + st_nights t) = Inr plan"
    using 1(4) by (simp add: choose_plan_def untaxed_tariff_def)
  have taxes: "taxes = \<lparr>tr_tax = 0, tr_exclusive = 0, tr_lines = []\<rparr>"
    using 1(8) by (simp add: tax_rules_for_def untaxed_tariff_def)
  have q: "cq_property q = pt_property g" "cq_currency q = upper (rp_currency plan)" "cq_arrival q = st_arrival t"
    "cq_departure q = st_arrival t + st_nights t" "cq_discount q = dr_discount d" "cq_total q = gross_total ls - dr_discount d"
    "cq_lines q = ls @ map2 discount_quote_line (dr_lines d) (dr_snapshot d)"
    using 1(9) taxes by (simp_all add: offer_def Let_def offer_lines_def)
  have "positive_grosses (map2 discount_quote_line (dr_lines d) (dr_snapshot d)) = []"
    using discount_bounds [OF 1(7)] by (blast intro: no_positive_discounts)
  then have pos: "positive_grosses (cq_lines q) = positive_grosses ls" by (simp add: q positive_grosses_def)
  have "\<exists>taxes. foldE (add_tax ls (gross_total ls) (cq_discount q))
         (tax_rules_for tf (cq_property q) (cq_currency q) (cq_arrival q) (cq_departure q))
         \<lparr>tr_tax = 0, tr_exclusive = 0, tr_lines = []\<rparr> = Inr taxes" if "preview x tf s inp = Inr q'" for q'
    using that by (cases rule: preview_Inr) (use 1(1-7) plan in \<open>auto simp: q\<close>)
  with pos show thesis by (intro that [of ls]) (auto simp: q)
qed

text \<open>C29: A large discount can make a stay unquotable. The shares of the discount are rounded down and the last line takes
  the rest. Take a stay that is quoted when the tariff has no taxes, at more than nothing, and a tax rule in force
  that rounds per line and taxes the discounted price: if the rest of the discount is more than the last priced line, the
  taxable part of that line is negative, so that the preview fails and no quote is stored.\<close>

theorem small_last_line_refused:
  assumes "preview x (untaxed_tariff tf) (sl_db s) inp = Inr q" and "0 < cq_total q"
    and "r \<in> set (tax_rules_for tf (cq_property q) (cq_currency q) (cq_arrival q) (cq_departure q))"
    and "rounds_lines r" and "tx_allocation r \<noteq> ''after_tax''" and "positive_grosses (cq_lines q) = gs @ [amount]"
    and "amount < cq_discount q - sum_list (map (\<lambda>y. intdiv (cq_discount q * y) (sum_list (gs @ [amount]))) gs)"
  shows "\<exists>e. preview x tf (sl_db s) inp = Inl e \<and> create_quote x tf inp s = Inl e"
proof -
  obtain ls where ls: "positive_grosses (cq_lines q) = positive_grosses ls" "gross_total ls = cq_total q + cq_discount q"
    and run: "(\<exists>q'. preview x tf (sl_db s) inp = Inr q') \<longrightarrow> (\<exists>taxes. foldE (add_tax ls (gross_total ls) (cq_discount q))
         (tax_rules_for tf (cq_property q) (cq_currency q) (cq_arrival q) (cq_departure q))
         \<lparr>tr_tax = 0, tr_exclusive = 0, tr_lines = []\<rparr> = Inr taxes)"
    using assms(1) by (rule untaxed_preview)
  have "tax_for_rule r ls (cq_total q) (cq_discount q) \<noteq> Inr tax" for tax
    using assms(2,4,6,7) ls(1) by (intro small_last_line) auto
  then have "add_tax ls (gross_total ls) (cq_discount q) r acc \<noteq> Inr taxes" for acc taxes
    using assms(5) ls(2) by (auto simp: add_tax_def Let_def bindE_eq_Inr)
  with assms(3) have "foldE (add_tax ls (gross_total ls) (cq_discount q))
      (tax_rules_for tf (cq_property q) (cq_currency q) (cq_arrival q) (cq_departure q)) acc \<noteq> Inr taxes" for acc taxes
    by (rule foldE_stuck)
  with run obtain e where "preview x tf (sl_db s) inp = Inl e" by (cases "preview x tf (sl_db s) inp") auto
  then show ?thesis by (simp add: create_quote_def)
qed

subsection \<open>Examples\<close>

definition priced_at :: "money \<Rightarrow> quote_line list \<Rightarrow> quote_line list" where
  "priced_at amount ls = price_line ''nightly_rate'' None ''per_night'' 100 1000 amount amount ''half_up'' [] ls"

definition three_lines :: "money \<Rightarrow> quote_line list" where
  "three_lines amount = priced_at amount (priced_at 100 (priced_at 100 []))"

theorem line_tax_close_witness:
  "tax_for_rule (demo_tax ''line'') (three_lines 10) 160 50 = Inr 31 \<and> 2 * \<bar>31 * 10000 - 160 * 1900\<bar> \<le> 3 * (10000 :: int)"
proof -
  have run: "tax_for_rule (demo_tax ''line'') (three_lines 10) 160 50 = Inr 31" by code_simp
  have "positive_grosses (three_lines 10) = [100, 100, 10]" "rounds_lines (demo_tax ''line'')" by code_simp+
  then show ?thesis
    using line_tax_close [OF run] run
    by (simp add: demo_tax_def tax_denominator_def or_default_def)
qed

text \<open>Two nights and a service of one unit, a tenth off, and the tax rule rounding by the given scope.\<close>

definition small_service :: "string \<Rightarrow> tariff" where
  "small_service scope = demo_tariff\<lparr>tf_taxes := [demo_tax scope],
     tf_plans := map (\<lambda>p. p\<lparr>rp_services := map (\<lambda>v. v\<lparr>ps_basis := ''per_stay'', ps_amount := Some 1\<rparr>) (rp_services p)\<rparr>)
       (tf_plans demo_tariff)\<rparr>"

definition demo_shop :: sales where
  "demo_shop = (demo_sales [] [] [])\<lparr>sl_db := demo_sales_db\<rparr>"

theorem small_last_line_refused_witness:
  "(\<exists>e. create_quote demo_quote_ctx (small_service ''line'') demo_input demo_shop = Inl e)
   \<and> succeeds_with (\<lambda>q. cq_discount q = 16000 \<and> cq_total q = 171361)
       (preview demo_quote_ctx (small_service ''total'') (sl_db demo_shop) demo_input)"
proof
  have "succeeds_with (\<lambda>q. cq_total q = 144001 \<and> cq_discount q = 16000 \<and> positive_grosses (cq_lines q) = [80000, 80000] @ [1]
      \<and> tax_rules_for (small_service ''line'') (cq_property q) (cq_currency q) (cq_arrival q) (cq_departure q) = [demo_tax ''line''])
    (preview demo_quote_ctx (untaxed_tariff (small_service ''line'')) (sl_db demo_shop) demo_input)"
    by code_simp
  then obtain q where q: "preview demo_quote_ctx (untaxed_tariff (small_service ''line'')) (sl_db demo_shop) demo_input = Inr q"
      "cq_total q = 144001" "cq_discount q = 16000" "positive_grosses (cq_lines q) = [80000, 80000] @ [1]"
      "tax_rules_for (small_service ''line'') (cq_property q) (cq_currency q) (cq_arrival q) (cq_departure q) = [demo_tax ''line'']"
    by (auto elim: succeeds_withE)
  have "rounds_lines (demo_tax ''line'')" "tx_allocation (demo_tax ''line'') \<noteq> ''after_tax''" by code_simp+
  moreover have "(1 :: int) < 16000 - sum_list (map (\<lambda>y. intdiv (16000 * y) (sum_list ([80000, 80000] @ [1]))) [80000, 80000])"
    by code_simp
  ultimately show "\<exists>e. create_quote demo_quote_ctx (small_service ''line'') demo_input demo_shop = Inl e"
    using small_last_line_refused [OF q(1) _ _ _ _ q(4), of "demo_tax ''line''"] q by fastforce
  show "succeeds_with (\<lambda>q. cq_discount q = 16000 \<and> cq_total q = 171361)
       (preview demo_quote_ctx (small_service ''total'') (sl_db demo_shop) demo_input)"
    by code_simp
qed

end
