(* ===== verification/Stay_Search.thy ===== *)
theory Stay_Search
  imports Quoting Capacity
begin

text \<open>
  The search that offers accommodation (\<^verbatim>\<open>AvailabilityQuery\<close>) against the check that books it
  (\<^verbatim>\<open>AvailabilityService\<close>): for a concrete ordinary resource they agree up to the
  allocations that name a category and no resource, which only the check counts; on a buyout the search offers more than
  the check accepts.
\<close>

text \<open>The allocation that \<^verbatim>\<open>CommitBookingQuote\<close> would insert: of a reservation and with an id not in the table.\<close>

definition newcomer :: "db \<Rightarrow> allocation \<Rightarrow> bool" where
  "newcomer s a \<longleftrightarrow> al_quantity a = 1 \<and> al_status a = A_Tentative
     \<and> (\<forall>b \<in> set (allocations s). al_id b \<noteq> al_id a \<and> al_reservation b \<noteq> al_reservation a)"

lemma newcomer_competes:
  "newcomer s a \<Longrightarrow> b \<in> set (allocations s) \<Longrightarrow>
     competes c s a b \<longleftrightarrow> held_elsewhere c s (al_starts a) (al_ends a) None b"
  by (auto simp: newcomer_def competes_def held_elsewhere_def active_for_def meets_def)

definition offered ::
  "ctx \<Rightarrow> db \<Rightarrow> id \<Rightarrow> instant \<Rightarrow> instant \<Rightarrow> int \<Rightarrow> id \<Rightarrow> id \<Rightarrow> bool" where
  "offered c s p starts ends guests kind r = (case for_stay c s p starts ends guests (Some kind) None of
     Inl _ \<Rightarrow> False | Inr (_, places) \<Rightarrow> (\<exists>w \<in> set places. rw_resource w = r \<and> rw_available w))"

lemma unavailable_iff:
  "r \<in> set ids \<Longrightarrow> r \<in> set (unavailable_resource_ids c s ids starts ends excluded) \<longleftrightarrow>
     (\<exists>b \<in> set (blocks s). blk_resource b = r \<and> blocked_within starts ends b)
     \<or> (\<exists>b \<in> set (allocations s). al_resource b = Some r \<and> held_elsewhere c s starts ends excluded b)"
  by (cases "ids = []") (auto simp: unavailable_resource_ids_def on_resources_def image_iff split: option.splits)

lemma offered_iff:
  assumes k: "k \<in> set (categories s)" "cat_property k = p" "cat_counts_as_stay k" "cat_active k"
    and r: "r \<in> set (resources s)" "res_category r = cat_id k" "res_active r"
    and keys: "distinct (map cat_id (categories s))" "distinct (map res_id (resources s))"
    and stay: "starts < ends" "1 \<le> guests"
  shows "offered c s p starts ends guests (cat_id k) (res_id r) \<longleftrightarrow>
    guests \<le> res_capacity r \<and> \<not> buyout_conflict c s p starts ends None
    \<and> (\<forall>b \<in> set (blocks s). blk_resource b = res_id r \<longrightarrow> \<not> blocked_within starts ends b)
    \<and> (\<forall>b \<in> set (allocations s). al_resource b = Some (res_id r) \<longrightarrow> \<not> held_elsewhere c s starts ends None b)"
proof -
  let ?ks = "filter (\<lambda>x. cat_property x = p \<and> cat_counts_as_stay x \<and> cat_active x \<and> cat_id x = cat_id k) (categories s)"
  have same: "x = k" if "x \<in> set (categories s)" "cat_id x = cat_id k" for x
    using that k(1) keys(1) by (auto simp: distinct_map inj_on_def)
  then have ks: "set ?ks = {k}" using k by auto
  have row: "x = r" if "x \<in> set (resources s)" "res_id x = res_id r" for x
    using that r(1) keys(2) by (auto simp: distinct_map inj_on_def)
  have inv: "r \<in> set (active_inventory s (cat_id k))" using r by (simp add: active_inventory_def)
  define ids where "ids = map res_id (concat (map (\<lambda>x. active_inventory s (cat_id x)) ?ks))"
  have mem: "res_id r \<in> set ids" using inv ks by (auto simp: ids_def)
  have "offered c s p starts ends guests (cat_id k) (res_id r) \<longleftrightarrow>
      res_id r \<in> res_id ` set (free_units c s p ids starts ends guests None k)"
    using stay ks inv unfolding offered_def for_stay_def Let_def
    by (auto simp: ids_def image_iff intro: rev_bexI)
  also have "\<dots> \<longleftrightarrow> r \<in> set (free_units c s p ids starts ends guests None k)"
    using row by (auto simp: free_units_def active_inventory_def)
  also have "\<dots> \<longleftrightarrow> guests \<le> res_capacity r \<and> \<not> buyout_conflict c s p starts ends None
      \<and> res_id r \<notin> set (unavailable_resource_ids c s ids starts ends None)"
    using inv by (auto simp: free_units_def)
  finally show ?thesis unfolding unavailable_iff [OF mem] by blast
qed

text \<open>The check in the same words.\<close>

definition free_of :: "ctx \<Rightarrow> db \<Rightarrow> allocation \<Rightarrow> id list \<Rightarrow> bool" where
  "free_of c s a ids \<longleftrightarrow>
     (\<forall>b \<in> set (blocks s). blk_resource b \<in> set ids \<longrightarrow> \<not> blocked_within (al_starts a) (al_ends a) b)
     \<and> (\<forall>b \<in> set (allocations s). on_resources ids b \<longrightarrow> \<not> competes c s a b)"

lemma free_of_append: "free_of c s a (xs @ ys) \<longleftrightarrow> free_of c s a xs \<and> free_of c s a ys"
  by (auto simp: free_of_def on_resources_def split: option.splits)

lemma free_of_mono: "free_of c s a ys \<Longrightarrow> set xs \<subseteq> set ys \<Longrightarrow> free_of c s a xs"
  by (fastforce simp: free_of_def on_resources_def split: option.splits)

lemma blocking_free: "blocking s ids a = None \<longleftrightarrow> (\<forall>b \<in> set (blocks s). blk_resource b \<in> set ids \<longrightarrow>
     \<not> blocked_within (al_starts a) (al_ends a) b)"
  by (simp add: blocking_None blocked_within_def)

lemma assert_free:
  assumes "assert_resource c s a rid = Inr ()" and "find_row res_id rid (resources s) = Some r"
  shows "free_of c s a (conflicting_ids s r)"
proof -
  obtain r' where r': "find_row res_id rid (resources s) = Some r'"
    and bl: "blocking s (conflicting_ids s r') a = None"
    and ord: "\<not> is_buyout r' \<longrightarrow> (\<forall>b \<in> set (resource_conflicts c s r' a). \<not> on_resources (exclusive_ids s r') b)"
    and buy: "is_buyout r' \<longrightarrow> resource_conflicts c s r' a = []"
    using assms(1) by (rule assert_resource_Inr)
  then have r: "r' = r" using assms(2) by simp
  have "\<not> competes c s a b" if "b \<in> set (allocations s)" "on_resources (conflicting_ids s r) b" for b
  proof
    assume "competes c s a b"
    with that have "b \<in> set (resource_conflicts c s r a)" by (simp add: resource_conflicts_def)
    then show False using that(2) ord buy unfolding r by (cases "is_buyout r") (auto simp: conflicting_ids_def)
  qed
  with bl show ?thesis unfolding r by (simp add: free_of_def blocking_free)
qed

lemma free_assert:
  assumes "find_row res_id rid (resources s) = Some r" and "\<not> is_buyout r" and "counts_as_stay s r"
    and "res_property r \<in> prop_id ` set (properties s)" and "free_of c s a (conflicting_ids s r)"
  shows "assert_resource c s a rid = Inr ()"
proof -
  have E: "conflicting_ids s r = exclusive_ids s r" "rid \<in> set (exclusive_ids s r)"
    using assms(1,2) find_row_Some [OF assms(1)] by (simp_all add: conflicting_ids_def exclusive_ids_def Let_def)
  have none: "\<not> on_resources (exclusive_ids s r) b" if "b \<in> set (resource_conflicts c s r a)" for b
    using that assms(5) unfolding E(1) by (auto simp: resource_conflicts_def free_of_def)
  then have "find (on_resources (exclusive_ids s r)) (resource_conflicts c s r a) = None" by (simp add: find_None_iff)
  moreover have "filter (\<lambda>b. al_resource b = Some rid) (resource_conflicts c s r a) = []"
    using none E(2) by (fastforce simp: filter_empty_conv on_resources_def)
  moreover have "blocking s (conflicting_ids s r) a = None" using assms(5) by (simp add: blocking_free free_of_def)
  moreover obtain q where "find_row prop_id (res_property r) (properties s) = Some q"
    using assms(4) by (cases "find_row prop_id (res_property r) (properties s)") (auto simp: find_row_None_iff)
  ultimately show ?thesis
    using assms(1-3) by (simp add: assert_resource_def find_or_fail_def)
qed

lemma newcomer_free:
  assumes "newcomer s a"
  shows "free_of c s a ids \<longleftrightarrow>
     (\<forall>b \<in> set (blocks s). blk_resource b \<in> set ids \<longrightarrow> \<not> blocked_within (al_starts a) (al_ends a) b)
     \<and> (\<forall>b \<in> set (allocations s). on_resources ids b \<longrightarrow> \<not> held_elsewhere c s (al_starts a) (al_ends a) None b)"
  using newcomer_competes [OF assms] by (auto simp: free_of_def)

lemma no_buyout_conflict:
  "newcomer s a \<Longrightarrow> \<not> buyout_conflict c s p (al_starts a) (al_ends a) None \<longleftrightarrow>
     free_of c s a (map res_id (buyout_resources s p))"
  by (auto simp: newcomer_free buyout_conflict_def Let_def on_resources_def split: option.splits)

lemma search_matches_resource:
  assumes "k \<in> set (categories s)" and "cat_property k = res_property r" and "cat_counts_as_stay k" and "cat_active k"
    and "r \<in> set (resources s)" and "res_category r = cat_id k" and "res_active r"
    and "distinct (map cat_id (categories s))" and "distinct (map res_id (resources s))"
    and "res_property r \<in> prop_id ` set (properties s)"
    and "newcomer s a" and "al_starts a < al_ends a" and "1 \<le> guests" and "guests \<le> res_capacity r"
  shows "assert_resource c s a (res_id r) = Inr () \<Longrightarrow>
      offered c s (res_property r) (al_starts a) (al_ends a) guests (cat_id k) (res_id r)"
    and "\<not> is_buyout r \<Longrightarrow> offered c s (res_property r) (al_starts a) (al_ends a) guests (cat_id k) (res_id r) \<Longrightarrow>
      assert_resource c s a (res_id r) = Inr ()"
    and "offered c s (res_property r) (al_starts a) (al_ends a) guests (cat_id k) (res_id r) \<longleftrightarrow>
      free_of c s a (map res_id (buyout_resources s (res_property r)) @ [res_id r])"
proof -
  have row: "find_row res_id (res_id r) (resources s) = Some r" using assms(5,9) by (intro find_row_unique)
  have cat: "find_row cat_id (cat_id k) (categories s) = Some k" using assms(1,8) by (intro find_row_unique)
  have stay: "counts_as_stay s r" using cat assms(3,6) by (simp add: counts_as_stay_def)
  have mem: "r \<in> set (property_resources s (res_property r))" using assms(5) by (simp add: property_resources_def)
  show iff: "offered c s (res_property r) (al_starts a) (al_ends a) guests (cat_id k) (res_id r) \<longleftrightarrow>
      free_of c s a (map res_id (buyout_resources s (res_property r)) @ [res_id r])"
    using assms(14) unfolding offered_iff [OF assms(1-9,12,13)] no_buyout_conflict [OF assms(11)] free_of_append
    by (auto simp: newcomer_free [OF assms(11)] on_resources_def split: option.splits)
  have "set (map res_id (buyout_resources s (res_property r)) @ [res_id r]) \<subseteq> set (conflicting_ids s r)"
    using mem by (auto simp: conflicting_ids_def exclusive_ids_def buyout_resources_def Let_def)
  moreover have "conflicting_ids s r = map res_id (buyout_resources s (res_property r)) @ [res_id r]" if "\<not> is_buyout r"
    using that by (simp add: conflicting_ids_def exclusive_ids_def Let_def)
  ultimately show "assert_resource c s a (res_id r) = Inr () \<Longrightarrow>
      offered c s (res_property r) (al_starts a) (al_ends a) guests (cat_id k) (res_id r)"
    and "\<not> is_buyout r \<Longrightarrow> offered c s (res_property r) (al_starts a) (al_ends a) guests (cat_id k) (res_id r) \<Longrightarrow>
      assert_resource c s a (res_id r) = Inr ()"
    using assert_free [OF _ row, of c a] free_assert [OF row _ stay assms(10), of c a] free_of_mono iff by metis+
qed


subsection \<open>What the search does not see\<close>

definition hold_place :: "allocation \<Rightarrow> db \<Rightarrow> db" where
  "hold_place b s = s\<lparr>allocations := allocations s @ [b]\<rparr>"

lemma hold_place_tables [simp]:
  "allocations (hold_place b s) = allocations s @ [b]" "resources (hold_place b s) = resources s"
  "categories (hold_place b s) = categories s" "blocks (hold_place b s) = blocks s"
  "properties (hold_place b s) = properties s" "live_hold c (hold_place b s) = live_hold c s"
  by (auto simp: hold_place_def live_hold_def fun_eq_iff)

text \<open>C30: Rooms sold by category stay on offer. Let an allocation without a resource take the last room in the pool of an
  ordinary category: with it, what the category already has reserved and the new allocation exceed the capacity. Then the
  search answers every question as if it were not there, and the check of the booking refuses the new allocation,
  whatever resource of the category it names.\<close>

theorem search_ignores_unassigned:
  assumes "al_resource b = None" and "al_category b = Some kid" and "al_category a = Some kid" and "competes c s a b"
    and "find_row cat_id kid (categories s) = Some k" and "\<not> buyout_category s kid"
    and "category_capacity s k a < category_reserved c s kid a + al_quantity b + al_quantity a"
  shows "for_stay c (hold_place b s) p starts ends guests kind excluded = for_stay c s p starts ends guests kind excluded
    \<and> (\<exists>e. assert_available c (hold_place b s) a = Inl e)"
proof -
  have inv: "active_inventory (hold_place b s) = active_inventory s"
    by (simp add: active_inventory_def fun_eq_iff)
  have held: "held_elsewhere c (hold_place b s) = held_elsewhere c s"
    by (auto simp: held_elsewhere_def fun_eq_iff)
  have off: "\<not> on_resources ids b" for ids by (simp add: on_resources_def assms)
  have "unavailable_resource_ids c (hold_place b s) ids starts ends excluded = unavailable_resource_ids c s ids starts ends excluded"
    for ids by (simp add: unavailable_resource_ids_def held off)
  moreover have "buyout_conflict c (hold_place b s) p starts ends excluded = buyout_conflict c s p starts ends excluded"
    by (simp add: buyout_conflict_def buyout_resources_def property_resources_def held off)
  ultimately have "free_units c (hold_place b s) p ids starts ends guests excluded = free_units c s p ids starts ends guests excluded"
    for ids by (simp add: free_units_def inv fun_eq_iff)
  then have "for_stay c (hold_place b s) p starts ends guests kind excluded = for_stay c s p starts ends guests kind excluded"
    by (simp add: for_stay_def inv Let_def)
  have "competes c (hold_place b s) a = competes c s a"
    by (auto simp: competes_def active_for_def fun_eq_iff)
  then have reserved: "category_reserved c (hold_place b s) kid a = category_reserved c s kid a + al_quantity b"
    using assms(2,4) by (simp add: category_reserved_def sum_where_append sum_where_Cons)
  have "assert_available c (hold_place b s) a \<noteq> Inr ()"
  proof
    assume "assert_available c (hold_place b s) a = Inr ()"
    then have "assert_category_capacity c (hold_place b s) a kid = Inr ()" using assms(3) by (simp add: assert_available_Inr)
    then show False
      using assert_category_Inr [of c "hold_place b s" a kid] assms(5-7) reserved
      by (auto simp: buyout_category_def inv category_capacity_def available_inventory_def Let_def)
  qed
  with \<open>for_stay _ _ _ _ _ _ _ _ = _\<close> show ?thesis
    by (cases "assert_available c (hold_place b s) a") auto
qed

subsection \<open>Examples\<close>

definition unassigned_stay :: allocation where
  "unassigned_stay = (demo_allocation 10 6 None A_Confirmed)\<lparr>al_category := Some 2\<rparr>"

definition next_stay :: "id option \<Rightarrow> allocation" where
  "next_stay place = (demo_allocation 11 9 place A_Tentative)\<lparr>al_category := Some 2\<rparr>"

definition cabins :: category where
  "cabins = \<lparr>cat_id = 2, cat_property = 1, cat_kind = Kind_Place, cat_counts_as_stay = True, cat_active = True\<rparr>"

lemmas search_defs = demo_defs cabins_def unassigned_stay_def next_stay_def hold_place_def

theorem search_ignores_unassigned_witness:
  "assert_available demo_ctx demo_db (next_stay (Some 4)) = Inr ()
   \<and> offered demo_ctx (hold_place unassigned_stay demo_db) 1 864000 1036800 1 2 4
   \<and> (\<exists>e. assert_available demo_ctx (hold_place unassigned_stay demo_db) (next_stay (Some 4)) = Inl e)"
proof -
  have runs: "assert_available demo_ctx demo_db (next_stay (Some 4)) = Inr ()" "offered demo_ctx demo_db 1 864000 1036800 1 2 4"
    by code_simp+
  have facts: "al_resource unassigned_stay = None" "al_category unassigned_stay = Some 2" "al_category (next_stay (Some 4)) = Some 2"
    "competes demo_ctx demo_db (next_stay (Some 4)) unassigned_stay" "find_row cat_id 2 (categories demo_db) = Some cabins"
    "\<not> buyout_category demo_db 2"
    "category_capacity demo_db cabins (next_stay (Some 4)) < category_reserved demo_ctx demo_db 2 (next_stay (Some 4))
       + al_quantity unassigned_stay + al_quantity (next_stay (Some 4))"
    by code_simp+
  from search_ignores_unassigned [OF this] runs show ?thesis by (simp add: offered_def)
qed


end
