(* ===== verification/Quote_Effects.thy ===== *)
theory Quote_Effects
  imports Quotes Quote_Sums "HOL-Library.Multiset"
begin

text \<open>
  What the booking of a quote and an amendment do to the stay, the ledger and the tables of quotes: each is taken
  apart once into its steps, and every step is described by the tables it leaves alone.
\<close>

subsection \<open>Steps beside the stay and the ledger\<close>

text \<open>\<open>side_work s t\<close>: only promotions, tasks, deposits, changes and the outbox differ.\<close>

definition main_tables :: "db \<Rightarrow> db" where
  "main_tables s = s\<lparr>usages := [], usage_events := [], redemptions := [], redemption_events := [], tasks := [],
     task_events := [], deposits := [], changes := [], outbox := [], next_id := 0\<rparr>"

definition side_work :: "db \<Rightarrow> db \<Rightarrow> bool" where
  "side_work s t \<longleftrightarrow> main_tables t = main_tables s \<and> next_id s \<le> next_id t"

lemma side_work_refl [simp]: "side_work s s"
  by (simp add: side_work_def)

lemma side_work_trans: "side_work s t \<Longrightarrow> side_work t u \<Longrightarrow> side_work s u"
  by (simp add: side_work_def)

lemma side_work_tables:
  assumes "side_work s t"
  shows "reservations t = reservations s" "allocations t = allocations s" "folio_lines t = folio_lines s"
    "payments t = payments s" "programs t = programs s" "resources t = resources s" "categories t = categories s"
proof -
  have eq: "main_tables t = main_tables s" using assms by (simp add: side_work_def)
  show "reservations t = reservations s" "allocations t = allocations s" "folio_lines t = folio_lines s"
    "payments t = payments s" "programs t = programs s" "resources t = resources s" "categories t = categories s"
    using arg_cong [OF eq, of reservations] arg_cong [OF eq, of allocations] arg_cong [OF eq, of folio_lines]
      arg_cong [OF eq, of payments] arg_cong [OF eq, of programs] arg_cong [OF eq, of resources]
      arg_cong [OF eq, of categories]
    by (simp_all add: main_tables_def)
qed

lemma side_work_fold: "(\<And>x s. side_work s (f x s)) \<Longrightarrow> side_work s (fold f xs s)"
  by (induction xs arbitrary: s) (auto intro: side_work_trans)

lemma side_work_foldE:
  assumes "foldE f xs s = Inr t" and "\<And>x s s'. f x s = Inr s' \<Longrightarrow> side_work s s'"
  shows "side_work s t"
  by (rule foldE_invariant [OF assms(1), where P = "side_work s"]) (auto intro: side_work_trans assms(2))

lemma aside_side_work: "side_work s t \<Longrightarrow> aside s t"
  by (rule asideI) (simp_all add: side_work_tables, simp add: side_work_def)

lemmas side_work_defs = side_work_def main_tables_def

lemma side_usage_event: "side_work s (usage_event c u ty m a s)"
  by (simp add: side_work_defs usage_event_def)

lemma side_redemption_event: "side_work s (redemption_event c d ty why m a s)"
  by (simp add: side_work_defs redemption_event_def)

lemma side_outbox: "side_work s (record_outbox c ag i ev m s)"
  by (simp add: side_work_defs record_outbox_def)

lemma side_new_usage: "side_work s (new_usage c q r g f v s)"
  by (simp add: side_work_defs new_usage_def usage_event_def Let_def)

lemma side_new_redemption: "side_work s (new_redemption c q r g f v s)"
  by (simp add: side_work_defs new_redemption_def redemption_event_def Let_def)

lemma side_reserve_one: "reserve_one c q r g am f s = Inr t \<Longrightarrow> side_work s t"
  by (auto simp: reserve_one_def bindE_eq_Inr Let_def split: if_splits option.splits
      intro: side_new_usage side_work_trans [OF side_new_usage side_new_redemption])

lemma side_reserve: "reserve_for_commit c q r g am s = Inr t \<Longrightarrow> side_work s t"
  unfolding reserve_for_commit_def by (erule side_work_foldE) (rule side_reserve_one)

lemma side_supersede_usage: "side_work s (supersede_usage c q u s)"
  unfolding supersede_usage_def Let_def
  by (rule side_work_trans [OF _ side_usage_event]) (simp add: side_work_defs)

lemma side_supersede_redemption: "side_work s (supersede_redemption c q d s)"
  unfolding supersede_redemption_def
  by (rule side_work_trans [OF _ side_redemption_event]) (simp add: side_work_defs)

lemma side_confirm_usages: "side_work s (confirm_usages c i s)"
  unfolding confirm_usages_def Let_def
  by (rule side_work_trans [OF _ side_work_fold]) (rule side_usage_event | simp add: side_work_defs)+

lemma side_confirm_redemptions: "side_work s (confirm_redemptions c i s)"
  unfolding confirm_redemptions_def Let_def
  by (rule side_work_trans [OF _ side_work_fold]) (rule side_redemption_event | simp add: side_work_defs)+

lemma side_confirm_promotions: "side_work s (confirm_promotions c i s)"
  unfolding confirm_promotions_def by (rule side_work_trans [OF side_confirm_usages side_confirm_redemptions])

lemma side_replace: "replace_for_amendment c q r g s = Inr t \<Longrightarrow> side_work s t"
  unfolding replace_for_amendment_def Let_def
  by (auto simp: bindE_eq_Inr dest!: side_reserve
      intro!: side_work_trans [OF _ side_confirm_promotions] side_work_trans [OF _ side_work_fold [OF side_supersede_redemption]]
        side_work_trans [OF _ side_work_fold [OF side_supersede_usage]])

lemma side_commit_task: "side_work s (commit_task c k e m p s)"
  by (simp add: side_work_defs commit_task_def log_task_event_def save_task_def record_outbox_def)

lemma side_rebase: "side_work s (fst (rebase_pending_tasks c i a b actor s))"
  unfolding rebase_pending_tasks_def Let_def
  by (auto intro!: side_work_fold simp: reschedule_one_def Let_def side_commit_task)

lemma side_scheduled: "side_work s (scheduled_deposit c r why kind n due s)"
  by (simp add: scheduled_deposit_def new_deposit_def Let_def side_work_defs record_outbox_def)

lemma side_rebuild: "rebuild_schedule c r why actor s = Inr (t, res) \<Longrightarrow> side_work s t"
proof -
  assume run: "rebuild_schedule c r why actor s = Inr (t, res)"
  have waive: "side_work s (waive_all c (r_id r) why actor s)" by (simp add: waive_all_def side_work_defs)
  show ?thesis
    using run unfolding rebuild_schedule_def Let_def
    by (auto simp: bindE_eq_Inr split: if_splits intro: waive side_work_trans [OF side_work_trans [OF waive side_scheduled] side_scheduled])
qed

lemma side_record_amendment: "side_work s (record_amendment c b r r' before a e n actor s)"
  unfolding record_amendment_def record_change_def Let_def
  by (simp add: side_work_defs record_outbox_def)

subsection \<open>The ledger\<close>

definition booked_gross :: "db \<Rightarrow> id \<Rightarrow> money" where
  "booked_gross s i = sum_where (\<lambda>l. fl_reservation l = i \<and> in_booked_total l) fl_gross (folio_lines s)"

lemma booked_gross_cong: "folio_lines t = folio_lines s \<Longrightarrow> booked_gross t i = booked_gross s i"
  by (simp add: booked_gross_def)

text \<open>\<open>books_lines r amounts s t\<close>: the ledger gets one booked line of reservation \<open>r\<close> for each net and tax amount.\<close>

definition books_lines :: "id \<Rightarrow> (money \<times> money) list \<Rightarrow> db \<Rightarrow> db \<Rightarrow> bool" where
  "books_lines i amounts s t \<longleftrightarrow> (\<exists>ls. t = s\<lparr>folio_lines := folio_lines s @ ls, next_id := next_id s + length ls\<rparr>
     \<and> map (\<lambda>l. (fl_net l, fl_tax l)) ls = amounts
     \<and> (\<forall>l \<in> set ls. fl_reservation l = i \<and> in_booked_total l \<and> fl_gross l = fl_net l + fl_tax l))"

lemma books_lines_Nil: "books_lines i [] s s"
  by (auto simp: books_lines_def)

lemma books_lines_trans: "books_lines i xs s t \<Longrightarrow> books_lines i ys t u \<Longrightarrow> books_lines i (xs @ ys) s u"
  unfolding books_lines_def by (elim exE conjE, rule exI [of _ "x @ y" for x y]) auto

lemma append_books:
  assumes "append_line c r ty 1000 u actor m tax True s = Inr (t, l)"
  shows "books_lines (r_id r) [(u, tax)] s t"
  using append_line_Inr [OF assms] line_amount_1000_Inr [of u "fl_net l"]
  by (auto simp: books_lines_def posts_def intro!: exI [of _ "[l]"])

lemma charge_books: "charge_line c r (i, l) s = Inr t \<Longrightarrow> books_lines (r_id r) [(ql_net l, ql_tax l)] s t"
  by (auto simp: charge_line_def bindE_eq_Inr dest: append_books)

lemma charges_book:
  "foldE (charge_line c r) nls s = Inr t \<Longrightarrow>
     books_lines (r_id r) (map (\<lambda>(_, l). (ql_net l, ql_tax l)) nls) s t"
proof (induction nls arbitrary: s)
  case (Cons nl nls)
  obtain i l where nl: "nl = (i, l)" by (cases nl)
  from Cons.prems obtain u where u: "charge_line c r (i, l) s = Inr u" "foldE (charge_line c r) nls u = Inr t"
    unfolding nl by (auto split: sum.splits)
  show ?case using books_lines_trans [OF charge_books [OF u(1)] Cons.IH [OF u(2)]] by (simp add: nl)
qed (simp add: books_lines_Nil)

lemma books_lines_tables:
  assumes "books_lines i amounts s t"
  shows "reservations t = reservations s" "allocations t = allocations s" "next_id s \<le> next_id t" "payments t = payments s"
    "programs t = programs s" "deposits t = deposits s" "resources t = resources s" "categories t = categories s"
  using assms by (auto simp: books_lines_def)

lemma aside_books: "books_lines i amounts s t \<Longrightarrow> aside s t"
  by (rule asideI) (simp_all add: books_lines_tables)

lemma books_lines_sums:
  assumes "books_lines i amounts s t"
  shows "booked_gross t j = booked_gross s j + (if j = i then sum_list (map (\<lambda>(n, x). n + x) amounts) else 0)"
    and "fs_balance (summary t r) = fs_balance (summary s r)"
proof -
  obtain ls where t: "t = s\<lparr>folio_lines := folio_lines s @ ls, next_id := next_id s + length ls\<rparr>"
    and a: "map (\<lambda>l. (fl_net l, fl_tax l)) ls = amounts"
    and l: "\<forall>l \<in> set ls. fl_reservation l = i \<and> in_booked_total l \<and> fl_gross l = fl_net l + fl_tax l"
    using assms by (auto simp: books_lines_def)
  have "sum_where (\<lambda>l. fl_reservation l = j \<and> in_booked_total l) fl_gross ls =
      (if j = i then sum_list (map (\<lambda>(n, x). n + x) (map (\<lambda>l. (fl_net l, fl_tax l)) ls)) else 0)"
    using l by (induction ls) (auto simp: sum_where_Cons)
  then show "booked_gross t j = booked_gross s j + (if j = i then sum_list (map (\<lambda>(n, x). n + x) amounts) else 0)"
    by (simp add: booked_gross_def t a sum_where_append)
  have "sum_where (\<lambda>l. fl_reservation l = r_id r \<and> \<not> in_booked_total l) fl_gross ls = 0"
    using l by (induction ls) (auto simp: sum_where_Cons)
  then show "fs_balance (summary t r) = fs_balance (summary s r)" by (simp add: balance_eq t sum_where_append)
qed

subsection \<open>A quote and its lines\<close>

lemma map_snd_numbered [simp]: "map snd (numbered n xs) = xs"
  by (induction xs arbitrary: n) simp_all

lemma mset_ordered_lines: "mset (ordered_lines b) = mset (bq_lines b)"
proof -
  have "mset (filter P xs) + mset (filter (\<lambda>x. \<not> P x) xs) = mset xs" for P and xs :: "(id \<times> quote_line) list"
    by (induction xs) auto
  from this [of "\<lambda>(_, l). ql_service_on l \<noteq> None" "bq_lines b"] show ?thesis
    by (simp add: ordered_lines_def split_def)
qed

text \<open>A stored quote that adds up: the amounts of its lines are those of its calculation.\<close>

definition adds_up :: "booking_quote \<Rightarrow> bool" where
  "adds_up b \<longleftrightarrow> (let q = bq_calculation b in
     map snd (bq_lines b) = cq_lines q \<and> sum_list (map ql_net (cq_lines q)) = cq_subtotal q
     \<and> sum_list (map ql_tax (cq_lines q)) = cq_tax q \<and> cq_total q = cq_subtotal q + cq_tax q)"

lemma ordered_lines_total:
  assumes "adds_up b"
  shows "sum_list (map (\<lambda>(n, x). n + x) (map (\<lambda>(_, l). (ql_net l, ql_tax l)) (ordered_lines b))) = cq_total (bq_calculation b)"
proof -
  let ?f = "\<lambda>p. ql_net (snd p) + ql_tax (snd p)"
  have sums: "sum_list (map ?f xs) = sum_mset (image_mset ?f (mset xs))" for xs
    by (simp flip: sum_mset_sum_list)
  have "sum_list (map ?f (ordered_lines b)) = sum_list (map ?f (bq_lines b))"
    unfolding sums mset_ordered_lines ..
  also have "\<dots> = sum_list (map (\<lambda>l. ql_net l + ql_tax l) (map snd (bq_lines b)))"
    by (simp add: comp_def)
  also have "\<dots> = cq_total (bq_calculation b)"
    using assms by (simp add: adds_up_def Let_def sum_list_addf)
  finally show ?thesis by (simp add: comp_def split_def)
qed

subsection \<open>Booking\<close>

lemma resolve_guest_Inr:
  assumes "resolve_guest gid d s = Inr (t, g)"
  shows "\<exists>n. sl_db t = skip_ids n (sl_db s)" and "sl_quotes t = sl_quotes s" and "sl_stay_guests t = sl_stay_guests s"
    and "g \<in> set (sl_guests t)" and "trim (gu_first_name g) \<noteq> []"
    and "\<And>k. gid = Some k \<Longrightarrow> gu_id g = k \<and> t = s"
  using assms
  by (auto simp: resolve_guest_def bindE_eq_Inr find_or_fail_Inr Let_def skip_ids_def split: option.splits if_splits
      dest: find_row_Some intro: exI [of _ 0] exI [of _ 1])

lemma insert_reservation_Inr:
  "insert_reservation r s = Inr t \<longleftrightarrow> program_at s (r_property r) (r_program r) = Inr ()
     \<and> t = s\<lparr>reservations := reservations s @ [r], next_id := Suc (r_id r)\<rparr>"
  by (auto simp: insert_reservation_def bindE_eq_Inr)

lemma companions_tables:
  "foldE (add_companion i k) ids s = Inr t \<Longrightarrow> sl_db t = sl_db s \<and> sl_quotes t = sl_quotes s \<and> sl_guests t = sl_guests s
     \<and> sl_stay_guests t = sl_stay_guests s @ map (\<lambda>j. \<lparr>sg_reservation = i, sg_guest = j,
           sg_role = (if j = k then ''primary'' else ''guest'')\<rparr>) ids"
proof (induction ids arbitrary: s)
  case (Cons j ids)
  from Cons.prems obtain u where u: "add_companion i k j s = Inr u" "foldE (add_companion i k) ids u = Inr t"
    by (auto split: sum.splits)
  then have "sl_db u = sl_db s" "sl_quotes u = sl_quotes s" "sl_guests u = sl_guests s"
    "sl_stay_guests u = sl_stay_guests s @ [\<lparr>sg_reservation = i, sg_guest = j, sg_role = (if j = k then ''primary'' else ''guest'')\<rparr>]"
    by (auto simp: add_companion_def bindE_eq_Inr find_or_fail_Inr dest: find_row_Some)
  with Cons.IH [OF u(2)] show ?case by simp
qed simp

lemma companions_known:
  "foldE (add_companion i k) ids s = Inr t \<Longrightarrow> set ids \<subseteq> gu_id ` set (sl_guests t)"
proof (induction ids arbitrary: s)
  case (Cons j ids)
  from Cons.prems obtain u where u: "add_companion i k j s = Inr u" "foldE (add_companion i k) ids u = Inr t"
    by (auto split: sum.splits)
  have "j \<in> gu_id ` set (sl_guests u)" "sl_guests t = sl_guests u"
    using u companions_tables [OF u(2)] by (auto simp: add_companion_def bindE_eq_Inr find_or_fail_Inr dest!: find_row_Some)
  with Cons.IH [OF u(2)] show ?case by simp
qed simp

lemma book_quote_Inr:
  assumes "book_quote c b gid d companions s = Inr (t, r)"
  obtains s1 g d1 d2 a s2 d3 d4 where
    "resolve_guest gid d s = Inr (s1, g)"
    and "r = reservation_of_quote b (gu_id g) (next_id (sl_db s1))"
    and "insert_reservation r (sl_db s1) = Inr d1"
    and "insert_allocation (stay_allocation b (r_id r) A_Tentative) d1 = Inr (d2, a)"
    and "assert_available c d2 a = Inr ()"
    and "foldE (add_companion (r_id r) (gu_id g)) (first_occurrences (gu_id g # companions)) s1 = Inr s2"
    and "foldE (charge_line c r) (ordered_lines b) d2 = Inr d3"
    and "reserve_for_commit c (quote_ref_of b) r (Some (gu_id g)) False d3 = Inr d4"
    and "t = s2\<lparr>sl_db := d4, sl_quotes := mark_committed c (bq_id b) (r_id r) (sl_quotes s2)\<rparr>"
proof -
  note run = assms [unfolded book_quote_def run_simps]
  from run obtain s1 g d1 d2 a s2 d3 d4 u where
    g: "resolve_guest gid d s = Inr (s1, g)"
    and f: "insert_reservation (reservation_of_quote b (gu_id g) (next_id (sl_db s1))) (sl_db s1) = Inr d1"
      "insert_allocation (stay_allocation b (r_id (reservation_of_quote b (gu_id g) (next_id (sl_db s1)))) A_Tentative) d1
         = Inr (d2, a)"
      "assert_available c d2 a = Inr u"
      "foldE (add_companion (r_id (reservation_of_quote b (gu_id g) (next_id (sl_db s1)))) (gu_id g))
         (first_occurrences (gu_id g # companions)) s1 = Inr s2"
      "foldE (charge_line c (reservation_of_quote b (gu_id g) (next_id (sl_db s1)))) (ordered_lines b) d2 = Inr d3"
      "reserve_for_commit c (quote_ref_of b) (reservation_of_quote b (gu_id g) (next_id (sl_db s1))) (Some (gu_id g)) False d3
         = Inr d4"
      "s2\<lparr>sl_db := d4, sl_quotes := mark_committed c (bq_id b)
         (r_id (reservation_of_quote b (gu_id g) (next_id (sl_db s1)))) (sl_quotes s2)\<rparr> = t"
    and r: "reservation_of_quote b (gu_id g) (next_id (sl_db s1)) = r"
    by - (elim exE conjE, rule that; assumption)
  show thesis by (rule that [OF g r [symmetric] f(1,2) [unfolded r] _ f(4-6) [unfolded r] f(7) [unfolded r, symmetric]]) (use f(3) in simp)
qed

definition committed_row :: "ctx \<Rightarrow> id \<Rightarrow> booking_quote \<Rightarrow> booking_quote" where
  "committed_row c rid b =
     b\<lparr>bq_status := Q_Committed, bq_reservation := Some rid, bq_committed_at := Some (clock c)\<rparr>"

lemma mark_committed_eq: "mark_committed c i rid = upd_row bq_id i (committed_row c rid)"
  by (simp add: mark_committed_def committed_row_def [abs_def])

lemma committed_row_sel [simp]:
  "bq_id (committed_row c rid b) = bq_id b" "bq_calculation (committed_row c rid b) = bq_calculation b"
  "bq_lines (committed_row c rid b) = bq_lines b" "bq_checksum (committed_row c rid b) = bq_checksum b"
  "bq_status (committed_row c rid b) = Q_Committed" "bq_reservation (committed_row c rid b) = Some rid"
  by (simp_all add: committed_row_def)

lemma find_committed:
  "find_row bq_id k (mark_committed c i rid qs) =
     (if k = i then map_option (committed_row c rid) (find_row bq_id k qs) else find_row bq_id k qs)"
  by (simp add: mark_committed_eq find_row_upd_same find_row_upd_other)

lemma reservation_of_quote_sel [simp]:
  "r_id (reservation_of_quote b g i) = i" "r_status (reservation_of_quote b g i) = R_Hold"
  "r_quote (reservation_of_quote b g i) = Some (bq_id b)" "r_guest (reservation_of_quote b g i) = Some g"
  "r_hold_expires (reservation_of_quote b g i) = Some (cq_expires (bq_calculation b))"
  "r_subtotal (reservation_of_quote b g i) = cq_subtotal (bq_calculation b)"
  "r_tax (reservation_of_quote b g i) = cq_tax (bq_calculation b)"
  "r_total (reservation_of_quote b g i) = cq_total (bq_calculation b)"
  "r_property (reservation_of_quote b g i) = cq_property (bq_calculation b)"
  "r_currency (reservation_of_quote b g i) = cq_currency (bq_calculation b)"
  "r_starts (reservation_of_quote b g i) = cq_starts (bq_calculation b)"
  "r_ends (reservation_of_quote b g i) = cq_ends (bq_calculation b)"
  by (simp_all add: reservation_of_quote_def Let_def)

text \<open>What booking an open quote changes.\<close>

lemma book_quote_effect:
  assumes "book_quote c b gid d companions s = Inr (t, r)"
  obtains g a d2 where
    "next_id (sl_db s) \<le> r_id r" and "r = reservation_of_quote b g (r_id r)" and "\<And>k. gid = Some k \<Longrightarrow> g = k"
    and "reservations (sl_db t) = reservations (sl_db s) @ [r]" and "allocations (sl_db t) = allocations (sl_db s) @ [a]"
    and "al_reservation a = r_id r" and "al_status a = A_Tentative" and "al_resource a = cq_resource (bq_calculation b)"
    and "al_starts a = cq_starts (bq_calculation b)" and "al_ends a = cq_ends (bq_calculation b)" and "al_id a = Suc (r_id r)"
    and "assert_available c d2 a = Inr ()" and "allocations d2 = allocations (sl_db t)"
    and "reservations d2 = reservations (sl_db t)" and "Suc (r_id r) < next_id (sl_db t)"
    and "\<exists>ls. folio_lines (sl_db t) = folio_lines (sl_db s) @ ls \<and> (\<forall>l \<in> set ls. fl_reservation l = r_id r)"
    and "\<And>j. booked_gross (sl_db t) j = booked_gross (sl_db s) j + (if j = r_id r then
           sum_list (map (\<lambda>(n, x). n + x) (map (\<lambda>(_, l). (ql_net l, ql_tax l)) (ordered_lines b))) else 0)"
    and "\<And>x. fs_balance (summary (sl_db t) x) = fs_balance (summary (sl_db s) x)"
    and "sl_quotes t = mark_committed c (bq_id b) (r_id r) (sl_quotes s)"
    and "sl_stay_guests t = sl_stay_guests s @ map (\<lambda>j. \<lparr>sg_reservation = r_id r, sg_guest = j,
           sg_role = (if j = g then ''primary'' else ''guest'')\<rparr>) (first_occurrences (g # companions))"
    and "payments (sl_db t) = payments (sl_db s)"
  using assms
proof (cases rule: book_quote_Inr)
  case (1 s1 g d1 d2 a s2 d3 d4)
  obtain n where n: "sl_db s1 = skip_ids n (sl_db s)" using resolve_guest_Inr(1) [OF 1(1)] by blast
  have d1: "d1 = (sl_db s1)\<lparr>reservations := reservations (sl_db s1) @ [r], next_id := Suc (r_id r)\<rparr>"
    using 1(3) by (simp add: insert_reservation_Inr)
  note ins = insert_allocation_Inr [OF 1(4)]
  obtain d2': "folio_lines d2 = folio_lines d1" "payments d2 = payments d1"
    using 1(4) by (auto simp: insert_allocation_def bindE_eq_Inr)
  note bk = charges_book [OF 1(7)] and side = side_reserve [OF 1(8)] and comp = companions_tables [OF 1(6)]
  have t: "sl_db t = d4" by (simp add: 1(9))
  show thesis
  proof (rule that [of "gu_id g" a d2])
    show "next_id (sl_db s) \<le> r_id r" using 1(2) n by (simp add: skip_ids_def)
    show "r = reservation_of_quote b (gu_id g) (r_id r)" using 1(2) by simp
    show "gu_id g = k" if "gid = Some k" for k using resolve_guest_Inr(6) [OF 1(1) that] by simp
    show "reservations (sl_db t) = reservations (sl_db s) @ [r]" "allocations (sl_db t) = allocations (sl_db s) @ [a]"
      "allocations d2 = allocations (sl_db t)" "reservations d2 = reservations (sl_db t)" "payments (sl_db t) = payments (sl_db s)"
      using ins d1 n books_lines_tables [OF bk] side_work_tables [OF side] d2' by (simp_all add: t skip_ids_def)
    show "Suc (r_id r) < next_id (sl_db t)"
      using ins(2) d1 books_lines_tables(3) [OF bk] side by (simp add: t side_work_def)
    show "sl_quotes t = mark_committed c (bq_id b) (r_id r) (sl_quotes s)"
      using comp resolve_guest_Inr(2) [OF 1(1)] by (simp add: 1(9))
    show "sl_stay_guests t = sl_stay_guests s @ map (\<lambda>j. \<lparr>sg_reservation = r_id r, sg_guest = j,
           sg_role = (if j = gu_id g then ''primary'' else ''guest'')\<rparr>) (first_occurrences (gu_id g # companions))"
      using comp resolve_guest_Inr(3) [OF 1(1)] by (simp add: 1(9))
    have fl: "folio_lines d2 = folio_lines (sl_db s)" using d2' d1 n by (simp add: skip_ids_def)
    have f4: "folio_lines d4 = folio_lines d3" using side_work_tables [OF side] by simp
    show "\<exists>ls. folio_lines (sl_db t) = folio_lines (sl_db s) @ ls \<and> (\<forall>l \<in> set ls. fl_reservation l = r_id r)"
      using bk by (auto simp: books_lines_def t f4 fl)
    show "booked_gross (sl_db t) j = booked_gross (sl_db s) j + (if j = r_id r then
           sum_list (map (\<lambda>(n, x). n + x) (map (\<lambda>(_, l). (ql_net l, ql_tax l)) (ordered_lines b))) else 0)" for j
      using books_lines_sums(1) [OF bk, of j] booked_gross_cong [OF f4, of j] booked_gross_cong [OF fl, of j] by (simp add: t)
    show "fs_balance (summary (sl_db t) x) = fs_balance (summary (sl_db s) x)" for x
      using books_lines_sums(2) [OF bk, of x] f4 fl by (simp add: t balance_eq)
  qed (use 1(5) ins d1 in \<open>simp_all add: stay_allocation_def Let_def\<close>)
qed

lemma no_lines_yet:
  "\<forall>l \<in> set (folio_lines s). fl_reservation l < n \<Longrightarrow> n \<le> i \<Longrightarrow> sum_where (\<lambda>l. fl_reservation l = i \<and> P l) f (folio_lines s) = 0"
  by (rule sum_where_none) auto

lemma set_first_occurrences [simp]: "set (first_occurrences xs) = set xs" "distinct (first_occurrences xs)"
  by (simp_all add: first_occurrences_def)

text \<open>The three ways a commit ends well.\<close>

lemma commit_quote_Inr:
  assumes "commit_quote x i gid d companions s = Inr (t, r)"
  obtains (again) b where "find_row bq_id i (sl_quotes s) = Some b" and "bq_status b = Q_Committed"
      and "bq_reservation b = Some (r_id r)" and "find_reservation (sl_db s) (r_id r) = Some r" and "gid \<noteq> None"
      and "r_guest r = gid" and "t = s"
  | (booked) b where "find_row bq_id i (sl_quotes s) = Some b" and "quote_is_open x b"
      and "bq_checksum b = checksum_for x b" and "book_quote (quote_at x) b gid d companions s = Inr (t, r)"
proof -
  obtain b where b: "find_row bq_id i (sl_quotes s) = Some b"
    using assms by (auto simp: commit_quote_def bindE_eq_Inr find_or_fail_Inr)
  show thesis
  proof (cases "bq_status b = Q_Committed \<and> bq_reservation b \<noteq> None")
    case True
    then obtain rid where "bq_reservation b = Some rid" by blast
    with assms b True show thesis
      by (intro again) (auto simp: commit_quote_def find_or_fail_def bindE_eq_Inr reservation_or_fail_Inr
          dest: find_row_Some split: if_splits)
  next
    case False
    with assms b show thesis
      by (intro booked) (auto simp: commit_quote_def find_or_fail_def split: if_splits)
  qed
qed

subsection \<open>The promotions of a booking\<close>

text \<open>\<open>reserved_rows q r g old us rs\<close>: the usages \<open>us\<close> and redemptions \<open>rs\<close> that a booking adds to the usages \<open>old\<close>. Each usage is
  reserved for the reservation, at the amount the quote took off, once for each promotion; each usage of a voucher comes with a
  redemption of it at the same amount.\<close>

definition reserved_rows ::
  "quote_ref \<Rightarrow> reservation \<Rightarrow> id option \<Rightarrow> usage list \<Rightarrow> usage list \<Rightarrow> redemption list \<Rightarrow> bool" where
  "reserved_rows q r g old us rs \<longleftrightarrow> distinct (map us_promotion us)
     \<and> (\<forall>u \<in> set us. us_reservation u = r_id r \<and> us_quote u = qr_id q \<and> us_guest u = g \<and> us_state u = ''reserved''
          \<and> (\<forall>v \<in> set old. us_quote v = qr_id q \<longrightarrow> us_promotion v \<noteq> us_promotion u)
          \<and> (\<exists>f \<in> set (qr_promotions q). us_promotion u = pf_promotion f \<and> us_voucher u = pf_voucher f
               \<and> us_discount u = pf_discount f \<and> 0 < pf_discount f))
     \<and> (\<forall>d \<in> set rs. rd_reservation d = r_id r \<and> rd_quote d = qr_id q \<and> rd_guest d = g \<and> rd_state d = ''reserved'')
     \<and> map (\<lambda>d. (Some (rd_voucher d), rd_discount d)) rs =
         map (\<lambda>u. (us_voucher u, us_discount u)) (filter (\<lambda>u. us_voucher u \<noteq> None) us)"

definition recorded :: "quote_ref \<Rightarrow> promo_fact \<Rightarrow> db \<Rightarrow> bool" where
  "recorded q f s \<longleftrightarrow> (\<exists>u \<in> set (usages s). us_promotion u = pf_promotion f \<and> us_quote u = qr_id q)"

lemma reserved_rows_Nil: "reserved_rows q r g old [] []"
  by (simp add: reserved_rows_def)

lemma reserved_rows_append:
  assumes "reserved_rows q r g old us rs" and "reserved_rows q r g (old @ us) vs ds"
  shows "reserved_rows q r g old (us @ vs) (rs @ ds)"
proof -
  have "us_promotion u \<noteq> us_promotion v" if "u \<in> set us" "v \<in> set vs" for u v
    using assms that unfolding reserved_rows_def by auto
  then show ?thesis using assms unfolding reserved_rows_def by fastforce
qed

text \<open>The tables of promotions after a step, as far as the two logs.\<close>

definition promoted :: "db \<Rightarrow> db \<Rightarrow> usage list \<Rightarrow> redemption list \<Rightarrow> db" where
  "promoted s t us rs = s\<lparr>usages := usages s @ us, usage_events := usage_events t, redemptions := redemptions s @ rs,
     redemption_events := redemption_events t, next_id := next_id t\<rparr>"

lemma promoted_trans: "m = promoted s m us rs \<Longrightarrow> t = promoted m t vs ds \<Longrightarrow> t = promoted s t (us @ vs) (rs @ ds)"
proof -
  assume m: "m = promoted s m us rs" and t: "t = promoted m t vs ds"
  have "promoted m t vs ds = promoted s t (us @ vs) (rs @ ds)" by (subst m) (simp add: promoted_def)
  with t show ?thesis by simp
qed

lemma promoted_usages: "t = promoted s t us rs \<Longrightarrow> usages t = usages s @ us"
  by (drule arg_cong [of _ _ usages]) (simp add: promoted_def)

lemma reserve_one_rows:
  assumes "reserve_one c q r g am f s = Inr t" and "f \<in> set (qr_promotions q)"
  shows "\<exists>us rs. t = promoted s t us rs \<and> reserved_rows q r g (usages s) us rs \<and> (0 < pf_discount f \<longrightarrow> recorded q f t)"
proof (cases "pf_discount f \<le> 0 \<or> (\<exists>u \<in> set (usages s). us_promotion u = pf_promotion f \<and> us_quote u = qr_id q)")
  case True
  then have "t = s" using assms(1) unfolding reserve_one_def by (cases "pf_discount f \<le> 0") simp_all
  then have "t = promoted s t [] []" "0 < pf_discount f \<longrightarrow> recorded q f t"
    using True by (auto simp: promoted_def recorded_def)
  then show ?thesis using reserved_rows_Nil by blast
next
  case False
  then obtain p v where v: "usable_voucher s am r g (qr_session q) (pf_discount f) p (pf_voucher f) = Inr v"
    and t: "t = (case v of None \<Rightarrow> new_usage c q r g f (map_option vc_id v) s
               | Some w \<Rightarrow> new_redemption c q r g f (vc_id w) (new_usage c q r g f (map_option vc_id v) s))"
    using assms(1) by (auto simp: reserve_one_def bindE_eq_Inr Let_def split: if_splits)
  have vid: "map_option vc_id v = pf_voucher f"
    using v by (auto simp: usable_voucher_def bindE_eq_Inr find_or_fail_Inr split: option.splits if_splits dest: find_row_Some)
  let ?us = "[last (usages t)]" and ?rs = "if v = None then [] else [last (redemptions t)]"
  note defs = new_usage_def usage_event_def new_redemption_def redemption_event_def Let_def
  have "t = promoted s t ?us ?rs"
    by (rule db.equality) (simp_all add: t promoted_def defs split: option.split)
  moreover have "reserved_rows q r g (usages s) ?us ?rs"
    using False assms(2) vid [symmetric] by (cases v) (auto simp: t defs reserved_rows_def)
  moreover have "recorded q f t" by (cases v) (simp_all add: t defs recorded_def)
  ultimately show ?thesis by blast
qed

lemma reserve_rows:
  assumes "foldE (reserve_one c q r g am) fs s = Inr t" and "set fs \<subseteq> set (qr_promotions q)"
  shows "\<exists>us rs. t = promoted s t us rs \<and> reserved_rows q r g (usages s) us rs
    \<and> (\<forall>f \<in> set fs. 0 < pf_discount f \<longrightarrow> recorded q f t)"
  using assms
proof (induction fs arbitrary: s)
  case Nil
  then have "t = promoted s t [] []" by (simp add: promoted_def)
  with reserved_rows_Nil show ?case by fastforce
next
  case (Cons f fs)
  from Cons.prems(1) obtain m where m: "reserve_one c q r g am f s = Inr m" "foldE (reserve_one c q r g am) fs m = Inr t"
    by (auto split: sum.splits)
  obtain us rs where one: "m = promoted s m us rs" "reserved_rows q r g (usages s) us rs" "0 < pf_discount f \<longrightarrow> recorded q f m"
    using reserve_one_rows [OF m(1)] Cons.prems(2) by auto
  obtain vs ds where rest: "t = promoted m t vs ds" "reserved_rows q r g (usages m) vs ds"
      "\<forall>f \<in> set fs. 0 < pf_discount f \<longrightarrow> recorded q f t"
    using Cons.IH [OF m(2)] Cons.prems(2) by auto
  have "reserved_rows q r g (usages s) (us @ vs) (rs @ ds)"
    using one(2) rest(2) promoted_usages [OF one(1)] by (intro reserved_rows_append) simp_all
  moreover have "0 < pf_discount f \<longrightarrow> recorded q f t"
    using one(3) promoted_usages [OF rest(1)] by (auto simp: recorded_def)
  ultimately show ?case using promoted_trans [OF one(1) rest(1)] rest(3) by auto
qed

text \<open>All the tables after a booking.\<close>

definition booked_tables :: "db \<Rightarrow> db \<Rightarrow> reservation \<Rightarrow> allocation \<Rightarrow> folio_line list \<Rightarrow> usage list \<Rightarrow> redemption list \<Rightarrow> db" where
  "booked_tables s t r a ls us rs = s\<lparr>reservations := reservations s @ [r], allocations := allocations s @ [a],
     folio_lines := folio_lines s @ ls, usages := usages s @ us, usage_events := usage_events t,
     redemptions := redemptions s @ rs, redemption_events := redemption_events t, next_id := next_id t\<rparr>"

lemma book_quote_tables:
  assumes "book_quote c b gid d companions s = Inr (t, r)"
  obtains g a ls us rs where "r_guest r = Some g"
    and "if gid = None then sl_guests t = sl_guests s @ [new_guest d g] else sl_guests t = sl_guests s"
    and "set (g # companions) \<subseteq> gu_id ` set (sl_guests t)"
    and "sl_db t = booked_tables (sl_db s) (sl_db t) r a ls us rs"
    and "map (\<lambda>l. (fl_net l, fl_tax l)) ls = map (\<lambda>(_, l). (ql_net l, ql_tax l)) (ordered_lines b)"
    and "\<forall>l \<in> set ls. fl_reservation l = r_id r \<and> in_booked_total l"
    and "reserved_rows (quote_ref_of b) r (Some g) (usages (sl_db s)) us rs"
    and "\<forall>f \<in> set (cq_promotions (bq_calculation b)). 0 < pf_discount f \<longrightarrow> recorded (quote_ref_of b) f (sl_db t)"
  using assms
proof (cases rule: book_quote_Inr)
  case (1 s1 g d1 d2 a s2 d3 d4)
  obtain n where n: "sl_db s1 = skip_ids n (sl_db s)" using resolve_guest_Inr(1) [OF 1(1)] by blast
  have d1: "d1 = (sl_db s1)\<lparr>reservations := reservations (sl_db s1) @ [r], next_id := Suc (r_id r)\<rparr>"
    using 1(3) by (simp add: insert_reservation_Inr)
  have d2: "d2 = d1\<lparr>allocations := allocations d1 @ [a], next_id := Suc (next_id d1)\<rparr>"
    using 1(4) by (auto simp: insert_allocation_def bindE_eq_Inr)
  obtain ls where d3: "d3 = d2\<lparr>folio_lines := folio_lines d2 @ ls, next_id := next_id d2 + length ls\<rparr>"
    and ls: "map (\<lambda>l. (fl_net l, fl_tax l)) ls = map (\<lambda>(_, l). (ql_net l, ql_tax l)) (ordered_lines b)"
      "\<forall>l \<in> set ls. fl_reservation l = r_id r \<and> in_booked_total l"
    using charges_book [OF 1(7)] by (auto simp: books_lines_def)
  have facts: "set (sort_key (\<lambda>f. - pf_priority f) (sort_key pf_promotion (qr_promotions (quote_ref_of b))))
      = set (cq_promotions (bq_calculation b))" by (simp add: quote_ref_of_def)
  obtain us rs where d4: "d4 = promoted d3 d4 us rs"
    and rows: "reserved_rows (quote_ref_of b) r (Some (gu_id g)) (usages d3) us rs"
      "\<forall>f \<in> set (cq_promotions (bq_calculation b)). 0 < pf_discount f \<longrightarrow> recorded (quote_ref_of b) f d4"
    using reserve_rows [OF 1(8) [unfolded reserve_for_commit_def]] facts by (auto simp: quote_ref_of_def)
  have t: "sl_db t = d4" "sl_guests t = sl_guests s1"
    using companions_tables [OF 1(6)] by (simp_all add: 1(9))
  show thesis
  proof (rule that)
    show "r_guest r = Some (gu_id g)" by (simp add: 1(2))
    show "if gid = None then sl_guests t = sl_guests s @ [new_guest d (gu_id g)] else sl_guests t = sl_guests s"
      using 1(1) t(2) by (auto simp: resolve_guest_def bindE_eq_Inr Let_def new_guest_def split: option.splits if_splits)
    show "set (gu_id g # companions) \<subseteq> gu_id ` set (sl_guests t)"
      using companions_known [OF 1(6)] companions_tables [OF 1(6)] t(2) by simp
    show "sl_db t = booked_tables (sl_db s) (sl_db t) r a ls us rs"
      unfolding t(1) by (subst d4) (simp add: booked_tables_def promoted_def d3 d2 d1 n skip_ids_def)
    show "reserved_rows (quote_ref_of b) r (Some (gu_id g)) (usages (sl_db s)) us rs"
      using rows(1) by (simp add: d3 d2 d1 n skip_ids_def)
  qed (use ls rows t(1) in simp_all)
qed

lemma book_quote_exact:
  assumes "book_quote c b gid d companions s = Inr (t, r)" and "adds_up b"
    and "\<forall>l \<in> set (folio_lines (sl_db s)). fl_reservation l < next_id (sl_db s)" and "r_guest r = Some g"
  shows "r = reservation_of_quote b g (r_id r)" and "gid \<noteq> None \<longrightarrow> gid = Some g"
    and "allocations (sl_db t) = allocations (sl_db s) @ [a] \<Longrightarrow> al_reservation a = r_id r \<and> al_status a = A_Tentative
      \<and> al_resource a = cq_resource (bq_calculation b) \<and> al_starts a = r_starts r \<and> al_ends a = r_ends r
      \<and> (\<exists>u. assert_available c u a = Inr () \<and> allocations u = allocations (sl_db t) \<and> reservations u = reservations (sl_db t))"
    and "\<exists>gs. distinct gs \<and> set gs = set (g # companions) \<and> sl_stay_guests t = sl_stay_guests s
      @ map (\<lambda>j. \<lparr>sg_reservation = r_id r, sg_guest = j, sg_role = (if j = g then ''primary'' else ''guest'')\<rparr>) gs"
    and "fs_balance (summary (sl_db t) r) = cq_total (bq_calculation b)"
    and "booked_gross (sl_db t) (r_id r) = cq_total (bq_calculation b)"
    and "fs_balance (summary (sl_db t) y) = fs_balance (summary (sl_db s) y)"
    and "sl_quotes t = mark_committed c (bq_id b) (r_id r) (sl_quotes s)"
proof -
  obtain g' a' d2 where e:
    "next_id (sl_db s) \<le> r_id r" "r = reservation_of_quote b g' (r_id r)" "\<And>k. gid = Some k \<Longrightarrow> g' = k"
    "allocations (sl_db t) = allocations (sl_db s) @ [a']"
    "al_reservation a' = r_id r" "al_status a' = A_Tentative" "al_resource a' = cq_resource (bq_calculation b)"
    "al_starts a' = cq_starts (bq_calculation b)" "al_ends a' = cq_ends (bq_calculation b)"
    "assert_available c d2 a' = Inr ()" "allocations d2 = allocations (sl_db t)"
    "reservations d2 = reservations (sl_db t)"
    and bk: "\<And>j. booked_gross (sl_db t) j = booked_gross (sl_db s) j + (if j = r_id r then
           sum_list (map (\<lambda>(n, x). n + x) (map (\<lambda>(_, l). (ql_net l, ql_tax l)) (ordered_lines b))) else 0)"
    and bal: "\<And>x. fs_balance (summary (sl_db t) x) = fs_balance (summary (sl_db s) x)"
    and q: "sl_quotes t = mark_committed c (bq_id b) (r_id r) (sl_quotes s)"
    and sg: "sl_stay_guests t = sl_stay_guests s @ map (\<lambda>j. \<lparr>sg_reservation = r_id r, sg_guest = j,
           sg_role = (if j = g' then ''primary'' else ''guest'')\<rparr>) (first_occurrences (g' # companions))"
    by (rule book_quote_effect [OF assms(1)], rule that; assumption)
  have "r_guest r = Some g'" by (subst e(2)) simp
  then have g: "g' = g" using assms(4) by simp
  have dates: "r_starts r = cq_starts (bq_calculation b)" "r_ends r = cq_ends (bq_calculation b)"
    "r_total r = cq_total (bq_calculation b)" by (subst e(2), simp)+
  show "r = reservation_of_quote b g (r_id r)" using e(2) g by simp
  show "gid \<noteq> None \<longrightarrow> gid = Some g" using e(3) g by auto
  show "allocations (sl_db t) = allocations (sl_db s) @ [a] \<Longrightarrow> al_reservation a = r_id r \<and> al_status a = A_Tentative
      \<and> al_resource a = cq_resource (bq_calculation b) \<and> al_starts a = r_starts r \<and> al_ends a = r_ends r
      \<and> (\<exists>u. assert_available c u a = Inr () \<and> allocations u = allocations (sl_db t) \<and> reservations u = reservations (sl_db t))"
    using e(4-12) dates by auto
  show "\<exists>gs. distinct gs \<and> set gs = set (g # companions) \<and> sl_stay_guests t = sl_stay_guests s
      @ map (\<lambda>j. \<lparr>sg_reservation = r_id r, sg_guest = j, sg_role = (if j = g then ''primary'' else ''guest'')\<rparr>) gs"
    using sg g by (intro exI [of _ "first_occurrences (g # companions)"]) simp
  have none: "booked_gross (sl_db s) (r_id r) = 0" "fs_balance (summary (sl_db s) r) = cq_total (bq_calculation b)"
    using no_lines_yet [OF assms(3) e(1)] by (simp_all add: booked_gross_def balance_eq dates)
  then show "fs_balance (summary (sl_db t) r) = cq_total (bq_calculation b)"
    and "booked_gross (sl_db t) (r_id r) = cq_total (bq_calculation b)"
    using bal bk [of "r_id r"] ordered_lines_total [OF assms(2)] by simp_all
  show "fs_balance (summary (sl_db t) y) = fs_balance (summary (sl_db s) y)" by (rule bal)
  show "sl_quotes t = mark_committed c (bq_id b) (r_id r) (sl_quotes s)" by (rule q)
qed

subsection \<open>Properties of booking\<close>


subsection \<open>Example\<close>

lemma demo_adds_up [simp]: "adds_up (demo_quote i e n x)"
  by (simp add: adds_up_def demo_quote_def demo_offer_def demo_line_def)

lemma demo_booking:
  "succeeds_with (\<lambda>(t, r). r_id r = 41 \<and> r_total r = 119000 \<and> map al_id (allocations (sl_db t)) = [42]
     \<and> map fl_gross (folio_lines (sl_db t)) = [119000])
    (book_quote demo_ctx two_nights None demo_guest [] (demo_sales [two_nights] [] []))"
  by code_simp

lemma demo_commit:
  obtains t r where "commit_quote demo_quote_ctx 20 None demo_guest [] (demo_sales [two_nights] [] []) = Inr (t, r)"
    and "r_id r = 41" and "r_total r = 119000"
proof -
  have "commit_quote demo_quote_ctx 20 None demo_guest [] (demo_sales [two_nights] [] [])
      = book_quote demo_ctx two_nights None demo_guest [] (demo_sales [two_nights] [] [])"
    by (simp add: commit_quote_def find_or_fail_def find_row_def)
  with demo_booking that show thesis by (auto elim!: succeeds_withE)
qed

text \<open>The same quote with a promotion that took 500 off.\<close>

definition promoted_quote :: booking_quote where
  "promoted_quote = two_nights\<lparr>bq_calculation := (demo_offer 1036800 100000 19000)\<lparr>cq_promotions :=
     [\<lparr>pf_promotion = 70, pf_version = 1, pf_voucher = None, pf_priority = 0, pf_discount = 500\<rparr>]\<rparr>\<rparr>"

definition promoted_sales :: sales where
  "promoted_sales = (demo_sales [promoted_quote] [] [])\<lparr>sl_db := (sl_db (demo_sales [promoted_quote] [] []))\<lparr>promotions := [demo_tenth_off]\<rparr>\<rparr>"


end
