(* ===== verification/Amendments.thy ===== *)
theory Amendments
  imports Quote_Effects
begin

text \<open>
  \<^verbatim>\<open>AmendReservation\<close>: what applying a new quote to a held or confirmed reservation changes in its stay, its folio,
  its deposits and the quote.
\<close>

subsection \<open>The steps\<close>

lemma find_row_put:
  "key y = i \<Longrightarrow> find_row key j (upd_row key i (\<lambda>_. y) tbl) = (if j = i then map_option (\<lambda>_. y) (find_row key i tbl) else find_row key j tbl)"
  by (induction tbl) (auto simp: find_row_def upd_row_def upd_where_def)

lemma release_rows_one:
  assumes "foldE release_row [old] s = Inr t"
  obtains old' where "allocation_hook s (old\<lparr>al_status := A_Released\<rparr>) = Inr old'" and "al_id old' = al_id old"
    and "al_status old' = A_Released" and "t = s\<lparr>allocations := upd_row al_id (al_id old) (\<lambda>_. old') (allocations s)\<rparr>"
proof -
  obtain old' where h: "allocation_hook s (old\<lparr>al_status := A_Released\<rparr>) = Inr old'"
    and t: "t = s\<lparr>allocations := upd_row al_id (al_id old) (\<lambda>_. old') (allocations s)\<rparr>"
    using assms by (auto simp: release_row_def save_allocation_def bindE_eq_Inr split: sum.splits)
  with allocation_hook_Inr [OF h] show thesis by (intro that [OF h _ _ t]) (simp_all add: same_place_def)
qed

lemma move_stay_Inr:
  assumes "move_stay c b r s = Inr (t, a)"
  obtains old s1 where
    "filter (is_stay_allocation s) (live_allocations s (r_id r)) = [old]"
    and "\<forall>x \<in> set (live_allocations s (r_id r)). x \<noteq> old \<longrightarrow>
           cq_starts (bq_calculation b) \<le> al_starts x \<and> al_ends x \<le> cq_ends (bq_calculation b)"
    and "foldE release_row [old] s = Inr s1"
    and "insert_allocation (stay_allocation b (r_id r) (if r_status r = R_Confirmed then A_Confirmed else A_Tentative)) s1
           = Inr (t, a)"
    and "assert_available c t a = Inr ()"
proof -
  define stays where "stays = filter (is_stay_allocation s) (live_allocations s (r_id r))"
  note run = assms [unfolded move_stay_def Let_def, folded stays_def]
  have one: "length stays = 1" using run by (auto split: if_splits)
  then obtain old where old: "stays = [old]" by (auto simp: length_Suc_conv)
  have within: "\<not> (\<exists>x \<in> set (live_allocations s (r_id r)). x \<notin> set stays
      \<and> (al_starts x < cq_starts (bq_calculation b) \<or> cq_ends (bq_calculation b) < al_ends x))"
    using run one by (auto split: if_splits)
  with run one have rest: "bindE (foldE release_row stays s) (\<lambda>s1.
        bindE (insert_allocation (stay_allocation b (r_id r)
                 (if r_status r = R_Confirmed then A_Confirmed else A_Tentative)) s1) (\<lambda>(s2, a).
        bindE (assert_available c s2 a) (\<lambda>_. Inr (s2, a)))) = Inr (t, a)"
    by (simp only: if_not_P not_True_eq_False simp_thms)
  then show thesis
    by (auto simp: bindE_eq_Inr old intro!: that [OF stays_def [folded old, symmetric, unfolded old]]
        dest: bspec [OF within [unfolded bex_simps ball_simps]])
qed

lemma post_delta_Inr:
  assumes "post_delta c b r actor s = Inr t"
  shows "cq_total (bq_calculation b) = r_total r \<and> t = s
    \<or> cq_total (bq_calculation b) \<noteq> r_total r \<and> books_lines (r_id r)
        [(cq_subtotal (bq_calculation b) - r_subtotal r, cq_tax (bq_calculation b) - r_tax r)] s t"
  using assms by (auto simp: post_delta_def Let_def bindE_eq_Inr split: if_splits dest: append_books)

lemma apply_amendment_Inr:
  "apply_amendment x i k actor s = Inr (t, r') \<longleftrightarrow> (\<exists>r b. find_reservation (sl_db s) i = Some r
     \<and> r_status r \<in> {R_Hold, R_Confirmed} \<and> find_row bq_id k (sl_quotes s) = Some b \<and> quote_is_open x b
     \<and> cq_property (bq_calculation b) = r_property r \<and> cq_currency (bq_calculation b) = r_currency r
     \<and> bq_checksum b = checksum_for x b \<and> rebook (quote_at x) b r actor s = Inr (t, r'))"
  unfolding apply_amendment_def bindE_eq_Inr reservation_or_fail_Inr find_or_fail_Inr if_Inl_eq_Inr by auto

lemma rebook_Inr:
  assumes "rebook c b r actor s = Inr (t, r')"
  obtains d1 d2 a d3 d6 effects where
    "replace_for_amendment c (quote_ref_of b) r (r_guest r) (sl_db s) = Inr d1"
    and "move_stay c b r d1 = Inr (d2, a)"
    and "post_delta c b r actor d2 = Inr d3"
    and "r' = amended b r"
    and "rebuild_schedule c (amended b r) ''Superseded by reservation amendment'' actor
           (fst (rebase_pending_tasks c (r_id r) (r_starts r) (cq_starts (bq_calculation b)) actor
              (update_reservation (r_id r) (\<lambda>_. amended b r) d3))) = Inr (d6, effects)"
    and "sl_quotes t = mark_committed c (bq_id b) (r_id r) (sl_quotes s)" and "sl_guests t = sl_guests s"
    and "sl_stay_guests t = sl_stay_guests s" and "side_work d6 (sl_db t)" and "deposits (sl_db t) = deposits d6"
proof -
  note run = assms [unfolded rebook_def run_simps]
  from run obtain d1 d2 a d3 d6 effects u where f:
    "replace_for_amendment c (quote_ref_of b) r (r_guest r) (sl_db s) = Inr d1"
    "move_stay c b r d1 = Inr (d2, a)" "post_delta c b r actor d2 = Inr d3"
    "program_at d3 (r_property r) (cq_program (bq_calculation b)) = Inr u"
    "rebuild_schedule c (amended b r) ''Superseded by reservation amendment'' actor
           (fst (rebase_pending_tasks c (r_id r) (r_starts r) (cq_starts (bq_calculation b)) actor
              (update_reservation (r_id r) (\<lambda>_. amended b r) d3))) = Inr (d6, effects)"
    "s\<lparr>sl_db := record_amendment c b r (amended b r) (snapshot_of d1 r) a effects
           (snd (rebase_pending_tasks c (r_id r) (r_starts r) (cq_starts (bq_calculation b)) actor
              (update_reservation (r_id r) (\<lambda>_. amended b r) d3))) actor d6,
         sl_quotes := mark_committed c (bq_id b) (r_id r) (sl_quotes s)\<rparr> = t"
    "amended b r = r'"
    by - (elim exE conjE, rule that; assumption)
  have t: "sl_db t = record_amendment c b r (amended b r) (snapshot_of d1 r) a effects
           (snd (rebase_pending_tasks c (r_id r) (r_starts r) (cq_starts (bq_calculation b)) actor
              (update_reservation (r_id r) (\<lambda>_. amended b r) d3))) actor d6"
    by (simp add: f(6) [symmetric])
  show thesis
  proof (rule that [OF f(1-3) f(7) [symmetric] f(5)])
    show "side_work d6 (sl_db t)" unfolding t by (rule side_record_amendment)
    show "deposits (sl_db t) = deposits d6"
      by (simp add: t record_amendment_def record_change_def record_outbox_def Let_def)
  qed (simp_all add: f(6) [symmetric])
qed

subsection \<open>What an amendment changes\<close>

lemma amended_sel [simp]:
  "r_id (amended b r) = r_id r" "r_status (amended b r) = r_status r" "r_hold_expires (amended b r) = r_hold_expires r"
  "r_property (amended b r) = r_property r" "r_currency (amended b r) = r_currency r" "r_guest (amended b r) = r_guest r"
  "r_quote (amended b r) = Some (bq_id b)" "r_total (amended b r) = cq_total (bq_calculation b)"
  "r_subtotal (amended b r) = cq_subtotal (bq_calculation b)" "r_tax (amended b r) = cq_tax (bq_calculation b)"
  "r_starts (amended b r) = cq_starts (bq_calculation b)" "r_ends (amended b r) = cq_ends (bq_calculation b)"
  "r_revision (amended b r) = r_revision r + 1"
  by (simp_all add: amended_def Let_def)

lemma insert_allocation_ledger:
  "insert_allocation a s = Inr (t, b) \<Longrightarrow> folio_lines t = folio_lines s \<and> payments t = payments s \<and> deposits t = deposits s"
  by (auto simp: insert_allocation_def bindE_eq_Inr)

lemma post_delta_amount:
  assumes "post_delta c b r actor s = Inr t"
  defines "q \<equiv> bq_calculation b"
  shows "booked_gross t j = booked_gross s j
      + (if j = r_id r \<and> cq_total q \<noteq> r_total r then (cq_subtotal q + cq_tax q) - (r_subtotal r + r_tax r) else 0)"
    and "fs_balance (summary t x) = fs_balance (summary s x)"
    and "cq_total q = r_total r \<Longrightarrow> t = s"
    and "reservations t = reservations s" "allocations t = allocations s" "payments t = payments s" "next_id s \<le> next_id t"
    and "\<exists>ls. folio_lines t = folio_lines s @ ls \<and> (\<forall>l \<in> set ls. fl_reservation l = r_id r)"
    and "deposits t = deposits s"
  using post_delta_Inr [OF assms(1)]
  by (auto simp: q_def books_lines_sums books_lines_tables) (auto simp: books_lines_def)

lemma release_rows_tables:
  assumes "foldE release_row [old] s = Inr t"
  shows "reservations t = reservations s" "folio_lines t = folio_lines s" "payments t = payments s" "next_id t = next_id s"
    "deposits t = deposits s" "catalogue t = catalogue s"
  using assms by (cases rule: release_rows_one, simp add: catalogue_def)+

lemma move_stay_tables:
  assumes "move_stay c b r s = Inr (t, a)"
  shows "reservations t = reservations s" "folio_lines t = folio_lines s" "payments t = payments s" "next_id s \<le> next_id t"
    "deposits t = deposits s"
  using assms by (cases rule: move_stay_Inr, simp add: release_rows_tables insert_allocation_ledger insert_allocation_Inr)+

text \<open>The tables that an amendment moves, one after the other.\<close>

lemma rebook_rows:
  assumes "rebook c b r actor s = Inr (t, r')"
  shows "r' = amended b r \<and> reservations (sl_db t) = upd_row r_id (r_id r) (\<lambda>_. amended b r) (reservations (sl_db s))
    \<and> payments (sl_db t) = payments (sl_db s) \<and> next_id (sl_db s) \<le> next_id (sl_db t)
    \<and> sl_quotes t = mark_committed c (bq_id b) (r_id r) (sl_quotes s) \<and> sl_guests t = sl_guests s
    \<and> sl_stay_guests t = sl_stay_guests s"
  using assms
proof (cases rule: rebook_Inr)
  case (1 d1 d2 a d3 d6 effects)
  note side = side_replace [OF 1(1)] side_rebase side_rebuild [OF 1(5)] 1(9)
  note moved = move_stay_tables [OF 1(2)] post_delta_amount(4-7) [OF 1(3)]
  have "reservations (sl_db t) = upd_row r_id (r_id r) (\<lambda>_. amended b r) (reservations (sl_db s))"
    "payments (sl_db t) = payments (sl_db s)"
    using side [THEN side_work_tables(1)] side [THEN side_work_tables(4)] moved by (simp_all add: update_reservation_frame)
  moreover have "next_id (sl_db s) \<le> next_id d1" "next_id d1 \<le> next_id d3"
    "next_id (update_reservation (r_id r) (\<lambda>_. amended b r) d3) \<le> next_id d6" "next_id d6 \<le> next_id (sl_db t)"
    using side(1) order_trans [OF moved(4) moved(9)] side_work_trans [OF side(2,3)] side(4) by (simp_all add: side_work_def)
  then have "next_id (sl_db s) \<le> next_id (sl_db t)" by (simp add: update_reservation_frame)
  ultimately show ?thesis using 1(4,6-8) by blast
qed

lemma rebook_ledger:
  assumes "rebook c b r actor s = Inr (t, r')"
  defines "q \<equiv> bq_calculation b"
  shows "booked_gross (sl_db t) j = booked_gross (sl_db s) j
      + (if j = r_id r \<and> cq_total q \<noteq> r_total r then (cq_subtotal q + cq_tax q) - (r_subtotal r + r_tax r) else 0)
    \<and> fs_balance (summary (sl_db t) x) = fs_balance (summary (sl_db s) x)
    \<and> (cq_total q = r_total r \<longrightarrow> folio_lines (sl_db t) = folio_lines (sl_db s))
    \<and> (\<exists>ls. folio_lines (sl_db t) = folio_lines (sl_db s) @ ls \<and> (\<forall>l \<in> set ls. fl_reservation l = r_id r))"
  using assms(1)
proof (cases rule: rebook_Inr)
  case (1 d1 d2 a d3 d6 effects)
  note lines = side_replace [OF 1(1), THEN side_work_tables(3)] move_stay_tables(2) [OF 1(2)]
    side_rebase [THEN side_work_tables(3)] side_rebuild [OF 1(5), THEN side_work_tables(3)] 1(9) [THEN side_work_tables(3)]
  have ends: "folio_lines (sl_db t) = folio_lines d3" "folio_lines d2 = folio_lines (sl_db s)"
    using lines by (simp_all add: update_reservation_frame)
  note d = post_delta_amount [OF 1(3), folded q_def]
  have "fs_balance (summary (sl_db t) x) = fs_balance (summary (sl_db s) x)"
    using d(2) [of x] ends by (simp add: balance_eq)
  then show ?thesis
    using d(1,3,8) ends booked_gross_cong [OF ends(1)] booked_gross_cong [OF ends(2)] by simp
qed

lemma rebook_deposits:
  assumes "rebook c b r actor s = Inr (t, r')"
  shows "open_due (r_id r) (sl_db t) = max 0 (cq_total (bq_calculation b) - paid_minor (sl_db s) (r_id r))"
  using assms
proof (cases rule: rebook_Inr)
  case (1 d1 d2 a d3 d6 effects)
  note pays = side_replace [OF 1(1), THEN side_work_tables(4)] move_stay_tables(3) [OF 1(2)] post_delta_amount(6) [OF 1(3)]
    side_rebase [THEN side_work_tables(4)]
  have "open_due (r_id r) (sl_db t) = open_due (r_id r) d6" by (simp add: open_due_def 1(10))
  also have "\<dots> = max 0 (cq_total (bq_calculation b) - paid_minor (sl_db s) (r_id r))"
    using conjunct1 [OF rebuild_due [OF 1(5)]] pays by (simp add: paid_minor_def update_reservation_frame)
  finally show ?thesis .
qed

lemma rebook_stay:
  assumes "rebook c b r actor s = Inr (t, r')"
  obtains old old' a u where
    "filter (is_stay_allocation (sl_db s)) (live_allocations (sl_db s) (r_id r)) = [old]"
    and "\<forall>x \<in> set (live_allocations (sl_db s) (r_id r)). x \<noteq> old \<longrightarrow>
           cq_starts (bq_calculation b) \<le> al_starts x \<and> al_ends x \<le> cq_ends (bq_calculation b)"
    and "same_place old' old" and "al_status old' = A_Released"
    and "allocations (sl_db t) = upd_row al_id (al_id old) (\<lambda>_. old') (allocations (sl_db s)) @ [a]"
    and "al_reservation a = r_id r" and "al_status a = (if r_status r = R_Confirmed then A_Confirmed else A_Tentative)"
    and "al_resource a = cq_resource (bq_calculation b)" and "al_starts a = cq_starts (bq_calculation b)"
    and "al_ends a = cq_ends (bq_calculation b)" and "assert_available c u a = Inr ()" and "allocations u = allocations (sl_db t)"
    and "reservations u = reservations (sl_db s)"
  using assms
proof (cases rule: rebook_Inr)
  case (1 d1 d2 a d3 d6 effects)
  note side1 = side_replace [OF 1(1), THEN side_work_tables(1)] side_replace [OF 1(1), THEN side_work_tables(2)]
    side_replace [OF 1(1), THEN side_work_tables(6)] side_replace [OF 1(1), THEN side_work_tables(7)]
  note later = post_delta_amount(5) [OF 1(3)] side_rebase [THEN side_work_tables(2)]
    side_rebuild [OF 1(5), THEN side_work_tables(2)] 1(9) [THEN side_work_tables(2)]
  have live: "live_allocations d1 = live_allocations (sl_db s)" "is_stay_allocation d1 = is_stay_allocation (sl_db s)"
    using side1
    by (simp_all add: fun_eq_iff live_allocations_def own_allocations_def is_stay_allocation_def requested_category_def
        cong: option.case_cong)
  have end_t: "allocations (sl_db t) = allocations d2" using later by (simp add: update_reservation_frame)
  from 1(2) show thesis
  proof (cases rule: move_stay_Inr)
    case m: (1 old s1)
    from m(3) show thesis
    proof (cases rule: release_rows_one)
      case r: (1 old')
      note i = insert_allocation_Inr [OF m(4)]
      show thesis
      proof (rule that [of old old' a d2])
        show "same_place old' old" using allocation_hook_Inr [OF r(1)] by (simp add: same_place_def)
        show "allocations (sl_db t) = upd_row al_id (al_id old) (\<lambda>_. old') (allocations (sl_db s)) @ [a]"
          using end_t i(1) r(4) side1 by simp
        show "reservations d2 = reservations (sl_db s)" using i(3) r(4) side1 by simp
      qed (use m r i live end_t in \<open>simp_all add: stay_allocation_def Let_def\<close>)
    qed
  qed
qed

text \<open>After the move every live allocation of the reservation lies within the new dates.\<close>

lemma rebook_within:
  assumes "rebook c b r actor s = Inr (t, r')" and "a \<in> set (live_allocations (sl_db t) (r_id r))"
  shows "cq_starts (bq_calculation b) \<le> al_starts a \<and> al_ends a \<le> cq_ends (bq_calculation b)"
  using assms(1)
proof (cases rule: rebook_stay)
  case (1 old old' new u)
  consider "a = new" | "a \<in> set (live_allocations (sl_db s) (r_id r))" "a \<noteq> old"
    using assms(2) 1(4,5)
    by (auto simp: in_live_allocations upd_row_def upd_where_def released_def split: if_splits)
  then show ?thesis using 1(2,9,10) by cases simp_all
qed

text \<open>C5: An amendment moves the stay and its money by the difference. It needs a hold or a confirmed reservation and a
  new quote that is open, unaltered and of the same property and currency; the reservation gets the new dates and amounts
  and no other one changes. Exactly one stay allocation is released and replaced by one that was checked for the new
  dates, and every allocation that stays live lies within them. The booked lines and the balance of the folio change by
  the difference of the totals, the deposits still due are what is unpaid of the new total, payments stay as they are, and
  the quote is committed to this reservation.\<close>

theorem amendment_exact:
  assumes "apply_amendment x i k actor s = Inr (t, r')" and "find_reservation (sl_db s) i = Some r"
    and "find_row bq_id k (sl_quotes s) = Some b" and "adds_up b" and "r_total r = r_subtotal r + r_tax r"
  shows "r_status r \<in> {R_Hold, R_Confirmed} \<and> quote_is_open x b \<and> bq_checksum b = checksum_for x b
    \<and> cq_property (bq_calculation b) = r_property r \<and> cq_currency (bq_calculation b) = r_currency r
    \<and> r' = amended b r \<and> find_reservation (sl_db t) i = Some r'
    \<and> (\<forall>j. j \<noteq> i \<longrightarrow> find_reservation (sl_db t) j = find_reservation (sl_db s) j)
    \<and> (\<exists>old old' a u. filter (is_stay_allocation (sl_db s)) (live_allocations (sl_db s) i) = [old]
        \<and> same_place old' old \<and> al_status old' = A_Released
        \<and> allocations (sl_db t) = upd_row al_id (al_id old) (\<lambda>_. old') (allocations (sl_db s)) @ [a]
        \<and> al_starts a = r_starts r' \<and> al_ends a = r_ends r' \<and> al_resource a = cq_resource (bq_calculation b)
        \<and> assert_available (quote_at x) u a = Inr () \<and> allocations u = allocations (sl_db t))
    \<and> (\<forall>a \<in> set (live_allocations (sl_db t) i). r_starts r' \<le> al_starts a \<and> al_ends a \<le> r_ends r')
    \<and> booked_gross (sl_db t) i = booked_gross (sl_db s) i + (r_total r' - r_total r)
    \<and> fs_balance (summary (sl_db t) r') = fs_balance (summary (sl_db s) r) + (r_total r' - r_total r)
    \<and> open_due i (sl_db t) = max 0 (r_total r' - paid_minor (sl_db t) i) \<and> payments (sl_db t) = payments (sl_db s)
    \<and> find_row bq_id k (sl_quotes t) = Some (committed_row (quote_at x) i b)"
proof -
  have a: "r_status r \<in> {R_Hold, R_Confirmed}" "quote_is_open x b" "cq_property (bq_calculation b) = r_property r"
    "cq_currency (bq_calculation b) = r_currency r" "bq_checksum b = checksum_for x b"
    and run: "rebook (quote_at x) b r actor s = Inr (t, r')"
    using assms(1-3) by (auto simp: apply_amendment_Inr)
  have id: "r_id r = i" "bq_id b = k" using find_row_Some assms(2,3) by fastforce+
  note rows = rebook_rows [OF run] and money = rebook_ledger [OF run] and due = rebook_deposits [OF run]
  have r': "r' = amended b r" using rows by blast
  have find: "find_reservation (sl_db t) i = Some r'" "j \<noteq> i \<Longrightarrow> find_reservation (sl_db t) j = find_reservation (sl_db s) j" for j
    using rows assms(2) find_row_put [of r_id "amended b r" i] id by simp_all
  have total: "cq_subtotal (bq_calculation b) + cq_tax (bq_calculation b) = cq_total (bq_calculation b)"
    using assms(4) by (simp add: adds_up_def Let_def)
  have sums: "booked_gross (sl_db t) i = booked_gross (sl_db s) i + (r_total r' - r_total r)"
    "fs_balance (summary (sl_db t) r') = fs_balance (summary (sl_db s) r) + (r_total r' - r_total r)"
    using money [of i r] total assms(5) id by (auto simp: r' balance_eq)
  have within: "\<forall>a \<in> set (live_allocations (sl_db t) i). r_starts r' \<le> al_starts a \<and> al_ends a \<le> r_ends r'"
    using rebook_within [OF run] id by (simp add: r')
  have unpaid: "open_due i (sl_db t) = max 0 (r_total r' - paid_minor (sl_db t) i)"
    using due rows id by (simp add: r' paid_minor_def)
  have quotes: "find_row bq_id k (sl_quotes t) = Some (committed_row (quote_at x) i b)"
    using rows assms(3) id by (simp add: find_committed)
  have stay: "\<exists>old old' a u. filter (is_stay_allocation (sl_db s)) (live_allocations (sl_db s) i) = [old]
      \<and> same_place old' old \<and> al_status old' = A_Released
      \<and> allocations (sl_db t) = upd_row al_id (al_id old) (\<lambda>_. old') (allocations (sl_db s)) @ [a]
      \<and> al_starts a = r_starts r' \<and> al_ends a = r_ends r' \<and> al_resource a = cq_resource (bq_calculation b)
      \<and> assert_available (quote_at x) u a = Inr () \<and> allocations u = allocations (sl_db t)"
    using run
  proof (cases rule: rebook_stay)
    case (1 old old' n u)
    then show ?thesis
      by (intro exI [of _ old] exI [of _ old'] exI [of _ n] exI [of _ u]) (simp add: id r')
  qed
  show ?thesis
    using a rows by (intro conjI allI impI find r' sums within unpaid quotes stay) simp_all
qed

subsection \<open>Example\<close>

lemma demo_rebook:
  "succeeds_with (\<lambda>(t, r). r_id r = 6 \<and> r_total r = 150000 \<and> map al_status (allocations (sl_db t)) = [A_Released, A_Confirmed]
     \<and> map fl_gross (folio_lines (sl_db t)) = [50000])
    (rebook demo_ctx three_nights (demo_reservation 6 R_Confirmed) (Some 1) demo_stay)"
  by code_simp

theorem amendment_exact_witness:
  "\<exists>t r'. apply_amendment demo_quote_ctx 6 20 (Some 1) demo_stay = Inr (t, r') \<and> r_total r' = 150000
     \<and> booked_gross (sl_db t) 6 = 50000 \<and> open_due 6 (sl_db t) = max 0 (150000 - paid_minor (sl_db t) 6)"
proof -
  let ?r = "demo_reservation 6 R_Confirmed"
  have rows: "find_reservation (sl_db demo_stay) 6 = Some ?r" "find_row bq_id 20 (sl_quotes demo_stay) = Some three_nights"
    by (simp_all add: find_row_def demo_reservation_def)
  have "apply_amendment demo_quote_ctx 6 20 (Some 1) demo_stay = rebook demo_ctx three_nights ?r (Some 1) demo_stay"
    using rows by (simp add: apply_amendment_def reservation_or_fail_def find_or_fail_def)
      (simp add: demo_offer_def demo_reservation_def)
  then obtain t r' where run: "apply_amendment demo_quote_ctx 6 20 (Some 1) demo_stay = Inr (t, r')" "r_total r' = 150000"
    using demo_rebook by (auto elim!: succeeds_withE)
  have "r_total ?r = r_subtotal ?r + r_tax ?r" "r_total ?r = 100000" by (simp_all add: demo_reservation_def)
  with amendment_exact [OF run(1) rows] run show ?thesis by (auto simp: booked_gross_def)
qed

end
