(* ===== verification/Offers_Kept.thy ===== *)
theory Offers_Kept
  imports Amendments
begin

text \<open>
  What the stay workflows (confirmation, transitions, closure, expiry of holds) leave of a sale: no reservation
  is added or changes its quote or its price, and the ledger gets no booked line.
\<close>

definition offer_key :: "reservation \<Rightarrow> id \<times> id option \<times> money \<times> money \<times> money" where
  "offer_key r = (r_id r, r_quote r, r_subtotal r, r_tax r, r_total r)"

definition same_offers :: "db \<Rightarrow> db \<Rightarrow> bool" where
  "same_offers s t \<longleftrightarrow> map offer_key (reservations t) = map offer_key (reservations s) \<and> next_id s \<le> next_id t
     \<and> (\<exists>ls. folio_lines t = folio_lines s @ ls
          \<and> (\<forall>l \<in> set ls. \<not> in_booked_total l \<and> fl_reservation l \<in> r_id ` set (reservations s)))"

lemma offer_key_ids: "map offer_key rs = map offer_key rs' \<Longrightarrow> map r_id rs = map r_id rs'"
  by (drule arg_cong [of _ _ "map fst"]) (simp add: comp_def offer_key_def)

lemma same_offers_refl [simp]: "same_offers s s"
  by (simp add: same_offers_def)

lemma same_offers_ids: "same_offers s t \<Longrightarrow> r_id ` set (reservations t) = r_id ` set (reservations s)"
  by (metis list.set_map offer_key_ids same_offers_def)

lemma same_offers_trans:
  assumes "same_offers s t" and "same_offers t u"
  shows "same_offers s u"
proof -
  obtain ls ms where "folio_lines t = folio_lines s @ ls" "folio_lines u = folio_lines t @ ms"
    and "\<forall>l \<in> set ls. \<not> in_booked_total l \<and> fl_reservation l \<in> r_id ` set (reservations s)"
    and "\<forall>l \<in> set ms. \<not> in_booked_total l \<and> fl_reservation l \<in> r_id ` set (reservations t)"
    using assms unfolding same_offers_def by blast
  then have "folio_lines u = folio_lines s @ (ls @ ms)"
    "\<forall>l \<in> set (ls @ ms). \<not> in_booked_total l \<and> fl_reservation l \<in> r_id ` set (reservations s)"
    using same_offers_ids [OF assms(1)] by auto
  with assms show ?thesis unfolding same_offers_def by (metis order_trans)
qed

lemma same_offersI:
  "reservations t = reservations s \<Longrightarrow> folio_lines t = folio_lines s \<Longrightarrow> next_id s \<le> next_id t \<Longrightarrow> same_offers s t"
  by (simp add: same_offers_def)

lemma same_offers_fold: "(\<And>x s. same_offers s (f x s)) \<Longrightarrow> same_offers s (fold f xs s)"
  by (induction xs arbitrary: s) (auto intro: same_offers_trans)

lemma same_offers_foldE:
  assumes "foldE f xs s = Inr t" and "\<And>x s s'. f x s = Inr s' \<Longrightarrow> same_offers s s'"
  shows "same_offers s t"
  by (rule foldE_invariant [OF assms(1), where P = "same_offers s"]) (auto intro: same_offers_trans assms(2))

lemma same_offers_update:
  assumes "\<And>r. offer_key (f r) = offer_key r"
  shows "same_offers s (update_reservation i f s)"
  using assms by (simp add: same_offers_def update_reservation_frame upd_row_def upd_where_def)

lemma same_offers_side: "side_work s t \<Longrightarrow> same_offers s t"
  by (rule same_offersI) (simp_all add: side_work_tables, simp add: side_work_def)

subsection \<open>The steps of the workflows\<close>

named_theorems offers_kept \<open>steps that keep the offers\<close>

lemma offers_outbox [offers_kept]: "same_offers s (record_outbox c a i e p s)"
  by (rule same_offers_side [OF side_outbox])

lemma offers_status [offers_kept]: "same_offers s (record_status c i actor from to m s)"
  by (rule same_offersI) (simp_all add: record_status_def)

lemma offers_change [offers_kept]: "same_offers s (fst (record_change c r ty d s))"
  by (rule same_offersI) (simp_all add: record_change_def Let_def)

lemma offers_confirm_promotions [offers_kept]: "same_offers s (confirm_promotions c i s)"
  by (rule same_offers_side [OF side_confirm_promotions])

lemma offers_release_promotions [offers_kept]: "same_offers s (release_promotions c i why canc s)"
  by (rule same_offersI) (simp_all add: release_promotions_frame)

lemma offers_waive_open [offers_kept]: "same_offers s (fst (waive_open c i why actor s))"
  by (rule same_offersI) (simp_all add: waive_open_def waive_all_def)

lemma offers_cancel_tasks [offers_kept]: "same_offers s (fst (cancel_open_tasks c i why actor s))"
  by (auto simp: cancel_open_tasks_def Let_def cancel_one_def
      intro!: same_offers_side side_work_fold side_commit_task)

lemma offers_housekeeping: "update_housekeeping c p st actor s = Inr t \<Longrightarrow> same_offers s t"
  by (auto simp: update_housekeeping_def res_simps intro!: same_offersI)

lemma offers_provision_task [offers_kept]: "same_offers s (provision_task r tt s)"
  by (rule same_offersI) (simp_all add: provision_task_def)

lemma offers_provision_tasks [offers_kept]: "same_offers s (provision_tasks r s)"
  by (auto simp: provision_tasks_def intro: same_offers_fold offers_provision_task split: option.split)

lemma offers_provision_deposit: "same_offers s (provision_deposit c r sch a due s)"
  by (rule same_offersI) (auto simp: provision_deposit_def new_deposit_def Let_def frame_simps split: option.split)

lemma offers_provision_schedule: "provision_schedule c r s = Inr t \<Longrightarrow> same_offers s t"
  by (auto simp: provision_schedule_def bindE_eq_Inr Let_def intro: same_offers_trans offers_provision_deposit)

lemma offers_save: "save_allocation a s = Inr t \<Longrightarrow> same_offers s t"
  by (auto simp: save_allocation_def bindE_eq_Inr intro!: same_offersI)

lemma offers_provision_occurrence: "provision_occurrence c r s = Inr t \<Longrightarrow> same_offers s t"
  by (auto simp: provision_occurrence_def bindE_eq_Inr Let_def save_allocation_def insert_allocation_def
      intro!: same_offersI split: option.splits if_splits)

lemma offers_provision:
  assumes "provision c r s = Inr t"
  shows "same_offers s t"
proof -
  obtain u where u: "provision_occurrence c r s = Inr u" "provision_schedule c r (provision_tasks r u) = Inr t"
    using assms by (auto simp: provision_def bindE_eq_Inr)
  show ?thesis
    by (rule same_offers_trans [OF offers_provision_occurrence [OF u(1)]
          same_offers_trans [OF offers_provision_tasks offers_provision_schedule [OF u(2)]]])
qed

lemma offers_release [offers_kept]: "same_offers s (release_all i s)"
  by (rule same_offersI) (simp_all add: release_all_def)

text \<open>The policy adjustment of a closure is no booked line.\<close>

lemma offers_policy:
  assumes "policy_adjustment c r f actor s = Inr t" and "r_id r \<in> r_id ` set (reservations s)"
  shows "same_offers s t"
proof (cases "r_total r - fee_minor f > 0")
  case True
  then obtain l where "append_line c r L_Adjustment 1000 (fee_minor f - r_subtotal r) actor (calculation_meta f) (- r_tax r)
      False s = Inr (t, l)"
    using assms(1) by (auto simp: policy_adjustment_def bindE_eq_Inr)
  from append_line_Inr [OF this] assms(2) show ?thesis by (auto simp: same_offers_def posts_def)
qed (use assms in \<open>simp add: policy_adjustment_def\<close>)

subsection \<open>The workflows\<close>

lemmas offers_after = offers_kept [THEN same_offers_trans [rotated]]

lemma offer_key_records [simp]:
  "offer_key (confirm_record c r) = offer_key r" "offer_key (close_record c st why r) = offer_key r"
  "offer_key (transition_record c st m r) = offer_key r" "offer_key (expire_record r) = offer_key r"
  by (simp_all add: offer_key_def confirm_record_def close_record_def transition_record_def expire_record_def)

lemma offers_close:
  assumes "close_reservation c i target raw actor s = Inr (t, r')"
  shows "same_offers s t"
  using assms
proof (cases rule: close_reservation_Inr)
  case (closed locked calculation s1)
  have "r_id locked \<in> r_id ` set (reservations s)" using find_row_Some [OF closed(1)] by auto
  then have "same_offers s s1" by (rule offers_policy [OF closed(7)])
  moreover have "same_offers s1 t"
    unfolding closed(8) finish_closure_def Let_def split_beta by (intro offers_after same_offers_update) simp
  ultimately show ?thesis by (rule same_offers_trans)
qed simp

lemma offers_confirm:
  assumes "confirm_reservation c i s = Inr (t, r')"
  shows "same_offers s t"
proof -
  obtain locked where l: "find_reservation s i = Some locked"
    using assms by (auto simp: confirm_reservation_def bindE_eq_Inr reservation_or_fail_Inr)
  show ?thesis
  proof (cases "r_status locked = R_Confirmed")
    case True
    with assms l show ?thesis
      by (auto simp: confirm_reservation_def bindE_eq_Inr reservation_or_fail_Inr intro: offers_provision)
  next
    case False
    with assms l obtain s1 s5 where
      s1: "foldE (\<lambda>a. save_allocation (a\<lparr>al_status := A_Confirmed\<rparr>)) (live_allocations s i) s = Inr s1"
      and s5: "provision c (confirm_record c locked) (confirm_promotions c i (record_status c i (auth_id c)
          (Some (r_status locked)) R_Confirmed [] (update_reservation i (confirm_record c) s1))) = Inr s5"
      and t: "t = record_outbox c ''reservation'' i ''reservation.confirmed'' [(''reservation_id'', J_Id i)] s5"
      by (auto simp: confirm_reservation_def bindE_eq_Inr reservation_or_fail_Inr Let_def split: if_splits)
    have "same_offers s s1" by (rule same_offers_foldE [OF s1]) (rule offers_save)
    moreover have "same_offers s1 (confirm_promotions c i (record_status c i (auth_id c)
          (Some (r_status locked)) R_Confirmed [] (update_reservation i (confirm_record c) s1)))"
      by (intro offers_after same_offers_update) simp
    ultimately show ?thesis
      unfolding t by (blast intro: same_offers_trans offers_provision [OF s5] offers_outbox)
  qed
qed

lemma offers_transition:
  assumes "transition_reservation c i next hold_minutes raw s = Inr (t, r')"
  shows "same_offers s t"
proof (cases "next \<in> {R_Confirmed, R_Cancelled, R_No_show}")
  case True
  with assms show ?thesis
    by (auto simp: transition_reservation_def cancel_reservation_def mark_no_show_def intro: offers_confirm offers_close
        split: if_splits)
next
  case other: False
  then obtain locked where l: "find_reservation s i = Some locked"
    using assms by (auto simp: transition_reservation_def Let_def bindE_eq_Inr reservation_or_fail_Inr)
  show ?thesis
  proof (cases "r_status locked = next")
    case True
    with assms other l show ?thesis by (simp add: transition_reservation_def Let_def reservation_or_fail_Inr [THEN iffD2])
  next
    case False
    define s2 where "s2 = record_status c i (auth_id c) (Some (r_status locked)) next
      (filter (\<lambda>(_, v). v \<noteq> J_Null \<and> v \<noteq> J_Str []) raw) (update_reservation i (transition_record c next hold_minutes) s)"
    have "same_offers s s2" unfolding s2_def by (intro offers_after same_offers_update) simp
    moreover obtain s3 s4 p where s3: "foldE save_allocation
          (if next = R_Hold then map (\<lambda>a. a\<lparr>al_status := A_Tentative\<rparr>) (live_allocations s i) else []) s2 = Inr s3"
      and s4: "(if next = R_Checked_out
            then foldE (\<lambda>p. update_housekeeping c p Hk_Dirty (auth_id c)) (dirty_places s3 i) s3 else Inr s3) = Inr s4"
      and t: "t = record_outbox c ''reservation'' i ''reservation.status_changed'' p s4"
      using assms other l False
      by (simp add: transition_reservation_def Let_def bindE_eq_Inr reservation_or_fail_Inr s2_def [symmetric]
          split: if_splits) blast+
    have "same_offers s2 s3" by (rule same_offers_foldE [OF s3]) (rule offers_save)
    moreover have "same_offers s3 s4"
      using s4 by (auto split: if_splits intro: same_offers_foldE offers_housekeeping)
    ultimately show ?thesis unfolding t by (blast intro: same_offers_trans offers_outbox)
  qed
qed

lemma offers_expire: "same_offers s (expire_hold c i s)"
proof -
  have "same_offers s (s\<lparr>allocations := upd_where (\<lambda>a. al_reservation a = i \<and> al_status a = A_Tentative)
                (al_status_update (\<lambda>_. A_Released)) (allocations s)\<rparr>)"
    by (rule same_offersI) simp_all
  then show ?thesis
    by (auto simp: expire_hold_def Let_def split: option.split intro!: offers_after
        intro: same_offers_trans [OF _ same_offers_update])
qed

lemma run_booking_offers: "run_booking c cmd s = Inr t \<Longrightarrow> same_offers s t"
  by (cases cmd) (auto simp: bindE_eq_Inr cancel_reservation_def mark_no_show_def expire_due_holds_def
      intro: offers_confirm offers_transition offers_close same_offers_fold offers_expire)

end
