(* ===== verification/Sales.thy ===== *)
theory Sales
  imports Offers_Kept
begin

text \<open>
  Runs of the sale: quotes are made, committed and amended while the stay workflows and time go on. The invariant
  \<open>sales_ok\<close> says that every stored quote is sound, that every reservation is booked and charged as its quote
  says and that no place is sold twice; \<open>sales_grow\<close> says that no quote is lost or altered and that a committed one is final.
\<close>

subsection \<open>The invariant\<close>

text \<open>Every allocation that holds a place belongs to a reservation.\<close>

definition homed :: "db \<Rightarrow> bool" where
  "homed s \<longleftrightarrow> (\<forall>a \<in> set (allocations s). al_resource a \<noteq> None \<and> al_status a \<noteq> A_Released \<longrightarrow>
     al_reservation a \<in> r_id ` set (reservations s))"

definition quote_sound :: "quote_ctx \<Rightarrow> db \<Rightarrow> booking_quote \<Rightarrow> bool" where
  "quote_sound x s b \<longleftrightarrow> adds_up b \<and> bq_checksum b = checksum_for x b
     \<and> (case bq_reservation b of
          None \<Rightarrow> bq_status b = Q_Pending \<and> bq_committed_at b = None
        | Some i \<Rightarrow> bq_status b = Q_Committed \<and> bq_committed_at b \<noteq> None \<and> i \<in> r_id ` set (reservations s))"

definition sold_by :: "booking_quote \<Rightarrow> reservation \<Rightarrow> bool" where
  "sold_by b r \<longleftrightarrow> bq_reservation b = Some (r_id r) \<and> cq_subtotal (bq_calculation b) = r_subtotal r
     \<and> cq_tax (bq_calculation b) = r_tax r \<and> cq_total (bq_calculation b) = r_total r"

definition sold_right :: "sales \<Rightarrow> reservation \<Rightarrow> bool" where
  "sold_right s r \<longleftrightarrow> booked_gross (sl_db s) (r_id r) = r_total r \<and> r_total r = r_subtotal r + r_tax r
     \<and> (\<forall>k. r_quote r = Some k \<longrightarrow> (\<exists>b. find_row bq_id k (sl_quotes s) = Some b \<and> sold_by b r))"

definition ids_fresh :: "sales \<Rightarrow> bool" where
  "ids_fresh s \<longleftrightarrow> keys_ok bq_id (sl_quotes s) (next_id (sl_db s))
     \<and> keys_ok r_id (reservations (sl_db s)) (next_id (sl_db s))
     \<and> (\<forall>l \<in> set (folio_lines (sl_db s)). fl_reservation l < next_id (sl_db s))"

definition sales_ok :: "quote_ctx \<Rightarrow> sales \<Rightarrow> bool" where
  "sales_ok x s \<longleftrightarrow> ids_fresh s \<and> homed (sl_db s) \<and> no_double_booking (quote_at x) (sl_db s)
     \<and> (\<forall>b \<in> set (sl_quotes s). quote_sound x (sl_db s) b) \<and> (\<forall>r \<in> set (reservations (sl_db s)). sold_right s r)"

subsection \<open>Quotes that stay as they are\<close>

definition same_offer_row :: "booking_quote \<Rightarrow> booking_quote \<Rightarrow> bool" where
  "same_offer_row b b' \<longleftrightarrow> bq_id b' = bq_id b \<and> bq_calculation b' = bq_calculation b \<and> bq_lines b' = bq_lines b
     \<and> bq_checksum b' = bq_checksum b \<and> (bq_status b = Q_Committed \<longrightarrow> b' = b)"

definition sales_grow :: "sales \<Rightarrow> sales \<Rightarrow> bool" where
  "sales_grow s t \<longleftrightarrow> (\<forall>k b. find_row bq_id k (sl_quotes s) = Some b \<longrightarrow>
     (\<exists>b'. find_row bq_id k (sl_quotes t) = Some b' \<and> same_offer_row b b'))"

lemma sales_grow_refl [simp]: "sales_grow s s"
  by (auto simp: sales_grow_def same_offer_row_def)

lemma same_offer_row_trans: "same_offer_row b c \<Longrightarrow> same_offer_row c d \<Longrightarrow> same_offer_row b d"
  by (auto simp: same_offer_row_def)

lemma sales_grow_trans: "sales_grow s t \<Longrightarrow> sales_grow t u \<Longrightarrow> sales_grow s u"
  unfolding sales_grow_def by (blast intro: same_offer_row_trans)

lemma sales_grow_quotes: "sl_quotes t = sl_quotes s \<Longrightarrow> sales_grow s t"
  by (auto simp: sales_grow_def same_offer_row_def)

lemma checksum_for_eq:
  "bq_calculation b' = bq_calculation b \<Longrightarrow> bq_lines b' = bq_lines b \<Longrightarrow> quote_digest x' = quote_digest x \<Longrightarrow>
     checksum_for x' b' = checksum_for x b"
  by (simp add: checksum_for_def quote_payload_def)

lemma create_quote_Inr:
  assumes "create_quote x tf inp s = Inr (t, b)"
  obtains q where "preview x tf (sl_db s) inp = Inr q" and "bq_id b = next_id (sl_db s)" and "bq_calculation b = q"
    and "map snd (bq_lines b) = cq_lines q" and "bq_checksum b = checksum_for x b" and "bq_status b = Q_Pending"
    and "bq_reservation b = None" and "bq_committed_at b = None"
    and "t = s\<lparr>sl_quotes := sl_quotes s @ [b], sl_db := skip_ids (Suc (length (cq_lines q))) (sl_db s)\<rparr>"
  using assms by (auto simp: create_quote_def bindE_eq_Inr Let_def checksum_for_def quote_payload_def)

lemma sales_grow_create:
  assumes "create_quote x tf inp s = Inr (t, b)"
  shows "sales_grow s t"
  using assms
proof (cases rule: create_quote_Inr)
  case (1 q)
  then show ?thesis by (simp add: sales_grow_def same_offer_row_def find_row_append)
qed

lemma sales_grow_mark:
  assumes "sl_quotes t = mark_committed c k rid (sl_quotes s)" and "find_row bq_id k (sl_quotes s) = Some b"
    and "bq_status b \<noteq> Q_Committed"
  shows "sales_grow s t"
  using assms by (auto simp: sales_grow_def same_offer_row_def find_committed)

subsection \<open>The steps\<close>

inductive sales_step :: "quote_ctx \<times> sales \<Rightarrow> quote_ctx \<times> sales \<Rightarrow> bool" where
  quote: "create_quote x tf inp s = Inr (t, b) \<Longrightarrow> sales_step (x, s) (x, t)"
| commit: "commit_quote x i gid d companions s = Inr (t, r) \<Longrightarrow> sales_step (x, s) (x, t)"
| amend: "amend_reservation x tf r inp actor s = (t, result) \<Longrightarrow> sales_step (x, s) (x, t)"
| workflow: "run_booking (quote_at x) cmd (sl_db s) = Inr d \<Longrightarrow> sales_step (x, s) (x, s\<lparr>sl_db := d\<rparr>)"
| time: "clock (quote_at x) \<le> clock (quote_at x') \<Longrightarrow> quote_digest x' = quote_digest x \<Longrightarrow> sales_step (x, s) (x', s)"

inductive_cases sales_stepE: "sales_step (x, s) (x', t)"

lemma book_grows:
  assumes "book_quote c b gid d companions s = Inr (t, r)" and "find_row bq_id (bq_id b) (sl_quotes s) = Some b"
    and "bq_status b \<noteq> Q_Committed"
  shows "sales_grow s t"
  using assms(1) by (rule book_quote_effect) (rule sales_grow_mark [OF _ assms(2,3)])

lemma commit_grows:
  assumes "commit_quote x i gid d companions s = Inr (t, r)"
  shows "sales_grow s t"
  using assms
proof (cases rule: commit_quote_Inr)
  case (booked b)
  have "bq_id b = i" "bq_status b \<noteq> Q_Committed" using find_row_Some [OF booked(1)] booked(2) by (auto simp: quote_is_open_def)
  with booked show ?thesis by (intro book_grows [OF booked(4)]) simp_all
qed simp

lemma apply_amendment_run:
  assumes "apply_amendment x i k actor s = Inr (t, r')"
  obtains r b where "find_reservation (sl_db s) i = Some r" and "r_id r = i" and "find_row bq_id k (sl_quotes s) = Some b"
    and "bq_id b = k" and "r_status r \<in> {R_Hold, R_Confirmed}" and "bq_status b = Q_Pending"
    and "rebook (quote_at x) b r actor s = Inr (t, r')"
proof -
  from assms obtain r b where f: "find_reservation (sl_db s) i = Some r" "r_status r \<in> {R_Hold, R_Confirmed}"
    "find_row bq_id k (sl_quotes s) = Some b" "quote_is_open x b" "rebook (quote_at x) b r actor s = Inr (t, r')"
    unfolding apply_amendment_Inr by blast
  show thesis
    using find_row_Some [OF f(1)] find_row_Some [OF f(3)] f(4) by (intro that [OF f(1) _ f(3) _ f(2) _ f(5)]) (simp_all add: quote_is_open_def)
qed

lemma apply_grows:
  assumes "apply_amendment x i k actor s = Inr (t, r)"
  shows "sales_grow s t"
  using assms
proof (cases rule: apply_amendment_run)
  case (1 r0 b)
  then show ?thesis using rebook_rows [OF 1(7)] by (intro sales_grow_mark [OF _ 1(3)]) auto
qed

lemma amend_reservation_cases:
  assumes "amend_reservation x tf r inp actor s = (t, result)"
  obtains (nothing) "t = s"
  | (quoted) b where "create_quote x tf (amendment_input s r inp) s = Inr (t, b)"
  | (amended) u b r' where "create_quote x tf (amendment_input s r inp) s = Inr (u, b)"
      and "apply_amendment x (r_id r) (bq_id b) actor u = Inr (t, r')"
  using assms by (auto simp: amend_reservation_def create_amendment_def split: sum.splits)

lemma amend_grows: "amend_reservation x tf r inp actor s = (t, result) \<Longrightarrow> sales_grow s t"
  by (erule amend_reservation_cases) (auto intro: sales_grow_trans dest: sales_grow_create apply_grows)

lemma step_grows: "sales_step (x, s) (x', t) \<Longrightarrow> sales_grow s t"
  by (erule sales_stepE) (auto intro: sales_grow_create commit_grows amend_grows sales_grow_quotes)

subsection \<open>Who holds a place\<close>

text \<open>\<open>descends s t\<close>: every allocation that holds a place in \<open>t\<close> is one that did so in \<open>s\<close>, perhaps saved again.\<close>

definition descends :: "db \<Rightarrow> db \<Rightarrow> bool" where
  "descends s t \<longleftrightarrow> (\<forall>b \<in> set (allocations t). al_resource b = None \<or> al_status b = A_Released
     \<or> (\<exists>a \<in> set (allocations s). al_status a \<noteq> A_Released \<and> same_place b a))"

lemma descends_thins: "thins s t \<Longrightarrow> descends s t"
  unfolding thins_def descends_def by (blast intro: same_place_refl)

lemma descends_refl [simp]: "descends s s"
  by (rule descends_thins) simp

lemma descends_aside: "aside s t \<Longrightarrow> descends s t"
  by (simp add: aside_def descends_thins)

lemma descends_trans:
  assumes "descends s t" and "descends t u"
  shows "descends s u"
  unfolding descends_def
proof
  fix b assume b: "b \<in> set (allocations u)"
  show "al_resource b = None \<or> al_status b = A_Released
     \<or> (\<exists>a \<in> set (allocations s). al_status a \<noteq> A_Released \<and> same_place b a)"
  proof (cases "al_resource b = None \<or> al_status b = A_Released")
    case False
    with b assms(2) obtain a where a: "a \<in> set (allocations t)" "al_status a \<noteq> A_Released" "same_place b a"
      by (auto simp: descends_def)
    with False have "al_resource a \<noteq> None" by (simp add: same_place_def)
    with a assms(1) obtain a' where "a' \<in> set (allocations s)" "al_status a' \<noteq> A_Released" "same_place a a'"
      by (auto simp: descends_def)
    with a(3) show ?thesis by (blast intro: same_place_trans)
  qed blast
qed

lemma descends_resaves: "descends s s' \<Longrightarrow> resaves (live_allocations s i) s' t \<Longrightarrow> descends s t"
  unfolding descends_def resaves_def in_live_allocations Bex_def by blast

lemma descends_update: "descends s (update_reservation i f s)"
  by (rule descends_thins [OF thins_update_reservation])

lemma descends_homed: "homed s \<Longrightarrow> descends s t \<Longrightarrow> r_id ` set (reservations s) \<subseteq> r_id ` set (reservations t) \<Longrightarrow> homed t"
  unfolding homed_def descends_def same_place_def by (metis subsetD)

lemma descends_close: "close_reservation c i target raw actor s = Inr (t, r') \<Longrightarrow> descends s t"
proof (erule close_reservation_Inr)
  fix locked calculation s1
  assume p: "policy_adjustment c locked calculation actor s = Inr s1"
    and t: "t = finish_closure c locked target (trim raw) actor (snapshot_of s locked) calculation s1"
  show "descends s t"
    unfolding t using aside_policy [OF p]
    by (blast intro: descends_trans descends_aside descends_update aside_finish_closure)
qed simp

lemma descends_confirm: "confirm_reservation c i s = Inr (t, r') \<Longrightarrow> descends s t"
  by (erule confirm_reservation_Inr)
    (blast intro: descends_aside aside_provision descends_trans descends_resaves [OF descends_refl] descends_update)+

lemma descends_transition:
  assumes "transition_reservation c i next m raw s = Inr (t, r')"
  shows "descends s t"
  using assms
proof (cases rule: transition_reservation_Inr)
  case (hold locked s2 s3)
  have "descends s s2" using hold(4) by (blast intro: descends_trans descends_aside descends_update)
  from descends_resaves [OF this hold(5)] hold(6) show ?thesis by (blast intro: descends_trans descends_aside)
qed (auto intro: descends_confirm descends_close descends_trans [OF descends_update] descends_aside)

lemma descends_expire: "descends s (expire_hold c i s)"
proof (cases "\<exists>held. find_reservation s i = Some held \<and> r_status held = R_Hold \<and> \<not> hold_is_live c held")
  case True
  then obtain held where h: "find_reservation s i = Some held" "r_status held = R_Hold" "\<not> hold_is_live c held" by blast
  show ?thesis
    by (rule expire_hold_aside [OF h]) (blast intro: descends_trans descends_aside descends_update)
next
  case False
  then have "expire_hold c i s = s" by (intro expire_hold_idle) blast
  then show ?thesis by simp
qed

lemma descends_fold: "(\<And>x s. descends s (f x s)) \<Longrightarrow> descends s (fold f xs s)"
  by (induction xs arbitrary: s) (auto intro: descends_trans)

lemma run_booking_descends: "run_booking c cmd s = Inr t \<Longrightarrow> descends s t"
  by (cases cmd) (auto simp: bindE_eq_Inr cancel_reservation_def mark_no_show_def expire_due_holds_def
      intro: descends_confirm descends_transition descends_close descends_fold descends_expire)

end
