(* ===== verification/Sale_Runs.thy ===== *)
theory Sale_Runs
  imports Sales
begin

text \<open>
  Every step of the sale keeps the invariant \<open>sales_ok\<close>; what follows for the quotes, the reservations and the
  places after any run.
\<close>

subsection \<open>Rows beside the step\<close>

lemma quote_sound_mono:
  assumes "quote_sound x s b" and "r_id ` set (reservations s) \<subseteq> r_id ` set (reservations t)" and "quote_digest x' = quote_digest x"
  shows "quote_sound x' t b"
  using assms checksum_for_eq [of b b x' x] by (auto simp: quote_sound_def split: option.splits)

lemma sold_right_beside:
  assumes "sold_right s r" and "booked_gross (sl_db t) (r_id r) = booked_gross (sl_db s) (r_id r)" and "sales_grow s t"
    and "\<forall>b \<in> set (sl_quotes s). quote_sound x d b"
  shows "sold_right t r"
proof -
  have "\<exists>b. find_row bq_id k (sl_quotes t) = Some b \<and> sold_by b r" if k: "r_quote r = Some k" for k
  proof -
    obtain b where b: "find_row bq_id k (sl_quotes s) = Some b" "sold_by b r" using assms(1) k by (auto simp: sold_right_def)
    then have "bq_status b = Q_Committed"
      using assms(4) find_row_Some [OF b(1)] by (auto simp: quote_sound_def sold_by_def split: option.splits)
    with assms(3) b show ?thesis by (fastforce simp: sales_grow_def same_offer_row_def)
  qed
  with assms(1,2) show ?thesis by (simp add: sold_right_def)
qed

lemma sold_right_key:
  assumes "sold_right s r" and "offer_key r' = offer_key r"
  shows "sold_right s r'"
proof -
  have eq: "r_id r' = r_id r" "r_quote r' = r_quote r" "r_subtotal r' = r_subtotal r" "r_tax r' = r_tax r" "r_total r' = r_total r"
    using assms(2) by (simp_all add: offer_key_def)
  show ?thesis using assms(1) unfolding sold_right_def sold_by_def eq .
qed

lemma lines_fresh_mono:
  "\<forall>l \<in> set ls. fl_reservation l < n \<Longrightarrow> n \<le> m \<Longrightarrow> \<forall>l \<in> set ms. fl_reservation l < m \<Longrightarrow>
     \<forall>l \<in> set (ls @ ms). fl_reservation l < (m :: nat)"
  by auto

lemma sales_okD:
  assumes "sales_ok x s"
  shows "keys_ok bq_id (sl_quotes s) (next_id (sl_db s))" "keys_ok r_id (reservations (sl_db s)) (next_id (sl_db s))"
    "\<forall>l \<in> set (folio_lines (sl_db s)). fl_reservation l < next_id (sl_db s)" "homed (sl_db s)"
    "no_double_booking (quote_at x) (sl_db s)" "\<forall>b \<in> set (sl_quotes s). quote_sound x (sl_db s) b"
    "\<forall>r \<in> set (reservations (sl_db s)). sold_right s r"
  using assms by (simp_all add: sales_ok_def ids_fresh_def)

lemma sales_ok_fresh: "sales_ok x s \<Longrightarrow> i \<in> r_id ` set (reservations (sl_db s)) \<Longrightarrow> i < next_id (sl_db s)"
  by (auto simp: sales_ok_def ids_fresh_def keys_ok_def)

subsection \<open>Creating a quote\<close>

lemma created_sound:
  assumes "create_quote x tf inp s = Inr (t, b)"
  shows "quote_sound x d b"
  using assms
proof (cases rule: create_quote_Inr)
  case (1 q)
  then show ?thesis using preview_sums [OF 1(1)] by (simp add: quote_sound_def adds_up_def Let_def)
qed

lemma create_sale_keeps:
  assumes "create_quote x tf inp s = Inr (t, b)" and "sales_ok x s"
  shows "sales_ok x t"
  using assms(1)
proof (cases rule: create_quote_Inr)
  case (1 q)
  have db: "reservations (sl_db t) = reservations (sl_db s)" "allocations (sl_db t) = allocations (sl_db s)"
    "folio_lines (sl_db t) = folio_lines (sl_db s)" "next_id (sl_db s) < next_id (sl_db t)" "sl_quotes t = sl_quotes s @ [b]"
    by (simp_all add: 1(9) skip_ids_def)
  note ok = sales_okD [OF assms(2)]
  have "keys_ok bq_id (sl_quotes t) (next_id (sl_db t))" unfolding db(5) by (rule keys_ok_snoc [OF ok(1)]) (use 1(2) db(4) in simp_all)
  moreover have "keys_ok r_id (reservations (sl_db t)) (next_id (sl_db t))"
    unfolding db(1) by (rule keys_ok_mono [OF ok(2)]) (use db(4) in simp)
  ultimately have "ids_fresh t" using ok(3) db(3,4) by (auto simp: ids_fresh_def)
  moreover have "no_double_booking (quote_at x) (sl_db t)"
    by (rule inv_aside [OF ok(5) asideI [OF db(1,2) less_imp_le [OF db(4)]]])
  moreover have "homed (sl_db t)" using assms(2) db(1,2) by (simp add: sales_ok_def homed_def)
  moreover have "\<forall>b \<in> set (sl_quotes t). quote_sound x (sl_db t) b"
    using ok(6) created_sound [OF assms(1)] quote_sound_mono [of x "sl_db s" _ "sl_db t" x] by (auto simp: db)
  moreover have "sold_right t r" if "r \<in> set (reservations (sl_db t))" for r
    by (rule sold_right_beside [OF _ booked_gross_cong [OF db(3)] sales_grow_create [OF assms(1)] ok(6)])
      (use that ok(7) db(1) in simp)
  ultimately show ?thesis by (simp add: sales_ok_def)
qed

subsection \<open>The stay workflows and time\<close>

lemma workflow_keeps:
  assumes "run_booking (quote_at x) cmd (sl_db s) = Inr d" and "sales_ok x s"
  shows "sales_ok x (s\<lparr>sl_db := d\<rparr>)"
proof -
  have k: "same_offers (sl_db s) d" by (rule run_booking_offers [OF assms(1)])
  then have keys: "map offer_key (reservations d) = map offer_key (reservations (sl_db s))" "next_id (sl_db s) \<le> next_id d"
    by (simp_all add: same_offers_def)
  obtain ls where ls: "folio_lines d = folio_lines (sl_db s) @ ls"
    "\<forall>l \<in> set ls. \<not> in_booked_total l \<and> fl_reservation l \<in> r_id ` set (reservations (sl_db s))"
    using k by (auto simp: same_offers_def)
  have gross: "booked_gross d i = booked_gross (sl_db s) i" for i
    using ls(2) by (auto simp: booked_gross_def ls(1) intro: sum_where_none)
  have ids: "r_id ` set (reservations d) = r_id ` set (reservations (sl_db s))" by (rule same_offers_ids [OF k])
  note ok = sales_okD [OF assms(2)]
  have "fl_reservation l < next_id d" if "l \<in> set (folio_lines d)" for l
    using that ok(3) ls sales_ok_fresh [OF assms(2)] less_le_trans [OF _ keys(2)] by auto
  moreover have "keys_ok r_id (reservations d) (next_id d)"
    unfolding keys_ok_cong [OF offer_key_ids [OF keys(1)]] by (rule keys_ok_mono [OF ok(2) keys(2)])
  ultimately have "ids_fresh (s\<lparr>sl_db := d\<rparr>)" using keys_ok_mono [OF ok(1) keys(2)] by (simp add: ids_fresh_def)
  moreover have "homed d" using assms(2) run_booking_descends [OF assms(1)] ids by (auto simp: sales_ok_def intro: descends_homed)
  moreover have "no_double_booking (quote_at x) d" using assms by (auto simp: sales_ok_def intro: run_booking_keeps)
  moreover have "\<forall>b \<in> set (sl_quotes s). quote_sound x d b"
    using ok(6) ids quote_sound_mono [of x "sl_db s" _ d x] by simp
  moreover have "sold_right (s\<lparr>sl_db := d\<rparr>) r" if "r \<in> set (reservations d)" for r
  proof -
    have "offer_key r \<in> offer_key ` set (reservations (sl_db s))" using that keys(1) by (metis image_eqI list.set_map)
    then obtain r0 where r0: "r0 \<in> set (reservations (sl_db s))" "offer_key r = offer_key r0" by auto
    with assms(2) have "sold_right s r0" by (simp add: sales_ok_def)
    then have "sold_right s r" using r0(2) by (rule sold_right_key)
    then show ?thesis
      by (rule sold_right_beside [OF _ _ sales_grow_quotes ok(6)]) (simp_all add: gross)
  qed
  ultimately show ?thesis by (simp add: sales_ok_def)
qed

lemma later_keeps:
  assumes "sales_ok x s" and "clock (quote_at x) \<le> clock (quote_at x')" and "quote_digest x' = quote_digest x"
  shows "sales_ok x' s"
  using assms time_keeps [of "quote_at x" "sl_db s" "quote_at x'"] quote_sound_mono [of x "sl_db s" _ "sl_db s" x']
  by (simp add: sales_ok_def)

subsection \<open>Places sold by a commit and by an amendment\<close>

text \<open>A reservation with an id of its own brings no allocation back to life.\<close>

lemma inv_new_reservation:
  assumes "no_double_booking c s" and "homed s" and "keys_ok r_id (reservations s) (next_id s)"
    and "allocations t = allocations s" and "reservations t = reservations s @ [r]" and "next_id s \<le> next_id t"
  shows "no_double_booking c t"
proof (rule no_double_booking_weaker [OF assms(1)])
  show "keys_ok al_id (allocations t) (next_id t)"
    using assms(1,4,6) by (auto simp: no_double_booking_def intro: keys_ok_mono)
  fix b assume b: "b \<in> set (allocations t)" "reserving c t b" "al_resource b \<noteq> None"
  have "reserving c s b"
  proof (cases "al_status b = A_Confirmed")
    case False
    with b have live: "al_status b = A_Tentative" "live_hold c t (al_reservation b)" by (simp_all add: reserving_def)
    with b assms(2,4) obtain r0 where "r0 \<in> set (reservations s)" "r_id r0 = al_reservation b" by (auto simp: homed_def)
    then have "find_reservation s (al_reservation b) = Some r0" using keys_ok_find [OF assms(3)] by metis
    then have "find_reservation t (al_reservation b) = find_reservation s (al_reservation b)"
      by (simp add: assms(5) find_row_append)
    with live show ?thesis by (simp add: reserving_def live_hold_def)
  qed (simp add: reserving_def)
  with b(1) assms(4) show "\<exists>a \<in> set (allocations s). same_place b a \<and> reserving c s a" by (intro bexI [of _ b]) simp_all
qed

lemma book_keeps_places:
  assumes "book_quote c b gid d companions s = Inr (t, r)" and "no_double_booking c (sl_db s)" and "homed (sl_db s)"
    and "keys_ok r_id (reservations (sl_db s)) (next_id (sl_db s))"
  shows "no_double_booking c (sl_db t)"
  using assms(1)
proof (cases rule: book_quote_Inr)
  case (1 s1 g d1 d2 a s2 d3 d4)
  obtain n where n: "sl_db s1 = skip_ids n (sl_db s)" using resolve_guest_Inr(1) [OF 1(1)] by blast
  have d1: "d1 = (sl_db s1)\<lparr>reservations := reservations (sl_db s1) @ [r], next_id := Suc (r_id r)\<rparr>"
    using 1(3) by (simp add: insert_reservation_Inr)
  note i = insert_allocation_Inr [OF 1(4)]
  have "no_double_booking c d1"
    by (rule inv_new_reservation [OF assms(2-4), of _ r]) (simp_all add: d1 n skip_ids_def 1(2))
  then have "no_double_booking c d2" by (rule inv_add [OF _ i(1,3,4,2)]) (rule 1(5))
  then have "no_double_booking c d3" by (rule inv_aside [OF _ aside_books [OF charges_book [OF 1(7)]]])
  then have "no_double_booking c d4" by (rule inv_aside [OF _ aside_side_work [OF side_reserve [OF 1(8)]]])
  then show ?thesis by (simp add: 1(9))
qed

lemma inv_amended:
  assumes "no_double_booking c s" and "find_reservation s (r_id r) = Some r"
  shows "no_double_booking c (update_reservation (r_id r) (\<lambda>_. amended b r) s)"
proof (rule inv_thins [OF assms(1) thins_update_reservation])
  fix j assume "live_hold c (update_reservation (r_id r) (\<lambda>_. amended b r) s) j"
  with assms(2) show "live_hold c s j"
    by (auto simp: live_hold_def update_reservation_frame find_row_put split: if_splits option.splits)
qed

lemma rebook_keeps_places:
  assumes "rebook c b r actor s = Inr (t, r')" and "no_double_booking c (sl_db s)" and "find_reservation (sl_db s) (r_id r) = Some r"
  shows "no_double_booking c (sl_db t)"
  using assms(1)
proof (cases rule: rebook_Inr)
  case (1 d1 d2 a d3 d6 effects)
  have "no_double_booking c d1" by (rule inv_aside [OF assms(2) aside_side_work [OF side_replace [OF 1(1)]]])
  moreover have "no_double_booking c d2" if "no_double_booking c d1"
    using 1(2)
  proof (cases rule: move_stay_Inr)
    case m: (1 old s1)
    have "release_row old d1 = Inr s1" using m(3) by (simp split: sum.splits)
    then have "no_double_booking c s1" by (rule inv_mild [OF that mild_release_row])
    note i = insert_allocation_Inr [OF m(4)]
    show ?thesis by (rule inv_add [OF \<open>no_double_booking c s1\<close> i(1,3,4,2)]) (rule m(5))
  qed
  ultimately have "no_double_booking c d2" by blast
  then have "no_double_booking c d3" using post_delta_Inr [OF 1(3)] by (auto intro: inv_aside aside_books)
  moreover have "find_reservation d3 (r_id r) = Some r"
    using assms(3) side_work_tables(1) [OF side_replace [OF 1(1)]] move_stay_tables(1) [OF 1(2)] post_delta_amount(4) [OF 1(3)] by simp
  ultimately have "no_double_booking c (update_reservation (r_id r) (\<lambda>_. amended b r) d3)" by (rule inv_amended)
  then show ?thesis
    using side_work_trans [OF side_work_trans [OF side_rebase side_rebuild [OF 1(5)]] 1(9)] by (rule inv_aside [OF _ aside_side_work])
qed

subsection \<open>Committing and amending\<close>

lemma sound_committed:
  assumes "quote_sound x s b" and "rid \<in> r_id ` set (reservations t)"
  shows "quote_sound x t (committed_row c rid b)"
  using assms checksum_for_eq [of "committed_row c rid b" b x x]
  by (auto simp: quote_sound_def adds_up_def committed_row_def)

lemma marked_sound:
  assumes "\<forall>b \<in> set qs. quote_sound x s b" and "r_id ` set (reservations s) \<subseteq> r_id ` set (reservations t)"
    and "rid \<in> r_id ` set (reservations t)"
  shows "\<forall>b \<in> set (mark_committed c k rid qs). quote_sound x t b"
proof
  fix b assume "b \<in> set (mark_committed c k rid qs)"
  then obtain b0 where b0: "b0 \<in> set qs" "b = b0 \<or> b = committed_row c rid b0"
    by (auto simp: mark_committed_eq upd_row_def upd_where_def split: if_splits)
  then have "quote_sound x s b0" using assms(1) by blast
  with b0(2) show "quote_sound x t b"
    using sound_committed [OF _ assms(3)] quote_sound_mono [OF _ assms(2) refl] by blast
qed

lemma marked_keys: "keys_ok bq_id qs n \<Longrightarrow> n \<le> m \<Longrightarrow> keys_ok bq_id (mark_committed c k rid qs) m"
  unfolding mark_committed_eq by (subst keys_ok_upd_row) (auto intro: keys_ok_mono)

lemma book_keeps:
  assumes "book_quote (quote_at x) b gid d companions s = Inr (t, r)" and "sales_ok x s"
    and "find_row bq_id (bq_id b) (sl_quotes s) = Some b" and "bq_status b \<noteq> Q_Committed"
  shows "sales_ok x t"
proof -
  note ok = sales_okD [OF assms(2)]
  obtain g a d2 where fresh: "next_id (sl_db s) \<le> r_id r" and r: "r = reservation_of_quote b g (r_id r)"
    and rs: "reservations (sl_db t) = reservations (sl_db s) @ [r]" and al: "allocations (sl_db t) = allocations (sl_db s) @ [a]"
    and a: "al_reservation a = r_id r" and n: "Suc (r_id r) < next_id (sl_db t)"
    and ls: "\<exists>ls. folio_lines (sl_db t) = folio_lines (sl_db s) @ ls \<and> (\<forall>l \<in> set ls. fl_reservation l = r_id r)"
    and bk: "\<And>j. booked_gross (sl_db t) j = booked_gross (sl_db s) j + (if j = r_id r then
           sum_list (map (\<lambda>(n, x). n + x) (map (\<lambda>(_, l). (ql_net l, ql_tax l)) (ordered_lines b))) else 0)"
    and q: "sl_quotes t = mark_committed (quote_at x) (bq_id b) (r_id r) (sl_quotes s)"
    by (rule book_quote_effect [OF assms(1)], rule that; assumption)
  have grow: "next_id (sl_db s) \<le> next_id (sl_db t)" using fresh n by simp
  have sound: "quote_sound x (sl_db s) b" using ok(6) find_row_Some [OF assms(3)] by blast
  have up: "adds_up b" using sound by (simp add: quote_sound_def)
  have "fl_reservation l < next_id (sl_db t)" if "l \<in> set (folio_lines (sl_db t))" for l
    using that ok(3) ls n less_le_trans [OF _ grow] by auto
  moreover have "keys_ok r_id (reservations (sl_db t)) (next_id (sl_db t))"
    unfolding rs by (rule keys_ok_snoc [OF ok(2) fresh]) (use n in simp)
  ultimately have "ids_fresh t" using marked_keys [OF ok(1) grow] by (simp add: ids_fresh_def q)
  moreover have "homed (sl_db t)" using ok(4) by (auto simp: homed_def rs al a)
  moreover have "no_double_booking (quote_at x) (sl_db t)" by (rule book_keeps_places [OF assms(1) ok(5,4,2)])
  moreover have "\<forall>b \<in> set (sl_quotes t). quote_sound x (sl_db t) b"
    unfolding q by (rule marked_sound [OF ok(6)]) (auto simp: rs)
  moreover have "sold_right t r0" if r0: "r0 \<in> set (reservations (sl_db t))" for r0
  proof (cases "r0 = r")
    case True
    have "booked_gross (sl_db s) (r_id r) = 0"
      using no_lines_yet [OF ok(3) fresh] by (simp add: booked_gross_def)
    then have gross: "booked_gross (sl_db t) (r_id r) = cq_total (bq_calculation b)"
      using bk [of "r_id r"] ordered_lines_total [OF up] by simp
    have sel: "r_quote r = Some (bq_id b)" "r_subtotal r = cq_subtotal (bq_calculation b)" "r_tax r = cq_tax (bq_calculation b)"
      "r_total r = cq_total (bq_calculation b)"
      by (subst r, simp)+
    have "find_row bq_id (bq_id b) (sl_quotes t) = Some (committed_row (quote_at x) (r_id r) b)"
      by (simp add: q find_committed assms(3))
    with gross up show ?thesis by (simp add: True sold_right_def sold_by_def sel adds_up_def Let_def)
  next
    case False
    then have old: "r0 \<in> set (reservations (sl_db s))" using r0 by (simp add: rs)
    then have "r_id r0 \<noteq> r_id r" using ok(2) fresh by (auto simp: keys_ok_def)
    then have "booked_gross (sl_db t) (r_id r0) = booked_gross (sl_db s) (r_id r0)" using bk by simp
    then show ?thesis using old ok(7) by (intro sold_right_beside [OF _ _ book_grows [OF assms(1,3,4)] ok(6)]) simp_all
  qed
  ultimately show ?thesis by (simp add: sales_ok_def)
qed

lemma commit_keeps_ok:
  assumes "commit_quote x i gid d companions s = Inr (t, r)" and "sales_ok x s"
  shows "sales_ok x t"
  using assms(1)
proof (cases rule: commit_quote_Inr)
  case again
  with assms(2) show ?thesis by simp
next
  case (booked b)
  have "bq_id b = i" "bq_status b \<noteq> Q_Committed" using find_row_Some [OF booked(1)] booked(2) by (auto simp: quote_is_open_def)
  with booked show ?thesis by (intro book_keeps [OF booked(4) assms(2)]) simp_all
qed

lemma rebook_keeps:
  assumes "rebook (quote_at x) b r actor s = Inr (t, r')" and "sales_ok x s"
    and "find_row bq_id (bq_id b) (sl_quotes s) = Some b" and "bq_status b = Q_Pending"
    and "find_reservation (sl_db s) (r_id r) = Some r"
  shows "sales_ok x t"
proof -
  note ok = sales_okD [OF assms(2)] and rows = rebook_rows [OF assms(1)] and money = rebook_ledger [OF assms(1)]
  have n: "next_id (sl_db s) \<le> next_id (sl_db t)" using rows by blast
  have mem: "r \<in> set (reservations (sl_db s))" using find_row_Some [OF assms(5)] by blast
  have rs: "reservations (sl_db t) = upd_row r_id (r_id r) (\<lambda>_. amended b r) (reservations (sl_db s))" using rows by blast
  have keys: "map r_id (reservations (sl_db t)) = map r_id (reservations (sl_db s))"
    unfolding rs by (simp add: upd_row_def upd_where_def)
  have ids: "r_id ` set (reservations (sl_db t)) = r_id ` set (reservations (sl_db s))" using keys by (metis list.set_map)
  have q: "sl_quotes t = mark_committed (quote_at x) (bq_id b) (r_id r) (sl_quotes s)" using rows by blast
  have grow: "sales_grow s t" by (rule sales_grow_mark [OF q assms(3)]) (simp add: assms(4))
  have sound: "quote_sound x (sl_db s) b" using ok(6) find_row_Some [OF assms(3)] by blast
  have up: "adds_up b" using sound by (simp add: quote_sound_def)
  obtain ls where ls: "folio_lines (sl_db t) = folio_lines (sl_db s) @ ls" "\<forall>l \<in> set ls. fl_reservation l = r_id r"
    using money by blast
  have "r_id r < next_id (sl_db s)" using mem by (intro sales_ok_fresh [OF assms(2)]) simp
  then have "fl_reservation l < next_id (sl_db t)" if "l \<in> set (folio_lines (sl_db t))" for l
    using that ok(3) ls less_le_trans [OF _ n] by auto
  moreover have "keys_ok r_id (reservations (sl_db t)) (next_id (sl_db t))"
    unfolding keys_ok_cong [OF keys] by (rule keys_ok_mono [OF ok(2) n])
  ultimately have "ids_fresh t" using marked_keys [OF ok(1) n] by (simp add: ids_fresh_def q)
  moreover have "homed (sl_db t)"
    using assms(1)
  proof (cases rule: rebook_stay)
    case (1 old old' a u)
    show ?thesis
      unfolding homed_def 1(5) ids using ok(4) mem 1(4,6) by (auto simp: homed_def upd_row_def upd_where_def split: if_splits)
  qed
  moreover have "no_double_booking (quote_at x) (sl_db t)" by (rule rebook_keeps_places [OF assms(1) ok(5) assms(5)])
  moreover have "\<forall>b \<in> set (sl_quotes t). quote_sound x (sl_db t) b"
    unfolding q by (rule marked_sound [OF ok(6)]) (use mem in \<open>auto simp: ids\<close>)
  moreover have "sold_right t r0" if r0: "r0 \<in> set (reservations (sl_db t))" for r0
  proof (cases "r_id r0 = r_id r")
    case True
    then have eq: "r0 = amended b r" using r0 mem by (auto simp: rs upd_row_def upd_where_def split: if_splits)
    have "sold_right s r" using ok(7) mem by blast
    then have "booked_gross (sl_db t) (r_id r) = cq_total (bq_calculation b)"
      using money [of "r_id r" r] up by (auto simp: sold_right_def adds_up_def Let_def)
    moreover have "find_row bq_id (bq_id b) (sl_quotes t) = Some (committed_row (quote_at x) (r_id r) b)"
      by (simp add: q find_committed assms(3))
    ultimately show ?thesis using up by (simp add: eq sold_right_def sold_by_def adds_up_def Let_def)
  next
    case False
    then have old: "r0 \<in> set (reservations (sl_db s))" using r0 by (auto simp: rs upd_row_def upd_where_def split: if_splits)
    have "booked_gross (sl_db t) (r_id r0) = booked_gross (sl_db s) (r_id r0)" using money [of "r_id r0" r] False by simp
    then show ?thesis using old ok(7) by (intro sold_right_beside [OF _ _ grow ok(6)]) simp_all
  qed
  ultimately show ?thesis by (simp add: sales_ok_def)
qed

lemma amend_keeps:
  assumes "amend_reservation x tf r inp actor s = (t, result)" and "sales_ok x s"
  shows "sales_ok x t"
  using assms(1)
proof (cases rule: amend_reservation_cases)
  case nothing
  with assms(2) show ?thesis by simp
next
  case (quoted b)
  then show ?thesis by (rule create_sale_keeps [OF _ assms(2)])
next
  case (amended u b r')
  have "sales_ok x u" by (rule create_sale_keeps [OF amended(1) assms(2)])
  from amended(2) show ?thesis
  proof (cases rule: apply_amendment_run)
    case (1 r0 b0)
    show ?thesis by (rule rebook_keeps [OF 1(7) \<open>sales_ok x u\<close>]) (simp_all add: 1)
  qed
qed

lemma sales_step_keeps: "sales_step (x, s) (x', t) \<Longrightarrow> sales_ok x s \<Longrightarrow> sales_ok x' t"
  by (erule sales_stepE) (auto intro: create_sale_keeps commit_keeps_ok amend_keeps workflow_keeps later_keeps)

interpretation sale: growing_run sales_step "\<lambda>(x, s). sales_ok x s" "\<lambda>(_, s) (_, t). sales_grow s t"
  by unfold_locales (auto intro: sales_step_keeps sales_grow_trans step_grows)

subsection \<open>Properties of runs\<close>

text \<open>C7: Stored quotes stay sound. After any run of creating, committing and amending quotes, of stay workflows and of
  time, every stored quote still passes its checksum, its lines sum to its subtotal and tax and these to its total, and it
  is either pending without a reservation or committed to a reservation that exists.\<close>

theorem quotes_stay_sound:
  assumes "sales_step\<^sup>*\<^sup>* (x, s) (x', t)" and "sales_ok x s" and "b \<in> set (sl_quotes t)"
  shows "bq_checksum b = checksum_for x' b \<and> cq_total (bq_calculation b) = cq_subtotal (bq_calculation b) + cq_tax (bq_calculation b)
    \<and> sum_list (map (\<lambda>(_, l). ql_net l) (bq_lines b)) = cq_subtotal (bq_calculation b)
    \<and> sum_list (map (\<lambda>(_, l). ql_tax l) (bq_lines b)) = cq_tax (bq_calculation b)
    \<and> (bq_status b = Q_Pending \<and> bq_reservation b = None
       \<or> bq_status b = Q_Committed \<and> (\<exists>r \<in> set (reservations (sl_db t)). bq_reservation b = Some (r_id r)))"
proof -
  have "sales_ok x' t" using sale.run_keeps [OF assms(1)] assms(2) by simp
  then have sound: "quote_sound x' (sl_db t) b" using assms(3) by (simp add: sales_ok_def)
  then have lines: "map snd (bq_lines b) = cq_lines (bq_calculation b)" by (simp add: quote_sound_def adds_up_def Let_def)
  have "map (\<lambda>(_, l). f l) (bq_lines b) = map f (cq_lines (bq_calculation b))" for f :: "quote_line \<Rightarrow> money"
    by (simp add: lines [symmetric] split_def)
  with sound show ?thesis
    by (simp add: quote_sound_def adds_up_def Let_def split: option.splits) (auto intro: bexI)
qed

text \<open>C1: What was sold is what was quoted. After any such run the booked lines on the folio of every reservation add up to
  its price, its price is its subtotal and its tax, and the quote it carries is committed to it with the same amounts; amendments,
  confirmations, cancellations and expiries included.\<close>

theorem sold_as_quoted:
  assumes "sales_step\<^sup>*\<^sup>* (x, s) (x', t)" and "sales_ok x s" and "r \<in> set (reservations (sl_db t))"
  shows "booked_gross (sl_db t) (r_id r) = r_total r \<and> r_total r = r_subtotal r + r_tax r
    \<and> (\<forall>k. r_quote r = Some k \<longrightarrow> (\<exists>b. find_row bq_id k (sl_quotes t) = Some b \<and> bq_status b = Q_Committed
         \<and> bq_reservation b = Some (r_id r) \<and> cq_total (bq_calculation b) = r_total r))"
proof -
  have ok: "sales_ok x' t" using sale.run_keeps [OF assms(1)] assms(2) by simp
  then have right: "sold_right t r" using assms(3) by (simp add: sales_ok_def)
  have "bq_status b = Q_Committed" if "find_row bq_id k (sl_quotes t) = Some b" "bq_reservation b = Some (r_id r)" for k b
    using that find_row_Some [OF that(1)] ok by (auto simp: sales_ok_def quote_sound_def split: option.splits)
  with right show ?thesis by (fastforce simp: sold_right_def sold_by_def)
qed

text \<open>C2: No place is sold twice. After any such run no two allocations that reserve a resource overlap on it: quotes may
  overlap, but a quote is booked and a stay is moved only onto places that are free when that happens.\<close>

theorem sales_never_double_book:
  assumes "sales_step\<^sup>*\<^sup>* (x, s) (x', t)" and "sales_ok x s"
    and "a \<in> set (allocations (sl_db t))" and "b \<in> set (allocations (sl_db t))" and "al_id a \<noteq> al_id b"
    and "reserving (quote_at x') (sl_db t) a" and "reserving (quote_at x') (sl_db t) b"
    and "al_resource a = Some k" and "al_resource b = Some k"
  shows "\<not> overlaps (al_starts a) (al_ends a) (al_starts b) (al_ends b)"
proof -
  have "sales_ok x' t" using sale.run_keeps [OF assms(1)] assms(2) by simp
  then have "\<not> clash a b" using assms(3,4,6,7) by (auto simp: sales_ok_def no_double_booking_def)
  with assms(5,8,9) show ?thesis by (simp add: clash_def meets_def overlaps_sym [of "al_starts b"])
qed

text \<open>C8: A quote becomes one reservation. Once a quote was committed, committing it again at any later point of a run
  changes nothing and gives the same reservation, and only to a request that names the guest the reservation has.\<close>

theorem quote_commits_once:
  assumes "commit_quote x i gid d companions s = Inr (t, r)" and "sales_ok x s" and "sales_step\<^sup>*\<^sup>* (x, t) (x', u)"
    and "commit_quote x' i gid' d' companions' u = Inr (v, r')"
  shows "v = u \<and> r_id r' = r_id r \<and> gid' = r_guest r' \<and> gid' \<noteq> None"
proof -
  have ok: "sales_ok x t" by (rule commit_keeps_ok [OF assms(1,2)])
  obtain b where b: "find_row bq_id i (sl_quotes t) = Some b" "bq_status b = Q_Committed" "bq_reservation b = Some (r_id r)"
    using assms(1)
  proof (cases rule: commit_quote_Inr)
    case (again b)
    with that show thesis by blast
  next
    case (booked b)
    obtain c where "sl_quotes t = mark_committed c (bq_id b) (r_id r) (sl_quotes s)"
      using booked(4) by (rule book_quote_effect) blast
    moreover have "bq_id b = i" using find_row_Some [OF booked(1)] by blast
    ultimately show thesis using that [of "committed_row c (r_id r) b"] booked(1) by (simp add: find_committed)
  qed
  have "sales_grow t u" using sale.run_extends [OF assms(3)] ok by simp
  with b have u: "find_row bq_id i (sl_quotes u) = Some b" by (fastforce simp: sales_grow_def same_offer_row_def)
  from assms(4) show ?thesis
    by (cases rule: commit_quote_Inr) (use u b in \<open>auto simp: quote_is_open_def\<close>)
qed

subsection \<open>Example\<close>

text \<open>A stay free of charge follows on the cabin when the quote of two nights is committed.\<close>

definition free_stay :: reservation where
  "free_stay = (demo_reservation 6 R_Confirmed)\<lparr>r_subtotal := 0, r_tax := 0, r_total := 0\<rparr>"

definition free_nights :: allocation where
  "free_nights = (demo_allocation 8 6 (Some 4) A_Confirmed)\<lparr>al_starts := 1036800, al_ends := 1123200\<rparr>"

abbreviation demo_market :: sales where
  "demo_market \<equiv> demo_sales [two_nights] [free_stay] [free_nights]"

lemma market_booking:
  "succeeds_with (\<lambda>(t, r). r_id r = 41 \<and> r_guest r = Some 40 \<and> map al_id (allocations (sl_db t)) = [8, 42]
     \<and> map al_resource (allocations (sl_db t)) = [Some 4, Some 4]
     \<and> (\<forall>a \<in> set (allocations (sl_db t)). reserving demo_ctx (sl_db t) a) \<and> find_reservation (sl_db t) 41 = Some r
     \<and> (case find_row bq_id 20 (sl_quotes t) of None \<Rightarrow> False
        | Some b \<Rightarrow> bq_status b = Q_Committed \<and> bq_reservation b = Some 41))
    (book_quote demo_ctx two_nights None demo_guest [] demo_market)"
  by code_simp

lemma market_commit:
  obtains t r where "commit_quote demo_quote_ctx 20 None demo_guest [] demo_market = Inr (t, r)"
    and "r_id r = 41" "r_guest r = Some 40" "map al_id (allocations (sl_db t)) = [8, 42]"
    "map al_resource (allocations (sl_db t)) = [Some 4, Some 4]"
    "\<forall>a \<in> set (allocations (sl_db t)). reserving demo_ctx (sl_db t) a" "find_reservation (sl_db t) 41 = Some r"
    "\<exists>b. find_row bq_id 20 (sl_quotes t) = Some b \<and> bq_status b = Q_Committed \<and> bq_reservation b = Some 41"
proof -
  have "commit_quote demo_quote_ctx 20 None demo_guest [] demo_market = book_quote demo_ctx two_nights None demo_guest [] demo_market"
    by (simp add: commit_quote_def find_or_fail_def find_row_def)
  with market_booking that show thesis by (auto elim!: succeeds_withE split: option.splits)
qed

lemma market_ok: "sales_ok demo_quote_ctx demo_market"
  by (simp add: sales_ok_def ids_fresh_def homed_def no_double_booking_def clash_def quote_sound_def sold_right_def
      booked_gross_def keys_ok_def free_stay_def free_nights_def demo_reservation_def demo_allocation_def)

lemma market_step: "commit_quote demo_quote_ctx 20 None demo_guest [] demo_market = Inr (t, r) \<Longrightarrow>
    sales_step\<^sup>*\<^sup>* (demo_quote_ctx, demo_market) (demo_quote_ctx, t)"
  by (rule r_into_rtranclp) (rule commit)

theorem quotes_stay_sound_witness:
  "\<exists>t b. sales_step\<^sup>*\<^sup>* (demo_quote_ctx, demo_market) (demo_quote_ctx, t) \<and> b \<in> set (sl_quotes t)
     \<and> bq_status b = Q_Committed \<and> (\<exists>r \<in> set (reservations (sl_db t)). bq_reservation b = Some (r_id r))"
proof -
  obtain t r b where run: "commit_quote demo_quote_ctx 20 None demo_guest [] demo_market = Inr (t, r)"
    and b: "find_row bq_id 20 (sl_quotes t) = Some b" "bq_status b = Q_Committed"
    by (rule market_commit) blast
  have mem: "b \<in> set (sl_quotes t)" using find_row_Some [OF b(1)] by blast
  note sound = quotes_stay_sound [OF market_step [OF run] market_ok mem]
  have "\<exists>r \<in> set (reservations (sl_db t)). bq_reservation b = Some (r_id r)" using sound b(2) by auto
  with market_step [OF run] mem b(2) show ?thesis by (intro exI [of _ t] exI [of _ b] conjI)
qed

theorem sold_as_quoted_witness:
  "\<exists>t r. sales_step\<^sup>*\<^sup>* (demo_quote_ctx, demo_market) (demo_quote_ctx, t) \<and> r \<in> set (reservations (sl_db t))
     \<and> r_id r = 41 \<and> booked_gross (sl_db t) 41 = r_total r"
proof -
  obtain t r where run: "commit_quote demo_quote_ctx 20 None demo_guest [] demo_market = Inr (t, r)"
    and r: "r_id r = 41" "find_reservation (sl_db t) 41 = Some r"
    by (rule market_commit)
  have mem: "r \<in> set (reservations (sl_db t))" using find_row_Some [OF r(2)] by blast
  have "booked_gross (sl_db t) 41 = r_total r" using sold_as_quoted [OF market_step [OF run] market_ok mem] r(1) by simp
  with market_step [OF run] mem r(1) show ?thesis by (intro exI [of _ t] exI [of _ r] conjI)
qed

theorem sales_never_double_book_witness:
  "\<exists>t a b. sales_step\<^sup>*\<^sup>* (demo_quote_ctx, demo_market) (demo_quote_ctx, t) \<and> allocations (sl_db t) = [a, b]
     \<and> al_resource a = al_resource b \<and> reserving demo_ctx (sl_db t) a \<and> reserving demo_ctx (sl_db t) b
     \<and> \<not> overlaps (al_starts a) (al_ends a) (al_starts b) (al_ends b)"
proof -
  obtain t r where run: "commit_quote demo_quote_ctx 20 None demo_guest [] demo_market = Inr (t, r)"
    and ids: "map al_id (allocations (sl_db t)) = [8, 42]" "map al_resource (allocations (sl_db t)) = [Some 4, Some 4]"
    and live: "\<forall>a \<in> set (allocations (sl_db t)). reserving demo_ctx (sl_db t) a"
    by (rule market_commit)
  from ids obtain a b where ab: "allocations (sl_db t) = [a, b]" "al_id a = 8" "al_id b = 42" "al_resource a = Some 4" "al_resource b = Some 4"
    by (auto simp: map_eq_Cons_conv)
  have use: "a \<in> set (allocations (sl_db t))" "b \<in> set (allocations (sl_db t))" "al_id a \<noteq> al_id b"
    "reserving (quote_at demo_quote_ctx) (sl_db t) a" "reserving (quote_at demo_quote_ctx) (sl_db t) b"
    using ab live by simp_all
  note apart = sales_never_double_book [OF market_step [OF run] market_ok use ab(4,5)]
  have "al_resource a = al_resource b" "reserving demo_ctx (sl_db t) a" "reserving demo_ctx (sl_db t) b"
    using use ab by simp_all
  with market_step [OF run] ab(1) apart show ?thesis by (intro exI [of _ t] exI [of _ a] exI [of _ b] conjI)
qed

theorem quote_commits_once_witness:
  "\<exists>t r. commit_quote demo_quote_ctx 20 None demo_guest [] demo_market = Inr (t, r)
     \<and> commit_quote demo_quote_ctx 20 (Some 40) demo_guest [] t = Inr (t, r) \<and> r_guest r = Some 40"
proof -
  obtain t r b where run: "commit_quote demo_quote_ctx 20 None demo_guest [] demo_market = Inr (t, r)"
    and r: "r_guest r = Some 40" "find_reservation (sl_db t) 41 = Some r"
    and b: "find_row bq_id 20 (sl_quotes t) = Some b" "bq_status b = Q_Committed" "bq_reservation b = Some 41"
    by (rule market_commit) blast
  have again: "commit_quote demo_quote_ctx 20 (Some 40) demo_guest [] t = Inr (t, r)"
    using r b by (simp add: commit_quote_def find_or_fail_def reservation_or_fail_def)
  have "Some 40 = r_guest r"
    using quote_commits_once [OF run market_ok rtranclp.rtrancl_refl again] by blast
  with run again show ?thesis by (intro exI [of _ t] exI [of _ r] conjI) simp_all
qed

end
