(* ===== verification/Cash_Shifts.thy ===== *)
theory Cash_Shifts
  imports Commands
begin

text \<open>
  The cash drawer: \<^verbatim>\<open>OpenCashShift\<close>, \<^verbatim>\<open>RecordCashMovement\<close>, \<^verbatim>\<open>CloseCashShift\<close> and \<^verbatim>\<open>ApproveCashVariance\<close>, over the
  append-only table of movements and the unique indexes of its migration. What a shift should hold is the
  sum of its movements; closing compares the count with it and stores both.
\<close>

subsection \<open>Tables\<close>

definition same_drawer :: "shift \<Rightarrow> shift \<Rightarrow> bool" where
  "same_drawer a b \<longleftrightarrow> sh_property a = sh_property b \<and> sh_cashier a = sh_cashier b \<and> sh_currency a = sh_currency b"

definition insert_shift :: "shift \<Rightarrow> shift desk_action" where
  "insert_shift r d =
     (if \<exists>s \<in> set (shifts d). sh_key s = sh_key r then Inl (Contract ''cash_shifts'' ''command_unique'')
      else if sh_state r = Shift_Open \<and> (\<exists>s \<in> set (shifts d). sh_state s = Shift_Open \<and> same_drawer s r)
      then Inl (Contract ''cash_shifts'' ''one_open_unique'')
      else let q = r\<lparr>sh_id := fresh d\<rparr> in Inr ((take_id d)\<lparr>shifts := shifts d @ [q]\<rparr>, q))"

definition insert_movement :: "movement \<Rightarrow> movement desk_action" where
  "insert_movement r d =
     (if \<exists>m \<in> set (movements d). mv_key m = mv_key r then Inl (Contract ''cash_shift_movements'' ''command_unique'')
      else if mv_payment r \<noteq> None \<and> (\<exists>m \<in> set (movements d). mv_payment m = mv_payment r \<and> mv_type m = mv_type r)
      then Inl (Contract ''cash_shift_movements'' ''payment_type_unique'')
      else if mv_refund r \<noteq> None \<and> (\<exists>m \<in> set (movements d). mv_refund m = mv_refund r \<and> mv_type m = mv_type r)
      then Inl (Contract ''cash_shift_movements'' ''refund_type_unique'')
      else if mv_reverses r \<noteq> None \<and> (\<exists>m \<in> set (movements d). mv_reverses m = mv_reverses r)
      then Inl (Contract ''cash_shift_movements'' ''reversal_unique'')
      else if mv_amount r = 0 \<and> mv_type r \<noteq> Move_Opening_float
      then Inl (Contract ''cash_shift_movements'' ''nonzero_check'')
      else let q = r\<lparr>mv_id := fresh d\<rparr> in Inr ((take_id d)\<lparr>movements := movements d @ [q]\<rparr>, q))"

definition update_shift :: "shift \<Rightarrow> desk \<Rightarrow> desk" where
  "update_shift r d = d\<lparr>shifts := upd_row sh_id (sh_id r) (\<lambda>_. r) (shifts d)\<rparr>"

text \<open>\<^verbatim>\<open>currentExpectedMinor\<close>\<close>

definition current_expected :: "desk \<Rightarrow> id \<Rightarrow> money" where
  "current_expected d i = sum_where (\<lambda>m. mv_shift m = i) mv_amount (movements d)"

definition blank_movement :: movement where
  "blank_movement = \<lparr>mv_id = 0, mv_property = 0, mv_shift = 0, mv_payment = None, mv_refund = None, mv_reverses = None,
     mv_type = Move_Opening_float, mv_amount = 0, mv_currency = [], mv_reason = [], mv_by = 0, mv_at = 0, mv_key = [],
     mv_checksum = []\<rparr>"

subsection \<open>OpenCashShift\<close>

definition currency_code :: "string \<Rightarrow> bool" where
  "currency_code s \<longleftrightarrow> length s = 3 \<and> list_all (\<lambda>c. 65 \<le> (of_char c :: nat) \<and> (of_char c :: nat) \<le> 90) s"

definition open_payload :: "id \<Rightarrow> string \<Rightarrow> money \<Rightarrow> string \<Rightarrow> json" where
  "open_payload p currency float key = J_Obj [(''propertyId'', J_Id p), (''currency'', J_Str currency),
     (''openingFloatMinor'', J_Int float), (''idempotencyKey'', J_Str key)]"

definition new_shift :: "desk_ctx \<Rightarrow> user_id \<Rightarrow> id \<Rightarrow> string \<Rightarrow> money \<Rightarrow> string \<Rightarrow> string \<Rightarrow> shift" where
  "new_shift x actor p currency float key signature = \<lparr>sh_id = 0, sh_property = p, sh_cashier = actor, sh_currency = currency,
     sh_state = Shift_Open, sh_float = float, sh_expected = None, sh_counted = None, sh_variance = None,
     sh_day = local_day (at_request x) p (now x), sh_opened = now x, sh_closed_at = None, sh_closed_by = None,
     sh_close_reason = None, sh_calculation = None, sh_approved_at = None, sh_approved_by = None,
     sh_approval_reason = None, sh_key = key, sh_checksum = signature\<rparr>"

definition float_movement :: "desk_ctx \<Rightarrow> user_id \<Rightarrow> shift \<Rightarrow> string \<Rightarrow> movement" where
  "float_movement x actor s key = blank_movement\<lparr>mv_property := sh_property s, mv_shift := sh_id s,
     mv_type := Move_Opening_float, mv_amount := sh_float s, mv_currency := sh_currency s,
     mv_reason := ''Opening float'', mv_by := actor, mv_at := now x, mv_key := ''opening:'' @ key,
     mv_checksum := sh_checksum s\<rparr>"

definition open_body :: "desk_ctx \<Rightarrow> user_id \<Rightarrow> id \<Rightarrow> string \<Rightarrow> money \<Rightarrow> string \<Rightarrow> tenant_row desk_action" where
  "open_body x actor p raw_currency float key d =
     bindE (guard_operate_cash (at_request x) actor p) (\<lambda>_.
     bindE (find_or_fail ''properties'' prop_id p (properties (core d))) (\<lambda>_.
     let currency = upper (trim raw_currency) in
     if \<not> currency_code currency \<or> float < 0 then Inl (Validation ''opening_float_minor'')
     else
       let r = new_shift x actor p currency float key (checksum x (open_payload p raw_currency float key)) in
       if \<exists>s \<in> set (shifts d). same_drawer s r \<and> sh_state s = Shift_Open then Inl (Validation ''cash_shift'')
       else
         bindE (insert_shift r d) (\<lambda>(d1, s).
         bindE (insert_movement (float_movement x actor s key) d1) (\<lambda>(d2, _). Inr (d2, Shift_Row s)))))"

definition open_shift :: "desk_ctx \<Rightarrow> user_id \<Rightarrow> id \<Rightarrow> string \<Rightarrow> money \<Rightarrow> string \<Rightarrow> tenant_row desk_action" where
  "open_shift x actor p currency float key =
     run_command x ''OpenCashShift'' key (open_payload p currency float key) (open_body x actor p currency float key)"

subsection \<open>RecordCashMovement\<close>

definition movement_payload :: "id \<Rightarrow> cash_movement_type \<Rightarrow> money \<Rightarrow> string \<Rightarrow> id option \<Rightarrow> json" where
  "movement_payload i ty amount reason reverses = J_Obj [(''shift_id'', J_Id i),
     (''type'', J_Str (cash_movement_type_value ty)), (''amount_minor'', J_Int amount), (''reason'', J_Str (trim reason)),
     (''reverses_id'', j_opt J_Id reverses)]"

text \<open>The signed amount and the movement a correction opposes.\<close>

definition signed_amount ::
  "shift \<Rightarrow> cash_movement_type \<Rightarrow> money \<Rightarrow> id option \<Rightarrow> desk \<Rightarrow> (money \<times> id option) res" where
  "signed_amount s ty amount reverses d =
     (if ty = Move_Correction
      then (case reverses of None \<Rightarrow> Inl (NotFound ''cash_shift_movements'')
        | Some k \<Rightarrow>
          bindE (find_or_fail ''cash_shift_movements'' mv_id k (movements d)) (\<lambda>m.
          if mv_shift m \<noteq> sh_id s \<or> mv_type m \<notin> {Move_Pay_in, Move_Pay_out} then Inl (Validation ''reverses_movement_id'')
          else if amount \<noteq> \<bar>mv_amount m\<bar> then Inl (Validation ''amount_minor'')
          else if \<exists>n \<in> set (movements d). mv_reverses n = Some (mv_id m) then Inl (Validation ''reverses_movement_id'')
          else Inr (- mv_amount m, Some (mv_id m))))
      else Inr (if ty = Move_Pay_out then - amount else amount, None))"

definition cash_movement ::
  "desk_ctx \<Rightarrow> user_id \<Rightarrow> shift \<Rightarrow> cash_movement_type \<Rightarrow> money \<times> id option \<Rightarrow> string \<Rightarrow> string \<Rightarrow> string \<Rightarrow> movement" where
  "cash_movement x actor s ty a reason key signature = blank_movement\<lparr>mv_property := sh_property s, mv_shift := sh_id s,
     mv_reverses := snd a, mv_type := ty, mv_amount := fst a, mv_currency := sh_currency s, mv_reason := reason,
     mv_by := actor, mv_at := now x, mv_key := key, mv_checksum := signature\<rparr>"

definition movement_body ::
  "desk_ctx \<Rightarrow> user_id \<Rightarrow> id \<Rightarrow> cash_movement_type \<Rightarrow> money \<Rightarrow> string \<Rightarrow> string \<Rightarrow> id option \<Rightarrow> tenant_row desk_action" where
  "movement_body x actor i ty amount raw_reason key reverses d =
     bindE (find_or_fail ''cash_shifts'' sh_id i (shifts d)) (\<lambda>s.
     bindE (guard_operate_cash (at_request x) actor (sh_property s)) (\<lambda>_.
     if sh_cashier s \<noteq> actor \<or> sh_state s \<noteq> Shift_Open then Inl (Validation ''cash_shift'')
     else if ty \<notin> {Move_Pay_in, Move_Pay_out, Move_Correction} then Inl (Validation ''type'')
     else
       let reason = trim raw_reason in
       if reason = [] \<or> amount \<le> 0 then Inl (Validation ''amount_minor'')
       else if ty = Move_Pay_out \<and> amount > current_expected d (sh_id s) then Inl (Validation ''amount_minor'')
       else
         bindE (signed_amount s ty amount reverses d) (\<lambda>a.
         bindE (insert_movement (cash_movement x actor s ty a reason key
             (checksum x (movement_payload i ty amount raw_reason reverses))) d) (\<lambda>(t, m).
         Inr (t, Movement_Row m)))))"

definition record_cash_movement ::
  "desk_ctx \<Rightarrow> user_id \<Rightarrow> id \<Rightarrow> cash_movement_type \<Rightarrow> money \<Rightarrow> string \<Rightarrow> string \<Rightarrow> id option \<Rightarrow> tenant_row desk_action" where
  "record_cash_movement x actor i ty amount reason key reverses =
     run_command x ''RecordCashMovement'' key (movement_payload i ty amount reason reverses)
       (movement_body x actor i ty amount reason key reverses)"

subsection \<open>CloseCashShift\<close>

definition close_payload :: "id \<Rightarrow> money \<Rightarrow> string option \<Rightarrow> bool \<Rightarrow> json" where
  "close_payload i tally reason force = J_Obj [(''shift_id'', J_Id i), (''counted_cash_minor'', J_Int tally),
     (''reason'', J_Str (trim (or_default reason []))), (''force'', J_Bool force)]"

definition stale_before :: "desk_ctx \<Rightarrow> instant" where
  "stale_before x = now x - max 1 (stale_hours x) * 3600"

definition cashier_active :: "desk \<Rightarrow> shift \<Rightarrow> bool" where
  "cashier_active d s \<longleftrightarrow> (\<exists>m \<in> set (memberships (core d)). mb_user m = sh_cashier s
     \<and> at_property (sh_property s) m \<and> mb_active m)"

definition may_force :: "desk_ctx \<Rightarrow> desk \<Rightarrow> shift \<Rightarrow> bool \<Rightarrow> bool" where
  "may_force x d s force \<longleftrightarrow> force
     \<and> (case request_member (at_request x) of None \<Rightarrow> False | Some m \<Rightarrow> mb_role m \<in> {Role_Administrator, Role_Manager})
     \<and> \<not> (cashier_active d s \<and> sh_opened s > stale_before x)"

definition variance_limit :: "desk_ctx \<Rightarrow> desk \<Rightarrow> shift \<Rightarrow> money" where
  "variance_limit x d s = max 0 (case map_of (variance_limits d (sh_property s)) (upper (sh_currency s)) of
     None \<Rightarrow> variance_threshold x | Some limit \<Rightarrow> or_default limit 0)"

definition calculation :: "desk \<Rightarrow> shift \<Rightarrow> money \<Rightarrow> json" where
  "calculation d s tally =
     (let own = sort_key mv_at (sort_key mv_id (filter (\<lambda>m. mv_shift m = sh_id s) (movements d)));
          expected = current_expected d (sh_id s) in
      J_Obj [(''shift_id'', J_Id (sh_id s)), (''movement_ids'', J_Arr (map (\<lambda>m. J_Id (mv_id m)) own)),
        (''expected_minor'', J_Int expected), (''counted_minor'', J_Int tally),
        (''variance_minor'', J_Int (tally - expected))])"

definition closed_shift :: "desk_ctx \<Rightarrow> user_id \<Rightarrow> desk \<Rightarrow> money \<Rightarrow> string option \<Rightarrow> shift \<Rightarrow> shift" where
  "closed_shift x actor d tally reason s =
     (let variance = tally - current_expected d (sh_id s) in
      s\<lparr>sh_state := (if \<bar>variance\<bar> > variance_limit x d s then Shift_Variance_review else Shift_Closed),
        sh_expected := Some (current_expected d (sh_id s)), sh_counted := Some tally, sh_variance := Some variance,
        sh_closed_at := Some (now x), sh_closed_by := Some actor, sh_close_reason := filled_text reason,
        sh_calculation := Some (checksum x (calculation d s tally))\<rparr>)"

definition close_body ::
  "desk_ctx \<Rightarrow> user_id \<Rightarrow> id \<Rightarrow> money \<Rightarrow> string option \<Rightarrow> bool \<Rightarrow> tenant_row desk_action" where
  "close_body x actor i tally reason force d =
     bindE (find_or_fail ''cash_shifts'' sh_id i (shifts d)) (\<lambda>s.
     bindE (guard_operate_cash (at_request x) actor (sh_property s)) (\<lambda>_.
     if sh_state s \<noteq> Shift_Open then Inr (d, Shift_Row s)
     else if tally < 0 then Inl (Validation ''counted_cash_minor'')
     else if sh_cashier s \<noteq> actor \<and> \<not> may_force x d s force then Inl (Validation ''force'')
     else if force \<and> trim (or_default reason []) = [] then Inl (Validation ''reason'')
     else if tally \<noteq> current_expected d (sh_id s) \<and> trim (or_default reason []) = [] then Inl (Validation ''reason'')
     else
       let r = closed_shift x actor d tally reason s in
       Inr (update_shift r d, Shift_Row r)))"

definition close_shift ::
  "desk_ctx \<Rightarrow> user_id \<Rightarrow> id \<Rightarrow> money \<Rightarrow> string option \<Rightarrow> string \<Rightarrow> bool \<Rightarrow> tenant_row desk_action" where
  "close_shift x actor i tally reason key force =
     run_command x ''CloseCashShift'' key (close_payload i tally reason force) (close_body x actor i tally reason force)"

subsection \<open>ApproveCashVariance\<close>

definition approve_body :: "desk_ctx \<Rightarrow> user_id \<Rightarrow> id \<Rightarrow> string \<Rightarrow> tenant_row desk_action" where
  "approve_body x actor i reason d =
     bindE (find_or_fail ''cash_shifts'' sh_id i (shifts d)) (\<lambda>s.
     bindE (guard_resolve (at_request x) actor (sh_property s)) (\<lambda>_.
     if sh_state s = Shift_Closed \<and> sh_approved_at s \<noteq> None then Inr (d, Shift_Row s)
     else if sh_state s \<noteq> Shift_Variance_review \<or> trim reason = [] then Inl (Validation ''cash_shift'')
     else
       let r = s\<lparr>sh_state := Shift_Closed, sh_approved_by := Some actor, sh_approved_at := Some (now x),
             sh_approval_reason := Some (trim reason)\<rparr> in
       Inr (update_shift r d, Shift_Row r)))"

definition approve_variance :: "desk_ctx \<Rightarrow> user_id \<Rightarrow> id \<Rightarrow> string \<Rightarrow> string \<Rightarrow> tenant_row desk_action" where
  "approve_variance x actor i reason key =
     run_command x ''ApproveCashVariance'' key (J_Obj [(''shift_id'', J_Id i), (''reason'', J_Str (trim reason))])
       (approve_body x actor i reason)"

end
