(* ===== verification/Php_Text.thy ===== *)
theory Php_Text
  imports Schema "HOL-Library.AList"
begin

text \<open>
  The text functions of PHP that the payment guards call: \<^verbatim>\<open>preg_match\<close>, \<^verbatim>\<open>preg_match_all\<close> and
  \<^verbatim>\<open>preg_replace\<close> as a backtracking matcher that tries alternatives in Perl's order, and \<^verbatim>\<open>json_decode\<close>
  as a tokenizer and a stack machine. Text is a list of bytes. The matcher has the operators the
  patterns of the program use; a quantifier is greedy. The decoder keeps texts and arrays and forgets
  which number, boolean or null a scalar is, because no caller looks at it.
\<close>

subsection \<open>Regular expressions\<close>

datatype regex =
    R_Set "char \<Rightarrow> bool"
  | R_Eps
  | R_Seq regex regex
  | R_Alt regex regex
  | R_Rep nat "nat option" regex
  | R_Not_Next "char \<Rightarrow> bool"
  | R_Not_Prev "char \<Rightarrow> bool"
  | R_Start
  | R_Stop
  | R_Dollar

text \<open>
  A position is the byte before it and the text after it. \<open>ends r x\<close> lists where a match of \<open>r\<close> that starts
  at \<open>x\<close> may stop, the preferred end first. \<open>R_Stop\<close> is \<^verbatim>\<open>\z\<close>; \<open>R_Dollar\<close> also matches before a final newline.
\<close>

type_synonym position = "char option \<times> string"

fun iter :: "(position \<Rightarrow> position list) \<Rightarrow> nat \<Rightarrow> nat \<Rightarrow> position \<Rightarrow> position list" where
  "iter f (Suc m) k x = concat (map (iter f m k) (f x))"
| "iter f 0 (Suc k) x = concat (map (iter f 0 k) (filter (\<lambda>y. length (snd y) < length (snd x)) (f x))) @ [x]"
| "iter f 0 0 x = [x]"

primrec ends :: "regex \<Rightarrow> position \<Rightarrow> position list" where
  "ends (R_Set P) x = (case snd x of [] \<Rightarrow> [] | c # cs \<Rightarrow> if P c then [(Some c, cs)] else [])"
| "ends R_Eps x = [x]"
| "ends (R_Seq r q) x = concat (map (ends q) (ends r x))"
| "ends (R_Alt r q) x = ends r x @ ends q x"
| "ends (R_Rep m most r) x = iter (ends r) m (case most of None \<Rightarrow> length (snd x) | Some k \<Rightarrow> k - m) x"
| "ends (R_Not_Next P) x = (case snd x of [] \<Rightarrow> [x] | c # _ \<Rightarrow> if P c then [] else [x])"
| "ends (R_Not_Prev P) x = (case fst x of None \<Rightarrow> [x] | Some c \<Rightarrow> if P c then [] else [x])"
| "ends R_Start x = (if fst x = None then [x] else [])"
| "ends R_Stop x = (if snd x = [] then [x] else [])"
| "ends R_Dollar x = (if snd x = [] \<or> snd x = [CHR 0x0A] then [x] else [])"

primrec found_from :: "regex \<Rightarrow> char option \<Rightarrow> string \<Rightarrow> bool" where
  "found_from r p [] = (ends r (p, []) \<noteq> [])"
| "found_from r p (c # cs) = (ends r (p, c # cs) \<noteq> [] \<or> found_from r (Some c) cs)"

definition preg_match :: "regex \<Rightarrow> string \<Rightarrow> bool" where
  "preg_match r s = found_from r None s"

text \<open>The text of every match and the text between the matches, from left to right; a match is not empty.\<close>

definition first_end :: "regex \<Rightarrow> char option \<Rightarrow> string \<Rightarrow> position option" where
  "first_end r p s = (case ends r (p, s) of [] \<Rightarrow> None
     | y # _ \<Rightarrow> if length (snd y) < length s then Some y else None)"

lemma first_end_shorter: "first_end r p s = Some y \<Longrightarrow> length (snd y) < length s"
  by (auto simp: first_end_def split: list.splits if_splits)

function matches_from :: "regex \<Rightarrow> char option \<Rightarrow> string \<Rightarrow> string list" where
  "matches_from r p [] = []"
| "matches_from r p (c # cs) = (case first_end r p (c # cs) of
     None \<Rightarrow> matches_from r (Some c) cs
   | Some y \<Rightarrow> take (length (c # cs) - length (snd y)) (c # cs) # matches_from r (fst y) (snd y))"
  by pat_completeness auto
termination
  by (relation "measure (\<lambda>(r, p, s). length s)") (auto dest: first_end_shorter)

function replace_from :: "regex \<Rightarrow> string \<Rightarrow> char option \<Rightarrow> string \<Rightarrow> string" where
  "replace_from r w p [] = []"
| "replace_from r w p (c # cs) = (case first_end r p (c # cs) of
     None \<Rightarrow> c # replace_from r w (Some c) cs
   | Some y \<Rightarrow> w @ replace_from r w (fst y) (snd y))"
  by pat_completeness auto
termination
  by (relation "measure (\<lambda>(r, w, p, s). length s)") (auto dest: first_end_shorter)

definition preg_match_all :: "regex \<Rightarrow> string \<Rightarrow> string list" where
  "preg_match_all r s = matches_from r None s"

definition preg_replace :: "regex \<Rightarrow> string \<Rightarrow> string \<Rightarrow> string" where
  "preg_replace r w s = replace_from r w None s"

text \<open>Classes and literals.\<close>

definition is_digit :: "char \<Rightarrow> bool" where
  "is_digit c \<longleftrightarrow> 48 \<le> (of_char c :: nat) \<and> (of_char c :: nat) \<le> 57"

definition is_lower :: "char \<Rightarrow> bool" where
  "is_lower c \<longleftrightarrow> 97 \<le> (of_char c :: nat) \<and> (of_char c :: nat) \<le> 122"

definition is_hex :: "char \<Rightarrow> bool" where
  "is_hex c \<longleftrightarrow> is_digit c \<or> (97 \<le> (of_char (lower_char c) :: nat) \<and> (of_char (lower_char c) :: nat) \<le> 102)"

definition is_space :: "char \<Rightarrow> bool" where
  "is_space c \<longleftrightarrow> of_char c \<in> {9, 10, 11, 12, 13, 32 :: nat}"

definition one_of :: "string \<Rightarrow> regex" where
  "one_of s = R_Set (\<lambda>c. c \<in> set s)"

text \<open>A literal under the modifier \<^verbatim>\<open>i\<close>, written in lower case.\<close>

primrec word_i :: "string \<Rightarrow> regex" where
  "word_i [] = R_Eps"
| "word_i (c # cs) = R_Seq (R_Set (\<lambda>d. lower_char d = c)) (word_i cs)"

abbreviation optional :: "regex \<Rightarrow> regex" where
  "optional r \<equiv> R_Rep 0 (Some 1) r"

abbreviation star :: "regex \<Rightarrow> regex" where
  "star r \<equiv> R_Rep 0 None r"

abbreviation times_of :: "nat \<Rightarrow> regex \<Rightarrow> regex" where
  "times_of n r \<equiv> R_Rep n (Some n) r"

primrec in_turn :: "regex list \<Rightarrow> regex" where
  "in_turn [] = R_Eps"
| "in_turn (r # rs) = R_Seq r (in_turn rs)"

fun any_of :: "regex list \<Rightarrow> regex" where
  "any_of [] = R_Set (\<lambda>_. False)"
| "any_of [r] = r"
| "any_of (r # rs) = R_Alt r (any_of rs)"

subsection \<open>Patterns that need a byte of a class\<close>

text \<open>Every match of \<open>r\<close> reads a byte of \<open>D\<close>; a text without one has no match.\<close>

primrec needs :: "(char \<Rightarrow> bool) \<Rightarrow> regex \<Rightarrow> bool" where
  "needs D (R_Set P) = (\<forall>c. P c \<longrightarrow> D c)"
| "needs D R_Eps = False"
| "needs D (R_Seq r q) = (needs D r \<or> needs D q)"
| "needs D (R_Alt r q) = (needs D r \<and> needs D q)"
| "needs D (R_Rep m most r) = (0 < m \<and> needs D r)"
| "needs D (R_Not_Next P) = False"
| "needs D (R_Not_Prev P) = False"
| "needs D R_Start = False"
| "needs D R_Stop = False"
| "needs D R_Dollar = False"

lemma iter_suffix:
  "\<forall>x. \<forall>y \<in> set (f x). set (snd y) \<subseteq> set (snd x) \<Longrightarrow> y \<in> set (iter f m k x) \<Longrightarrow> set (snd y) \<subseteq> set (snd x)"
proof (induction f m k x rule: iter.induct)
  case (1 f m k x)
  from 1(3) obtain z where z: "z \<in> set (f x)" "y \<in> set (iter f m k z)" by auto
  from 1(1) [OF z(1) 1(2) z(2)] 1(2) z(1) show ?case by blast
next
  case (2 f k x)
  show ?case
  proof (cases "y = x")
    case False
    with 2(3) obtain z where z: "z \<in> set (filter (\<lambda>y. length (snd y) < length (snd x)) (f x))" "y \<in> set (iter f 0 k z)" by auto
    have "z \<in> set (f x)" using z(1) by simp
    with 2(2) have "set (snd z) \<subseteq> set (snd x)" by blast
    with 2(1) [OF z(1) 2(2) z(2)] show ?thesis by (rule subset_trans)
  qed simp
qed simp

lemma ends_suffix: "y \<in> set (ends r x) \<Longrightarrow> set (snd y) \<subseteq> set (snd x)"
proof (induction r arbitrary: x y)
  case (R_Seq r q)
  then obtain z where "z \<in> set (ends r x)" "y \<in> set (ends q z)" by auto
  with R_Seq.IH show ?case by blast
next
  case (R_Alt r q)
  then have "y \<in> set (ends r x) \<or> y \<in> set (ends q x)" by simp
  with R_Alt.IH show ?case by blast
next
  case (R_Rep m most r)
  have "\<forall>x. \<forall>y \<in> set (ends r x). set (snd y) \<subseteq> set (snd x)" using R_Rep.IH by blast
  from iter_suffix [OF this] R_Rep.prems show ?case by simp
qed (auto split: list.splits option.splits if_splits)

lemma ends_need: "needs D r \<Longrightarrow> y \<in> set (ends r x) \<Longrightarrow> \<exists>c \<in> set (snd x). D c"
proof (induction r arbitrary: x y)
  case (R_Set P)
  then show ?case by (cases "snd x") (auto split: if_splits)
next
  case (R_Seq r q)
  then obtain z where z: "z \<in> set (ends r x)" "y \<in> set (ends q z)" by auto
  from R_Seq.prems(1) show ?case
  proof (elim disjE [OF iffD1 [OF needs.simps(3)]])
    assume "needs D r"
    from R_Seq.IH(1) [OF this z(1)] show ?thesis .
  next
    assume "needs D q"
    from R_Seq.IH(2) [OF this z(2)] ends_suffix [OF z(1)] show ?thesis by blast
  qed
next
  case (R_Rep m most r)
  from R_Rep.prems obtain n k where "y \<in> set (iter (ends r) (Suc n) k x)" by (cases m) auto
  then obtain z where "z \<in> set (ends r x)" by auto
  with R_Rep show ?case by auto
qed auto

lemma no_match:
  assumes "needs D r" and "\<forall>c \<in> set s. \<not> D c"
  shows "\<not> preg_match r s" and "preg_match_all r s = []" and "preg_replace r w s = s"
proof -
  have none: "ends r (p, t) = []" if "\<forall>c \<in> set t. \<not> D c" for p t
    using ends_need [OF assms(1), of _ "(p, t)"] that by (cases "ends r (p, t)") auto
  have "\<not> found_from r p s" for p using assms(2) by (induction s arbitrary: p) (simp_all add: none)
  then show "\<not> preg_match r s" by (simp add: preg_match_def)
  have "matches_from r p s = []" for p using assms(2)
    by (induction s arbitrary: p) (simp_all add: none first_end_def)
  then show "preg_match_all r s = []" by (simp add: preg_match_all_def)
  have "replace_from r w p s = s" for p using assms(2)
    by (induction s arbitrary: p) (simp_all add: none first_end_def)
  then show "preg_replace r w s = s" by (simp add: preg_replace_def)
qed

lemma needs_in_turn [simp]: "needs D (in_turn rs) \<longleftrightarrow> (\<exists>r \<in> set rs. needs D r)"
  by (induction rs) simp_all

lemma needs_any_of [simp]: "needs D (any_of rs) \<longleftrightarrow> (\<forall>r \<in> set rs. needs D r)"
  by (induction rs rule: any_of.induct) simp_all

subsection \<open>Tokens of JSON text\<close>

datatype php_value = V_Text string | V_Array "(string \<times> php_value) list" | V_Other

datatype token = T_Open bool | T_Close bool | T_Colon | T_Comma | T_Text string | T_Scalar

text \<open>\<open>T_Open True\<close> opens an object, \<open>T_Open False\<close> a list.\<close>

abbreviation byte :: "char \<Rightarrow> nat" where
  "byte c \<equiv> of_char c"

definition hex_value :: "char \<Rightarrow> nat" where
  "hex_value c = (if is_digit c then byte c - 48 else byte (lower_char c) - 87)"

definition hex4 :: "string \<Rightarrow> (nat \<times> string) option" where
  "hex4 s = (if length s \<ge> 4 \<and> list_all is_hex (take 4 s)
     then Some (fold (\<lambda>c n. 16 * n + hex_value c) (take 4 s) 0, drop 4 s) else None)"

definition utf8_bytes :: "nat \<Rightarrow> string" where
  "utf8_bytes n = map char_of (if n < 128 then [n]
     else if n < 2048 then [192 + n div 64, 128 + n mod 64]
     else if n < 65536 then [224 + n div 4096, 128 + n div 64 mod 64, 128 + n mod 64]
     else [240 + n div 262144, 128 + n div 4096 mod 64, 128 + n div 64 mod 64, 128 + n mod 64])"

text \<open>After \<^verbatim>\<open>\u\<close>: a code unit, or a surrogate pair; a lone surrogate is an error.\<close>

definition unicode_escape :: "string \<Rightarrow> (string \<times> string) option" where
  "unicode_escape s = (case hex4 s of None \<Rightarrow> None
     | Some (n, r) \<Rightarrow>
       if n < 55296 \<or> 57344 \<le> n then Some (utf8_bytes n, r)
       else if 56320 \<le> n \<or> take 2 r \<noteq> [CHR 0x5C, CHR ''u''] then None
       else (case hex4 (drop 2 r) of None \<Rightarrow> None
         | Some (m, q) \<Rightarrow> if 56320 \<le> m \<and> m < 57344
             then Some (utf8_bytes (65536 + 1024 * (n - 55296) + (m - 56320)), q) else None))"

definition escape :: "string \<Rightarrow> (string \<times> string) option" where
  "escape s = (case s of [] \<Rightarrow> None
     | c # r \<Rightarrow> if c = CHR ''u'' then unicode_escape r
       else map_option (\<lambda>d. ([d], r)) (map_of [(CHR 0x22, CHR 0x22), (CHR 0x5C, CHR 0x5C), (CHR ''/'', CHR ''/''),
         (CHR ''b'', CHR 0x08), (CHR ''f'', CHR 0x0C), (CHR ''n'', CHR 0x0A), (CHR ''r'', CHR 0x0D), (CHR ''t'', CHR 0x09)] c))"

text \<open>A well-formed UTF-8 sequence of two to four bytes.\<close>

definition tail_ok :: "nat \<Rightarrow> nat \<Rightarrow> nat \<Rightarrow> string \<Rightarrow> bool" where
  "tail_ok lo hi n s \<longleftrightarrow> n \<le> length s \<and> lo \<le> byte (s ! 0) \<and> byte (s ! 0) \<le> hi
     \<and> list_all (\<lambda>c. 128 \<le> byte c \<and> byte c \<le> 191) (take n s)"

definition utf8_length :: "string \<Rightarrow> nat option" where
  "utf8_length s = (case s of [] \<Rightarrow> None
     | c # r \<Rightarrow> let b = byte c in
       if 194 \<le> b \<and> b \<le> 223 \<and> tail_ok 128 191 1 r then Some 2
       else if b = 224 \<and> tail_ok 160 191 2 r then Some 3
       else if 225 \<le> b \<and> b \<le> 239 \<and> b \<noteq> 237 \<and> tail_ok 128 191 2 r then Some 3
       else if b = 237 \<and> tail_ok 128 159 2 r then Some 3
       else if b = 240 \<and> tail_ok 144 191 3 r then Some 4
       else if 241 \<le> b \<and> b \<le> 243 \<and> tail_ok 128 191 3 r then Some 4
       else if b = 244 \<and> tail_ok 128 143 3 r then Some 4 else None)"

text \<open>One piece of a string literal: its bytes and the text after it.\<close>

definition piece :: "string \<Rightarrow> (string \<times> string) option" where
  "piece s = (case s of [] \<Rightarrow> None
     | c # r \<Rightarrow> if c = CHR 0x5C then escape r
       else if byte c < 32 then None
       else if byte c < 128 then Some ([c], r)
       else (case utf8_length s of None \<Rightarrow> None | Some n \<Rightarrow> Some (take n s, drop n s)))"

lemma hex4_length: "hex4 s = Some (n, r) \<Longrightarrow> length s = 4 + length r"
  by (auto simp: hex4_def split: if_splits)

lemma unicode_escape_length: "unicode_escape s = Some (t, r) \<Longrightarrow> length t + length r \<le> length s"
proof -
  assume run: "unicode_escape s = Some (t, r)"
  then obtain n q where n: "hex4 s = Some (n, q)" by (auto simp: unicode_escape_def split: option.splits)
  have small: "k < 65536 \<Longrightarrow> length (utf8_bytes k) \<le> 3" and any: "length (utf8_bytes k) \<le> 4" for k
    by (simp_all add: utf8_bytes_def)
  show ?thesis
  proof (cases "n < 55296 \<or> 57344 \<le> n")
    case True
    with run n any [of n] hex4_length [OF n] show ?thesis by (auto simp: unicode_escape_def)
  next
    case False
    with run n obtain m where "hex4 (drop 2 q) = Some (m, r)" "length t \<le> 4"
      using any by (auto simp: unicode_escape_def split: option.splits if_splits)
    with hex4_length [OF n] hex4_length [of "drop 2 q" m r] show ?thesis by simp
  qed
qed

lemma escape_length: "escape s = Some (t, r) \<Longrightarrow> length t + length r \<le> length s"
  by (auto simp: escape_def dest: unicode_escape_length split: list.splits if_splits)

lemma utf8_length_bound: "utf8_length s = Some n \<Longrightarrow> 0 < n \<and> n \<le> length s"
  by (auto simp: utf8_length_def tail_ok_def Let_def split: list.splits if_splits)

lemma escape_shorter: "escape s = Some (t, r) \<Longrightarrow> length r < length s"
proof (cases s)
  case (Cons c q)
  assume "escape s = Some (t, r)"
  with Cons show ?thesis
    using unicode_escape_length [of q t r] by (auto simp: escape_def split: if_splits)
qed (simp add: escape_def)

lemma piece_length: "piece s = Some (t, r) \<Longrightarrow> length t + length r \<le> length s \<and> length r < length s"
  by (auto simp: piece_def dest: escape_length utf8_length_bound split: list.splits if_splits option.splits)

function literal :: "string \<Rightarrow> (string \<times> string) option" where
  "literal s = (if s \<noteq> [] \<and> hd s = CHR 0x22 then Some ([], tl s)
     else (case piece s of None \<Rightarrow> None
       | Some (t, r) \<Rightarrow> map_option (\<lambda>(u, q). (t @ u, q)) (literal r)))"
  by pat_completeness auto
termination
  by (relation "measure length") (auto dest: piece_length)

declare literal.simps [simp del]

text \<open>The text after a number: the longest of an integer, a fraction and an exponent.\<close>

definition after_digits :: "string \<Rightarrow> string \<Rightarrow> string" where
  "after_digits s r = (if r \<noteq> [] \<and> is_digit (hd r) then dropWhile is_digit r else s)"

definition after_number :: "string \<Rightarrow> string option" where
  "after_number s =
     (let a = (if s \<noteq> [] \<and> hd s = CHR ''-'' then tl s else s) in
      if a = [] \<or> \<not> is_digit (hd a) then None
      else
        let b = (if hd a = CHR ''0'' then tl a else dropWhile is_digit a);
            d = (if b \<noteq> [] \<and> hd b = CHR ''.'' then after_digits b (tl b) else b);
            e = (if d \<noteq> [] \<and> hd d \<in> {CHR ''e'', CHR ''E''}
                 then after_digits d (if tl d \<noteq> [] \<and> hd (tl d) \<in> {CHR ''+'', CHR ''-''} then tl (tl d) else tl d)
                 else d) in
        Some e)"

definition keyword :: "string \<Rightarrow> nat option" where
  "keyword s = (if map lower_char (take 4 s) \<in> {''true'', ''null''} then Some 4
     else if map lower_char (take 5 s) = ''false'' then Some 5 else None)"

definition punctuation :: "char \<Rightarrow> token option" where
  "punctuation c = map_of [(CHR 0x7B, T_Open True), (CHR 0x7D, T_Close True), (CHR 0x5B, T_Open False),
     (CHR 0x5D, T_Close False), (CHR '':'', T_Colon), (CHR '','', T_Comma)] c"

definition next_token :: "string \<Rightarrow> (token \<times> string) option" where
  "next_token s = (case s of [] \<Rightarrow> None
     | c # r \<Rightarrow> (case punctuation c of Some t \<Rightarrow> Some (t, r)
       | None \<Rightarrow> if c = CHR 0x22 then map_option (\<lambda>(t, q). (T_Text t, q)) (literal r)
         else (case keyword s of Some n \<Rightarrow> Some (T_Scalar, drop n s)
           | None \<Rightarrow> map_option (\<lambda>q. (T_Scalar, q)) (after_number s))))"

definition json_blank :: "char \<Rightarrow> bool" where
  "json_blank c \<longleftrightarrow> byte c \<in> {9, 10, 13, 32}"

text \<open>The weight of a token bounds the text it came from; the weight of a value, the text it holds.\<close>

primrec token_weight :: "token \<Rightarrow> nat" where
  "token_weight (T_Open _) = 1"
| "token_weight (T_Close _) = 0"
| "token_weight T_Colon = 0"
| "token_weight T_Comma = 0"
| "token_weight (T_Text s) = length s + 1"
| "token_weight T_Scalar = 1"

lemma literal_length: "literal s = Some (t, r) \<Longrightarrow> length t + length r < length s"
proof (induction s arbitrary: t r rule: literal.induct)
  case (1 s)
  show ?case
  proof (cases "s \<noteq> [] \<and> hd s = CHR 0x22")
    case True
    with 1(2) show ?thesis by (subst (asm) literal.simps) (cases s; simp)
  next
    case False
    with 1(2) obtain u q v where p: "piece s = Some (u, q)" and v: "literal q = Some (v, r)" and t: "t = u @ v"
      by (subst (asm) literal.simps) (auto split: option.splits)
    from 1(1) [OF False p refl v] piece_length [OF p] t show ?thesis by simp
  qed
qed

lemma after_number_shorter:
  assumes "after_number s = Some r" shows "length r < length s"
proof -
  define a where "a = (if s \<noteq> [] \<and> hd s = CHR ''-'' then tl s else s)"
  have a: "length a \<le> length s" "a \<noteq> []" "is_digit (hd a)" using assms by (auto simp: a_def after_number_def Let_def split: if_splits)
  define b where "b = (if hd a = CHR ''0'' then tl a else dropWhile is_digit a)"
  have "length (dropWhile is_digit a) \<le> length (tl a)"
    using a(2,3) length_dropWhile_le [of is_digit "tl a"] by (cases a) auto
  then have b: "length b < length a" using a(2) by (cases a) (auto simp: b_def)
  have after: "length q \<le> n \<Longrightarrow> length p \<le> n \<Longrightarrow> length (after_digits p q) \<le> n" for p q n
    using length_dropWhile_le [of is_digit q] by (auto simp: after_digits_def)
  define d where "d = (if b \<noteq> [] \<and> hd b = CHR ''.'' then after_digits b (tl b) else b)"
  have d: "length d \<le> length b" unfolding d_def by (auto intro: after)
  have "length r \<le> length d"
    using assms a(2,3) unfolding after_number_def a_def [symmetric] b_def [symmetric] d_def [symmetric] Let_def
    by (auto intro!: after split: if_splits)
  with a b d show ?thesis by simp
qed

lemma next_token_length: "next_token s = Some (t, r) \<Longrightarrow> token_weight t + length r \<le> length s \<and> length r < length s"
proof -
  assume run: "next_token s = Some (t, r)"
  then obtain c q where s: "s = c # q" by (auto simp: next_token_def split: list.splits)
  show ?thesis
  proof (cases "punctuation c")
    case (Some t')
    moreover have "punctuation c = Some t' \<Longrightarrow> token_weight t' \<le> 1" by (auto simp: punctuation_def split: if_splits)
    ultimately show ?thesis using run s by (auto simp: next_token_def)
  next
    case None
    have "keyword s = Some n \<Longrightarrow> 0 < n" for n by (auto simp: keyword_def split: if_splits)
    then have "keyword (c # q) = Some n \<Longrightarrow> Suc (length q) - n \<le> length q \<and> Suc (length q) - n < Suc (length q)" for n
      unfolding s by fastforce
    with None run s show ?thesis
      by (auto simp: next_token_def dest: literal_length after_number_shorter split: if_splits option.splits)
  qed
qed

function tokens :: "string \<Rightarrow> token list option" where
  "tokens s = (let r = dropWhile json_blank s in
     if r = [] then Some []
     else (case next_token r of None \<Rightarrow> None | Some (t, q) \<Rightarrow> map_option (\<lambda>ts. t # ts) (tokens q)))"
  by pat_completeness auto
termination
proof (relation "measure length")
  fix s r p t q assume "r = dropWhile json_blank s" "next_token r = Some p" "(t, q) = p"
  then show "(q, s) \<in> measure length"
    using next_token_length [of r t q] length_dropWhile_le [of json_blank s] by simp
qed simp

declare tokens.simps [simp del]

lemma tokens_weight: "tokens s = Some ts \<Longrightarrow> sum_list (map token_weight ts) \<le> length s"
proof (induction s arbitrary: ts rule: tokens.induct)
  case (1 s)
  define r where "r = dropWhile json_blank s"
  have r: "length r \<le> length s" by (simp add: r_def length_dropWhile_le)
  show ?case
  proof (cases "r = []")
    case True
    with 1(2) show ?thesis by (subst (asm) tokens.simps) (simp add: r_def [symmetric])
  next
    case False
    with 1(2) obtain t q us where t: "next_token r = Some (t, q)" and us: "tokens q = Some us" "ts = t # us"
      by (subst (asm) tokens.simps) (auto simp: r_def [symmetric] split: option.splits)
    from 1(1) [OF r_def False t refl us(1)] next_token_length [OF t] r us(2) show ?thesis by simp
  qed
qed

subsection \<open>Decoding\<close>

text \<open>
  The decoder reads the tokens with a stack of the arrays that are open. \<open>F_Key kvs k\<close> is an object that
  waits for the value of \<open>k\<close>. A repeated key keeps its place and takes the last value, nesting beyond
  512 levels is an error.
\<close>

datatype frame = F_List "(string \<times> php_value) list" | F_Obj "(string \<times> php_value) list" | F_Key "(string \<times> php_value) list" string

datatype mode = M_Value | M_First | M_Key_First | M_Key | M_Colon string | M_After | M_Done php_value

fun complete_value :: "php_value \<Rightarrow> frame list \<Rightarrow> (mode \<times> frame list) option" where
  "complete_value v [] = Some (M_Done v, [])"
| "complete_value v (F_List kvs # st) = Some (M_After, F_List (kvs @ [(decimal (length kvs), v)]) # st)"
| "complete_value v (F_Key kvs k # st) = Some (M_After, F_Obj (AList.update k v kvs) # st)"
| "complete_value v (F_Obj kvs # st) = None"

fun close_array :: "bool \<Rightarrow> frame list \<Rightarrow> (mode \<times> frame list) option" where
  "close_array False (F_List kvs # st) = complete_value (V_Array kvs) st"
| "close_array True (F_Obj kvs # st) = complete_value (V_Array kvs) st"
| "close_array _ _ = None"

definition open_array :: "bool \<Rightarrow> frame list \<Rightarrow> (mode \<times> frame list) option" where
  "open_array obj st = (if 512 \<le> length st then None
     else Some (if obj then (M_Key_First, F_Obj [] # st) else (M_First, F_List [] # st)))"

fun read_value :: "token \<Rightarrow> frame list \<Rightarrow> (mode \<times> frame list) option" where
  "read_value (T_Text s) st = complete_value (V_Text s) st"
| "read_value T_Scalar st = complete_value V_Other st"
| "read_value (T_Open obj) st = open_array obj st"
| "read_value _ st = None"

fun read_token :: "token \<Rightarrow> mode \<times> frame list \<Rightarrow> (mode \<times> frame list) option" where
  "read_token t (M_Value, st) = read_value t st"
| "read_token t (M_First, st) = (if t = T_Close False then close_array False st else read_value t st)"
| "read_token t (M_Key_First, st) = (case t of T_Text k \<Rightarrow> Some (M_Colon k, st)
     | T_Close True \<Rightarrow> close_array True st | _ \<Rightarrow> None)"
| "read_token t (M_Key, st) = (case t of T_Text k \<Rightarrow> Some (M_Colon k, st) | _ \<Rightarrow> None)"
| "read_token t (M_Colon k, st) = (case (t, st) of (T_Colon, F_Obj kvs # st') \<Rightarrow> Some (M_Value, F_Key kvs k # st') | _ \<Rightarrow> None)"
| "read_token t (M_After, st) = (case t of
       T_Comma \<Rightarrow> (case st of F_List _ # _ \<Rightarrow> Some (M_Value, st) | F_Obj _ # _ \<Rightarrow> Some (M_Key, st) | _ \<Rightarrow> None)
     | T_Close obj \<Rightarrow> close_array obj st
     | _ \<Rightarrow> None)"
| "read_token t (M_Done v, st) = None"

fun read_tokens :: "token list \<Rightarrow> mode \<times> frame list \<Rightarrow> php_value option" where
  "read_tokens [] x = (case fst x of M_Done v \<Rightarrow> Some v | _ \<Rightarrow> None)"
| "read_tokens (t # ts) x = (case read_token t x of None \<Rightarrow> None | Some y \<Rightarrow> read_tokens ts y)"

definition json_decode :: "string \<Rightarrow> php_value option" where
  "json_decode s = (case tokens s of None \<Rightarrow> None | Some ts \<Rightarrow> read_tokens ts (M_Value, []))"

text \<open>What is decoded weighs no more than the text, so decoding again what is inside it comes to an end.\<close>

fun weight :: "php_value \<Rightarrow> nat" where
  "weight (V_Text s) = length s + 1"
| "weight (V_Array kvs) = 1 + sum_list (map (\<lambda>(k, v). weight v) kvs)"
| "weight V_Other = 1"

abbreviation weights :: "(string \<times> php_value) list \<Rightarrow> nat" where
  "weights kvs \<equiv> sum_list (map (\<lambda>(k, v). weight v) kvs)"

fun frame_weight :: "frame \<Rightarrow> nat" where
  "frame_weight (F_List kvs) = 1 + weights kvs"
| "frame_weight (F_Obj kvs) = 1 + weights kvs"
| "frame_weight (F_Key kvs k) = 1 + weights kvs"

fun mode_weight :: "mode \<Rightarrow> nat" where
  "mode_weight (M_Done v) = weight v"
| "mode_weight _ = 0"

definition state_weight :: "mode \<times> frame list \<Rightarrow> nat" where
  "state_weight x = mode_weight (fst x) + sum_list (map frame_weight (snd x))"

lemma weights_update: "weights (AList.update k v kvs) \<le> weight v + weights kvs"
  by (induction kvs) auto

lemma complete_value_weight:
  "complete_value v st = Some y \<Longrightarrow> state_weight y \<le> weight v + sum_list (map frame_weight st)"
  using weights_update by (induction v st rule: complete_value.induct) (auto simp: state_weight_def add.assoc)

lemma close_array_weight:
  "close_array b st = Some y \<Longrightarrow> state_weight y \<le> sum_list (map frame_weight st)"
  by (induction b st rule: close_array.induct) (auto dest: complete_value_weight)

lemma read_value_weight:
  "read_value t st = Some y \<Longrightarrow> state_weight y \<le> token_weight t + sum_list (map frame_weight st)"
  by (cases t) (auto simp: open_array_def state_weight_def [of "(_, _ # _)"] dest: complete_value_weight split: if_splits)

lemma read_token_weight:
  "read_token t x = Some y \<Longrightarrow> state_weight y \<le> token_weight t + state_weight x"
proof (induction t x rule: read_token.induct)
  case (2 t st)
  then show ?case
    by (auto simp: state_weight_def [of "(M_First, st)"] dest: close_array_weight read_value_weight split: if_splits)
next
  case (3 t st)
  then show ?case
    by (auto simp: state_weight_def [of "(_, st)"] dest: close_array_weight split: token.splits bool.splits)
next
  case (5 t k st)
  then show ?case by (auto simp: state_weight_def split: token.splits list.splits frame.splits)
next
  case (6 t st)
  then show ?case
    by (auto simp: state_weight_def [of "(_, st)"] state_weight_def [of "(_, _ # _)"] dest: close_array_weight
        split: token.splits list.splits frame.splits)
qed (auto simp: state_weight_def [of "(_, _)"] dest: read_value_weight split: token.splits)

lemma read_tokens_weight:
  "read_tokens ts x = Some v \<Longrightarrow> weight v \<le> sum_list (map token_weight ts) + state_weight x"
proof (induction ts x rule: read_tokens.induct)
  case (1 x)
  then show ?case by (auto simp: state_weight_def split: mode.splits)
next
  case (2 t ts x)
  then show ?case by (fastforce dest: read_token_weight split: option.splits)
qed

lemma json_decode_weight: "json_decode s = Some v \<Longrightarrow> weight v \<le> length s"
  by (auto simp: json_decode_def state_weight_def dest!: read_tokens_weight tokens_weight split: option.splits)

end
