(* ===== verification/Card_Data.thy ===== *)
theory Card_Data
  imports Php_Text
begin

text \<open>
  \<^verbatim>\<open>SensitivePaymentDataGuard\<close>: the scan that keeps card numbers, verification codes, expiry dates and
  track data out of the tables. Every text inside the value is scanned, also inside texts that are JSON
  arrays. The theorems say which card numbers the scan refuses, at any depth, that it ends, that its checksum is Luhn's, and
  which card numbers pass it although they should not.
\<close>

subsection \<open>Patterns\<close>

abbreviation digit :: regex where "digit \<equiv> R_Set is_digit"
abbreviation spaces :: regex where "spaces \<equiv> star (R_Set is_space)"
abbreviation hex_digits :: "nat \<Rightarrow> regex" where "hex_digits n \<equiv> times_of n (R_Set is_hex)"
abbreviation dash :: regex where "dash \<equiv> one_of ''-''"
abbreviation separator :: regex where "separator \<equiv> optional (one_of '':=#-'')"

definition uuid_text :: regex where
  "uuid_text = in_turn [hex_digits 8, dash, hex_digits 4, dash, one_of ''12345678'', hex_digits 3, dash,
     one_of ''89abAB'', hex_digits 3, dash, hex_digits 12]"

definition uuid_pattern :: regex where
  "uuid_pattern = in_turn [R_Not_Prev is_hex, uuid_text, R_Not_Next is_hex]"

definition without_uuids :: "string \<Rightarrow> string" where
  "without_uuids s = preg_replace uuid_pattern [] s"

definition month :: regex where
  "month = any_of [R_Seq (one_of ''0'') (one_of ''123456789''), R_Seq (one_of ''1'') (one_of ''012'')]"

definition year :: regex where
  "year = any_of [times_of 2 digit, times_of 4 digit]"

definition code_pattern :: regex where
  "code_pattern = in_turn [any_of [R_Seq (word_i ''cvv'') (optional (one_of ''2'')),
     R_Seq (word_i ''cvc'') (optional (one_of ''2'')), word_i ''cid'',
     in_turn [word_i ''card'', spaces, word_i ''verification''],
     in_turn [word_i ''security'', spaces, word_i ''code''], word_i ''pin''],
     spaces, separator, spaces, R_Rep 3 (Some 12) digit]"

definition expiry_pattern :: regex where
  "expiry_pattern = in_turn [any_of [R_Seq (word_i ''exp'') (optional (any_of [word_i ''iry'', word_i ''iration''])),
     in_turn [word_i ''valid'', spaces, any_of [word_i ''thru'', word_i ''through'']]],
     spaces, separator, spaces, month, one_of ''/-'', year]"

definition date_pattern :: regex where
  "date_pattern = in_turn [R_Not_Prev is_digit, month, one_of ''/'', year, R_Not_Next is_digit]"

definition track_pattern :: regex where
  "track_pattern = in_turn [optional (in_turn [word_i ''track'', spaces, one_of ''12'', spaces, separator, spaces]),
     any_of [R_Seq (one_of ''%'') (word_i ''b''), one_of '';''],
     R_Rep 12 (Some 19) digit, one_of ''^=Dd'']"

definition contains_sensitive :: "string \<Rightarrow> bool" where
  "contains_sensitive s \<longleftrightarrow> preg_match code_pattern s \<or> preg_match expiry_pattern s
     \<or> preg_match date_pattern s \<or> preg_match track_pattern s"

definition card_separator :: "char \<Rightarrow> bool" where
  "card_separator c \<longleftrightarrow> c = CHR '' '' \<or> c = CHR ''-''"

definition card_unit :: regex where
  "card_unit = R_Seq digit (optional (R_Set card_separator))"

definition card_pattern :: regex where
  "card_pattern = in_turn [R_Not_Prev is_digit,
     R_Rep 13 (Some 19) card_unit, R_Not_Next is_digit]"

subsection \<open>Paths that are not scanned\<close>

definition path_ends :: "regex \<Rightarrow> string \<Rightarrow> bool" where
  "path_ends r path \<longleftrightarrow> preg_match (in_turn [any_of [R_Start, one_of ''.''], r, R_Dollar]) path"

definition name_chars :: "char \<Rightarrow> bool" where
  "name_chars c \<longleftrightarrow> is_lower (lower_char c) \<or> c = CHR ''_''"

definition reference_name :: regex where
  "reference_name = any_of [word_i ''id'', R_Seq (R_Rep 1 None (R_Set name_chars)) (word_i ''_id''),
     word_i ''phone'', word_i ''sha256'',
     R_Seq (star (R_Set name_chars)) (any_of [word_i ''checksum'', word_i ''hash''])]"

definition is_sha :: "string \<Rightarrow> bool" where
  "is_sha s \<longleftrightarrow> length s = 64 \<and> list_all is_hex s"

definition is_generated_hash :: "string \<Rightarrow> string \<Rightarrow> bool" where
  "is_generated_hash path s \<longleftrightarrow> path_ends (any_of [word_i ''document_email_key'', word_i ''command_key'']) path \<and> is_sha s"

definition file_type :: regex where
  "file_type = any_of [word_i ''pdf'', word_i ''png'', in_turn [word_i ''jp'', optional (word_i ''e''), word_i ''g'']]"

definition is_storage_locator :: "string \<Rightarrow> string \<Rightarrow> bool" where
  "is_storage_locator path s \<longleftrightarrow>
     path_ends (R_Seq (word_i ''storage_'') (any_of [word_i ''path'', word_i ''key''])) path
     \<and> (preg_match (in_turn [R_Start, word_i ''guest-payment-evidence/'', uuid_text, one_of ''/'', uuid_text,
            one_of ''/'', uuid_text, one_of ''.'', file_type, R_Stop]) s
        \<or> preg_match (in_turn [R_Start, word_i ''payment-evidence/'', uuid_text, word_i ''/refunds/'', uuid_text,
            one_of ''/'', hex_digits 64, one_of ''.'', file_type, R_Stop]) s)"

definition not_a_card_path :: "string \<Rightarrow> string \<Rightarrow> bool" where
  "not_a_card_path path s \<longleftrightarrow> is_generated_hash path s \<or> path_ends reference_name path
     \<or> (path_ends (R_Seq (any_of [word_i ''deduplication'', word_i ''idempotency'']) (word_i ''_key'')) path \<and> is_sha s)"

definition is_resolved_path :: "string list \<Rightarrow> string \<Rightarrow> bool" where
  "is_resolved_path names path \<longleftrightarrow> (\<exists>f \<in> set names. path = f \<or> path = ''PaymentTenderDetail.'' @ f)"

subsection \<open>The texts of a value\<close>

definition decoded_array :: "string \<Rightarrow> (string \<times> php_value) list option" where
  "decoded_array s = (if s \<noteq> [] \<and> hd s \<in> {CHR 0x7B, CHR 0x5B}
     then (case json_decode s of Some (V_Array kvs) \<Rightarrow> Some kvs | _ \<Rightarrow> None) else None)"

lemma decoded_array_weight: "decoded_array s = Some kvs \<Longrightarrow> weight (V_Array kvs) < weight (V_Text s)"
  by (auto simp: decoded_array_def dest: json_decode_weight split: if_splits option.splits php_value.splits)

lemma weight_member: "(k, v) \<in> set kvs \<Longrightarrow> weight v < weight (V_Array kvs)"
  using member_le_sum_list [of "weight v" "map (\<lambda>(k, v). weight v) kvs"] by force

function strings :: "php_value \<Rightarrow> string \<Rightarrow> (string \<times> string) list" where
  "strings (V_Text s) path = (case decoded_array s of
     Some kvs \<Rightarrow> strings (V_Array kvs) path | None \<Rightarrow> [(path, s)])"
| "strings (V_Array kvs) path =
     concat (map (\<lambda>(k, v). strings v (if path = [] then k else path @ ''.'' @ k)) kvs)"
| "strings V_Other path = []"
  by pat_completeness auto
termination
  by (relation "measure (\<lambda>(v, _). weight v)")
    (auto simp del: weight.simps intro: decoded_array_weight weight_member)

text \<open>The same scan with a bound on the depth of its calls; \<open>None\<close> when a call would go deeper.\<close>

fun strings_upto :: "nat \<Rightarrow> php_value \<Rightarrow> string \<Rightarrow> (string \<times> string) list option" where
  "strings_upto 0 v path = None"
| "strings_upto (Suc n) (V_Text s) path = (case decoded_array s of
     Some kvs \<Rightarrow> strings_upto n (V_Array kvs) path | None \<Rightarrow> Some [(path, s)])"
| "strings_upto (Suc n) (V_Array kvs) path =
     map_option concat (those (map (\<lambda>(k, v). strings_upto n v (if path = [] then k else path @ ''.'' @ k)) kvs))"
| "strings_upto (Suc n) V_Other path = Some []"

subsection \<open>Luhn\<close>

definition digit_value :: "char \<Rightarrow> nat" where
  "digit_value c = byte c - 48"

definition luhn_number :: "nat \<Rightarrow> nat \<Rightarrow> nat \<Rightarrow> nat" where
  "luhn_number parity index n = (if index mod 2 = parity then (if 2 * n > 9 then 2 * n - 9 else 2 * n) else n)"

definition luhn :: "string \<Rightarrow> bool" where
  "luhn s \<longleftrightarrow> \<not> (length s < 13 \<or> length s > 19 \<or> (\<forall>c \<in> set s. c = hd s))
     \<and> sum_list (map (\<lambda>(i, c). luhn_number (length s mod 2) i (digit_value c)) (enumerate 0 s)) mod 10 = 0"

subsection \<open>assertSafe\<close>

definition resolvable_fields :: "string list" where
  "resolvable_fields = [''transaction_reference'', ''authorization_reference'', ''batch_reference'']"

definition array_unique :: "string list \<Rightarrow> string list" where
  "array_unique xs = rev (remdups (rev xs))"

definition validate_fields :: "string list \<Rightarrow> string list res" where
  "validate_fields names = (if list_all (\<lambda>f. f \<in> set resolvable_fields) names then Inr (array_unique names)
     else Inl (Validation ''luhn_false_positive_fields''))"

definition scan_candidate :: "string list \<Rightarrow> string \<Rightarrow> string \<Rightarrow> unit res" where
  "scan_candidate resolved path candidate =
     (if luhn (filter is_digit candidate) \<and> \<not> is_resolved_path resolved path then Inl (Validation path) else Inr ())"

definition scan_text :: "string list \<Rightarrow> string \<times> string \<Rightarrow> unit res" where
  "scan_text resolved x =
     (let path = fst x; s = snd x in
      if is_storage_locator path s then Inr ()
      else
        let w = without_uuids s in
        if contains_sensitive w then Inl (Validation path)
        else if not_a_card_path path s then Inr ()
        else allE (scan_candidate resolved path) (preg_match_all card_pattern w))"

definition assert_safe :: "string list \<Rightarrow> php_value \<Rightarrow> string \<Rightarrow> string list \<Rightarrow> unit res" where
  "assert_safe scoped v field names =
     bindE (validate_fields names) (\<lambda>fs. allE (scan_text (array_unique (scoped @ fs))) (strings v field))"

definition utf8_characters :: "string \<Rightarrow> nat" where
  "utf8_characters s = length (filter (\<lambda>c. \<not> (128 \<le> byte c \<and> byte c \<le> 191)) s)"

definition validate_resolution :: "string list \<Rightarrow> string list \<Rightarrow> string \<Rightarrow> string list res" where
  "validate_resolution scoped names justification =
     bindE (validate_fields names) (\<lambda>fs.
     let j = trim justification in
     if fs = [] \<or> utf8_characters j < 20 \<or> utf8_characters j > 500
     then Inl (Validation ''luhn_false_positive_justification'')
     else bindE (assert_safe scoped (V_Text j) ''luhn_false_positive_justification'' []) (\<lambda>_. Inr fs))"

text \<open>The callback of \<^verbatim>\<open>withLuhnFalsePositiveResolution\<close> runs with the names in scope; afterwards the scope is restored.\<close>

definition with_resolution :: "string list \<Rightarrow> string list \<Rightarrow> string \<Rightarrow> (string list \<Rightarrow> 'a res) \<Rightarrow> 'a res" where
  "with_resolution scoped names justification callback =
     bindE (validate_resolution scoped names justification) callback"

subsection \<open>A text without digits passes\<close>

lemma one_of_digit: "needs is_digit (one_of s) \<longleftrightarrow> list_all is_digit s"
  by (auto simp: one_of_def list_all_iff)

lemma patterns_need_digits:
  "needs is_digit code_pattern" "needs is_digit expiry_pattern" "needs is_digit date_pattern" "needs is_digit track_pattern"
  "needs is_digit card_pattern" "needs is_digit uuid_pattern"
proof -
  have m: "needs is_digit month" by (simp add: month_def one_of_digit is_digit_def)
  show "needs is_digit code_pattern" by (simp add: code_pattern_def)
  show "needs is_digit expiry_pattern" by (simp add: expiry_pattern_def m)
  show "needs is_digit date_pattern" by (simp add: date_pattern_def m)
  show "needs is_digit track_pattern" by (simp add: track_pattern_def)
  show "needs is_digit card_pattern" by (simp add: card_pattern_def card_unit_def)
  show "needs is_digit uuid_pattern" by (simp add: uuid_pattern_def uuid_text_def one_of_digit is_digit_def)
qed

lemma digitless_text:
  assumes "\<forall>c \<in> set s. \<not> is_digit c"
  shows "scan_text resolved (path, s) = Inr ()"
proof -
  note none = no_match [OF _ assms]
  have "without_uuids s = s" by (simp add: without_uuids_def none(3) patterns_need_digits)
  moreover have "\<not> contains_sensitive s" by (simp add: contains_sensitive_def none(1) patterns_need_digits)
  moreover have "preg_match_all card_pattern s = []" by (simp add: none(2) patterns_need_digits)
  ultimately show ?thesis by (simp add: scan_text_def Let_def)
qed

text \<open>Evaluation skips the patterns on such a text.\<close>

lemma scan_text_code [code]:
  "scan_text resolved x = (if list_all (\<lambda>c. \<not> is_digit c) (snd x) then Inr ()
     else let path = fst x; s = snd x in
      if is_storage_locator path s then Inr ()
      else
        let w = without_uuids s in
        if contains_sensitive w then Inl (Validation path)
        else if not_a_card_path path s then Inr ()
        else allE (scan_candidate resolved path) (preg_match_all card_pattern w))"
  using digitless_text [of "snd x" resolved "fst x"] by (auto simp: scan_text_def list_all_iff)

lemma digitless_value:
  assumes "\<forall>x \<in> set (strings v field). \<forall>c \<in> set (snd x). \<not> is_digit c" and "names = []"
  shows "assert_safe scoped v field names = Inr ()"
proof -
  have "scan_text resolved x = Inr ()" if "x \<in> set (strings v field)" for x resolved
    using digitless_text [of "snd x" resolved "fst x"] assms(1) that by simp
  then show ?thesis by (simp add: assert_safe_def validate_fields_def array_unique_def allE_eq_Inr assms(2) bindE_eq_Inr)
qed

subsection \<open>The checksum is Luhn's\<close>

text \<open>Luhn's rule: from the right, every second digit is doubled and counted by the sum of its digits.\<close>

fun luhn_sum :: "bool \<Rightarrow> nat list \<Rightarrow> nat" where
  "luhn_sum doubled [] = 0"
| "luhn_sum doubled (n # ns) =
     (if doubled then 2 * n div 10 + 2 * n mod 10 else n) + luhn_sum (\<not> doubled) ns"

lemma luhn_sum_append:
  "luhn_sum b (ns @ ms) = luhn_sum b ns + luhn_sum (if even (length ns) then b else \<not> b) ms"
  by (induction b ns rule: luhn_sum.induct) auto

lemma luhn_number_eq: "n \<le> 9 \<Longrightarrow> luhn_number q i n = luhn_sum (i mod 2 = q) [n]"
proof -
  assume "n \<le> 9"
  then have "n \<in> {0, 1, 2, 3, 4, 5, 6, 7, 8, 9}" by auto
  then show ?thesis by (auto simp: luhn_number_def)
qed

lemma luhn_from_left:
  assumes "\<forall>c \<in> set s. is_digit c"
  shows "sum_list (map (\<lambda>(i, c). luhn_number ((k + length s) mod 2) i (digit_value c)) (enumerate k s))
    = luhn_sum False (map digit_value (rev s))"
  using assms
proof (induction s arbitrary: k)
  case (Cons c s)
  have "digit_value c \<le> 9" using Cons.prems by (auto simp: is_digit_def digit_value_def)
  moreover have "(k mod 2 = (k + Suc (length s)) mod 2) \<longleftrightarrow> odd (length s)" by presburger
  ultimately have "luhn_number ((k + Suc (length s)) mod 2) k (digit_value c)
      = luhn_sum (odd (length s)) [digit_value c]"
    by (simp only: luhn_number_eq)
  moreover have "sum_list (map (\<lambda>(i, c). luhn_number ((k + Suc (length s)) mod 2) i (digit_value c)) (enumerate (Suc k) s))
      = luhn_sum False (map digit_value (rev s))"
    using Cons.IH [of "Suc k"] Cons.prems by simp
  ultimately show ?case by (simp add: luhn_sum_append del: luhn_sum.simps(2))
qed simp

text \<open>The checksum of the scan is Luhn's. Of 13 to 19 digits that are not all the same, it accepts exactly
  those whose sum by Luhn's rule is a multiple of ten: from the right, every second digit is doubled and
  the digits of the result are added.\<close>

theorem luhn_is_luhn:
  "luhn s \<and> (\<forall>c \<in> set s. is_digit c) \<longleftrightarrow> 13 \<le> length s \<and> length s \<le> 19 \<and> (\<forall>c \<in> set s. is_digit c)
     \<and> \<not> (\<forall>c \<in> set s. c = hd s) \<and> luhn_sum False (map digit_value (rev s)) mod 10 = 0"
  using luhn_from_left [of s 0] by (auto simp: luhn_def not_less)

subsection \<open>Card numbers that are found\<close>

text \<open>Digits with at most one separator between two of them.\<close>

fun card_text :: "string \<Rightarrow> bool" where
  "card_text [] = False"
| "card_text [c] = is_digit c"
| "card_text (c # d # cs) = (is_digit c \<and> (card_text (d # cs) \<or> (card_separator d \<and> card_text cs)))"

text \<open>Text before the number does not end in a digit, nor in a digit and a separator; text after it does not
  begin with a digit, nor with a separator and a digit.\<close>

fun clear_after :: "string \<Rightarrow> bool" where
  "clear_after [] = True"
| "clear_after [c] = (\<not> is_digit c)"
| "clear_after (c # d # cs) = (\<not> is_digit c \<and> \<not> (card_separator c \<and> is_digit d))"

definition clear_before :: "char option \<Rightarrow> string \<Rightarrow> bool" where
  "clear_before p s = clear_after (rev s @ (case p of None \<Rightarrow> [] | Some c \<Rightarrow> [c]))"

lemma sep_not_digit [simp]: "card_separator c \<Longrightarrow> \<not> is_digit c"
  by (auto simp: card_separator_def is_digit_def)

lemma ends_unit:
  "ends card_unit (p, s) = (case s of [] \<Rightarrow> []
     | c # cs \<Rightarrow> if is_digit c then
         (case cs of d # r \<Rightarrow> if card_separator d then [(Some d, r), (Some c, cs)] else [(Some c, cs)]
          | [] \<Rightarrow> [(Some c, cs)]) else [])"
  by (auto simp: card_unit_def split: list.splits)

declare ends.simps [simp del]

definition after_card :: "char option \<Rightarrow> string \<Rightarrow> position" where
  "after_card p post = (case post of d # r \<Rightarrow> if card_separator d then (Some d, r) else (p, post) | [] \<Rightarrow> (p, post))"

lemma concat_hd: "xs \<noteq> [] \<Longrightarrow> hd xs \<noteq> [] \<Longrightarrow> concat xs \<noteq> [] \<and> hd (concat xs) = hd (hd xs)"
  by (cases xs) auto

lemma iter_stops:
  assumes "clear_after post"
  shows "iter (ends card_unit) 0 k (after_card p post) = [after_card p post]"
proof -
  have "ends card_unit (after_card p post) = []"
    using assms by (auto simp: after_card_def ends_unit split: list.splits)
  then show ?thesis by (cases k) simp_all
qed

definition card_digits :: "string \<Rightarrow> nat" where
  "card_digits s = length (filter is_digit s)"

lemma iter_reads_card:
  assumes "card_text pan" and "clear_after post" and "m \<le> card_digits pan" and "card_digits pan \<le> m + k"
  shows "\<exists>rest. iter (ends card_unit) m k (p, pan @ post) = after_card (Some (last pan)) post # rest"
  using assms(1,3,4)
proof (induction pan arbitrary: p m k rule: card_text.induct)
  case (2 c)
  have u: "\<exists>q. ends card_unit (p, c # post) = after_card (Some c) post # q"
    using 2 by (auto simp: ends_unit after_card_def split: list.splits)
  show ?case
  proof (cases m)
    case 0
    then obtain j where "k = Suc j" using 2 by (cases k) (auto simp: card_digits_def)
    moreover have "length (snd (after_card (Some c) post)) < Suc (length post)" by (auto simp: after_card_def split: list.split)
    ultimately show ?thesis using u 0 iter_stops [OF assms(2), of j "Some c"] by auto
  next
    case (Suc n)
    then have "n = 0" using 2 by (simp add: card_digits_def)
    with Suc u iter_stops [OF assms(2), of k "Some c"] show ?thesis by auto
  qed
next
  case (3 c d cs)
  have c: "is_digit c" using 3(3) by simp
  define u where "u = (if card_separator d then (Some d, cs @ post) else (Some c, (d # cs) @ post))"
  obtain q where q: "ends card_unit (p, (c # d # cs) @ post) = u # q"
    using c by (cases "card_separator d") (auto simp: ends_unit u_def)
  have shorter: "length (snd u) < length ((c # d # cs) @ post)" by (simp add: u_def)
  have last: "card_separator d \<Longrightarrow> cs \<noteq> []" using 3(3) by (cases cs) auto
  have IH: "\<exists>rest. iter (ends card_unit) n j u = after_card (Some (last (c # d # cs))) post # rest"
    if "n < card_digits (c # d # cs)" "card_digits (c # d # cs) \<le> Suc (n + j)" for n j
  proof (cases "card_separator d")
    case True
    then have "\<not> card_text (d # cs)" by (cases cs) auto
    then show ?thesis using 3(2) [of n j "Some d"] 3(3) that True c last by (simp add: u_def card_digits_def)
  next
    case False
    then show ?thesis using 3(1) [of n j "Some c"] 3(3) that c by (simp add: u_def card_digits_def)
  qed
  show ?case
  proof (cases m)
    case 0
    then obtain j where "k = Suc j" using 3(5) c by (cases k) (auto simp: card_digits_def)
    with 0 q shorter IH [of 0 j] 3(4,5) c show ?thesis by (auto simp: card_digits_def)
  next
    case (Suc n)
    with q IH [of n k] 3(4,5) show ?thesis by auto
  qed
qed simp

text \<open>From a position before the number, a match cannot run into it.\<close>

definition before :: "string \<Rightarrow> position \<Rightarrow> bool" where
  "before z x \<longleftrightarrow> (\<exists>pre. pre \<noteq> [] \<and> snd x = pre @ z \<and> clear_before (fst x) pre)"

lemma clear_before_Cons: "clear_before p (c # cs) \<Longrightarrow> clear_before (Some c) cs"
  by (cases "rev cs"; cases "tl (rev cs)"; cases p)
    (auto simp: clear_before_def split: list.splits)

lemma unit_stays_before: "before z x \<Longrightarrow> y \<in> set (ends card_unit x) \<Longrightarrow> before z y"
proof -
  assume "before z x" and y: "y \<in> set (ends card_unit x)"
  then obtain p c cs where x: "x = (p, (c # cs) @ z)" and clear: "clear_before p (c # cs)"
    by (cases x) (auto simp: before_def neq_Nil_conv)
  from y x have c: "is_digit c" by (auto simp: ends_unit split: if_splits)
  with clear obtain d ds where cs: "cs = d # ds" by (cases cs) (auto simp: clear_before_def split: option.splits)
  have ds: "ds \<noteq> []" if "card_separator d"
    using clear c that unfolding cs by (cases ds) (auto simp: clear_before_def)
  have next1: "clear_before (Some c) (d # ds)" using clear_before_Cons [OF clear] cs by simp
  from y x c have "y = (Some c, (d # ds) @ z) \<or> (card_separator d \<and> y = (Some d, ds @ z))"
    by (auto simp: ends_unit cs split: if_splits)
  then show ?thesis
    using next1 clear_before_Cons [OF next1] ds by (auto simp: before_def)
qed

lemma iter_stays_before: "before z x \<Longrightarrow> y \<in> set (iter (ends card_unit) m k x) \<Longrightarrow> before z y"
  by (induction "ends card_unit" m k x rule: iter.induct) (auto dest: unit_stays_before)

lemma first_end_card:
  "first_end card_pattern p s = (if (case p of None \<Rightarrow> False | Some c \<Rightarrow> is_digit c) then None
     else (case filter (\<lambda>y. snd y = [] \<or> \<not> is_digit (hd (snd y))) (iter (ends card_unit) 13 6 (p, s)) of
         [] \<Rightarrow> None | y # _ \<Rightarrow> if length (snd y) < length s then Some y else None))"
proof -
  have one: "ends (R_Seq (R_Not_Next is_digit) R_Eps) y
      = (if snd y = [] \<or> \<not> is_digit (hd (snd y)) then [y] else [])" for y :: position
    by (auto simp: ends.simps split: list.split)
  have "concat (map (ends (R_Seq (R_Not_Next is_digit) R_Eps)) xs)
      = filter (\<lambda>y. snd y = [] \<or> \<not> is_digit (hd (snd y))) xs" for xs
    by (induction xs) (simp_all add: one)
  then have "ends card_pattern (p, s) = (if (case p of None \<Rightarrow> False | Some c \<Rightarrow> is_digit c) then []
      else filter (\<lambda>y. snd y = [] \<or> \<not> is_digit (hd (snd y))) (iter (ends card_unit) 13 6 (p, s)))"
    by (simp add: card_pattern_def ends.simps(3,5,7) split: option.split)
  then show ?thesis by (simp add: first_end_def split: list.split)
qed

lemma card_read:
  assumes "card_text pan" and "clear_after post" and "13 \<le> card_digits pan" and "card_digits pan \<le> 19"
    and "case p of None \<Rightarrow> True | Some c \<Rightarrow> \<not> is_digit c"
  shows "first_end card_pattern p (pan @ post) = Some (after_card (Some (last pan)) post)"
proof -
  obtain rest where "iter (ends card_unit) 13 6 (p, pan @ post) = after_card (Some (last pan)) post # rest"
    using iter_reads_card [OF assms(1,2), of 13 6 p] assms(3,4) by auto
  moreover have "snd (after_card (Some (last pan)) post) = [] \<or> \<not> is_digit (hd (snd (after_card (Some (last pan)) post)))"
    using assms(2) by (cases post rule: clear_after.cases) (auto simp: after_card_def)
  moreover have "pan \<noteq> []" using assms(1) by auto
  then have "length (snd (after_card (Some (last pan)) post)) < length (pan @ post)"
    by (auto simp: after_card_def split: list.split)
  ultimately show ?thesis using assms(5) by (simp add: first_end_card split: option.splits)
qed

lemma card_found:
  assumes "card_text pan" and "clear_after post" and "13 \<le> card_digits pan" and "card_digits pan \<le> 19"
    and "clear_before p pre"
  shows "\<exists>candidate \<in> set (matches_from card_pattern p (pre @ pan @ post)). filter is_digit candidate = filter is_digit pan"
  using assms(5)
proof (induction "length pre" arbitrary: p pre rule: less_induct)
  case less
  show ?case
  proof (cases pre)
    case Nil
    let ?y = "after_card (Some (last pan)) post"
    obtain c cs where s: "pan @ post = c # cs" using assms(1) by (cases pan) auto
    have "case p of None \<Rightarrow> True | Some c \<Rightarrow> \<not> is_digit c" using less.prems Nil by (auto simp: clear_before_def split: option.splits)
    then have y: "first_end card_pattern p (c # cs) = Some ?y" using card_read [OF assms(1-4)] s by simp
    obtain sep where sep: "post = sep @ snd ?y" "filter is_digit sep = []"
      by (rule that [of "take (length post - length (snd ?y)) post"]) (auto simp: after_card_def split: list.splits)
    have "filter is_digit (take (length (c # cs) - length (snd ?y)) (c # cs)) = filter is_digit pan"
      using sep by (subst s [symmetric])+ (metis append.assoc append_Nil2 append_eq_conv_conj diff_add_inverse2 filter_append length_append)
    then show ?thesis using y Nil s by auto
  next
    case (Cons c cs)
    have step: "first_end card_pattern p (pre @ pan @ post) = None \<Longrightarrow> ?thesis"
      using less.hyps [of cs "Some c"] clear_before_Cons [of p c cs] less.prems Cons by auto
    show ?thesis
    proof (cases "first_end card_pattern p (pre @ pan @ post)")
      case (Some y)
      then have "y \<in> set (iter (ends card_unit) 13 6 (p, pre @ pan @ post))"
        by (auto simp: first_end_card dest!: arg_cong [where f = set] split: if_splits list.splits)
      moreover have "before (pan @ post) (p, pre @ pan @ post)" using less.prems Cons by (auto simp: before_def)
      ultimately have "before (pan @ post) y" by (rule iter_stays_before [rotated])
      then obtain rest where rest: "snd y = rest @ pan @ post" "clear_before (fst y) rest" by (auto simp: before_def)
      moreover have "length rest < length pre" using first_end_shorter [OF Some] rest(1) by simp
      ultimately show ?thesis using less.hyps [of rest "fst y"] Some Cons by auto
    qed (rule step)
  qed
qed

lemma luhn_bounds: "luhn s \<Longrightarrow> 13 \<le> length s \<and> length s \<le> 19"
  by (auto simp: luhn_def)

lemma is_resolved_path_set: "set fs = set gs \<Longrightarrow> is_resolved_path fs path = is_resolved_path gs path"
  by (simp add: is_resolved_path_def)

lemma scan_text_set:
  assumes "set fs = set gs"
  shows "scan_text fs = scan_text gs"
proof -
  have "scan_candidate fs = scan_candidate gs"
    by (intro ext) (simp add: scan_candidate_def is_resolved_path_set [OF assms])
  then show ?thesis unfolding scan_text_def by (simp only:)
qed

lemma set_array_unique [simp]: "set (array_unique xs) = set xs"
  by (simp add: array_unique_def)

subsection \<open>Properties of the scan\<close>

lemma scan_finds_card:
  assumes "card_text pan" and "luhn (filter is_digit pan)" and "clear_before None pre" and "clear_after post"
    and "without_uuids (pre @ pan @ post) = pre @ pan @ post"
    and "\<not> is_storage_locator path (pre @ pan @ post)" and "\<not> not_a_card_path path (pre @ pan @ post)"
    and "\<not> is_resolved_path names path"
  shows "scan_text names (path, pre @ pan @ post) = Inl (Validation path)"
proof -
  let ?s = "pre @ pan @ post"
  have n: "13 \<le> card_digits pan" "card_digits pan \<le> 19" using luhn_bounds [OF assms(2)] by (simp_all add: card_digits_def)
  obtain candidate where hit: "candidate \<in> set (preg_match_all card_pattern ?s)" "filter is_digit candidate = filter is_digit pan"
    using card_found [OF assms(1,4) n assms(3)] by (auto simp: preg_match_all_def)
  have "allE (scan_candidate names path) xs = Inl (Validation path)" if "candidate \<in> set xs" for xs
    using that hit(2) assms(2,8) by (induction xs) (auto simp: scan_candidate_def)
  then show ?thesis using assms(5-7) hit(1) by (auto simp: scan_text_def Let_def)
qed

text \<open>One refused text makes the whole value refused.\<close>

lemma assert_safe_refuses:
  assumes "(path, w) \<in> set (strings v field)" and "scan_text (scoped @ names) (path, w) = Inl (Validation path)"
  shows "\<exists>k. assert_safe scoped v field names = Inl (Validation k)"
proof (cases "list_all (\<lambda>f. f \<in> set resolvable_fields) names")
  case True
  have same: "scan_text (array_unique (scoped @ array_unique names)) = scan_text (scoped @ names)"
    by (rule scan_text_set) simp
  have one: "\<exists>k. scan_text fs x = Inl (Validation k)" if "scan_text fs x = Inl e" for fs x e
  proof -
    have "\<exists>k. allE (scan_candidate fs q) xs = Inl (Validation k)" if "allE (scan_candidate fs q) xs = Inl e" for q xs
      using that by (induction xs) (auto simp: scan_candidate_def split: if_splits)
    with that show ?thesis by (auto simp: scan_text_def Let_def split: if_splits)
  qed
  have "\<exists>k. allE (scan_text (scoped @ names)) xs = Inl (Validation k)" if "(path, w) \<in> set xs" for xs
    using that
  proof (induction xs)
    case (Cons x xs)
    show ?case
    proof (cases "scan_text (scoped @ names) x")
      case (Inl e)
      with one [OF Inl] show ?thesis by auto
    next
      case (Inr u)
      with Cons assms(2) show ?thesis by auto
    qed
  qed simp
  with True assms(1) same show ?thesis by (simp add: assert_safe_def validate_fields_def)
qed (simp add: assert_safe_def validate_fields_def)


text \<open>\<open>buried v path field w\<close>: going from the value \<open>v\<close> at \<open>path\<close> into members of arrays and into texts that are JSON,
  one comes to the plain text \<open>w\<close> at \<open>field\<close>.\<close>

inductive buried :: "php_value \<Rightarrow> string \<Rightarrow> string \<Rightarrow> string \<Rightarrow> bool" where
  plain: "decoded_array w = None \<Longrightarrow> buried (V_Text w) path path w"
| in_json: "decoded_array s = Some kvs \<Longrightarrow> buried (V_Array kvs) path field w \<Longrightarrow> buried (V_Text s) path field w"
| in_member: "(k, v) \<in> set kvs \<Longrightarrow> buried v (if path = [] then k else path @ ''.'' @ k) field w \<Longrightarrow>
    buried (V_Array kvs) path field w"

inductive_cases buried_otherE: "buried V_Other path field w"
inductive_cases buried_textE: "buried (V_Text s) path field w"
inductive_cases buried_arrayE: "buried (V_Array kvs) path field w"

lemma strings_buried: "(field, w) \<in> set (strings v path) \<longleftrightarrow> buried v path field w"
proof (induction v path rule: strings.induct)
  case (1 s path)
  then show ?case
    by (auto split: option.splits elim!: buried_textE intro: buried.plain buried.in_json)
next
  case (2 kvs path)
  have "(field, w) \<in> set (strings (V_Array kvs) path) \<longleftrightarrow>
      (\<exists>(k, v) \<in> set kvs. buried v (if path = [] then k else path @ ''.'' @ k) field w)"
    using 2 by (fastforce simp del: if_split)
  also have "\<dots> \<longleftrightarrow> buried (V_Array kvs) path field w"
    by (auto elim!: buried_arrayE intro: buried.in_member simp del: if_split)
  finally show ?case .
qed (auto elim: buried_otherE)


lemma those_map_Some: "those (map Some xs) = Some xs"
  by (induction xs) simp_all

text \<open>C36: The scan ends. The calls of the scan go at most as deep as the weight of the value, for a text its length and one,
  also when a text decodes to arrays whose texts decode again; with a larger bound on the depth the bounded scan returns, with
  exactly the texts the guard looks at.\<close>

theorem scan_ends:
  assumes "weight v < n"
  shows "strings_upto n v path = Some (strings v path)"
  using assms
proof (induction v path arbitrary: n rule: strings.induct)
  case (1 s path)
  then obtain m where n: "n = Suc m" by (cases n) auto
  show ?case
  proof (cases "decoded_array s")
    case (Some kvs)
    then have "weight (V_Array kvs) < m" using decoded_array_weight [OF Some] 1(2) n by linarith
    with Some 1(1) show ?thesis by (simp add: n)
  qed (simp add: n)
next
  case (2 kvs path)
  then obtain m where n: "n = Suc m" by (cases n) auto
  have "strings_upto m v q = Some (strings v q)" if "(k, v) \<in> set kvs" "q = (if path = [] then k else path @ ''.'' @ k)" for k v q
  proof -
    have "weight v < m" using weight_member [OF that(1)] 2(2) n by linarith
    with 2(1) [OF that(1) refl] that(2) show ?thesis by simp
  qed
  then have "map (\<lambda>(k, v). strings_upto m v (if path = [] then k else path @ ''.'' @ k)) kvs
      = map Some (map (\<lambda>(k, v). strings v (if path = [] then k else path @ ''.'' @ k)) kvs)"
    by (auto simp del: if_split)
  then show ?case unfolding n strings_upto.simps strings.simps by (simp only: those_map_Some option.map)
next
  case (3 path)
  then show ?case by (cases n) auto
qed

text \<open>A list with one number decodes to an array with one scalar.\<close>

lemma dropWhile_digits: "\<forall>c \<in> set ds. is_digit c \<Longrightarrow> dropWhile is_digit (ds @ [CHR 0x5D]) = [CHR 0x5D]"
  by (induction ds) (simp_all add: is_digit_def)

lemma digit_starts_number:
  assumes "is_digit d"
  shows "d \<noteq> CHR 0x22" and "d \<noteq> CHR ''-''" and "\<not> json_blank d" and "punctuation d = None" and "keyword (d # q) = None"
proof -
  have other: "d \<noteq> c" if "\<not> is_digit c" for c using assms that by blast
  show "d \<noteq> CHR 0x22" "d \<noteq> CHR ''-''" by (simp_all add: other is_digit_def)
  show "\<not> json_blank d" using assms by (auto simp: is_digit_def json_blank_def)
  have p: "d \<noteq> CHR 0x7B" "d \<noteq> CHR 0x7D" "d \<noteq> CHR 0x5B" "d \<noteq> CHR 0x5D" "d \<noteq> CHR '':''" "d \<noteq> CHR '',''"
    by (simp_all add: other is_digit_def)
  then show "punctuation d = None" by (simp add: punctuation_def)
  have "lower_char d = d" using assms by (auto simp: lower_char_def is_digit_def)
  moreover have "d \<noteq> CHR ''t''" "d \<noteq> CHR ''n''" "d \<noteq> CHR ''f''" by (simp_all add: other is_digit_def)
  ultimately show "keyword (d # q) = None" by (simp add: keyword_def)
qed

lemma tokens_number_list:
  assumes "ds \<noteq> []" and "\<forall>c \<in> set ds. is_digit c" and "hd ds \<noteq> CHR ''0''"
  shows "tokens (CHR 0x5B # ds @ [CHR 0x5D]) = Some [T_Open False, T_Scalar, T_Close False]"
proof -
  obtain d r where ds: "ds = d # r" using assms(1) by (cases ds) auto
  have d: "is_digit d" "d \<noteq> CHR ''0''" using assms ds by auto
  have ne: "d \<noteq> CHR 0x22" "d \<noteq> CHR ''-''" "\<not> json_blank d" "punctuation d = None" "keyword (ds @ [CHR 0x5D]) = None"
    using digit_starts_number [OF d(1)] by (simp_all add: ds)
  have num: "after_number (ds @ [CHR 0x5D]) = Some [CHR 0x5D]"
    using dropWhile_digits [OF assms(2)] d ne by (simp add: after_number_def ds Let_def)
  have "next_token (ds @ [CHR 0x5D]) = Some (T_Scalar, [CHR 0x5D])"
    using ne num by (simp add: next_token_def ds)
  moreover have "next_token [CHR 0x5D] = Some (T_Close False, [])" "next_token (CHR 0x5B # q) = Some (T_Open False, q)" for q
    by (simp_all add: next_token_def punctuation_def)
  moreover have "dropWhile json_blank (ds @ [CHR 0x5D]) = ds @ [CHR 0x5D]" using ne by (simp add: ds)
  ultimately show ?thesis
    by (simp add: tokens.simps [of "_ # _"] tokens.simps [of "ds @ _"] tokens.simps [of "[]"] json_blank_def Let_def)
qed

text \<open>A card number in brackets is not seen. A text that consists of a number between square brackets is read as
  a JSON list of one number, and numbers are not scanned: whatever the number, the text passes.\<close>

theorem bracketed_card_unseen:
  assumes "pan \<noteq> []" and "\<forall>c \<in> set pan. is_digit c" and "hd pan \<noteq> CHR ''0''"
  shows "assert_safe scoped (V_Text (CHR 0x5B # pan @ [CHR 0x5D])) field [] = Inr ()"
proof -
  have "json_decode (CHR 0x5B # pan @ [CHR 0x5D]) = Some (V_Array [(''0'', V_Other)])"
    using tokens_number_list [OF assms] by (simp add: json_decode_def open_array_def decimal_digit_def)
  then show ?thesis by (simp add: assert_safe_def validate_fields_def array_unique_def decoded_array_def)
qed

definition demo_pan :: string where
  "demo_pan = ''4111111111111111''"

lemma demo_pan_luhn: "luhn demo_pan"
  by (simp add: luhn_def demo_pan_def luhn_number_def digit_value_def)

theorem luhn_is_luhn_witness: "luhn_sum False (map digit_value (rev demo_pan)) mod 10 = 0"
proof -
  have "luhn demo_pan \<and> (\<forall>c \<in> set demo_pan. is_digit c)"
    using demo_pan_luhn by (simp add: demo_pan_def is_digit_def)
  with luhn_is_luhn [of demo_pan] show ?thesis by blast
qed


theorem scan_ends_witness:
  "strings_upto 12 (V_Text ''[[1,\"ab\"]]'') ''note'' = Some [(''note.0.1'', ''ab'')]"
proof -
  have "strings (V_Text ''[[1,\"ab\"]]'') ''note'' = [(''note.0.1'', ''ab'')]" by code_simp
  moreover have "weight (V_Text ''[[1,\"ab\"]]'') < 12" by code_simp
  ultimately show ?thesis using scan_ends [of "V_Text ''[[1,\"ab\"]]''" 12 "''note''"] by simp
qed

text \<open>A note that is a JSON text in a JSON text.\<close>

definition wrapped_pan :: string where
  "wrapped_pan = ''[\"[7,'' @ [CHR 0x5C] @ ''\"card '' @ demo_pan @ [CHR 0x5C] @ ''\"]\"]''"


theorem bracketed_card_unseen_witness:
  "assert_safe [] (V_Text (CHR 0x5B # demo_pan @ [CHR 0x5D])) ''note'' [] = Inr ()"
  by (rule bracketed_card_unseen) (simp_all add: demo_pan_def is_digit_def)

text \<open>A card number beside a digit is not seen. The scan reads digit groups over single separators as one number
  and tests only the whole: the same card number is refused alone and passes when the count of nights
  follows it.\<close>

theorem card_beside_digit_unseen:
  "assert_safe [] (V_Text demo_pan) ''note'' [] = Inl (Validation ''note'')
   \<and> assert_safe [] (V_Text (demo_pan @ '' 2 nights'')) ''note'' [] = Inr ()"
  by code_simp

end
