(* ===== verification/Front_Desk.thy ===== *)
theory Front_Desk
  imports Cash_Shifts Card_Data
begin

text \<open>
  Money taken and given back at the desk: \<^verbatim>\<open>RecordFrontDeskPayment\<close>, \<^verbatim>\<open>ResolveTenderDuplicate\<close>,
  \<^verbatim>\<open>RequestManualExternalRefund\<close>, \<^verbatim>\<open>CompleteManualExternalRefund\<close>, \<^verbatim>\<open>ReviewRefundEvidence\<close> and the command around
  \<^verbatim>\<open>CorrectRemainingReversibleAmount\<close>. A tender row carries what the receipt says; the scan of \<^theory_text>\<open>Card_Data\<close> runs on
  the request and, through the hook of every tenant model, on the row. The receipt documents are left out.
\<close>

subsection \<open>The request\<close>

record desk_input =
  fd_reservation :: id
  fd_channel :: payment_channel
  fd_amount :: money
  fd_key :: string
  fd_deposit :: "id option"
  fd_processor :: "string option"
  fd_merchant :: "string option"
  fd_terminal :: "string option"
  fd_transaction :: "string option"
  fd_authorization :: "string option"
  fd_batch :: "string option"
  fd_brand :: "string option"
  fd_last_four :: "string option"
  fd_note :: "string option"
  fd_fields :: "string list"
  fd_justification :: "string option"

definition input_payload :: "desk_input \<Rightarrow> json" where
  "input_payload i = J_Obj [(''reservationId'', J_Id (fd_reservation i)),
     (''channel'', J_Str (payment_channel_value (fd_channel i))), (''amountMinor'', J_Int (fd_amount i)),
     (''idempotencyKey'', J_Str (fd_key i)), (''depositId'', j_opt J_Id (fd_deposit i)),
     (''processorAlias'', j_opt J_Str (fd_processor i)), (''merchantAccountAlias'', j_opt J_Str (fd_merchant i)),
     (''terminalIdentifier'', j_opt J_Str (fd_terminal i)), (''transactionReference'', j_opt J_Str (fd_transaction i)),
     (''authorizationReference'', j_opt J_Str (fd_authorization i)), (''batchReference'', j_opt J_Str (fd_batch i)),
     (''cardBrand'', j_opt J_Str (fd_brand i)), (''cardLastFour'', j_opt J_Str (fd_last_four i)),
     (''note'', j_opt J_Str (fd_note i)), (''luhnFalsePositiveFields'', J_Arr (map J_Str (fd_fields i))),
     (''luhnFalsePositiveJustification'', j_opt J_Str (fd_justification i))]"

text \<open>The texts of the request by property name, in the order of the constructor.\<close>

definition input_texts :: "desk_input \<Rightarrow> (string \<times> string) list" where
  "input_texts i = concat (map (\<lambda>(k, v). case v of None \<Rightarrow> [] | Some s \<Rightarrow> [(k, s)])
     [(''idempotencyKey'', Some (fd_key i)), (''processorAlias'', fd_processor i), (''merchantAccountAlias'', fd_merchant i),
      (''terminalIdentifier'', fd_terminal i), (''transactionReference'', fd_transaction i),
      (''authorizationReference'', fd_authorization i), (''batchReference'', fd_batch i), (''cardBrand'', fd_brand i),
      (''cardLastFour'', fd_last_four i), (''note'', fd_note i),
      (''luhnFalsePositiveJustification'', fd_justification i)])"

definition assert_lengths :: "desk_input \<Rightarrow> unit res" where
  "assert_lengths i = allE (\<lambda>(k, s). if length s > (if k = ''note'' then 500 else 160)
     then Inl (Validation k) else Inr ()) (input_texts i)"

definition resolved_reference :: "desk_input \<Rightarrow> string \<Rightarrow> string option" where
  "resolved_reference i field = (if field = ''transaction_reference'' then fd_transaction i
     else if field = ''authorization_reference'' then fd_authorization i
     else if field = ''batch_reference'' then fd_batch i else None)"

definition v_opt :: "string option \<Rightarrow> php_value" where
  "v_opt v = (case v of None \<Rightarrow> V_Other | Some s \<Rightarrow> V_Text s)"

definition input_values :: "desk_input \<Rightarrow> php_value" where
  "input_values i = V_Array [(''processor_alias'', v_opt (fd_processor i)), (''merchant_account_alias'', v_opt (fd_merchant i)),
     (''terminal_identifier'', v_opt (fd_terminal i)), (''transaction_reference'', v_opt (fd_transaction i)),
     (''authorization_reference'', v_opt (fd_authorization i)), (''batch_reference'', v_opt (fd_batch i)),
     (''note'', v_opt (fd_note i))]"

definition last_four_pattern :: regex where
  "last_four_pattern = in_turn [R_Start, times_of 4 digit, R_Dollar]"

definition assert_resolution :: "ctx \<Rightarrow> user_id \<Rightarrow> id \<Rightarrow> desk_input \<Rightarrow> unit res" where
  "assert_resolution c actor property i =
     (if fd_fields i \<noteq> [] then
        bindE (guard_resolve c actor property) (\<lambda>_.
        bindE (validate_resolution [] (fd_fields i) (or_default (fd_justification i) [])) (\<lambda>_.
        allE (\<lambda>f. if trim (or_default (resolved_reference i f) []) = [] then Inl (Validation ''luhn_false_positive_fields'')
          else Inr ()) (fd_fields i)))
      else if fd_justification i \<noteq> None then Inl (Validation ''luhn_false_positive_fields'') else Inr ())"

definition validate_input :: "ctx \<Rightarrow> user_id \<Rightarrow> id \<Rightarrow> desk_input \<Rightarrow> unit res" where
  "validate_input c actor property i =
     (if \<not> front_desk_channel (fd_channel i) then Inl (Validation ''channel'')
      else if (case fd_last_four i of None \<Rightarrow> False | Some s \<Rightarrow> \<not> preg_match last_four_pattern s)
      then Inl (Validation ''card_last_four'')
      else if fd_channel i \<noteq> Ch_External_terminal \<and> (fd_brand i \<noteq> None \<or> fd_last_four i \<noteq> None)
      then Inl (Validation ''card_last_four'')
      else if fd_channel i = Ch_Manual_other \<and> trim (or_default (fd_note i) []) = [] then Inl (Validation ''note'')
      else
        bindE (assert_lengths i) (\<lambda>_.
        bindE (assert_resolution c actor property i) (\<lambda>_.
        assert_safe [] (input_values i) [] (fd_fields i))))"

subsection \<open>The identity of a terminal payment\<close>

definition alias_char :: "char \<Rightarrow> bool" where
  "alias_char c \<longleftrightarrow> is_lower c \<or> is_digit c \<or> c \<in> set ''._:-''"

definition normalize :: "string option \<Rightarrow> string option" where
  "normalize v =
     (let s = lower (trim (or_default v [])) in
      if s = [] then None
      else
        let t = preg_replace (R_Rep 1 None (R_Set (\<lambda>c. \<not> alias_char c))) ''-'' s in
        if t = [] \<or> t = ''0'' then None else Some t)"

definition clean :: "string option \<Rightarrow> string option" where
  "clean v = (let s = trim (or_default v []) in if s = [] then None else Some s)"

definition missing_identity :: "tender \<Rightarrow> bool" where
  "missing_identity t \<longleftrightarrow> ''manual'' \<in> {td_processor t, td_merchant t, td_terminal t} \<or> td_transaction t = None"

definition same_identity :: "tender \<Rightarrow> tender \<Rightarrow> bool" where
  "same_identity a b \<longleftrightarrow> td_processor a = td_processor b \<and> td_merchant a = td_merchant b
     \<and> td_terminal a = td_terminal b \<and> td_transaction a = td_transaction b"

definition posted_twin :: "tender \<Rightarrow> tender \<Rightarrow> bool" where
  "posted_twin t q \<longleftrightarrow> td_property q = td_property t \<and> td_channel q = Ch_External_terminal \<and> same_identity q t
     \<and> td_state q = ''posted''"

subsection \<open>Tender rows\<close>

text \<open>The attributes of a tender row that are texts, as the saving hook sees them.\<close>

definition tender_values :: "tender \<Rightarrow> php_value" where
  "tender_values t = V_Array [(''currency'', V_Text (td_currency t)), (''processor_alias'', V_Text (td_processor t)),
     (''merchant_account_alias'', V_Text (td_merchant t)), (''terminal_identifier'', V_Text (td_terminal t)),
     (''transaction_reference'', v_opt (td_transaction t)), (''authorization_reference'', v_opt (td_authorization t)),
     (''batch_reference'', v_opt (td_batch t)), (''card_brand'', v_opt (td_brand t)),
     (''card_last_four'', v_opt (td_last_four t)), (''note'', v_opt (td_note t)), (''state'', V_Text (td_state t)),
     (''review_reason'', v_opt (td_review_reason t)), (''command_key'', V_Text (td_key t)),
     (''command_checksum'', V_Text (td_checksum t))]"

definition insert_tender :: "string list \<Rightarrow> tender \<Rightarrow> tender desk_action" where
  "insert_tender scoped r d =
     bindE (assert_safe scoped (tender_values r) ''PaymentTenderDetail'' []) (\<lambda>_.
     if td_payment r \<noteq> None \<and> (\<exists>t \<in> set (tenders d). td_payment t = td_payment r)
     then Inl (Contract ''payment_tender_details'' ''payment_unique'')
     else if \<exists>t \<in> set (tenders d). td_key t = td_key r then Inl (Contract ''payment_tender_details'' ''command_unique'')
     else if td_channel r = Ch_External_terminal \<and> td_state r = ''posted'' \<and> td_transaction r \<noteq> None
       \<and> (\<exists>t \<in> set (tenders d). posted_twin r t)
     then Inl (Contract ''payment_tender_details'' ''external_identity_unique'')
     else if td_state r = ''posted'' \<and> td_payment r = None
     then Inl (Contract ''payment_tender_details'' ''posted_identity_check'')
     else let q = r\<lparr>td_id := fresh d\<rparr> in Inr ((take_id d)\<lparr>tenders := tenders d @ [q]\<rparr>, q))"

definition review_tender :: "desk_ctx \<Rightarrow> user_id \<Rightarrow> string \<Rightarrow> string \<Rightarrow> tender \<Rightarrow> tender" where
  "review_tender x actor state reason t = t\<lparr>td_state := state, td_review_reason := Some reason,
     td_resolved_by := Some actor, td_resolved_at := Some (now x)\<rparr>"

definition update_tender :: "tender \<Rightarrow> desk \<Rightarrow> desk res" where
  "update_tender t d =
     bindE (assert_safe [] (V_Array [(''state'', V_Text (td_state t)), (''review_reason'', v_opt (td_review_reason t))])
       ''PaymentTenderDetail'' []) (\<lambda>_.
     Inr (d\<lparr>tenders := upd_row td_id (td_id t) (\<lambda>_. t) (tenders d)\<rparr>))"

definition base_tender :: "desk_ctx \<Rightarrow> user_id \<Rightarrow> reservation \<Rightarrow> desk_input \<Rightarrow> tender" where
  "base_tender x actor r i = \<lparr>td_id = 0, td_property = r_property r, td_reservation = r_id r, td_payment = None,
     td_deposit = fd_deposit i, td_channel = fd_channel i, td_amount = fd_amount i, td_currency = upper (r_currency r),
     td_processor = or_default (normalize (fd_processor i)) ''manual'',
     td_merchant = or_default (normalize (fd_merchant i)) ''manual'',
     td_terminal = or_default (normalize (fd_terminal i)) ''manual'', td_transaction = normalize (fd_transaction i),
     td_authorization = clean (fd_authorization i), td_batch = clean (fd_batch i), td_brand = clean (fd_brand i),
     td_last_four = clean (fd_last_four i), td_note = clean (fd_note i), td_state = ''posted'', td_duplicate_of = None,
     td_review_reason = None, td_resolved_by = None, td_resolved_at = None, td_recorded_by = actor,
     td_received_at = now x, td_day = local_day (at_request x) (r_property r) (now x), td_key = fd_key i,
     td_checksum = checksum x (input_payload i)\<rparr>"

definition tender_reference :: "tender \<Rightarrow> string \<Rightarrow> string option" where
  "tender_reference t field = (if field = ''transaction_reference'' then td_transaction t
     else if field = ''authorization_reference'' then td_authorization t else td_batch t)"

definition resolution_audit :: "desk_ctx \<Rightarrow> user_id \<Rightarrow> desk_input \<Rightarrow> tender \<Rightarrow> audit" where
  "resolution_audit x actor i t =
     (let names = sort_key (map of_char :: string \<Rightarrow> nat list) (array_unique (fd_fields i)) in
      \<lparr>au_actor = actor, au_event = ''luhn_false_positive_resolved'', au_subject = td_id t,
       au_values = [(''fields'', J_Arr (map J_Str names)),
         (''justification'', J_Str (trim (or_default (fd_justification i) []))),
         (''reference_hashes'', J_Obj (map (\<lambda>f. (f, J_Str (text_hash x (or_default (tender_reference t f) [])))) names)),
         (''command_key'', J_Str (fd_key i))]\<rparr>)"

definition create_detail :: "desk_ctx \<Rightarrow> user_id \<Rightarrow> desk_input \<Rightarrow> tender \<Rightarrow> tender desk_action" where
  "create_detail x actor i r d =
     (if fd_fields i = [] then insert_tender [] r d
      else with_resolution [] (fd_fields i) (or_default (fd_justification i) []) (\<lambda>scoped.
        bindE (insert_tender scoped r d) (\<lambda>(t, q).
        Inr (t\<lparr>audits := audits t @ [resolution_audit x actor i q]\<rparr>, q))))"

subsection \<open>RecordFrontDeskPayment\<close>

definition open_drawer :: "desk \<Rightarrow> reservation \<Rightarrow> user_id \<Rightarrow> shift option" where
  "open_drawer d r actor = find (\<lambda>s. sh_property s = r_property r \<and> sh_cashier s = actor
     \<and> sh_currency s = r_currency r \<and> sh_state s = Shift_Open) (shifts d)"

definition payment_movement :: "desk_ctx \<Rightarrow> user_id \<Rightarrow> reservation \<Rightarrow> shift \<Rightarrow> payment \<Rightarrow> desk_input \<Rightarrow> movement" where
  "payment_movement x actor r s p i = blank_movement\<lparr>mv_property := r_property r, mv_shift := sh_id s,
     mv_payment := Some (py_id p), mv_type := Move_Payment, mv_amount := py_amount p, mv_currency := py_currency p,
     mv_reason := ''Front-desk cash payment'', mv_by := actor, mv_at := now x,
     mv_key := ''cash-payment:'' @ fd_key i, mv_checksum := checksum x (input_payload i)\<rparr>"

definition tell_posted :: "desk_ctx \<Rightarrow> tender \<Rightarrow> payment \<Rightarrow> reservation \<Rightarrow> desk_input \<Rightarrow> desk \<Rightarrow> desk" where
  "tell_posted x t p r i d = d\<lparr>core := record_outbox (at_request x) ''payment_tender_detail'' (td_id t) ''payment.tender.posted''
     [(''tender_detail_id'', J_Id (td_id t)), (''payment_id'', J_Id (py_id p)), (''reservation_id'', J_Id (r_id r)),
      (''channel'', J_Str (payment_channel_value (fd_channel i)))] (core d)\<rparr>"

definition post_tender ::
  "desk_ctx \<Rightarrow> user_id \<Rightarrow> reservation \<Rightarrow> desk_input \<Rightarrow> shift option \<Rightarrow> tender desk_action" where
  "post_tender x actor r i drawer d =
     bindE (on_core (record_front_desk (at_request x) (r_id r) (fd_channel i) (fd_amount i) (Some actor) (fd_deposit i)) d)
       (\<lambda>(d1, p).
     bindE (create_detail x actor i ((base_tender x actor r i)\<lparr>td_payment := Some (py_id p)\<rparr>) d1) (\<lambda>(d2, t).
     bindE (case drawer of None \<Rightarrow> Inr d2
       | Some s \<Rightarrow> bindE (insert_movement (payment_movement x actor r s p i) d2) (\<lambda>(u, _). Inr u)) (\<lambda>d3.
     Inr (tell_posted x t p r i d3, t))))"

definition take_payment :: "desk_ctx \<Rightarrow> user_id \<Rightarrow> desk_input \<Rightarrow> tender desk_action" where
  "take_payment x actor i d =
     bindE (reservation_or_fail (core d) (fd_reservation i)) (\<lambda>r.
     bindE (guard_record_tender (at_request x) actor (r_property r)) (\<lambda>_.
     if fd_amount i \<le> 0 then Inl (Validation ''amount_minor'')
     else
       bindE (validate_input (at_request x) actor (r_property r) i) (\<lambda>_.
       bindE (find_or_fail ''properties'' prop_id (r_property r) (properties (core d))) (\<lambda>_.
       let base = base_tender x actor r i in
       if fd_channel i = Ch_External_terminal \<and> missing_identity base
       then create_detail x actor i (base\<lparr>td_state := ''identity_exception'',
         td_review_reason := Some ''Processor, merchant/account, terminal, and transaction reference are required before posting.''\<rparr>) d
       else
         (case (if fd_channel i = Ch_External_terminal then find (posted_twin base) (tenders d) else None) of
            Some q \<Rightarrow> create_detail x actor i (base\<lparr>td_state := ''duplicate_review'', td_duplicate_of := Some (td_id q),
              td_review_reason := Some ''The normalized external-terminal transaction identity is already posted.''\<rparr>) d
          | None \<Rightarrow>
              if fd_channel i = Ch_Cash then
                (case open_drawer d r actor of None \<Rightarrow> Inl (Validation ''cash_shift'')
                 | Some s \<Rightarrow> post_tender x actor r i (Some s) d)
              else post_tender x actor r i None d)))))"

definition record_desk_payment :: "desk_ctx \<Rightarrow> user_id \<Rightarrow> desk_input \<Rightarrow> tenant_row desk_action" where
  "record_desk_payment x actor i = run_command x ''RecordFrontDeskPayment'' (fd_key i) (input_payload i)
     (\<lambda>d. bindE (take_payment x actor i d) (\<lambda>(t, q). Inr (t, Tender_Row q)))"

subsection \<open>ResolveTenderDuplicate\<close>

definition unresolved :: "string \<Rightarrow> bool" where
  "unresolved st \<longleftrightarrow> st \<in> {''duplicate_review'', ''identity_exception'', ''needs_corrected_identity''}"

definition keeps_draft :: "tender \<Rightarrow> desk_input \<Rightarrow> bool" where
  "keeps_draft t i \<longleftrightarrow> fd_reservation i = td_reservation t \<and> fd_channel i = Ch_External_terminal
     \<and> fd_amount i = td_amount t \<and> fd_deposit i = td_deposit t"

definition resolve_body ::
  "desk_ctx \<Rightarrow> user_id \<Rightarrow> id \<Rightarrow> string \<Rightarrow> string \<Rightarrow> desk_input option \<Rightarrow> tenant_row desk_action" where
  "resolve_body x actor k decision reason corrected d =
     bindE (find_or_fail ''payment_tender_details'' td_id k (tenders d)) (\<lambda>t.
     bindE (reservation_or_fail (core d) (td_reservation t)) (\<lambda>_.
     bindE (guard_resolve (at_request x) actor (td_property t)) (\<lambda>_.
     if \<not> unresolved (td_state t) then Inl (Validation ''state'')
     else if decision \<notin> {''confirmed_duplicate'', ''needs_corrected_identity'', ''dismissed_unposted'', ''corrected_identity''}
       \<or> trim reason = []
     then Inl (Validation ''decision'')
     else if decision = ''corrected_identity'' then
       (case corrected of None \<Rightarrow> Inl (Validation ''corrected_identity'')
        | Some i \<Rightarrow>
            if \<not> keeps_draft t i then Inl (Validation ''corrected_identity'')
            else
              bindE (record_desk_payment x actor i d) (\<lambda>(d1, row).
              bindE (update_tender (review_tender x actor ''corrected_identity_submitted'' (trim reason) t) d1) (\<lambda>d2.
              Inr (d2, row))))
     else
       let q = review_tender x actor decision (trim reason) t in
       bindE (update_tender q d) (\<lambda>d1. Inr (d1, Tender_Row q)))))"

definition resolve_duplicate ::
  "desk_ctx \<Rightarrow> user_id \<Rightarrow> id \<Rightarrow> string \<Rightarrow> string \<Rightarrow> string \<Rightarrow> desk_input option \<Rightarrow> tenant_row desk_action" where
  "resolve_duplicate x actor k decision reason key corrected =
     run_command x ''ResolveTenderDuplicate'' key
       (J_Obj [(''detail_id'', J_Id k), (''decision'', J_Str decision), (''reason'', J_Str (trim reason)),
          (''corrected'', j_opt input_payload corrected)])
       (resolve_body x actor k decision reason corrected)"

subsection \<open>Refunds outside the program\<close>

definition request_body :: "desk_ctx \<Rightarrow> user_id \<Rightarrow> id \<Rightarrow> money \<Rightarrow> string \<Rightarrow> tenant_row desk_action" where
  "request_body x actor k amount reason d =
     bindE (find_or_fail ''payments'' py_id k (payments (core d))) (\<lambda>p.
     bindE (reservation_or_fail (core d) (py_reservation p)) (\<lambda>r.
     bindE (guard_resolve (at_request x) actor (r_property r)) (\<lambda>_.
     if py_origin p \<noteq> Origin_Manual then Inl (Validation ''payment'')
     else
       bindE (on_core (request_refund (at_request x) (r_id r) (py_id p) amount reason (Some actor)) d) (\<lambda>(t, ch).
       Inr (t, Change_Row ch)))))"

definition request_external :: "desk_ctx \<Rightarrow> user_id \<Rightarrow> id \<Rightarrow> money \<Rightarrow> string \<Rightarrow> string \<Rightarrow> tenant_row desk_action" where
  "request_external x actor k amount reason key =
     run_command x ''RequestManualExternalRefund'' key
       (J_Obj [(''payment_id'', J_Id k), (''amount_minor'', J_Int amount), (''reason'', J_Str (trim reason))])
       (request_body x actor k amount reason)"

definition correct_body :: "desk_ctx \<Rightarrow> user_id \<Rightarrow> id \<Rightarrow> string \<Rightarrow> tenant_row desk_action" where
  "correct_body x actor k reason d =
     bindE (find_or_fail ''payments'' py_id k (payments (core d))) (\<lambda>p.
     bindE (reservation_or_fail (core d) (py_reservation p)) (\<lambda>r.
     bindE (guard_resolve (at_request x) actor (r_property r)) (\<lambda>_.
     bindE (on_core (correct_remaining (at_request x) k reason actor) d) (\<lambda>(t, ch). Inr (t, Change_Row ch)))))"

definition correct_external :: "desk_ctx \<Rightarrow> user_id \<Rightarrow> id \<Rightarrow> string \<Rightarrow> string \<Rightarrow> tenant_row desk_action" where
  "correct_external x actor k reason key =
     run_command x ''CorrectRemainingReversibleAmount'' key
       (J_Obj [(''payment_id'', J_Id k), (''reason'', J_Str (trim reason))]) (correct_body x actor k reason)"

text \<open>The proof a refund other than cash needs.\<close>

definition usable_evidence :: "evidence \<Rightarrow> change \<Rightarrow> payment \<Rightarrow> bool" where
  "usable_evidence e q p \<longleftrightarrow> ge_scan e \<in> {''accepted'', ''clean''} \<and> ge_status e = Ev_Approved
     \<and> ge_refund e = Some (ch_id q) \<and> ge_reservation e = py_reservation p"

definition assert_evidence :: "desk \<Rightarrow> id option \<Rightarrow> change \<Rightarrow> payment \<Rightarrow> unit res" where
  "assert_evidence d evidence q p =
     (case evidence of None \<Rightarrow> Inl (Validation ''evidence_id'')
      | Some k \<Rightarrow> bindE (find_or_fail ''guest_payment_evidence'' ge_id k (evidences d)) (\<lambda>e.
          if usable_evidence e q p then Inr () else Inl (Validation ''evidence_id'')))"

text \<open>The drawer the cash is taken from.\<close>

definition refund_drawer :: "desk \<Rightarrow> user_id \<Rightarrow> id option \<Rightarrow> reservation \<Rightarrow> payment \<Rightarrow> shift res" where
  "refund_drawer d actor drawer r p =
     (case drawer of None \<Rightarrow> Inl (Validation ''cash_shift_id'')
      | Some k \<Rightarrow> bindE (find_or_fail ''cash_shifts'' sh_id k (shifts d)) (\<lambda>s.
          if sh_property s \<noteq> r_property r \<or> sh_currency s \<noteq> py_currency p \<or> sh_state s \<noteq> Shift_Open \<or> sh_cashier s \<noteq> actor
          then Inl (Validation ''cash_shift_id'') else Inr s))"

definition refund_movement :: "desk_ctx \<Rightarrow> user_id \<Rightarrow> shift \<Rightarrow> change \<Rightarrow> string \<Rightarrow> string \<Rightarrow> json \<Rightarrow> movement" where
  "refund_movement x actor s ch reference key payload = blank_movement\<lparr>mv_property := sh_property s, mv_shift := sh_id s,
     mv_refund := Some (ch_id ch), mv_type := Move_Refund, mv_amount := - change_amount ch, mv_currency := sh_currency s,
     mv_reason := ''Cash refund '' @ reference, mv_by := actor, mv_at := now x, mv_key := ''cash-refund:'' @ key,
     mv_checksum := checksum x payload\<rparr>"

text \<open>\<^verbatim>\<open>firstOrCreate\<close> by refund and type.\<close>

definition dispense :: "movement \<Rightarrow> desk \<Rightarrow> desk res" where
  "dispense m d = (if \<exists>n \<in> set (movements d). mv_refund n = mv_refund m \<and> mv_type n = Move_Refund then Inr d
     else bindE (insert_movement m d) (\<lambda>(t, _). Inr t))"

definition link_evidence :: "id option \<Rightarrow> payment \<Rightarrow> change \<Rightarrow> desk \<Rightarrow> desk" where
  "link_evidence evidence p ch d = (case evidence of None \<Rightarrow> d
     | Some k \<Rightarrow> d\<lparr>evidences := upd_row ge_id k (\<lambda>e. e\<lparr>ge_payment := Some (py_id p), ge_refund := Some (ch_id ch),
         ge_tender := map_option td_id (find (\<lambda>t. td_payment t = Some (py_id p)) (tenders d))\<rparr>) (evidences d)\<rparr>)"

definition complete_payload :: "id \<Rightarrow> string \<Rightarrow> id option \<Rightarrow> id option \<Rightarrow> json" where
  "complete_payload k reference evidence drawer = J_Obj [(''refund_request_id'', J_Id k),
     (''execution_reference'', J_Str (trim reference)), (''evidence_id'', j_opt J_Id evidence),
     (''cash_shift_id'', j_opt J_Id drawer)]"

definition complete_body ::
  "desk_ctx \<Rightarrow> user_id \<Rightarrow> id \<Rightarrow> string \<Rightarrow> string \<Rightarrow> id option \<Rightarrow> id option \<Rightarrow> tenant_row desk_action" where
  "complete_body x actor k raw_reference key evidence drawer d =
     bindE (find_or_fail ''reservation_changes'' ch_id k (changes (core d))) (\<lambda>q.
     bindE (reservation_or_fail (core d) (ch_reservation q)) (\<lambda>r.
     bindE (refund_payment (core d) q) (\<lambda>p.
     bindE (guard_resolve (at_request x) actor (r_property r)) (\<lambda>_.
     if py_origin p \<noteq> Origin_Manual then Inl (Validation ''payment'')
     else
       let reference = trim raw_reference in
       if reference = [] then Inl (Validation ''execution_reference'')
       else
         bindE (if py_channel p = Ch_Cash then bindE (refund_drawer d actor drawer r p) (\<lambda>s. Inr (Some s))
                else bindE (assert_evidence d evidence q p) (\<lambda>_. Inr None)) (\<lambda>from.
         bindE (on_core (complete_refund (at_request x) (ch_id q) reference (Some actor)) d) (\<lambda>(d1, ch).
         bindE (case from of None \<Rightarrow> Inr d1
           | Some s \<Rightarrow> dispense (refund_movement x actor s ch reference key
               (complete_payload k raw_reference evidence drawer)) d1) (\<lambda>d2.
         Inr (link_evidence evidence p ch d2, Change_Row ch))))))))"

definition complete_external ::
  "desk_ctx \<Rightarrow> user_id \<Rightarrow> id \<Rightarrow> string \<Rightarrow> string \<Rightarrow> id option \<Rightarrow> id option \<Rightarrow> tenant_row desk_action" where
  "complete_external x actor k reference key evidence drawer =
     run_command x ''CompleteManualExternalRefund'' key (complete_payload k reference evidence drawer)
       (complete_body x actor k reference key evidence drawer)"

subsection \<open>ReviewRefundEvidence\<close>

definition reviewed_evidence :: "desk_ctx \<Rightarrow> user_id \<Rightarrow> evidence_status \<Rightarrow> string \<Rightarrow> evidence \<Rightarrow> evidence" where
  "reviewed_evidence x actor st reason e = e\<lparr>ge_status := st, ge_reviewed_by := Some actor, ge_reviewed_at := Some (now x),
     ge_decided_at := Some (now x), ge_note := Some reason, ge_requested_note := None\<rparr>"

definition review_body :: "desk_ctx \<Rightarrow> user_id \<Rightarrow> id \<Rightarrow> string \<Rightarrow> string \<Rightarrow> tenant_row desk_action" where
  "review_body x actor k decision raw_reason d =
     bindE (find_or_fail ''guest_payment_evidence'' ge_id k (evidences d)) (\<lambda>e.
     bindE (reservation_or_fail (core d) (ge_reservation e)) (\<lambda>r.
     bindE (guard_resolve (at_request x) actor (r_property r)) (\<lambda>_.
     let reason = trim raw_reason in
     (case ge_refund e of None \<Rightarrow> Inl (Validation ''decision'')
      | Some j \<Rightarrow>
        if reason = [] \<or> decision \<notin> {''approved'', ''rejected''} then Inl (Validation ''decision'')
        else
          bindE (find_or_fail ''reservation_changes'' ch_id j (changes (core d))) (\<lambda>ch.
          if ch_reservation ch \<noteq> r_id r \<or> ch_type ch \<notin> {''refund_requested'', ''refund_completed''}
          then Inl (Validation ''evidence'')
          else
            let st = (if decision = ''approved'' then Ev_Approved else Ev_Rejected) in
            if ge_status e = st then Inr (d, Evidence_Row e)
            else if ge_status e \<in> {Ev_Approved, Ev_Rejected} then Inl (Validation ''status'')
            else if st = Ev_Approved \<and> ge_scan e \<notin> {''accepted'', ''clean''} then Inl (Validation ''scan_state'')
            else
              let q = reviewed_evidence x actor st reason e in
              Inr (d\<lparr>evidences := upd_row ge_id k (\<lambda>_. q) (evidences d),
                     core := record_outbox (at_request x) ''guest_payment_evidence'' (ge_id e)
                       (''refund_evidence.'' @ evidence_status_value st)
                       [(''evidence_id'', J_Id (ge_id e)), (''refund_change_id'', J_Id (ch_id ch)),
                        (''reservation_id'', J_Id (r_id r))] (core d)\<rparr>, Evidence_Row q))))))"

definition review_evidence :: "desk_ctx \<Rightarrow> user_id \<Rightarrow> id \<Rightarrow> string \<Rightarrow> string \<Rightarrow> string \<Rightarrow> tenant_row desk_action" where
  "review_evidence x actor k decision reason key =
     run_command x ''ReviewRefundEvidence'' key
       (J_Obj [(''evidence_id'', J_Id k), (''decision'', J_Str decision), (''reason'', J_Str (trim reason))])
       (review_body x actor k decision reason)"

end
