(* ===== verification/Growth.thy ===== *)
theory Growth
  imports Books
begin

text \<open>
  What the money services never lose: a payment keeps its id, amount, channel and currency, the change log
  only grows and the counter of ids only rises. Other tables may therefore refer to payments and changes.
\<close>

definition same_payment :: "payment \<Rightarrow> payment \<Rightarrow> bool" where
  "same_payment p q \<longleftrightarrow> py_id q = py_id p \<and> py_amount q = py_amount p \<and> py_channel q = py_channel p \<and> py_currency q = py_currency p"

definition grows :: "db \<Rightarrow> db \<Rightarrow> bool" where
  "grows s t \<longleftrightarrow> (\<forall>p \<in> set (payments s). \<exists>q \<in> set (payments t). same_payment p q)
     \<and> (\<exists>new. changes t = changes s @ new) \<and> next_id s \<le> next_id t"

lemma same_payment_refl [simp]: "same_payment p p"
  by (simp add: same_payment_def)

lemma same_payment_trans: "same_payment p q \<Longrightarrow> same_payment q r \<Longrightarrow> same_payment p r"
  by (simp add: same_payment_def)

lemma grows_refl [simp]: "grows s s"
  unfolding grows_def by (blast intro: same_payment_refl append_Nil2 [symmetric] order_refl)

lemma grows_trans: "grows s t \<Longrightarrow> grows t u \<Longrightarrow> grows s u"
  unfolding grows_def by (intro conjI) (blast intro: same_payment_trans, auto)

lemma grows_payment:
  assumes "grows s t" and "p \<in> set (payments s)"
  obtains q where "q \<in> set (payments t)" "py_id q = py_id p" "py_amount q = py_amount p" "py_channel q = py_channel p"
    "py_currency q = py_currency p"
  using assms unfolding grows_def same_payment_def by blast

lemma grows_changes: "grows s t \<Longrightarrow> set (changes s) \<subseteq> set (changes t)"
  by (auto simp: grows_def)

lemma grows_appends:
  assumes "payments t = payments s @ ps" and "changes t = changes s @ cs" and "next_id s \<le> next_id t"
  shows "grows s t"
  using assms by (force simp: grows_def)

lemma grows_replaces:
  assumes "replaces s p q t" and "same_payment p q" and "books s" and "changes t = changes s @ cs" and "next_id s \<le> next_id t"
  shows "grows s t"
proof -
  have ids: "ids_ok s" using assms(3) by (simp add: books_def)
  have "\<exists>y \<in> set (payments t). same_payment x y" if x: "x \<in> set (payments s)" for x
  proof (cases "py_id x = py_id q")
    case True
    with assms(1) ids_ok_fresh(3) [OF ids, of x p] x have "x = p" by (simp add: replaces_def)
    with assms(1,2) show ?thesis
      by (intro bexI [of _ q]) (auto simp: replaces_def upd_row_def upd_where_def image_iff)
  next
    case False
    with assms(1) x show ?thesis
      by (intro bexI [of _ x]) (auto simp: replaces_def upd_row_def upd_where_def image_iff)
  qed
  with assms(4,5) show ?thesis by (auto simp: grows_def)
qed

lemma grows_captures: "captures s q l t \<Longrightarrow> grows s t"
  by (rule grows_appends [where ps = "[q]" and cs = "[]"]) (auto simp: captures_def)

lemma grows_logs: "logs s ch t \<Longrightarrow> grows s t"
  by (rule grows_appends [where ps = "[]" and cs = "[ch]"]) (auto simp: logs_def)

lemma grows_same_books: "same_books s t \<Longrightarrow> grows s t"
  by (rule grows_appends [where ps = "[]" and cs = "[]"]) (auto simp: same_books_def)

lemma grows_front_desk:
  assumes "record_front_desk c i ch a actor d s = Inr (t, q)" and "books s"
  shows "grows s t"
proof -
  have "\<forall>x \<in> set (folio_lines s). fl_payment x \<noteq> Some (next_id s)"
    using ids_ok_fresh(1) assms(2) by (simp add: books_def)
  with assms(1) show ?thesis by (cases rule: record_front_desk_Inr) (rule grows_captures)
qed

lemma grows_reconcile:
  assumes "reconcile c i actor d s = Inr (t, q)" and "books s"
  shows "grows s t"
proof -
  have "pending_unposted s" using assms(2) by (simp add: books_def)
  with assms(1) show ?thesis
  proof (cases rule: reconcile_Inr)
    case (captured p r l)
    have "replaces s p q t" "same_payment p q"
      using captured(5,6) find_row_Some [OF captured(1)]
      by (simp_all add: replaces_def reconciled_def captures_row_def same_payment_def)
    then show ?thesis
      by (rule grows_replaces [OF _ _ assms(2), where cs = "[]"]) (use captured(6) in \<open>simp_all add: captures_row_def\<close>)
  qed simp
qed

lemma grows_reverse:
  assumes "reverse_payment c i reason actor s = Inr (t, q)" and "books s"
  shows "grows s t"
proof -
  obtain p where p: "find_row py_id i (payments s) = Some p"
    using assms(1) by (auto simp: reverse_payment_def bindE_eq_Inr find_or_fail_Inr)
  from assms this show ?thesis
  proof (cases rule: reverse_payment_books)
    case (reversed r l x u)
    have "same_payment p q" by (simp add: reversed(5) reversed_payment_def same_payment_def)
    then show ?thesis
      by (rule grows_replaces [OF reversed(6) _ assms(2), where cs = "[]"])
        (use reversed(7,18,20) in \<open>simp_all add: posts_def\<close>)
  qed simp
qed

lemma grows_complete:
  assumes "complete_refund c i reference actor s = Inr (t, ch)" and "books s"
  shows "grows s t"
proof -
  have ids: "ids_ok s" using assms(2) by (simp add: books_def)
  from assms(1) ids_ok_fresh(2) [OF ids] show ?thesis
  proof (cases rule: complete_refund_Inr)
    case (completed p q l st)
    have "p \<in> set (payments s)" using find_row_Some [OF completed(2)] by simp
    from completes_replaces [OF completed(10) ids this completed(8)] show ?thesis
      by (rule grows_replaces [OF _ _ assms(2), where cs = "[ch]"])
        (use completed(10) in \<open>simp_all add: completes_def same_payment_def\<close>)
  qed simp
qed

lemma grows_request: "request_refund c i k amount reason actor s = Inr (t, ch) \<Longrightarrow> grows s t"
  by (erule request_refund_Inr) (rule grows_logs)

lemma grows_correct: "correct_remaining c k reason actor s = Inr (t, ch) \<Longrightarrow> grows s t"
  by (erule correct_remaining_Inr) (rule grows_request)

lemma run_money_grows:
  assumes "run_money c cmd s = Inr t" and "books s"
  shows "grows s t"
proof -
  have ids: "ids_ok s" using assms(2) by (simp add: books_def)
  note fresh = ids_ok_fresh(1) [OF ids]
  show ?thesis
  proof (cases cmd)
    case (Take_manual d actor capture)
    with assms(1) obtain q where "record_manual c d actor capture s = Inr (t, q)" by (auto simp: bindE_eq_Inr)
    then show ?thesis
    proof (cases rule: record_manual_Inr)
      case opened
      then show ?thesis by (intro grows_appends [where ps = "[q]" and cs = "[]"]) (auto simp: opens_def)
    next
      case (captured p u)
      have "grows s u" using captured(1) by (intro grows_appends [where ps = "[p]" and cs = "[]"]) (auto simp: opens_def)
      with grows_reconcile [OF captured(5) books_opens [OF captured(1) assms(2)]] show ?thesis by (rule grows_trans [rotated])
    qed simp
  next
    case (Take_provider i pp)
    with assms(1) obtain q where "record_provider c i pp s = Inr (t, q)" by (auto simp: bindE_eq_Inr)
    then show ?thesis using fresh
      by (cases rule: record_provider_Inr) (auto intro: grows_captures grows_same_books)
  next
    case (Take_for_review i pp why)
    with assms(1) obtain q where "record_needs_review c i pp why s = Inr (t, q)" by (auto simp: bindE_eq_Inr)
    then show ?thesis using fresh
      by (cases rule: record_needs_review_Inr) (auto intro: grows_captures)
  next
    case (Fail_refund i why actor)
    with assms(1) obtain ch where "fail_refund c i why actor s = Inr (t, ch)" by (auto simp: bindE_eq_Inr)
    then show ?thesis by (cases rule: fail_refund_Inr) (rule grows_logs)
  next
    case (Post_charge i type q u actor m tax inc)
    with assms(1) obtain r l where run: "append_line c r type q u actor m tax inc s = Inr (t, l)"
      by (auto simp: bindE_eq_Inr split: if_splits)
    from append_line_Inr(1) [OF run] show ?thesis
      by (intro grows_appends [where ps = "[]" and cs = "[]"]) (auto simp: posts_def)
  qed (use assms in \<open>auto simp: bindE_eq_Inr intro: grows_front_desk grows_reconcile grows_reverse grows_request
      grows_complete grows_correct\<close>)
qed

text \<open>A step that only takes an id or tells the outbox keeps the books.\<close>

lemma books_skip:
  assumes "books s" and "payments t = payments s" and "folio_lines t = folio_lines s" and "changes t = changes s"
    and "next_id s \<le> next_id t"
  shows "books t"
proof -
  have "account_ok t p" if "p \<in> set (payments s)" for p
    by (rule account_same [OF _ assms(3,4)]) (use assms(1) that in \<open>simp add: books_def\<close>)
  moreover have ids: "ids_ok s" using assms(1) by (simp add: books_def)
  then have "ids_ok t"
    by (rule ids_step [where ls = "[]" and cs = "[]"]) (use assms ids in \<open>auto simp: ids_ok_def intro: keys_ok_mono\<close>)
  ultimately show ?thesis using assms by (simp add: books_def pending_unposted_def)
qed

lemma grows_skip:
  "payments t = payments s \<Longrightarrow> changes t = changes s \<Longrightarrow> next_id s \<le> next_id t \<Longrightarrow> grows s t"
  by (rule grows_appends [where ps = "[]" and cs = "[]"]) simp_all

end
