(* ===== verification/Drawer.thy ===== *)
theory Drawer
  imports Front_Desk Growth
begin

text \<open>
  The front desk as a whole: runs of its commands together with the other money services on the same
  database. \<open>desk_ok\<close> is the invariant - the books, the drawer, the tenders and the command log - and
  \<open>desk_grows\<close> says what no command takes back. Both are shown for the primitive writes and composed along the
  bodies of the commands.
\<close>

subsection \<open>The invariant\<close>

text \<open>What a movement stands for.\<close>

definition linked :: "desk \<Rightarrow> movement \<Rightarrow> bool" where
  "linked d m \<longleftrightarrow> (case mv_type m of
     Move_Opening_float \<Rightarrow> mv_reverses m = None
   | Move_Payment \<Rightarrow> mv_reverses m = None \<and> (\<exists>p \<in> set (payments (core d)). mv_payment m = Some (py_id p)
       \<and> mv_amount m = py_amount p \<and> py_channel p = Ch_Cash)
   | Move_Refund \<Rightarrow> mv_reverses m = None \<and> (\<exists>ch \<in> set (changes (core d)). mv_refund m = Some (ch_id ch)
       \<and> mv_amount m = - change_amount ch \<and> ch_type ch = ''refund_completed'')
   | Move_Pay_in \<Rightarrow> mv_reverses m = None \<and> 0 < mv_amount m
   | Move_Pay_out \<Rightarrow> mv_reverses m = None \<and> mv_amount m < 0
   | Move_Correction \<Rightarrow> (\<exists>n \<in> set (movements d). mv_reverses m = Some (mv_id n) \<and> mv_type n \<in> {Move_Pay_in, Move_Pay_out}
       \<and> mv_shift n = mv_shift m \<and> mv_amount m = - mv_amount n))"

definition rival :: "movement \<Rightarrow> movement \<Rightarrow> bool" where
  "rival m n \<longleftrightarrow> (mv_type m = mv_type n \<and> mv_payment m = mv_payment n \<and> mv_payment m \<noteq> None)
     \<or> (mv_type m = mv_type n \<and> mv_refund m = mv_refund n \<and> mv_refund m \<noteq> None)
     \<or> (mv_reverses m = mv_reverses n \<and> mv_reverses m \<noteq> None)"

definition float_of :: "desk \<Rightarrow> id \<Rightarrow> money" where
  "float_of d i = sum_where (\<lambda>m. mv_shift m = i \<and> mv_type m = Move_Opening_float) mv_amount (movements d)"

definition shift_ok :: "desk \<Rightarrow> shift \<Rightarrow> bool" where
  "shift_ok d s \<longleftrightarrow> float_of d (sh_id s) = sh_float s \<and> 0 \<le> sh_float s
     \<and> (if sh_state s = Shift_Open then sh_expected s = None
        else sh_expected s = Some (current_expected d (sh_id s))
          \<and> (\<exists>k \<ge> 0. sh_counted s = Some k \<and> sh_variance s = Some (k - current_expected d (sh_id s))))"

definition in_drawer :: "movement \<Rightarrow> shift \<Rightarrow> bool" where
  "in_drawer m s \<longleftrightarrow> sh_id s = mv_shift m \<and> sh_currency s = mv_currency m \<and> sh_property s = mv_property m"

definition drawer_ok :: "desk \<Rightarrow> bool" where
  "drawer_ok d \<longleftrightarrow> keys_ok sh_id (shifts d) (fresh d) \<and> keys_ok mv_id (movements d) (fresh d)
     \<and> (\<forall>m \<in> set (movements d). linked d m \<and> (\<exists>s \<in> set (shifts d). in_drawer m s))
     \<and> (\<forall>m \<in> set (movements d). \<forall>n \<in> set (movements d). rival m n \<longrightarrow> m = n)
     \<and> (\<forall>s \<in> set (shifts d). shift_ok d s)
     \<and> (\<forall>s \<in> set (shifts d). \<forall>u \<in> set (shifts d).
          sh_state s = Shift_Open \<and> sh_state u = Shift_Open \<and> same_drawer s u \<longrightarrow> s = u)"

definition tender_ok :: "desk \<Rightarrow> tender \<Rightarrow> bool" where
  "tender_ok d t \<longleftrightarrow> (if td_state t = ''posted''
     then (\<exists>p \<in> set (payments (core d)). td_payment t = Some (py_id p) \<and> py_amount p = td_amount t \<and> py_channel p = td_channel t)
       \<and> (td_channel t = Ch_External_terminal \<longrightarrow> \<not> missing_identity t)
     else td_payment t = None)"

definition tenders_ok :: "desk \<Rightarrow> bool" where
  "tenders_ok d \<longleftrightarrow> keys_ok td_id (tenders d) (fresh d) \<and> (\<forall>t \<in> set (tenders d). tender_ok d t)
     \<and> (\<forall>a \<in> set (tenders d). \<forall>b \<in> set (tenders d). td_payment a = td_payment b \<and> td_payment a \<noteq> None \<longrightarrow> a = b)
     \<and> (\<forall>a \<in> set (tenders d). \<forall>b \<in> set (tenders d). td_channel a = Ch_External_terminal \<and> td_state a = ''posted''
          \<and> posted_twin a b \<longrightarrow> a = b)"

definition commands_ok :: "desk \<Rightarrow> bool" where
  "commands_ok d \<longleftrightarrow> (\<forall>r \<in> set (commands d). \<exists>row. stored_row d (fc_model r) (fc_result r) = Inr row)
     \<and> distinct (map (\<lambda>r. (fc_type r, fc_key r)) (commands d))"

definition desk_ok :: "desk \<Rightarrow> bool" where
  "desk_ok d \<longleftrightarrow> books (core d) \<and> drawer_ok d \<and> tenders_ok d \<and> commands_ok d"

subsection \<open>What no command takes back\<close>

definition same_count :: "desk \<Rightarrow> shift \<Rightarrow> desk \<Rightarrow> shift \<Rightarrow> bool" where
  "same_count d s t u \<longleftrightarrow> sh_state u \<noteq> Shift_Open \<and> sh_expected u = sh_expected s \<and> sh_counted u = sh_counted s
     \<and> sh_variance u = sh_variance s \<and> (sh_state s = Shift_Closed \<longrightarrow> u = s)
     \<and> current_expected t (sh_id s) = current_expected d (sh_id s)"

definition desk_grows :: "desk \<Rightarrow> desk \<Rightarrow> bool" where
  "desk_grows d t \<longleftrightarrow> grows (core d) (core t)
     \<and> (\<exists>ms. movements t = movements d @ ms) \<and> (\<exists>cs. commands t = commands d @ cs)
     \<and> (\<exists>ks. map td_id (tenders t) = map td_id (tenders d) @ ks) \<and> map ge_id (evidences t) = map ge_id (evidences d)
     \<and> (\<forall>s \<in> set (shifts d). \<exists>u \<in> set (shifts t). sh_id u = sh_id s \<and> same_drawer s u \<and> sh_float u = sh_float s
          \<and> (sh_state s \<noteq> Shift_Open \<longrightarrow> same_count d s t u))"

definition good :: "desk \<Rightarrow> desk \<Rightarrow> bool" where
  "good d t \<longleftrightarrow> (desk_ok d \<longrightarrow> desk_ok t \<and> desk_grows d t)"

lemma same_drawer_refl [simp]: "same_drawer s s"
  by (simp add: same_drawer_def)

lemma same_drawer_sym: "same_drawer s u \<Longrightarrow> same_drawer u s"
  by (auto simp: same_drawer_def)

lemma same_drawer_trans: "same_drawer s u \<Longrightarrow> same_drawer u v \<Longrightarrow> same_drawer s v"
  by (simp add: same_drawer_def)

lemma desk_grows_refl: "desk_grows d d"
  unfolding desk_grows_def
  by (intro conjI ballI exI [of _ "[]"]) (auto intro!: bexI simp: same_count_def)

lemma desk_grows_trans:
  assumes "desk_grows d t" and "desk_grows t v"
  shows "desk_grows d v"
proof -
  have "\<exists>w \<in> set (shifts v). sh_id w = sh_id s \<and> same_drawer s w \<and> sh_float w = sh_float s
      \<and> (sh_state s \<noteq> Shift_Open \<longrightarrow> same_count d s v w)" if "s \<in> set (shifts d)" for s
  proof -
    from assms(1) that obtain u where u: "u \<in> set (shifts t)" "sh_id u = sh_id s" "same_drawer s u" "sh_float u = sh_float s"
        "sh_state s \<noteq> Shift_Open \<longrightarrow> same_count d s t u"
      unfolding desk_grows_def by blast
    from assms(2) u(1) obtain w where w: "w \<in> set (shifts v)" "sh_id w = sh_id u" "same_drawer u w" "sh_float w = sh_float u"
        "sh_state u \<noteq> Shift_Open \<longrightarrow> same_count t u v w"
      unfolding desk_grows_def by blast
    have "same_count d s v w" if "sh_state s \<noteq> Shift_Open"
      using u(2,5) w(5) that by (auto simp: same_count_def)
    then show ?thesis using u w by (intro bexI [of _ w]) (auto intro: same_drawer_trans)
  qed
  moreover have "grows (core d) (core v)" using assms by (auto simp: desk_grows_def intro: grows_trans)
  ultimately show ?thesis using assms by (auto simp: desk_grows_def)
qed

lemma good_refl [simp]: "good d d"
  by (simp add: good_def desk_grows_refl)

lemma good_trans: "good d t \<Longrightarrow> good t v \<Longrightarrow> good d v"
  by (auto simp: good_def intro: desk_grows_trans)

subsection \<open>Writes to the core\<close>

lemma linked_mono:
  assumes "linked d m" and "grows (core d) (core t)" and "set (movements d) \<subseteq> set (movements t)"
  shows "linked t m"
proof -
  have "\<exists>q \<in> set (payments (core t)). mv_payment m = Some (py_id q) \<and> mv_amount m = py_amount q \<and> py_channel q = Ch_Cash"
    if "p \<in> set (payments (core d))" "mv_payment m = Some (py_id p)" "mv_amount m = py_amount p" "py_channel p = Ch_Cash" for p
    using grows_payment [OF assms(2) that(1)] that(2-4) by metis
  moreover note grows_changes [OF assms(2)]
  ultimately show ?thesis
    using assms(1,3) by (auto simp: linked_def split: cash_movement_type.splits)
qed

lemma current_expected_cong: "movements t = movements d \<Longrightarrow> current_expected t i = current_expected d i"
  by (simp add: current_expected_def)

lemma drawer_ok_core:
  assumes "drawer_ok d" and "grows (core d) (core t)" and "shifts t = shifts d" and "movements t = movements d"
  shows "drawer_ok t"
proof -
  have le: "fresh d \<le> fresh t" using assms(2) by (simp add: grows_def)
  have "linked t m" if "linked d m" for m using linked_mono [OF that assms(2)] assms(4) by simp
  moreover have "shift_ok t s = shift_ok d s" for s
    by (simp add: shift_ok_def float_of_def current_expected_def assms(4))
  ultimately show ?thesis
    using assms(1) le unfolding drawer_ok_def assms(3,4) by (auto intro: keys_ok_mono)
qed

lemma tender_ok_mono: "tender_ok d t \<Longrightarrow> grows (core d) (core u) \<Longrightarrow> tender_ok u t"
proof -
  assume t: "tender_ok d t" and g: "grows (core d) (core u)"
  show "tender_ok u t"
  proof (cases "td_state t = ''posted''")
    case True
    with t obtain p where p: "p \<in> set (payments (core d))" "td_payment t = Some (py_id p)" "py_amount p = td_amount t"
        "py_channel p = td_channel t"
      by (auto simp: tender_ok_def)
    from grows_payment [OF g p(1)] obtain q where "q \<in> set (payments (core u))" "py_id q = py_id p"
        "py_amount q = py_amount p" "py_channel q = py_channel p"
      by blast
    with p have "\<exists>p \<in> set (payments (core u)). td_payment t = Some (py_id p) \<and> py_amount p = td_amount t \<and> py_channel p = td_channel t"
      by (intro bexI [of _ q]) simp_all
    with True t show ?thesis by (simp add: tender_ok_def)
  qed (use t in \<open>simp add: tender_ok_def\<close>)
qed

lemma tenders_ok_core:
  assumes "tenders_ok d" and "grows (core d) (core t)" and "tenders t = tenders d"
  shows "tenders_ok t"
proof -
  have "fresh d \<le> fresh t" using assms(2) by (simp add: grows_def)
  then show ?thesis
    using assms(1) tender_ok_mono [OF _ assms(2)] unfolding tenders_ok_def assms(3) by (auto intro: keys_ok_mono)
qed

lemma find_row_some_iff: "(\<exists>r. find_row key i tbl = Some r) \<longleftrightarrow> i \<in> set (map key tbl)"
  using find_row_None_iff [of key i tbl] by (cases "find_row key i tbl") (auto dest: find_row_Some)

text \<open>A stored result is there as long as its key is.\<close>

lemma stored_row_key: "stored_row d model i = Inr row \<Longrightarrow> row_model row = model \<and> row_key row = i"
  by (auto simp: stored_row_def bindE_eq_Inr find_or_fail_Inr dest: find_row_Some split: if_splits)

definition stored_keys :: "desk \<Rightarrow> string \<Rightarrow> id list" where
  "stored_keys d model = (if model = ''CashShift'' then map sh_id (shifts d)
     else if model = ''CashShiftMovement'' then map mv_id (movements d)
     else if model = ''PaymentTenderDetail'' then map td_id (tenders d)
     else if model = ''ReservationChange'' then map ch_id (changes (core d))
     else if model = ''GuestPaymentEvidence'' then map ge_id (evidences d) else [])"

lemma bind_find_ex:
  "(\<exists>row. bindE (find_or_fail t key i tbl) (\<lambda>r. Inr (f r)) = Inr row) \<longleftrightarrow> i \<in> set (map key tbl)"
  unfolding find_row_some_iff [symmetric] by (auto simp: bindE_eq_Inr find_or_fail_Inr)

lemma stored_row_ex: "(\<exists>row. stored_row d model i = Inr row) \<longleftrightarrow> i \<in> set (stored_keys d model)"
  by (simp add: stored_row_def stored_keys_def bind_find_ex del: set_map)

lemma stored_keys_grow:
  assumes "desk_grows d t"
  shows "set (stored_keys d model) \<subseteq> set (stored_keys t model)"
proof -
  obtain ms cs ks where "movements t = movements d @ ms" "changes (core t) = changes (core d) @ cs"
      "map td_id (tenders t) = map td_id (tenders d) @ ks" "map ge_id (evidences t) = map ge_id (evidences d)"
    using assms unfolding desk_grows_def grows_def by blast
  moreover have "set (map sh_id (shifts d)) \<subseteq> set (map sh_id (shifts t))"
  proof
    fix k assume "k \<in> set (map sh_id (shifts d))"
    then obtain s where s: "s \<in> set (shifts d)" "sh_id s = k" by auto
    with assms obtain u where "u \<in> set (shifts t)" "sh_id u = sh_id s" unfolding desk_grows_def by blast
    with s(2) have "k \<in> sh_id ` set (shifts t)" by (metis imageI)
    then show "k \<in> set (map sh_id (shifts t))" by simp
  qed
  ultimately show ?thesis unfolding stored_keys_def by (simp del: set_map add: set_append)
qed

lemma stored_row_grows:
  "\<exists>row. stored_row d model i = Inr row \<Longrightarrow> desk_grows d t \<Longrightarrow> \<exists>row. stored_row t model i = Inr row"
  unfolding stored_row_ex using stored_keys_grow by blast

lemma commands_ok_grows:
  assumes "commands_ok d" and "desk_grows d t" and "commands t = commands d"
  shows "commands_ok t"
  using assms stored_row_grows [OF _ assms(2)] by (simp add: commands_ok_def)

lemma desk_grows_core:
  assumes "grows (core d) (core t)" and "shifts t = shifts d" and "movements t = movements d"
    and "map td_id (tenders t) = map td_id (tenders d)" and "map ge_id (evidences t) = map ge_id (evidences d)"
    and "commands t = commands d"
  shows "desk_grows d t"
proof -
  have "\<exists>ms. movements t = movements d @ ms" "\<exists>cs. commands t = commands d @ cs"
      "\<exists>ks. map td_id (tenders t) = map td_id (tenders d) @ ks"
    by (simp_all add: assms)
  then show ?thesis unfolding desk_grows_def assms(2) using assms(1,5)
    by (intro conjI ballI) (auto intro!: bexI simp: same_count_def current_expected_cong [OF assms(3)])
qed

text \<open>\<open>writes d t\<close>: a good change that runs no command.\<close>

definition writes :: "desk \<Rightarrow> desk \<Rightarrow> bool" where
  "writes d t \<longleftrightarrow> good d t \<and> commands t = commands d"

lemma writes_refl [simp]: "writes d d"
  by (simp add: writes_def)

lemma writes_trans: "writes d t \<Longrightarrow> writes t v \<Longrightarrow> writes d v"
  by (auto simp: writes_def intro: good_trans)

text \<open>Five facts make a write good.\<close>

lemma writesI:
  assumes "commands t = commands d"
    and "desk_ok d \<Longrightarrow> books (core t) \<and> desk_grows d t" and "desk_ok d \<Longrightarrow> drawer_ok t" and "desk_ok d \<Longrightarrow> tenders_ok t"
  shows "writes d t"
  using assms commands_ok_grows [OF _ _ assms(1)] by (auto simp: writes_def good_def desk_ok_def)

lemma writes_core:
  assumes "desk_ok d \<Longrightarrow> books (core t) \<and> grows (core d) (core t)" and "shifts t = shifts d" and "movements t = movements d"
    and "tenders t = tenders d" and "map ge_id (evidences t) = map ge_id (evidences d)" and "commands t = commands d"
  shows "writes d t"
proof (rule writesI [OF assms(6)])
  assume ok: "desk_ok d"
  then have g: "grows (core d) (core t)" and b: "books (core t)" using assms(1) by blast+
  show "books (core t) \<and> desk_grows d t"
    using b desk_grows_core [OF g assms(2,3) _ assms(5,6)] by (simp add: assms(4))
  show "drawer_ok t" by (rule drawer_ok_core [OF _ g assms(2,3)]) (use ok in \<open>simp add: desk_ok_def\<close>)
  show "tenders_ok t" by (rule tenders_ok_core [OF _ g assms(4)]) (use ok in \<open>simp add: desk_ok_def\<close>)
qed

lemma writes_money:
  assumes "f (core d) = Inr (s, a)" and "books (core d) \<Longrightarrow> books s \<and> grows (core d) s"
  shows "writes d (d\<lparr>core := s\<rparr>)"
  by (rule writes_core) (use assms in \<open>simp_all add: desk_ok_def\<close>)

lemma writes_skip:
  assumes "payments (core t) = payments (core d)" and "folio_lines (core t) = folio_lines (core d)"
    and "changes (core t) = changes (core d)" and "fresh d \<le> fresh t"
    and "shifts t = shifts d" and "movements t = movements d" and "tenders t = tenders d"
    and "map ge_id (evidences t) = map ge_id (evidences d)" and "commands t = commands d"
  shows "writes d t"
  by (rule writes_core [OF _ assms(5-9)]) (use assms(1-4) in \<open>auto simp: desk_ok_def intro: books_skip grows_skip\<close>)

end
