(* ===== verification/Desk_Writes.thy ===== *)
theory Desk_Writes
  imports Drawer
begin

text \<open>
  The writes of the front desk to its own tables are good: a movement into an open drawer, opening and
  counting a drawer, a tender and its review, and the log of commands.
\<close>

subsection \<open>Movements\<close>

lemma rival_sym: "rival m n \<Longrightarrow> rival n m"
  unfolding rival_def by metis

lemma insert_movement_Inr:
  assumes "insert_movement r d = Inr (t, q)"
  shows "q = r\<lparr>mv_id := fresh d\<rparr>" "t = (take_id d)\<lparr>movements := movements d @ [q]\<rparr>"
    "\<forall>m \<in> set (movements d). \<not> rival m r" "mv_amount r = 0 \<Longrightarrow> mv_type r = Move_Opening_float"
    "\<forall>m \<in> set (movements d). mv_key m \<noteq> mv_key r"
  using assms by (auto simp: insert_movement_def Let_def rival_def split: if_splits)

lemma linked_same_row:
  assumes "linked d m" and "grows (core d) (core t)" and "set (movements d) \<subseteq> set (movements t)"
  shows "linked t (m\<lparr>mv_id := k\<rparr>)"
proof -
  have "linked t m" by (rule linked_mono [OF assms])
  then show ?thesis by (simp add: linked_def cong: cash_movement_type.case_cong)
qed

text \<open>The two sums of a shift after a movement is appended.\<close>

lemma current_expected_snoc:
  "movements t = movements d @ [q] \<Longrightarrow>
     current_expected t i = current_expected d i + (if mv_shift q = i then mv_amount q else 0)"
  by (simp add: current_expected_def)

lemma float_of_snoc:
  "movements t = movements d @ [q] \<Longrightarrow>
     float_of t i = float_of d i + (if mv_shift q = i \<and> mv_type q = Move_Opening_float then mv_amount q else 0)"
  by (simp add: float_of_def)

lemma writes_movement:
  assumes run: "insert_movement m d = Inr (t, q)" and s: "s \<in> set (shifts d)" "in_drawer m s" "sh_state s = Shift_Open"
    and m: "desk_ok d \<Longrightarrow> linked d m" "mv_type m \<noteq> Move_Opening_float"
  shows "writes d t"
proof (rule writesI)
  note q = insert_movement_Inr [OF run]
  have t: "movements t = movements d @ [q]" "shifts t = shifts d" "tenders t = tenders d" "evidences t = evidences d"
      "commands t = commands d" "core t = (core d)\<lparr>next_id := Suc (fresh d)\<rparr>"
    by (simp_all add: q(2) take_id_def)
  have g: "grows (core d) (core t)" by (rule grows_skip) (simp_all add: t)
  show "commands t = commands d" by (rule t)
  assume ok: "desk_ok d"
  have b: "books (core t)" by (rule books_skip [of "core d"]) (use ok in \<open>simp_all add: t desk_ok_def\<close>)
  have dr: "drawer_ok d" using ok by (simp add: desk_ok_def)
  have other: "sh_id u \<noteq> mv_shift q" if "u \<in> set (shifts d)" "sh_state u \<noteq> Shift_Open" for u
  proof
    assume "sh_id u = mv_shift q"
    then have "sh_id u = sh_id s" using s(2) by (simp add: q(1) in_drawer_def)
    with that(1) s(1) dr have "u = s" by (auto simp: drawer_ok_def keys_ok_def distinct_map inj_on_def)
    with that(2) s(3) show False by simp
  qed
  have same: "current_expected t (sh_id u) = current_expected d (sh_id u)" if "u \<in> set (shifts d)" "sh_state u \<noteq> Shift_Open" for u
    using other [OF that] by (auto simp: current_expected_snoc [OF t(1)])
  have fl: "float_of t i = float_of d i" for i
    using m(2) by (simp add: float_of_snoc [OF t(1)] q(1))
  have "desk_grows d t"
    unfolding desk_grows_def t using g same
    by (intro conjI ballI) (auto intro!: bexI simp: same_count_def t)
  with b show "books (core t) \<and> desk_grows d t" by simp
  have sub: "set (movements d) \<subseteq> set (movements t)" by (auto simp: t)
  have "linked t q" unfolding q(1) by (rule linked_same_row [OF m(1) [OF ok] g sub])
  moreover have "\<exists>u \<in> set (shifts d). in_drawer q u" using s by (auto simp: in_drawer_def q(1))
  moreover have "\<not> rival n q" if "n \<in> set (movements d)" for n using q(3) that by (simp add: rival_def q(1))
  moreover have "shift_ok t u" if "u \<in> set (shifts d)" for u
    using dr that same [OF that] by (simp add: drawer_ok_def shift_ok_def fl)
  ultimately show "drawer_ok t"
    using dr linked_mono [OF _ g sub] keys_ok_snoc [of mv_id "movements d" "fresh d" q "Suc (fresh d)"]
    unfolding drawer_ok_def t(1,2) by (auto simp: t q(1) intro: keys_ok_mono dest: rival_sym)
  show "tenders_ok t" by (rule tenders_ok_core [OF _ g t(3)]) (use ok in \<open>simp add: desk_ok_def\<close>)
qed

subsection \<open>Opening a drawer\<close>

lemma insert_shift_Inr:
  assumes "insert_shift r d = Inr (t, q)"
  shows "q = r\<lparr>sh_id := fresh d\<rparr>" "t = (take_id d)\<lparr>shifts := shifts d @ [q]\<rparr>"
    "sh_state r = Shift_Open \<Longrightarrow> \<forall>s \<in> set (shifts d). sh_state s = Shift_Open \<longrightarrow> \<not> same_drawer s r"
  using assms by (auto simp: insert_shift_def Let_def split: if_splits)

lemma no_movement_yet:
  assumes "desk_ok d" and "fresh d \<le> i"
  shows "current_expected d i = 0" and "float_of d i = 0"
proof -
  have "mv_shift m \<noteq> i" if m: "m \<in> set (movements d)" for m
  proof -
    from assms(1) m obtain s where "s \<in> set (shifts d)" "in_drawer m s" unfolding desk_ok_def drawer_ok_def by blast
    with assms show ?thesis by (auto simp: desk_ok_def drawer_ok_def keys_ok_def in_drawer_def)
  qed
  then have "filter (\<lambda>m. mv_shift m = i) (movements d) = []"
      "filter (\<lambda>m. mv_shift m = i \<and> mv_type m = Move_Opening_float) (movements d) = []"
    by (simp_all add: filter_empty_conv)
  then show "current_expected d i = 0" "float_of d i = 0" by (simp_all add: current_expected_def float_of_def sum_where_def)
qed

lemma writes_opening:
  assumes shift: "insert_shift r d = Inr (d1, s)" and move: "insert_movement (float_movement x actor s key) d1 = Inr (t, m)"
    and r: "sh_state r = Shift_Open" "0 \<le> sh_float r" "sh_expected r = None"
  shows "writes d t" and "shifts t = shifts d @ [s]" and "sh_id s = fresh d"
    and "movements t = movements d @ [m]" and "mv_amount m = sh_float r" and "mv_shift m = sh_id s"
proof -
  note s = insert_shift_Inr [OF shift] and q = insert_movement_Inr [OF move]
  have t: "movements t = movements d @ [m]" "shifts t = shifts d @ [s]" "tenders t = tenders d" "evidences t = evidences d"
      "commands t = commands d" "core t = (core d)\<lparr>next_id := Suc (Suc (fresh d))\<rparr>"
    by (simp_all add: q(2) s(2) take_id_def)
  have m: "mv_shift m = fresh d" "mv_type m = Move_Opening_float" "mv_amount m = sh_float r" "mv_reverses m = None"
      "mv_payment m = None" "mv_refund m = None" "mv_id m = Suc (fresh d)"
    by (simp_all add: q(1) s(1,2) float_movement_def blank_movement_def take_id_def)
  have in_s: "in_drawer m s" by (simp add: in_drawer_def q(1) float_movement_def)
  show "shifts t = shifts d @ [s]" "movements t = movements d @ [m]" by (rule t)+
  show "sh_id s = fresh d" by (simp add: s(1))
  show "mv_amount m = sh_float r" "mv_shift m = sh_id s" by (simp_all add: m s(1))
  have g: "grows (core d) (core t)" by (rule grows_skip) (simp_all add: t)
  show "writes d t"
  proof (rule writesI [OF t(5)])
    assume ok: "desk_ok d"
    have b: "books (core t)" by (rule books_skip [of "core d"]) (use ok in \<open>simp_all add: t desk_ok_def\<close>)
    have dr: "drawer_ok d" using ok by (simp add: desk_ok_def)
    have old: "sh_id u \<noteq> fresh d" if "u \<in> set (shifts d)" for u
      using dr that by (auto simp: drawer_ok_def keys_ok_def)
    have same: "current_expected t (sh_id u) = current_expected d (sh_id u)" "float_of t (sh_id u) = float_of d (sh_id u)"
      if "u \<in> set (shifts d)" for u
      using old [OF that] by (auto simp: current_expected_snoc [OF t(1)] float_of_snoc [OF t(1)] m)
    have "desk_grows d t"
      unfolding desk_grows_def t using g same(1)
      by (intro conjI ballI) (auto intro!: bexI simp: same_count_def t)
    with b show "books (core t) \<and> desk_grows d t" by simp
    have sub: "set (movements d) \<subseteq> set (movements t)" by (auto simp: t)
    have "linked t m" by (simp add: linked_def m)
    moreover have "\<not> rival n m" if "n \<in> set (movements d)" for n by (auto simp: rival_def m)
    moreover have "shift_ok t u" if "u \<in> set (shifts d)" for u
      using dr that by (simp add: drawer_ok_def shift_ok_def same)
    moreover have "shift_ok t s"
      using r no_movement_yet [OF ok, of "fresh d"]
      by (simp add: shift_ok_def float_of_snoc [OF t(1)] s(1) m)
    moreover have "\<not> same_drawer u s" "\<not> same_drawer s u" if "u \<in> set (shifts d)" "sh_state u = Shift_Open" for u
      using s(3) [OF r(1)] that by (auto simp: s(1) same_drawer_def)
    moreover have "keys_ok mv_id (movements t) (fresh t)"
      using dr unfolding t(1) by (intro keys_ok_snoc [of _ _ "fresh d"]) (simp_all add: drawer_ok_def m t)
    moreover have "keys_ok sh_id (shifts t) (fresh t)"
      using dr unfolding t(2) by (intro keys_ok_snoc [of _ _ "fresh d"]) (simp_all add: drawer_ok_def s(1) t)
    ultimately show "drawer_ok t"
      using dr linked_mono [OF _ g sub] in_s
      unfolding drawer_ok_def t(1,2) by (auto dest: rival_sym)
    show "tenders_ok t" by (rule tenders_ok_core [OF _ g t(3)]) (use ok in \<open>simp add: desk_ok_def\<close>)
  qed
qed

subsection \<open>Counting a drawer\<close>

lemma upd_row_set: "x \<in> set (upd_row key k (\<lambda>_. q) tbl) \<longleftrightarrow> (x = q \<and> k \<in> key ` set tbl) \<or> (x \<in> set tbl \<and> key x \<noteq> k)"
  by (auto simp: upd_row_def upd_where_def image_iff split: if_splits)

lemma writes_count:
  assumes s: "s \<in> set (shifts d)"
    and q: "sh_id q = sh_id s" "same_drawer s q" "sh_float q = sh_float s" "sh_state q \<noteq> Shift_Open"
    and new: "desk_ok d \<Longrightarrow> shift_ok d q \<and> (sh_state s \<noteq> Shift_Open \<longrightarrow> same_count d s d q)"
  shows "writes d (update_shift q d)"
proof (rule writesI)
  let ?t = "update_shift q d"
  have t: "movements ?t = movements d" "tenders ?t = tenders d" "evidences ?t = evidences d"
      "commands ?t = commands d" "core ?t = core d" "shifts ?t = upd_row sh_id (sh_id q) (\<lambda>_. q) (shifts d)"
    by (simp_all add: update_shift_def)
  show "commands ?t = commands d" by (rule t)
  assume ok: "desk_ok d"
  have dr: "drawer_ok d" using ok by (simp add: desk_ok_def)
  have unique: "u = s" if "u \<in> set (shifts d)" "sh_id u = sh_id q" for u
    using that dr s q(1) by (auto simp: drawer_ok_def keys_ok_def distinct_map inj_on_def)
  have members: "u \<in> set (shifts ?t) \<longleftrightarrow> u = q \<or> (u \<in> set (shifts d) \<and> sh_id u \<noteq> sh_id q)" for u
    using s q(1) unfolding t upd_row_set by (auto simp: image_iff)
  have "\<exists>u \<in> set (shifts ?t). sh_id u = sh_id v \<and> same_drawer v u \<and> sh_float u = sh_float v
      \<and> (sh_state v \<noteq> Shift_Open \<longrightarrow> same_count d v ?t u)" if v: "v \<in> set (shifts d)" for v
  proof (cases "sh_id v = sh_id q")
    case True
    with unique v have "v = s" by blast
    with q new [OF ok] show ?thesis
      by (intro bexI [of _ q]) (auto simp: members same_count_def current_expected_cong [OF t(1)])
  next
    case False
    with v show ?thesis
      by (intro bexI [of _ v]) (auto simp: members same_count_def current_expected_cong [OF t(1)])
  qed
  then have "desk_grows d ?t" unfolding desk_grows_def by (simp add: t)
  with ok show "books (core ?t) \<and> desk_grows d ?t" by (simp add: t desk_ok_def)
  have shift_ok: "shift_ok ?t u = shift_ok d u" for u
    by (simp add: shift_ok_def float_of_def current_expected_def t)
  have linked: "linked ?t m = linked d m" for m by (simp add: linked_def t cong: cash_movement_type.case_cong)
  have "\<exists>u \<in> set (shifts ?t). in_drawer m u" if "m \<in> set (movements d)" for m
  proof -
    from dr that obtain v where v: "v \<in> set (shifts d)" "in_drawer m v" unfolding drawer_ok_def by blast
    show ?thesis
    proof (cases "sh_id v = sh_id q")
      case True
      with unique v(1) have "v = s" by blast
      with v q show ?thesis by (intro bexI [of _ q]) (auto simp: members in_drawer_def same_drawer_def)
    qed (use v in \<open>auto simp: members intro!: bexI [of _ v]\<close>)
  qed
  moreover have "keys_ok sh_id (shifts ?t) (fresh ?t)"
  proof -
    have "map sh_id (shifts ?t) = map sh_id (shifts d)" unfolding t by (rule map_key_replace) (rule refl)
    from keys_ok_cong [OF this] dr show ?thesis by (simp add: drawer_ok_def t)
  qed
  ultimately show "drawer_ok ?t"
    using dr new [OF ok] q(4) unfolding drawer_ok_def t(1,5)
    by (auto simp: members linked shift_ok)
  show "tenders_ok ?t" by (rule tenders_ok_core [OF _ _ t(2)]) (use ok in \<open>simp_all add: desk_ok_def t\<close>)
qed

subsection \<open>Tenders and evidence\<close>

lemma insert_tender_Inr:
  assumes "insert_tender scoped r d = Inr (t, q)"
  shows "q = r\<lparr>td_id := fresh d\<rparr>" "t = (take_id d)\<lparr>tenders := tenders d @ [q]\<rparr>"
    "td_payment r \<noteq> None \<Longrightarrow> \<forall>a \<in> set (tenders d). td_payment a \<noteq> td_payment r"
    "td_channel r = Ch_External_terminal \<Longrightarrow> td_state r = ''posted'' \<Longrightarrow> td_transaction r \<noteq> None
       \<Longrightarrow> \<forall>a \<in> set (tenders d). \<not> posted_twin r a"
    "\<forall>a \<in> set (tenders d). td_key a \<noteq> td_key r"
  using assms by (auto simp: insert_tender_def Let_def bindE_eq_Inr split: if_splits)

lemma posted_twin_sym:
  "posted_twin a b \<Longrightarrow> td_channel a = Ch_External_terminal \<Longrightarrow> td_state a = ''posted'' \<Longrightarrow> posted_twin b a"
  by (simp add: posted_twin_def same_identity_def)

lemma posted_twin_row:
  "posted_twin (a\<lparr>td_id := k\<rparr>) b = posted_twin a b" "posted_twin a (b\<lparr>td_id := k\<rparr>) = posted_twin a b"
  by (simp_all add: posted_twin_def same_identity_def)

lemma same_but_tenders:
  assumes "shifts t = shifts d" and "movements t = movements d" and "evidences t = evidences d" and "commands t = commands d"
    and "payments (core t) = payments (core d)" and "folio_lines (core t) = folio_lines (core d)"
    and "changes (core t) = changes (core d)" and "fresh d \<le> fresh t"
    and "\<exists>ks. map td_id (tenders t) = map td_id (tenders d) @ ks" and "desk_ok d \<Longrightarrow> tenders_ok t"
  shows "writes d t"
proof (rule writesI [OF assms(4)])
  assume ok: "desk_ok d"
  have g: "grows (core d) (core t)" by (rule grows_skip [OF assms(5,7,8)])
  have "books (core t)" by (rule books_skip [OF _ assms(5-8)]) (use ok in \<open>simp add: desk_ok_def\<close>)
  moreover have "desk_grows d t"
    unfolding desk_grows_def assms(1-4) using g assms(9)
    by (intro conjI ballI) (auto intro!: bexI simp: same_count_def current_expected_cong [OF assms(2)])
  ultimately show "books (core t) \<and> desk_grows d t" by simp
  show "drawer_ok t" by (rule drawer_ok_core [OF _ g assms(1,2)]) (use ok in \<open>simp add: desk_ok_def\<close>)
qed (rule assms(10))

lemma writes_tender:
  assumes run: "insert_tender scoped r d = Inr (t, q)" and r: "desk_ok d \<Longrightarrow> tender_ok d r"
  shows "writes d t"
proof -
  note q = insert_tender_Inr [OF run]
  have t: "movements t = movements d" "shifts t = shifts d" "tenders t = tenders d @ [q]" "evidences t = evidences d"
      "commands t = commands d" "core t = (core d)\<lparr>next_id := Suc (fresh d)\<rparr>"
    by (simp_all add: q(2) take_id_def)
  have "tenders_ok t" if ok: "desk_ok d"
  proof -
    have td: "tenders_ok d" using ok by (simp add: desk_ok_def)
    have "grows (core d) (core t)" by (rule grows_skip) (simp_all add: t)
    note keep = tender_ok_mono [OF _ this]
    have "tender_ok t q" using keep [OF r [OF ok]] by (auto simp: tender_ok_def missing_identity_def q(1) split: if_splits)
    moreover have "td_payment a \<noteq> td_payment q" if "a \<in> set (tenders d)" "td_payment q \<noteq> None" for a
      using q(3) that by (simp add: q(1))
    moreover have "\<not> posted_twin q a" if "a \<in> set (tenders d)" "td_channel q = Ch_External_terminal" "td_state q = ''posted''" for a
    proof -
      have "td_transaction r \<noteq> None" using r [OF ok] that(2,3) by (auto simp: tender_ok_def missing_identity_def q(1))
      with q(4) that show ?thesis by (simp add: q(1) posted_twin_row)
    qed
    moreover have "\<not> posted_twin a q"
      if a: "a \<in> set (tenders d)" "td_channel a = Ch_External_terminal" "td_state a = ''posted''" for a
    proof
      assume twin: "posted_twin a q"
      then have "td_channel q = Ch_External_terminal" "td_state q = ''posted''" by (simp_all add: posted_twin_def)
      with calculation(3) [OF a(1)] posted_twin_sym [OF twin a(2,3)] show False by blast
    qed
    moreover have "keys_ok td_id (tenders t) (fresh t)"
      using td unfolding t(3) by (intro keys_ok_snoc [of _ _ "fresh d"]) (simp_all add: tenders_ok_def q(1) t)
    ultimately show ?thesis
      using td keep unfolding tenders_ok_def t(3) by (auto dest: sym)
  qed
  then show ?thesis by (intro same_but_tenders) (simp_all add: t)
qed

lemma writes_review:
  assumes run: "update_tender q d = Inr t" and a: "a \<in> set (tenders d)" "td_id q = td_id a" "td_payment q = td_payment a"
    "td_state a \<noteq> ''posted''" "td_state q \<noteq> ''posted''"
  shows "writes d t"
proof -
  have t: "t = d\<lparr>tenders := upd_row td_id (td_id q) (\<lambda>_. q) (tenders d)\<rparr>"
    using run by (simp add: update_tender_def bindE_eq_Inr)
  have "tenders_ok t" if ok: "desk_ok d"
  proof -
    have td: "tenders_ok d" using ok by (simp add: desk_ok_def)
    have members: "b \<in> set (tenders t) \<longleftrightarrow> b = q \<or> (b \<in> set (tenders d) \<and> td_id b \<noteq> td_id q)" for b
      using a(1,2) by (auto simp: t upd_row_set image_iff)
    have none: "td_payment q = None" using td a by (simp add: tenders_ok_def tender_ok_def)
    then have "tender_ok t q" using a(5) by (simp add: tender_ok_def)
    moreover have "tender_ok t b = tender_ok d b" for b by (simp add: tender_ok_def t)
    ultimately have each: "\<forall>b \<in> set (tenders t). tender_ok t b"
      using td by (auto simp: members tenders_ok_def)
    have keys: "keys_ok td_id (tenders t) (fresh t)"
    proof -
      have "map td_id (tenders t) = map td_id (tenders d)" by (simp add: t map_key_replace)
      from keys_ok_cong [OF this] td show ?thesis by (simp add: tenders_ok_def t)
    qed
    have one: "b = c" if bc: "b \<in> set (tenders t)" "c \<in> set (tenders t)" "td_payment b = td_payment c" "td_payment b \<noteq> None" for b c
    proof -
      have "b \<in> set (tenders d)" "c \<in> set (tenders d)" using bc none by (auto simp: members)
      with td bc(3,4) show ?thesis unfolding tenders_ok_def by blast
    qed
    have two: "b = c" if bc: "b \<in> set (tenders t)" "c \<in> set (tenders t)" "td_channel b = Ch_External_terminal"
        "td_state b = ''posted''" "posted_twin b c" for b c
    proof -
      have "b \<in> set (tenders d)" "c \<in> set (tenders d)" using bc a(5) by (auto simp: members posted_twin_def)
      with td bc(3-5) show ?thesis unfolding tenders_ok_def by blast
    qed
    show ?thesis unfolding tenders_ok_def using keys each one two by blast
  qed
  then show ?thesis
    by (intro same_but_tenders) (simp_all add: t map_key_replace)
qed

subsection \<open>The log of commands\<close>

lemma stored_keys_log [simp]: "stored_keys (d\<lparr>commands := cs\<rparr>) model = stored_keys d model"
  by (simp add: stored_keys_def)

lemma good_log:
  assumes "r = \<lparr>fc_type = type, fc_key = key, fc_checksum = cs, fc_model = model, fc_result = i\<rparr>"
    and "desk_ok d \<Longrightarrow> i \<in> set (stored_keys d model)" and "\<forall>c \<in> set (commands d). (fc_type c, fc_key c) \<noteq> (type, key)"
  shows "good d (d\<lparr>commands := commands d @ [r]\<rparr>)"
  unfolding good_def
proof
  let ?t = "d\<lparr>commands := commands d @ [r]\<rparr>"
  assume ok: "desk_ok d"
  have "desk_grows d ?t"
    unfolding desk_grows_def
    by (intro conjI ballI) (auto intro!: bexI simp: same_count_def current_expected_def)
  moreover have "commands_ok ?t"
    using ok assms by (auto simp: commands_ok_def stored_row_ex desk_ok_def)
  moreover have "drawer_ok ?t" by (rule drawer_ok_core [of d]) (use ok in \<open>simp_all add: desk_ok_def\<close>)
  moreover have "tenders_ok ?t" by (rule tenders_ok_core [of d]) (use ok in \<open>simp_all add: desk_ok_def\<close>)
  ultimately show "desk_ok ?t \<and> desk_grows d ?t" using ok by (simp add: desk_ok_def)
qed

lemma known_command_None: "known_command d type key = None \<longleftrightarrow> (\<forall>c \<in> set (commands d). (fc_type c, fc_key c) \<noteq> (type, key))"
  by (auto simp: known_command_def find_None_iff)

text \<open>
  \<open>answers type d u row\<close>: what a command's body does - good writes, possibly commands of another type, and a
  result that is stored.
\<close>

definition answers :: "string \<Rightarrow> desk \<Rightarrow> desk \<Rightarrow> tenant_row \<Rightarrow> bool" where
  "answers type d u row \<longleftrightarrow> good d u \<and> (\<exists>cs. commands u = commands d @ cs \<and> (\<forall>c \<in> set cs. fc_type c \<noteq> type))
     \<and> (desk_ok d \<longrightarrow> row_key row \<in> set (stored_keys u (row_model row)))"

lemma answers_writes:
  "writes d u \<Longrightarrow> (desk_ok d \<Longrightarrow> row_key row \<in> set (stored_keys u (row_model row))) \<Longrightarrow> answers type d u row"
  by (simp add: answers_def writes_def)

lemma run_command_good:
  assumes run: "run_command x type k payload callback d = Inr (t, row)"
    and body: "\<And>u. callback d = Inr (u, row) \<Longrightarrow> answers type d u row"
  shows "good d t"
  using run
proof (cases rule: run_command_Inr)
  case (ran u)
  have u: "good d u" "\<exists>cs. commands u = commands d @ cs \<and> (\<forall>c \<in> set cs. fc_type c \<noteq> type)"
      "desk_ok d \<longrightarrow> row_key row \<in> set (stored_keys u (row_model row))"
    using body [OF ran(2)] by (simp_all add: answers_def)
  have new: "\<forall>c \<in> set (commands u). (fc_type c, fc_key c) \<noteq> (type, trim k)"
    using u(2) ran(1) unfolding known_command_None by auto
  have "desk_ok d \<longrightarrow> good u t"
    unfolding ran(4) using u(3) new by (intro impI good_log [OF refl]) auto
  with u(1) show ?thesis using good_trans by (auto simp: good_def)
qed simp

end
