(* ===== verification/Desk_Cash.thy ===== *)
theory Desk_Cash
  imports Desk_Writes
begin

text \<open>
  The commands of the cash drawer are good: opening it, moving cash, counting it and approving a variance keep
  the invariant and take nothing back.
\<close>

subsection \<open>The drawer\<close>

lemma guard_operate_cash_unit [simp]: "guard_operate_cash c a p = Inr u \<longleftrightarrow> guard_operate_cash c a p = Inr ()"
  by simp

lemma open_body_Inr:
  assumes "open_body x actor p raw float key d = Inr (t, row)"
  obtains s d1 m where "row = Shift_Row s" "upper (trim raw) = sh_currency s" "currency_code (sh_currency s)" "0 \<le> float"
    "insert_shift (new_shift x actor p (upper (trim raw)) float key (checksum x (open_payload p raw float key))) d = Inr (d1, s)"
    "insert_movement (float_movement x actor s key) d1 = Inr (t, m)"
proof -
  note run = assms [unfolded open_body_def Let_def run_simps prod.case sum.inject prod.inject]
  from run obtain d1 s d2 m where i: "insert_shift (new_shift x actor p (upper (trim raw)) float key (checksum x (open_payload p raw float key))) d = Inr (d1, s)"
      and m: "insert_movement (float_movement x actor s key) d1 = Inr (d2, m)" and row: "d2 = t" "Shift_Row s = row"
      and ok: "\<not> (\<not> currency_code (upper (trim raw)) \<or> float < 0)"
    by - (elim exE conjE, rule that; assumption)
  have "sh_currency s = upper (trim raw)" by (simp add: insert_shift_Inr(1) [OF i] new_shift_def)
  with row ok m [unfolded row(1)] show thesis by (intro that [OF _ _ _ _ i]) auto
qed

lemma open_body_answers:
  assumes "open_body x actor p raw float key d = Inr (t, row)"
  shows "answers type d t row"
proof -
  from assms obtain s d1 m where b: "row = Shift_Row s" "0 \<le> float"
      and i: "insert_shift (new_shift x actor p (upper (trim raw)) float key (checksum x (open_payload p raw float key))) d = Inr (d1, s)"
      and m: "insert_movement (float_movement x actor s key) d1 = Inr (t, m)"
    by (rule open_body_Inr)
  have w: "writes d t" and sh: "shifts t = shifts d @ [s]"
    by (rule writes_opening [OF i m]; simp add: new_shift_def b(2))+
  show ?thesis by (rule answers_writes [OF w]) (simp add: b stored_keys_def sh)
qed

lemma signed_amount_linked:
  assumes "signed_amount s ty amount reverses d = Inr a" and "ty \<in> {Move_Pay_in, Move_Pay_out, Move_Correction}" and "0 < amount"
  shows "linked d (cash_movement x actor s ty a reason key signature)"
  using assms
  by (auto simp: signed_amount_def linked_def cash_movement_def blank_movement_def bindE_eq_Inr find_or_fail_Inr
      split: if_splits option.splits dest!: find_row_Some)

lemma movement_body_Inr:
  assumes "movement_body x actor i ty amount raw key reverses d = Inr (t, row)"
  obtains s a m where "row = Movement_Row m" "s \<in> set (shifts d)" "sh_id s = i" "sh_cashier s = actor" "sh_state s = Shift_Open"
    "ty \<in> {Move_Pay_in, Move_Pay_out, Move_Correction}" "0 < amount" "trim raw \<noteq> []"
    "ty = Move_Pay_out \<longrightarrow> amount \<le> current_expected d i" "signed_amount s ty amount reverses d = Inr a"
    "insert_movement (cash_movement x actor s ty a (trim raw) key
       (checksum x (movement_payload i ty amount raw reverses))) d = Inr (t, m)"
proof -
  note run = assms [unfolded movement_body_def Let_def run_simps prod.case sum.inject prod.inject]
  from run obtain s a d1 m where s: "find_row sh_id i (shifts d) = Some s" and c: "\<not> (sh_cashier s \<noteq> actor \<or> sh_state s \<noteq> Shift_Open)"
      and ty: "ty \<in> {Move_Pay_in, Move_Pay_out, Move_Correction}" and am: "\<not> (trim raw = [] \<or> amount \<le> 0)"
      and bound: "\<not> (ty = Move_Pay_out \<and> current_expected d (sh_id s) < amount)"
      and a: "signed_amount s ty amount reverses d = Inr a"
      and m: "insert_movement (cash_movement x actor s ty a (trim raw) key
        (checksum x (movement_payload i ty amount raw reverses))) d = Inr (d1, m)" and row: "d1 = t" "Movement_Row m = row"
    unfolding not_not by - (elim exE conjE, rule that; assumption)
  from find_row_Some [OF s] c ty am bound row(2) show thesis by (intro that [OF _ _ _ _ _ _ _ _ _ a m [unfolded row(1)]]) auto
qed

lemma movement_body_answers:
  assumes "movement_body x actor i ty amount raw key reverses d = Inr (t, row)"
  shows "answers type d t row"
proof -
  from assms obtain s a m where b: "row = Movement_Row m" "s \<in> set (shifts d)" "sh_id s = i" "sh_state s = Shift_Open"
      "ty \<in> {Move_Pay_in, Move_Pay_out, Move_Correction}" "0 < amount" and a: "signed_amount s ty amount reverses d = Inr a"
      and m: "insert_movement (cash_movement x actor s ty a (trim raw) key
        (checksum x (movement_payload i ty amount raw reverses))) d = Inr (t, m)"
    by (rule movement_body_Inr)
  have "in_drawer (cash_movement x actor s ty a (trim raw) key
        (checksum x (movement_payload i ty amount raw reverses))) s"
    by (simp add: in_drawer_def cash_movement_def)
  from writes_movement [OF m b(2) this b(4) signed_amount_linked [OF a b(5,6)]] b(5)
  have "writes d t" by (auto simp: cash_movement_def)
  then show ?thesis by (rule answers_writes) (simp add: b insert_movement_Inr(2) [OF m] stored_keys_def)
qed

lemma close_body_Inr:
  assumes "close_body x actor i tally reason force d = Inr (t, row)"
  obtains (again) s where "find_row sh_id i (shifts d) = Some s" "sh_state s \<noteq> Shift_Open" "t = d" "row = Shift_Row s"
  | (closed) s where "find_row sh_id i (shifts d) = Some s" "sh_state s = Shift_Open" "0 \<le> tally"
      "sh_cashier s = actor \<or> may_force x d s force" "tally \<noteq> current_expected d i \<or> force \<longrightarrow> trim (or_default reason []) \<noteq> []"
      "t = update_shift (closed_shift x actor d tally reason s) d" "row = Shift_Row (closed_shift x actor d tally reason s)"
proof -
  from assms obtain s where s: "find_row sh_id i (shifts d) = Some s"
      and rest: "(if sh_state s \<noteq> Shift_Open then Inr (d, Shift_Row s)
     else if tally < 0 then Inl (Validation ''counted_cash_minor'')
     else if sh_cashier s \<noteq> actor \<and> \<not> may_force x d s force then Inl (Validation ''force'')
     else if force \<and> trim (or_default reason []) = [] then Inl (Validation ''reason'')
     else if tally \<noteq> current_expected d (sh_id s) \<and> trim (or_default reason []) = [] then Inl (Validation ''reason'')
     else Inr (update_shift (closed_shift x actor d tally reason s) d, Shift_Row (closed_shift x actor d tally reason s)))
     = Inr (t, row)"
    unfolding close_body_def Let_def bindE_eq_Inr find_or_fail_Inr by blast
  show thesis
  proof (cases "sh_state s = Shift_Open")
    case True
    then have "\<not> (sh_state s \<noteq> Shift_Open)" by simp
    note r = rest [unfolded if_not_P [OF this] if_Inl_eq_Inr sum.inject prod.inject]
    from r closed [OF s True] find_row_Some [OF s] show thesis by auto
  qed (use rest again [OF s] in auto)
qed

lemma closed_shift_sel [simp]:
  "sh_id (closed_shift x actor d tally reason s) = sh_id s" "sh_float (closed_shift x actor d tally reason s) = sh_float s"
  "same_drawer s (closed_shift x actor d tally reason s)" "sh_state (closed_shift x actor d tally reason s) \<noteq> Shift_Open"
  "sh_expected (closed_shift x actor d tally reason s) = Some (current_expected d (sh_id s))"
  "sh_counted (closed_shift x actor d tally reason s) = Some tally"
  "sh_variance (closed_shift x actor d tally reason s) = Some (tally - current_expected d (sh_id s))"
  by (simp_all add: closed_shift_def same_drawer_def Let_def)

lemma shift_okD: "desk_ok d \<Longrightarrow> s \<in> set (shifts d) \<Longrightarrow> shift_ok d s"
  by (simp add: desk_ok_def drawer_ok_def)

lemma stored_shift: "sh_id r \<in> sh_id ` set (shifts d) \<Longrightarrow> row_key (Shift_Row r) \<in> set (stored_keys (update_shift q d) (row_model (Shift_Row r)))"
  by (simp add: stored_keys_def update_shift_def) (metis (no_types) list.set_map map_key_replace)

lemma close_body_answers:
  assumes "close_body x actor i tally reason force d = Inr (t, row)"
  shows "answers type d t row"
  using assms
proof (cases rule: close_body_Inr)
  case (again s)
  then show ?thesis by (intro answers_writes) (auto simp: stored_keys_def dest: find_row_Some)
next
  case (closed s)
  let ?q = "closed_shift x actor d tally reason s"
  have s: "s \<in> set (shifts d)" using find_row_Some [OF closed(1)] by simp
  have "shift_ok d ?q" if "desk_ok d"
    using shift_okD [OF that s] closed(3) by (simp add: shift_ok_def)
  then have "writes d t"
    unfolding closed(6) by (intro writes_count [OF s]) (simp_all add: closed(2))
  then show ?thesis
    using s unfolding closed(6,7) by (intro answers_writes stored_shift) auto
qed

lemma approve_body_Inr:
  assumes "approve_body x actor i reason d = Inr (t, row)"
  obtains (again) s where "find_row sh_id i (shifts d) = Some s" "sh_state s = Shift_Closed" "t = d" "row = Shift_Row s"
  | (approved) s where "find_row sh_id i (shifts d) = Some s" "sh_state s = Shift_Variance_review" "trim reason \<noteq> []"
      "guard_resolve (at_request x) actor (sh_property s) = Inr ()"
      "t = update_shift (s\<lparr>sh_state := Shift_Closed, sh_approved_by := Some actor, sh_approved_at := Some (now x),
             sh_approval_reason := Some (trim reason)\<rparr>) d"
      "row = Shift_Row (s\<lparr>sh_state := Shift_Closed, sh_approved_by := Some actor, sh_approved_at := Some (now x),
             sh_approval_reason := Some (trim reason)\<rparr>)"
proof -
  from assms obtain s where s: "find_row sh_id i (shifts d) = Some s" and g: "guard_resolve (at_request x) actor (sh_property s) = Inr ()"
      and rest: "(if sh_state s = Shift_Closed \<and> sh_approved_at s \<noteq> None then Inr (d, Shift_Row s)
     else if sh_state s \<noteq> Shift_Variance_review \<or> trim reason = [] then Inl (Validation ''cash_shift'')
     else Inr (update_shift (s\<lparr>sh_state := Shift_Closed, sh_approved_by := Some actor, sh_approved_at := Some (now x),
             sh_approval_reason := Some (trim reason)\<rparr>) d, Shift_Row (s\<lparr>sh_state := Shift_Closed, sh_approved_by := Some actor,
             sh_approved_at := Some (now x), sh_approval_reason := Some (trim reason)\<rparr>))) = Inr (t, row)"
    unfolding approve_body_def Let_def bindE_eq_Inr find_or_fail_Inr by auto
  show thesis
  proof (cases "sh_state s = Shift_Closed \<and> sh_approved_at s \<noteq> None")
    case True
    with rest again [OF s] show thesis by simp
  next
    case False
    note rest [unfolded if_not_P [OF False] if_Inl_eq_Inr sum.inject prod.inject]
    then show thesis by (intro approved [OF s _ _ g]) blast+
  qed
qed

lemma approve_body_answers:
  assumes "approve_body x actor i reason d = Inr (t, row)"
  shows "answers type d t row"
  using assms
proof (cases rule: approve_body_Inr)
  case (again s)
  then show ?thesis by (intro answers_writes) (auto simp: stored_keys_def dest: find_row_Some)
next
  case (approved s)
  let ?q = "s\<lparr>sh_state := Shift_Closed, sh_approved_by := Some actor, sh_approved_at := Some (now x),
             sh_approval_reason := Some (trim reason)\<rparr>"
  have s: "s \<in> set (shifts d)" using find_row_Some [OF approved(1)] by simp
  have "shift_ok d ?q" if "desk_ok d"
    using shift_okD [OF that s] approved(2) by (simp add: shift_ok_def)
  moreover have "same_count d s d ?q" by (simp add: same_count_def approved(2))
  ultimately have new: "shift_ok d ?q \<and> (sh_state s \<noteq> Shift_Open \<longrightarrow> same_count d s d ?q)" if "desk_ok d" using that by blast
  have "sh_id ?q = sh_id s" "same_drawer s ?q" "sh_float ?q = sh_float s" "sh_state ?q \<noteq> Shift_Open"
    by (simp_all add: same_drawer_def)
  from writes_count [OF s this new] have "writes d t" unfolding approved(5) .
  then show ?thesis
    using s unfolding approved(5,6) by (intro answers_writes stored_shift) auto
qed

end
