(* ===== verification/Desk_Money.thy ===== *)
theory Desk_Money
  imports Desk_Cash
begin

text \<open>
  The commands of the desk that take money and give it back are good too: front-desk payments, the review of
  tenders and of evidence, and refunds outside the program.
\<close>

subsection \<open>Tenders\<close>

lemma front_desk_currency:
  assumes "record_front_desk c i ch amount actor dep s = Inr (t, q)"
  shows "\<exists>r. find_reservation s i = Some r \<and> py_currency q = r_currency r"
proof -
  note run = assms [unfolded record_front_desk_def run_simps]
  from run obtain r s1 p where "find_reservation s i = Some r"
      and "insert_payment (front_desk_payment c r ch amount actor) s = Inr (s1, p)" and "p = q"
    by - (elim exE conjE, rule that; assumption)
  then show ?thesis by (auto simp: insert_payment_def Let_def bindE_eq_Inr front_desk_payment_def)
qed

lemma create_detail_Inr:
  assumes "create_detail x actor i r d = Inr (t, q)"
  obtains scoped u as where "insert_tender scoped r d = Inr (u, q)" "t = u\<lparr>audits := as\<rparr>"
    "fd_fields i = [] \<Longrightarrow> scoped = [] \<and> t = u"
proof (cases "fd_fields i = []")
  case True
  with assms have "insert_tender [] r d = Inr (t, q)" by (simp add: create_detail_def)
  then show thesis by (rule that [where as = "audits t"]) simp_all
next
  case False
  with assms obtain scoped u where "insert_tender scoped r d = Inr (u, q)"
      "t = u\<lparr>audits := audits u @ [resolution_audit x actor i q]\<rparr>"
    by (auto simp: create_detail_def with_resolution_def bindE_eq_Inr)
  with False show thesis by (intro that) auto
qed

lemma writes_audits: "writes d (d\<lparr>audits := as\<rparr>)"
  by (rule writes_skip) simp_all

lemma create_detail_writes:
  assumes run: "create_detail x actor i r d = Inr (t, q)" and r: "desk_ok d \<Longrightarrow> tender_ok d r"
  shows "writes d t" and "q = r\<lparr>td_id := fresh d\<rparr>" and "tenders t = tenders d @ [q]" and "movements t = movements d"
    and "shifts t = shifts d" and "payments (core t) = payments (core d)" and "folio_lines (core t) = folio_lines (core d)"
    and "changes (core t) = changes (core d)" and "fresh t = Suc (fresh d)"
proof -
  from run obtain scoped u as where i: "insert_tender scoped r d = Inr (u, q)" and t: "t = u\<lparr>audits := as\<rparr>"
    by (rule create_detail_Inr)
  note q = insert_tender_Inr [OF i]
  show "writes d t" unfolding t by (rule writes_trans [OF writes_tender [OF i r] writes_audits])
  show "q = r\<lparr>td_id := fresh d\<rparr>" by (rule q)
  show "tenders t = tenders d @ [q]" "movements t = movements d" "shifts t = shifts d"
      "payments (core t) = payments (core d)" "folio_lines (core t) = folio_lines (core d)"
      "changes (core t) = changes (core d)" "fresh t = Suc (fresh d)"
    by (simp_all add: t q(2) take_id_def)
qed

lemma writes_tell: "writes d (d\<lparr>core := record_outbox c a k e v (core d)\<rparr>)"
  by (rule writes_skip) (simp_all add: frame_simps)

lemma post_tender_Inr:
  assumes "post_tender x actor r i drawer d = Inr (t, q)"
  obtains s p d2 d3 where
    "record_front_desk (at_request x) (r_id r) (fd_channel i) (fd_amount i) (Some actor) (fd_deposit i) (core d) = Inr (s, p)"
    "create_detail x actor i ((base_tender x actor r i)\<lparr>td_payment := Some (py_id p)\<rparr>) (d\<lparr>core := s\<rparr>) = Inr (d2, q)"
    "(drawer = None \<and> d3 = d2) \<or> (\<exists>a m. drawer = Some a \<and> insert_movement (payment_movement x actor r a p i) d2 = Inr (d3, m))"
    "t = tell_posted x q p r i d3"
proof -
  note run = assms [unfolded post_tender_def on_core_Inr run_simps]
  from run obtain d1 p s d2 q' d3 where
      p: "record_front_desk (at_request x) (r_id r) (fd_channel i) (fd_amount i) (Some actor) (fd_deposit i) (core d) = Inr (s, p)"
      and d1: "d1 = d\<lparr>core := s\<rparr>"
      and td: "create_detail x actor i ((base_tender x actor r i)\<lparr>td_payment := Some (py_id p)\<rparr>) d1 = Inr (d2, q')"
      and mv: "(case drawer of None \<Rightarrow> Inr d2
       | Some s \<Rightarrow> bindE (insert_movement (payment_movement x actor r s p i) d2) (\<lambda>(u, _). Inr u)) = Inr d3"
      and t: "tell_posted x q' p r i d3 = t" "q' = q"
    by - (elim exE conjE, rule that; assumption)
  from mv have "(drawer = None \<and> d3 = d2) \<or> (\<exists>a m. drawer = Some a \<and> insert_movement (payment_movement x actor r a p i) d2 = Inr (d3, m))"
    by (cases drawer) (auto simp: bindE_eq_Inr)
  with p td [unfolded d1 t(2)] t show thesis by (intro that) auto
qed

lemma post_tender_writes:
  assumes run: "post_tender x actor r i drawer d = Inr (t, q)" and r: "find_reservation (core d) (r_id r) = Some r"
    and drawer: "\<And>a. drawer = Some a \<Longrightarrow> a \<in> set (shifts d) \<and> sh_state a = Shift_Open \<and> sh_property a = r_property r
       \<and> sh_currency a = r_currency r \<and> fd_channel i = Ch_Cash"
    and named: "fd_channel i = Ch_External_terminal \<Longrightarrow> \<not> missing_identity (base_tender x actor r i)"
  shows "writes d t" and "tenders t = tenders d @ [q]"
proof -
  from run obtain s p d2 d3 where
      p: "record_front_desk (at_request x) (r_id r) (fd_channel i) (fd_amount i) (Some actor) (fd_deposit i) (core d) = Inr (s, p)"
      and td: "create_detail x actor i ((base_tender x actor r i)\<lparr>td_payment := Some (py_id p)\<rparr>) (d\<lparr>core := s\<rparr>) = Inr (d2, q)"
      and mv: "(drawer = None \<and> d3 = d2) \<or> (\<exists>a m. drawer = Some a \<and> insert_movement (payment_movement x actor r a p i) d2 = Inr (d3, m))"
      and t: "t = tell_posted x q p r i d3"
    by (rule post_tender_Inr)
  let ?d1 = "d\<lparr>core := s\<rparr>" and ?row = "(base_tender x actor r i)\<lparr>td_payment := Some (py_id p)\<rparr>"
  have cur: "py_currency p = r_currency r" using front_desk_currency [OF p] r by simp
  have paid: "p \<in> set (payments s) \<and> py_amount p = fd_amount i \<and> py_channel p = fd_channel i" if ok: "desk_ok d"
  proof -
    have "\<forall>y \<in> set (folio_lines (core d)). fl_payment y \<noteq> Some (next_id (core d))"
      using ids_ok_fresh(1) ok by (simp add: books_def desk_ok_def)
    with p show ?thesis by (cases rule: record_front_desk_Inr) (auto simp: captures_def)
  qed
  have w1: "writes d ?d1"
  proof (rule writes_money [where f = "record_front_desk (at_request x) (r_id r) (fd_channel i) (fd_amount i) (Some actor) (fd_deposit i)", OF p])
    assume b: "books (core d)"
    have "run_money (at_request x) (Take_front_desk (r_id r) (fd_channel i) (fd_amount i) (Some actor) (fd_deposit i)) (core d) = Inr s"
      using p by simp
    from run_money_books [OF this b] run_money_grows [OF this b] show "books s \<and> grows (core d) s" ..
  qed
  have row: "tender_ok ?d1 ?row" if "desk_ok d"
    using paid [OF that] named by (auto simp: tender_ok_def base_tender_def missing_identity_def)
  from td obtain scoped u as where ins: "insert_tender scoped ?row ?d1 = Inr (u, q)" and d2: "d2 = u\<lparr>audits := as\<rparr>"
    by (rule create_detail_Inr)
  note u = insert_tender_Inr(2) [OF ins]
  have w2: "writes ?d1 d2 \<or> \<not> desk_ok d"
    using create_detail_writes(1) [OF td] row by blast
  have f2: "shifts d2 = shifts d" "core d2 = s\<lparr>next_id := Suc (next_id s)\<rparr>" "tenders d2 = tenders d @ [q]" "commands d2 = commands d"
    by (simp_all add: d2 u take_id_def)
  have w3: "writes d2 d3 \<or> \<not> desk_ok d"
  proof (cases drawer)
    case (Some a)
    with mv obtain m where m: "insert_movement (payment_movement x actor r a p i) d2 = Inr (d3, m)" by auto
    note a = drawer [OF Some]
    have "writes d2 d3" if ok: "desk_ok d"
    proof (rule writes_movement [OF m])
      show "a \<in> set (shifts d2)" "sh_state a = Shift_Open" using a by (simp_all add: f2)
      show "in_drawer (payment_movement x actor r a p i) a" using a cur by (simp add: in_drawer_def payment_movement_def)
      show "mv_type (payment_movement x actor r a p i) \<noteq> Move_Opening_float" by (simp add: payment_movement_def)
      show "linked d2 (payment_movement x actor r a p i)"
        using paid [OF ok] a by (auto simp: linked_def payment_movement_def blank_movement_def f2)
    qed
    then show ?thesis by blast
  qed (use mv in auto)
  have tdr: "tenders d3 = tenders d2" "commands d3 = commands d2"
    using mv by (auto dest!: insert_movement_Inr(2) simp: take_id_def)
  have w4: "writes d3 t" unfolding t tell_posted_def by (rule writes_tell)
  have "commands t = commands d" by (simp add: t tell_posted_def tdr f2)
  then show "writes d t"
    using w1 w2 w3 w4 by (auto simp: writes_def good_def intro: desk_grows_trans)
  show "tenders t = tenders d @ [q]" by (simp add: t tell_posted_def tdr f2)
qed

text \<open>What a front-desk payment does: it sets the tender aside, or it posts it.\<close>

abbreviation identity_reason :: string where
  "identity_reason \<equiv> ''Processor, merchant/account, terminal, and transaction reference are required before posting.''"

abbreviation twin_reason :: string where
  "twin_reason \<equiv> ''The normalized external-terminal transaction identity is already posted.''"

lemma take_payment_Inr:
  assumes "take_payment x actor i d = Inr (t, q)"
  obtains (exception) r where "find_reservation (core d) (fd_reservation i) = Some r" "0 < fd_amount i"
      "fd_channel i = Ch_External_terminal" "missing_identity (base_tender x actor r i)"
      "create_detail x actor i ((base_tender x actor r i)\<lparr>td_state := ''identity_exception'',
         td_review_reason := Some identity_reason\<rparr>) d = Inr (t, q)"
  | (duplicate) r b where "find_reservation (core d) (fd_reservation i) = Some r" "0 < fd_amount i"
      "fd_channel i = Ch_External_terminal" "b \<in> set (tenders d)" "posted_twin (base_tender x actor r i) b"
      "create_detail x actor i ((base_tender x actor r i)\<lparr>td_state := ''duplicate_review'',
         td_duplicate_of := Some (td_id b), td_review_reason := Some twin_reason\<rparr>) d = Inr (t, q)"
      "\<not> missing_identity (base_tender x actor r i)"
  | (posted) r where "find_reservation (core d) (fd_reservation i) = Some r" "0 < fd_amount i"
      "fd_channel i \<noteq> Ch_Cash" "fd_channel i = Ch_External_terminal \<longrightarrow> \<not> missing_identity (base_tender x actor r i)"
      "post_tender x actor r i None d = Inr (t, q)"
      "fd_channel i = Ch_External_terminal \<longrightarrow> (\<forall>b \<in> set (tenders d). \<not> posted_twin (base_tender x actor r i) b)"
  | (cash) r a where "find_reservation (core d) (fd_reservation i) = Some r" "0 < fd_amount i"
      "fd_channel i = Ch_Cash" "open_drawer d r actor = Some a" "post_tender x actor r i (Some a) d = Inr (t, q)"
proof -
  note run = assms [unfolded take_payment_def Let_def run_simps]
  from run obtain r where r: "find_reservation (core d) (fd_reservation i) = Some r" and amount: "\<not> fd_amount i \<le> 0"
      and rest: "(if fd_channel i = Ch_External_terminal \<and> missing_identity (base_tender x actor r i)
       then create_detail x actor i ((base_tender x actor r i)\<lparr>td_state := ''identity_exception'',
         td_review_reason := Some identity_reason\<rparr>) d
       else
         (case (if fd_channel i = Ch_External_terminal then find (posted_twin (base_tender x actor r i)) (tenders d) else None) of
            None \<Rightarrow>
              if fd_channel i = Ch_Cash then
                (case open_drawer d r actor of None \<Rightarrow> Inl (Validation ''cash_shift'')
                 | Some s \<Rightarrow> post_tender x actor r i (Some s) d)
              else post_tender x actor r i None d
          | Some q \<Rightarrow> create_detail x actor i ((base_tender x actor r i)\<lparr>td_state := ''duplicate_review'', td_duplicate_of := Some (td_id q),
              td_review_reason := Some twin_reason\<rparr>) d)) = Inr (t, q)"
    by - (elim exE conjE, rule that; assumption)
  have a: "0 < fd_amount i" using amount by simp
  show thesis
  proof (cases "fd_channel i = Ch_External_terminal")
    case True
    show thesis
    proof (cases "missing_identity (base_tender x actor r i)")
      case miss: True
      with rest True show thesis by (intro exception [OF r a True miss]) simp
    next
      case False
      show thesis
      proof (cases "find (posted_twin (base_tender x actor r i)) (tenders d)")
        case None
        then have "\<forall>b \<in> set (tenders d). \<not> posted_twin (base_tender x actor r i) b" by (simp add: find_None_iff)
        with rest True False None show thesis by (intro posted [OF r a]) simp_all
      next
        case (Some b)
        then have "b \<in> set (tenders d)" "posted_twin (base_tender x actor r i) b" by (auto simp: find_Some_iff)
        with rest True False Some show thesis by (intro duplicate [OF r a True]) simp_all
      qed
    qed
  next
    case False
    note other = rest [unfolded simp_thms False if_False option.case]
    show thesis
    proof (cases "fd_channel i = Ch_Cash")
      case True
      with other cash [OF r a True] show thesis by (simp split: option.splits)
    qed (use other False posted [OF r a] in simp)
  qed
qed

lemma open_drawer_Some:
  "open_drawer d r actor = Some a \<Longrightarrow> a \<in> set (shifts d) \<and> sh_state a = Shift_Open \<and> sh_property a = r_property r
     \<and> sh_currency a = r_currency r \<and> sh_cashier a = actor"
  by (auto simp: open_drawer_def find_Some_iff)

lemma set_aside_writes:
  assumes "create_detail x actor i row d = Inr (t, q)" and "td_state row \<noteq> ''posted''" and "td_payment row = None"
  shows "writes d t" and "tenders t = tenders d @ [q]"
proof -
  have "tender_ok d row" using assms(2,3) by (simp add: tender_ok_def)
  then show "writes d t" by (rule create_detail_writes(1) [OF assms(1)])
  show "tenders t = tenders d @ [q]" by (rule create_detail_writes(3) [OF assms(1) \<open>tender_ok d row\<close>])
qed

lemma take_payment_writes:
  assumes "take_payment x actor i d = Inr (t, q)"
  shows "writes d t" and "tenders t = tenders d @ [q]"
proof -
  have "writes d t \<and> tenders t = tenders d @ [q]"
    using assms
  proof (cases rule: take_payment_Inr)
    case (exception r)
    from set_aside_writes [OF exception(5)] show ?thesis by (simp add: base_tender_def)
  next
    case (duplicate r b)
    from set_aside_writes [OF duplicate(6)] show ?thesis by (simp add: base_tender_def)
  next
    case (posted r)
    have r: "find_reservation (core d) (r_id r) = Some r" using posted(1) by (auto dest: find_row_key)
    from post_tender_writes [OF posted(5) r] posted(4) show ?thesis by simp
  next
    case (cash r a)
    have r: "find_reservation (core d) (r_id r) = Some r" using cash(1) by (auto dest: find_row_key)
    from post_tender_writes [OF cash(5) r] open_drawer_Some [OF cash(4)] cash(3) show ?thesis by simp
  qed
  then show "writes d t" "tenders t = tenders d @ [q]" by simp_all
qed

lemma stored_tender: "q \<in> set (tenders t) \<Longrightarrow> row_key (Tender_Row q) \<in> set (stored_keys t (row_model (Tender_Row q)))"
  by (simp add: stored_keys_def)

lemma take_payment_answers:
  assumes "bindE (take_payment x actor i d) (\<lambda>(t, q). Inr (t, Tender_Row q)) = Inr (u, row)"
  shows "answers ''RecordFrontDeskPayment'' d u row"
proof -
  from assms obtain q where "take_payment x actor i d = Inr (u, q)" and row: "row = Tender_Row q" by (auto simp: bindE_eq_Inr)
  from take_payment_writes [OF this(1)] show ?thesis
    unfolding row by (intro answers_writes stored_tender) simp_all
qed

lemma record_desk_payment_good:
  assumes "record_desk_payment x actor i d = Inr (t, row)"
  shows "good d t" and "desk_ok d \<Longrightarrow> row_key row \<in> set (stored_keys t (row_model row))"
    and "\<exists>cs. commands t = commands d @ cs \<and> (\<forall>c \<in> set cs. fc_type c = ''RecordFrontDeskPayment'')"
    and "set (tenders d) \<subseteq> set (tenders t)"
proof -
  note body = take_payment_answers
  show "good d t" by (rule run_command_good [OF assms [unfolded record_desk_payment_def] body])
  have "(desk_ok d \<longrightarrow> row_key row \<in> set (stored_keys t (row_model row)))
      \<and> (\<exists>cs. commands t = commands d @ cs \<and> (\<forall>c \<in> set cs. fc_type c = ''RecordFrontDeskPayment''))
      \<and> set (tenders d) \<subseteq> set (tenders t)"
    using assms [unfolded record_desk_payment_def]
  proof (cases rule: run_command_Inr)
    case (again r)
    then have "\<exists>row'. stored_row d (row_model row) (row_key row) = Inr row'" using stored_row_key [OF again(4)] by auto
    with again(1) show ?thesis by (simp add: stored_row_ex)
  next
    case (ran u)
    from ran(2) obtain q where "take_payment x actor i d = Inr (u, q)" by (auto simp: bindE_eq_Inr)
    from take_payment_writes [OF this] have "commands u = commands d" "set (tenders d) \<subseteq> set (tenders u)"
      by (auto simp: writes_def)
    with ran body [OF ran(2)] show ?thesis by (simp add: answers_def)
  qed
  then show "desk_ok d \<Longrightarrow> row_key row \<in> set (stored_keys t (row_model row))"
    "\<exists>cs. commands t = commands d @ cs \<and> (\<forall>c \<in> set cs. fc_type c = ''RecordFrontDeskPayment'')"
    "set (tenders d) \<subseteq> set (tenders t)" by blast+
qed

subsection \<open>Reviews\<close>

lemma resolve_body_Inr:
  assumes "resolve_body x actor k decision reason corrected d = Inr (t, row)"
  obtains (corrected) a i d1 where "find_row td_id k (tenders d) = Some a" "unresolved (td_state a)" "trim reason \<noteq> []"
      "corrected = Some i" "keeps_draft a i" "record_desk_payment x actor i d = Inr (d1, row)"
      "update_tender (review_tender x actor ''corrected_identity_submitted'' (trim reason) a) d1 = Inr t"
  | (decided) a where "find_row td_id k (tenders d) = Some a" "unresolved (td_state a)" "trim reason \<noteq> []"
      "decision \<in> {''confirmed_duplicate'', ''needs_corrected_identity'', ''dismissed_unposted''}"
      "update_tender (review_tender x actor decision (trim reason) a) d = Inr t"
      "row = Tender_Row (review_tender x actor decision (trim reason) a)"
proof -
  note run = assms [unfolded resolve_body_def Let_def run_simps]
  from run obtain a where a: "find_row td_id k (tenders d) = Some a" and u: "unresolved (td_state a)"
      and dec: "\<not> (decision \<notin> {''confirmed_duplicate'', ''needs_corrected_identity'', ''dismissed_unposted'', ''corrected_identity''}
        \<or> trim reason = [])"
      and rest: "(if decision = ''corrected_identity'' then
       (case corrected of None \<Rightarrow> Inl (Validation ''corrected_identity'')
        | Some i \<Rightarrow>
            if \<not> keeps_draft a i then Inl (Validation ''corrected_identity'')
            else
              bindE (record_desk_payment x actor i d) (\<lambda>(d1, row).
              bindE (update_tender (review_tender x actor ''corrected_identity_submitted'' (trim reason) a) d1) (\<lambda>d2.
              Inr (d2, row))))
       else bindE (update_tender (review_tender x actor decision (trim reason) a) d)
         (\<lambda>d1. Inr (d1, Tender_Row (review_tender x actor decision (trim reason) a)))) = Inr (t, row)"
    by - (elim exE conjE, rule that; assumption)
  show thesis
  proof (cases "decision = ''corrected_identity''")
    case True
    with rest obtain i d1 where "corrected = Some i" "keeps_draft a i" "record_desk_payment x actor i d = Inr (d1, row)"
      "update_tender (review_tender x actor ''corrected_identity_submitted'' (trim reason) a) d1 = Inr t"
      by (auto simp: bindE_eq_Inr split: option.splits if_splits)
    with a u dec show thesis by (intro corrected) auto
  next
    case False
    with rest have "update_tender (review_tender x actor decision (trim reason) a) d = Inr t"
      "row = Tender_Row (review_tender x actor decision (trim reason) a)"
      by (simp_all add: bindE_eq_Inr)
    with a u dec False show thesis by (intro decided) auto
  qed
qed

lemma review_tender_writes:
  assumes "update_tender (review_tender x actor st reason a) d = Inr t" and "a \<in> set (tenders d)" and "unresolved (td_state a)"
    and "st \<noteq> ''posted''"
  shows "writes d t" and "row_key (Tender_Row (review_tender x actor st reason a)) \<in> set (stored_keys t ''PaymentTenderDetail'')"
proof -
  have "td_state a \<noteq> ''posted''" using assms(3) by (auto simp: unresolved_def)
  with assms show "writes d t" by (intro writes_review [OF assms(1,2)]) (simp_all add: review_tender_def)
  have "tenders t = upd_row td_id (td_id a) (\<lambda>_. review_tender x actor st reason a) (tenders d)"
    using assms(1) by (auto simp: update_tender_def bindE_eq_Inr review_tender_def)
  then have "map td_id (tenders t) = map td_id (tenders d)" by (simp add: map_key_replace review_tender_def)
  with assms(2) show "row_key (Tender_Row (review_tender x actor st reason a)) \<in> set (stored_keys t ''PaymentTenderDetail'')"
    by (simp add: stored_keys_def review_tender_def del: set_map) simp
qed

lemma resolve_body_answers:
  assumes "resolve_body x actor k decision reason corrected d = Inr (t, row)"
  shows "answers ''ResolveTenderDuplicate'' d t row"
  using assms
proof (cases rule: resolve_body_Inr)
  case (corrected a i d1)
  note p = record_desk_payment_good [OF corrected(6)]
  have "a \<in> set (tenders d1)" using p(4) find_row_Some [OF corrected(1)] by auto
  from review_tender_writes(1) [OF corrected(7) this corrected(2)] have w: "writes d1 t" by simp
  have "good d t" using p(1) w by (auto simp: writes_def intro: good_trans)
  moreover have "row_key row \<in> set (stored_keys t (row_model row))" if ok: "desk_ok d"
  proof -
    have "desk_ok d1" using p(1) ok by (simp add: good_def)
    with w have "desk_grows d1 t" by (simp add: writes_def good_def)
    from stored_keys_grow [OF this] p(2) [OF ok] show ?thesis by blast
  qed
  moreover have "\<exists>cs. commands t = commands d @ cs \<and> (\<forall>c \<in> set cs. fc_type c \<noteq> ''ResolveTenderDuplicate'')"
    using p(3) w by (auto simp: writes_def)
  ultimately show ?thesis by (simp add: answers_def)
next
  case (decided a)
  have "a \<in> set (tenders d)" using find_row_Some [OF decided(1)] by simp
  from review_tender_writes [OF decided(5) this decided(2)] decided(4) show ?thesis
    unfolding decided(6) by (intro answers_writes) auto
qed

lemma review_body_answers:
  assumes "review_body x actor k decision raw d = Inr (t, row)"
  shows "answers type d t row"
proof -
  note run = assms [unfolded review_body_def Let_def option_case_Inl_eq_Inr run_simps]
  let ?st = "if decision = ''approved'' then Ev_Approved else Ev_Rejected"
  from run obtain e and j :: reservation and ch :: change where e: "find_row ge_id k (evidences d) = Some e"
      and rest: "(if ge_status e = ?st then Inr (d, Evidence_Row e)
            else if ge_status e \<in> {Ev_Approved, Ev_Rejected} then Inl (Validation ''status'')
            else if ?st = Ev_Approved \<and> ge_scan e \<notin> {''accepted'', ''clean''} then Inl (Validation ''scan_state'')
            else
              Inr (d\<lparr>evidences := upd_row ge_id k (\<lambda>_. reviewed_evidence x actor ?st (trim raw) e) (evidences d),
                     core := record_outbox (at_request x) ''guest_payment_evidence'' (ge_id e)
                       (''refund_evidence.'' @ evidence_status_value ?st)
                       [(''evidence_id'', J_Id (ge_id e)), (''refund_change_id'', J_Id (ch_id ch)),
                        (''reservation_id'', J_Id (r_id j))] (core d)\<rparr>,
                Evidence_Row (reviewed_evidence x actor ?st (trim raw) e))) = Inr (t, row)"
    by - (elim exE conjE, rule that; assumption)
  define q where "q = reviewed_evidence x actor ?st (trim raw) e"
  have q: "ge_id q = ge_id e" by (simp add: q_def reviewed_evidence_def)
  have "(t = d \<and> row = Evidence_Row e) \<or> (\<exists>ev v. row = Evidence_Row q
        \<and> t = d\<lparr>evidences := upd_row ge_id k (\<lambda>_. q) (evidences d),
             core := record_outbox (at_request x) ''guest_payment_evidence'' (ge_id e) ev v (core d)\<rparr>)"
  proof (cases "ge_status e = ?st")
    case True
    from rest [unfolded if_P [OF True] sum.inject prod.inject] show ?thesis by blast
  next
    case False
    note r = rest [unfolded if_not_P [OF False] if_Inl_eq_Inr sum.inject prod.inject, folded q_def]
    then show ?thesis by blast
  qed
  then show ?thesis
  proof (elim disjE exE conjE)
    assume "t = d" and "row = Evidence_Row e"
    with find_row_Some [OF e] show ?thesis by (intro answers_writes) (auto simp: stored_keys_def)
  next
    fix ev v
    assume row: "row = Evidence_Row q"
      and t: "t = d\<lparr>evidences := upd_row ge_id k (\<lambda>_. q) (evidences d),
             core := record_outbox (at_request x) ''guest_payment_evidence'' (ge_id e) ev v (core d)\<rparr>"
    have ids: "map ge_id (evidences t) = map ge_id (evidences d)"
      using q find_row_Some [OF e] by (simp add: t map_key_replace)
    have "writes d t" by (rule writes_skip) (use ids in \<open>simp_all add: t frame_simps\<close>)
    moreover have "ge_id q \<in> set (map ge_id (evidences t))" unfolding ids using q find_row_Some [OF e] by (auto simp: image_iff intro!: bexI [of _ e])
    ultimately show ?thesis by (intro answers_writes) (simp_all add: row stored_keys_def)
  qed
qed

subsection \<open>Refunds\<close>

lemma stored_change: "ch \<in> set (changes (core t)) \<Longrightarrow> row_key (Change_Row ch) \<in> set (stored_keys t (row_model (Change_Row ch)))"
  by (simp add: stored_keys_def)

lemma money_writes:
  assumes "run_money c cmd (core d) = Inr s"
  shows "writes d (d\<lparr>core := s\<rparr>)"
proof (rule writes_money [where f = "\<lambda>u. bindE (run_money c cmd u) (\<lambda>v. Inr (v, ()))"])
  show "bindE (run_money c cmd (core d)) (\<lambda>v. Inr (v, ())) = Inr (s, ())" using assms by (simp add: bindE_eq_Inr)
  assume "books (core d)"
  with run_money_books [OF assms] run_money_grows [OF assms] show "books s \<and> grows (core d) s" by blast
qed

lemma requested_change: "request_refund c i k amount reason actor s = Inr (t, ch) \<Longrightarrow> ch \<in> set (changes t)"
  by (erule request_refund_Inr) (simp add: logs_def)

lemma request_body_answers:
  assumes "request_body x actor k amount reason d = Inr (t, row)"
  shows "answers type d t row"
proof -
  note run = assms [unfolded request_body_def on_core_Inr run_simps]
  from run obtain r :: reservation and p :: payment and u s ch where
      rq: "request_refund (at_request x) (r_id r) (py_id p) amount reason (Some actor) (core d) = Inr (s, ch)"
      and t: "u = d\<lparr>core := s\<rparr>" "u = t" "Change_Row ch = row"
    by - (elim exE conjE, rule that; assumption)
  have "run_money (at_request x) (Ask_refund (r_id r) (py_id p) amount reason (Some actor)) (core d) = Inr s" using rq by simp
  from money_writes [OF this] have "writes d t" using t by simp
  moreover have "ch \<in> set (changes (core t))"
    using requested_change [OF rq] t by simp
  ultimately show ?thesis unfolding t(3) [symmetric] by (intro answers_writes stored_change)
qed

lemma correct_body_answers:
  assumes "correct_body x actor k reason d = Inr (t, row)"
  shows "answers type d t row"
proof -
  note run = assms [unfolded correct_body_def on_core_Inr run_simps]
  from run obtain u s ch where cr: "correct_remaining (at_request x) k reason actor (core d) = Inr (s, ch)"
      and t: "u = d\<lparr>core := s\<rparr>" "u = t" "Change_Row ch = row"
    by - (elim exE conjE, rule that; assumption)
  have "run_money (at_request x) (Correct_payment k reason actor) (core d) = Inr s" using cr by simp
  from money_writes [OF this] have "writes d t" using t by simp
  moreover have "ch \<in> set (changes (core t))"
  proof -
    from cr have "ch \<in> set (changes s)" by (rule correct_remaining_Inr) (rule requested_change)
    with t show ?thesis by simp
  qed
  ultimately show ?thesis unfolding t(3) [symmetric] by (intro answers_writes stored_change)
qed

lemma complete_body_Inr:
  assumes "complete_body x actor k raw key evidence drawer d = Inr (t, row)"
  obtains q r p s ch d2 where "find_row ch_id k (changes (core d)) = Some q"
    "find_reservation (core d) (ch_reservation q) = Some r" "refund_payment (core d) q = Inr p"
    "guard_resolve (at_request x) actor (r_property r) = Inr ()" "py_origin p = Origin_Manual" "trim raw \<noteq> []"
    "complete_refund (at_request x) (ch_id q) (trim raw) (Some actor) (core d) = Inr (s, ch)"
    "(py_channel p = Ch_Cash \<and> (\<exists>a. refund_drawer d actor drawer r p = Inr a
        \<and> dispense (refund_movement x actor a ch (trim raw) key (complete_payload k raw evidence drawer)) (d\<lparr>core := s\<rparr>) = Inr d2))
     \<or> (py_channel p \<noteq> Ch_Cash \<and> assert_evidence d evidence q p = Inr () \<and> d2 = d\<lparr>core := s\<rparr>)"
    "t = link_evidence evidence p ch d2" "row = Change_Row ch"
proof -
  note run = assms [unfolded complete_body_def on_core_Inr run_simps]
  from run obtain q r p from' d1 s ch d2 where q: "find_row ch_id k (changes (core d)) = Some q"
      and r: "find_reservation (core d) (ch_reservation q) = Some r" and p: "refund_payment (core d) q = Inr p"
      and g: "guard_resolve (at_request x) actor (r_property r) = Inr ()"
      and o: "\<not> py_origin p \<noteq> Origin_Manual" "trim raw \<noteq> []"
      and f: "(if py_channel p = Ch_Cash then bindE (refund_drawer d actor drawer r p) (\<lambda>s. Inr (Some s))
                else bindE (assert_evidence d evidence q p) (\<lambda>_. Inr None)) = Inr from'"
      and c: "complete_refund (at_request x) (ch_id q) (trim raw) (Some actor) (core d) = Inr (s, ch)"
      and d1: "d1 = d\<lparr>core := s\<rparr>"
      and m: "(case from' of None \<Rightarrow> Inr d1
           | Some s \<Rightarrow> dispense (refund_movement x actor s ch (trim raw) key (complete_payload k raw evidence drawer)) d1) = Inr d2"
      and t: "link_evidence evidence p ch d2 = t" "Change_Row ch = row"
    unfolding not_not by auto
  have "(py_channel p = Ch_Cash \<and> (\<exists>a. refund_drawer d actor drawer r p = Inr a
        \<and> dispense (refund_movement x actor a ch (trim raw) key (complete_payload k raw evidence drawer)) (d\<lparr>core := s\<rparr>) = Inr d2))
     \<or> (py_channel p \<noteq> Ch_Cash \<and> assert_evidence d evidence q p = Inr () \<and> d2 = d\<lparr>core := s\<rparr>)"
    using f m d1 by (auto simp: bindE_eq_Inr split: if_splits)
  with q r p g o c t show thesis by (intro that) auto
qed

lemma completed_change:
  assumes "complete_refund c k reference actor s = Inr (t, ch)" and "books s"
  shows "ch \<in> set (changes t) \<and> ch_type ch = ''refund_completed''"
proof -
  have ids: "ids_ok s" using assms(2) by (simp add: books_def)
  from assms(1) ids_ok_fresh(2) [OF ids] show ?thesis
  proof (cases rule: complete_refund_Inr)
    case again
    then have "ch \<in> set (events_of_change s k) \<and> ch_type ch = ''refund_completed''" by (auto simp: find_Some_iff)
    with again(1) show ?thesis by (simp add: events_of_change_def)
  qed (simp add: completes_def completion_of_def)
qed

lemma complete_body_answers:
  assumes "complete_body x actor k raw key evidence drawer d = Inr (t, row)"
  shows "answers type d t row"
proof -
  from assms obtain q r p s ch d2 where
      c: "complete_refund (at_request x) (ch_id q) (trim raw) (Some actor) (core d) = Inr (s, ch)"
      and m: "(py_channel p = Ch_Cash \<and> (\<exists>a. refund_drawer d actor drawer r p = Inr a
        \<and> dispense (refund_movement x actor a ch (trim raw) key (complete_payload k raw evidence drawer)) (d\<lparr>core := s\<rparr>) = Inr d2))
     \<or> (py_channel p \<noteq> Ch_Cash \<and> assert_evidence d evidence q p = Inr () \<and> d2 = d\<lparr>core := s\<rparr>)"
      and t: "t = link_evidence evidence p ch d2" "row = Change_Row ch"
    by (rule complete_body_Inr)
  let ?d1 = "d\<lparr>core := s\<rparr>"
  have "run_money (at_request x) (Complete_refund (ch_id q) (trim raw) (Some actor)) (core d) = Inr s" using c by simp
  from money_writes [OF this] have w1: "writes d ?d1" .
  have w2: "(writes ?d1 d2 \<or> \<not> desk_ok d) \<and> commands d2 = commands d \<and> changes (core d2) = changes s"
    using m
  proof (elim disjE conjE exE)
    fix a
    let ?m = "refund_movement x actor a ch (trim raw) key (complete_payload k raw evidence drawer)"
    assume a: "refund_drawer d actor drawer r p = Inr a" and go: "dispense ?m ?d1 = Inr d2"
    have a': "a \<in> set (shifts d)" "sh_state a = Shift_Open"
      using a by (auto simp: refund_drawer_def bindE_eq_Inr find_or_fail_Inr dest!: find_row_Some split: option.splits if_splits)
    show ?thesis
    proof (cases "\<exists>n \<in> set (movements ?d1). mv_refund n = mv_refund ?m \<and> mv_type n = Move_Refund")
      case True
      with go have "d2 = ?d1" by (simp add: dispense_def)
      then show ?thesis by simp
    next
      case False
      from go [unfolded dispense_def if_not_P [OF False]] obtain n where n: "insert_movement ?m ?d1 = Inr (d2, n)"
        by (auto simp: bindE_eq_Inr)
      have "writes ?d1 d2" if ok: "desk_ok d"
      proof (rule writes_movement [OF n])
        show "a \<in> set (shifts ?d1)" "sh_state a = Shift_Open" using a' by simp_all
        show "in_drawer ?m a" by (simp add: in_drawer_def refund_movement_def)
        show "mv_type ?m \<noteq> Move_Opening_float" by (simp add: refund_movement_def)
        have "books (core d)" using ok by (simp add: desk_ok_def)
        from completed_change [OF c this] show "linked ?d1 ?m"
          by (auto simp: linked_def refund_movement_def blank_movement_def)
      qed
      then show ?thesis by (auto simp: insert_movement_Inr(2) [OF n] take_id_def)
    qed
  qed simp
  have ids: "map ge_id (evidences t) = map ge_id (evidences d2)"
    by (simp add: t link_evidence_def map_key_upd_row split: option.splits)
  have frame: "core t = core d2" "shifts t = shifts d2" "movements t = movements d2" "tenders t = tenders d2"
      "commands t = commands d2"
    by (simp_all add: t link_evidence_def split: option.splits)
  have w3: "writes d2 t" by (rule writes_skip) (simp_all add: ids frame)
  have "writes d t"
    using w1 w2 w3 frame by (auto simp: writes_def good_def intro: desk_grows_trans)
  moreover have "row_key row \<in> set (stored_keys t (row_model row))" if ok: "desk_ok d"
  proof -
    have "ch \<in> set (changes s)" using completed_change [OF c] ok by (simp add: desk_ok_def)
    then show ?thesis using w2 unfolding t(2) by (intro stored_change) (simp add: frame)
  qed
  ultimately show ?thesis by (rule answers_writes)
qed

end
