(* ===== verification/Desk.thy ===== *)
theory Desk
  imports Desk_Money
begin

text \<open>
  Runs of the front desk. A step is any of its commands or any other money service on the same database, with
  any actor, request and configuration. Every step keeps \<open>desk_ok\<close>, and along a run \<open>desk_grows\<close> holds; the
  properties of the drawer, of closed shifts, of terminal payments and of retries follow.
\<close>

subsection \<open>Commands and steps\<close>

datatype desk_command =
    Open_shift id string money string
  | Move_cash id cash_movement_type money string string "id option"
  | Close_shift id money "string option" string bool
  | Approve_variance id string string
  | Take_payment desk_input
  | Resolve_duplicate id string string string "desk_input option"
  | Ask_external id money string string
  | Correct_external id string string
  | Complete_external id string string "id option" "id option"
  | Review_evidence id string string string
  | Other_money money_command

fun run_desk :: "desk_ctx \<Rightarrow> user_id \<Rightarrow> desk_command \<Rightarrow> desk \<Rightarrow> desk res" where
  "run_desk x actor (Open_shift p currency float key) d = bindE (open_shift x actor p currency float key d) (\<lambda>(t, _). Inr t)"
| "run_desk x actor (Move_cash i ty a reason key undone) d =
     bindE (record_cash_movement x actor i ty a reason key undone d) (\<lambda>(t, _). Inr t)"
| "run_desk x actor (Close_shift i tally reason key force) d =
     bindE (close_shift x actor i tally reason key force d) (\<lambda>(t, _). Inr t)"
| "run_desk x actor (Approve_variance i reason key) d = bindE (approve_variance x actor i reason key d) (\<lambda>(t, _). Inr t)"
| "run_desk x actor (Take_payment i) d = bindE (record_desk_payment x actor i d) (\<lambda>(t, _). Inr t)"
| "run_desk x actor (Resolve_duplicate k decision reason key corrected) d =
     bindE (resolve_duplicate x actor k decision reason key corrected d) (\<lambda>(t, _). Inr t)"
| "run_desk x actor (Ask_external k a reason key) d = bindE (request_external x actor k a reason key d) (\<lambda>(t, _). Inr t)"
| "run_desk x actor (Correct_external k reason key) d = bindE (correct_external x actor k reason key d) (\<lambda>(t, _). Inr t)"
| "run_desk x actor (Complete_external k reference key evidence drawer) d =
     bindE (complete_external x actor k reference key evidence drawer d) (\<lambda>(t, _). Inr t)"
| "run_desk x actor (Review_evidence k decision reason key) d =
     bindE (review_evidence x actor k decision reason key d) (\<lambda>(t, _). Inr t)"
| "run_desk x actor (Other_money cmd) d = bindE (run_money (at_request x) cmd (core d)) (\<lambda>s. Inr (d\<lparr>core := s\<rparr>))"

definition desk_step :: "desk \<Rightarrow> desk \<Rightarrow> bool" where
  "desk_step d t \<longleftrightarrow> (\<exists>x actor cmd. run_desk x actor cmd d = Inr t)"

primrec desk_run :: "desk_ctx \<Rightarrow> user_id \<Rightarrow> desk_command list \<Rightarrow> desk \<Rightarrow> desk res" where
  "desk_run x actor [] d = Inr d"
| "desk_run x actor (c # cs) d = bindE (run_desk x actor c d) (desk_run x actor cs)"

lemma desk_run_steps: "desk_run x actor cs d = Inr t \<Longrightarrow> desk_step\<^sup>*\<^sup>* d t"
proof (induction cs arbitrary: d)
  case (Cons c cs)
  then obtain u where "run_desk x actor c d = Inr u" "desk_run x actor cs u = Inr t" by (auto simp: bindE_eq_Inr)
  with Cons.IH [of u] show ?case by (auto simp: desk_step_def intro: converse_rtranclp_into_rtranclp)
qed simp

lemma command_good:
  assumes "bindE (run_command x type k payload body d) (\<lambda>(t, _). Inr t) = Inr t"
    and "\<And>u row. body d = Inr (u, row) \<Longrightarrow> answers type d u row"
  shows "good d t"
  using assms(1) by (auto simp: bindE_eq_Inr intro: run_command_good [OF _ assms(2)])

lemmas command_defs = open_shift_def record_cash_movement_def close_shift_def approve_variance_def resolve_duplicate_def
  request_external_def correct_external_def complete_external_def review_evidence_def

lemmas body_answers = open_body_answers movement_body_answers close_body_answers approve_body_answers resolve_body_answers
  request_body_answers correct_body_answers complete_body_answers review_body_answers

lemma run_desk_good:
  assumes "run_desk x actor cmd d = Inr t"
  shows "good d t"
proof (cases cmd)
  case (Take_payment i)
  with assms show ?thesis by (auto simp: bindE_eq_Inr intro: record_desk_payment_good(1))
next
  case (Other_money c)
  with assms show ?thesis using money_writes by (auto simp: bindE_eq_Inr writes_def)
qed (use assms in \<open>auto simp: command_defs elim!: command_good intro: body_answers\<close>)

interpretation desk: growing_run desk_step desk_ok desk_grows
  by unfold_locales
    (auto simp: desk_step_def good_def intro: desk_grows_refl desk_grows_trans dest!: run_desk_good)

subsection \<open>What is in the drawer\<close>

text \<open>
  \<open>drawer_content d s\<close>: the money that should be in a drawer, from what it stands for - the float it was
  opened with, the cash payments taken through it, less the refunds handed out of it, and the pay-ins and
  pay-outs that were not corrected.
\<close>

definition taken_in :: "desk \<Rightarrow> id \<Rightarrow> payment \<Rightarrow> bool" where
  "taken_in d i p \<longleftrightarrow> (\<exists>m \<in> set (movements d). (mv_shift m = i \<and> mv_type m = Move_Payment) \<and> mv_payment m = Some (py_id p))"

definition paid_back :: "desk \<Rightarrow> id \<Rightarrow> change \<Rightarrow> bool" where
  "paid_back d i ch \<longleftrightarrow> (\<exists>m \<in> set (movements d). (mv_shift m = i \<and> mv_type m = Move_Refund) \<and> mv_refund m = Some (ch_id ch))"

definition corrected :: "desk \<Rightarrow> id \<Rightarrow> movement \<Rightarrow> bool" where
  "corrected d i n \<longleftrightarrow> (\<exists>m \<in> set (movements d). (mv_shift m = i \<and> mv_type m = Move_Correction) \<and> mv_reverses m = Some (mv_id n))"

definition drawer_content :: "desk \<Rightarrow> shift \<Rightarrow> money" where
  "drawer_content d s = sh_float s + sum_where (taken_in d (sh_id s)) py_amount (payments (core d))
     - sum_where (paid_back d (sh_id s)) change_amount (changes (core d))
     + sum_where (\<lambda>m. mv_shift m = sh_id s \<and> mv_type m \<in> {Move_Pay_in, Move_Pay_out} \<and> \<not> corrected d (sh_id s) m)
         mv_amount (movements d)"

abbreviation of_type :: "id \<Rightarrow> cash_movement_type \<Rightarrow> movement \<Rightarrow> bool" where
  "of_type i ty m \<equiv> mv_shift m = i \<and> mv_type m = ty"

lemma sum_by_type:
  "sum_where (\<lambda>m. mv_shift m = i) mv_amount ms = sum_where (of_type i Move_Opening_float) mv_amount ms
     + sum_where (of_type i Move_Payment) mv_amount ms + sum_where (of_type i Move_Refund) mv_amount ms
     + sum_where (of_type i Move_Correction) mv_amount ms
     + sum_where (\<lambda>m. mv_shift m = i \<and> mv_type m \<in> {Move_Pay_in, Move_Pay_out}) mv_amount ms"
proof (induction ms)
  case (Cons m ms)
  then show ?case by (cases "mv_type m") simp_all
qed simp

lemma drawer_balanced:
  assumes ok: "desk_ok d" and s: "s \<in> set (shifts d)"
  shows "current_expected d (sh_id s) = drawer_content d s"
proof -
  let ?i = "sh_id s" and ?M = "movements d"
  have dr: "drawer_ok d" and bk: "books (core d)" using ok by (simp_all add: desk_ok_def)
  have keys: "keys_ok mv_id ?M (fresh d)" using dr by (simp add: drawer_ok_def)
  have ids: "keys_ok py_id (payments (core d)) (fresh d)" "keys_ok ch_id (changes (core d)) (fresh d)"
    using bk by (simp_all add: books_def ids_ok_def)
  have linked: "linked d m" if "m \<in> set ?M" for m using dr that by (simp add: drawer_ok_def)
  have single: "m = n" if "m \<in> set ?M" "n \<in> set ?M" "rival m n" for m n
    using dr that by (simp add: drawer_ok_def)
  have pay: "sum_where (of_type ?i Move_Payment) mv_amount ?M = sum_where (taken_in d ?i) py_amount (payments (core d))"
    unfolding taken_in_def
  proof (rule sum_where_matched [OF keys_ok_distinct [OF keys] keys_ok_distinct [OF ids(1)]])
    show "\<exists>p \<in> set (payments (core d)). mv_payment m = Some (py_id p) \<and> mv_amount m = py_amount p"
      if "m \<in> set ?M" "of_type ?i Move_Payment m" for m using linked [OF that(1)] that(2) by (auto simp: linked_def)
    show "m = n" if "m \<in> set ?M" "n \<in> set ?M" "of_type ?i Move_Payment m" "of_type ?i Move_Payment n"
      "mv_payment m = Some (py_id p)" "mv_payment n = Some (py_id p)" for m n and p :: payment
      by (rule single [OF that(1,2)]) (use that in \<open>simp add: rival_def\<close>)
  qed (auto dest: keys_ok_eq [OF ids(1)])
  have given: "sum_where (of_type ?i Move_Refund) mv_amount ?M
      = sum_where (paid_back d ?i) (\<lambda>ch. - change_amount ch) (changes (core d))"
    unfolding paid_back_def
  proof (rule sum_where_matched [OF keys_ok_distinct [OF keys] keys_ok_distinct [OF ids(2)]])
    show "\<exists>ch \<in> set (changes (core d)). mv_refund m = Some (ch_id ch) \<and> mv_amount m = - change_amount ch"
      if "m \<in> set ?M" "of_type ?i Move_Refund m" for m using linked [OF that(1)] that(2) by (auto simp: linked_def)
    show "m = n" if "m \<in> set ?M" "n \<in> set ?M" "of_type ?i Move_Refund m" "of_type ?i Move_Refund n"
      "mv_refund m = Some (ch_id ch)" "mv_refund n = Some (ch_id ch)" for m n and ch :: change
      by (rule single [OF that(1,2)]) (use that in \<open>simp add: rival_def\<close>)
  qed (auto dest: keys_ok_eq [OF ids(2)])
  let ?other = "\<lambda>n. mv_shift n = ?i \<and> mv_type n \<in> {Move_Pay_in, Move_Pay_out}"
  have undo: "sum_where (of_type ?i Move_Correction) mv_amount ?M = sum_where (corrected d ?i) (\<lambda>n. - mv_amount n) ?M"
    unfolding corrected_def
  proof (rule sum_where_matched [OF keys_ok_distinct [OF keys] keys_ok_distinct [OF keys]])
    show "\<exists>n \<in> set ?M. mv_reverses m = Some (mv_id n) \<and> mv_amount m = - mv_amount n"
      if "m \<in> set ?M" "of_type ?i Move_Correction m" for m using linked [OF that(1)] that(2) by (auto simp: linked_def)
    show "m = n" if "m \<in> set ?M" "n \<in> set ?M" "of_type ?i Move_Correction m" "of_type ?i Move_Correction n"
      "mv_reverses m = Some (mv_id y)" "mv_reverses n = Some (mv_id y)" for m n and y :: movement
      by (rule single [OF that(1,2)]) (use that in \<open>simp add: rival_def\<close>)
  qed (auto dest: keys_ok_eq [OF keys])
  have is_other: "?other n" if n: "n \<in> set ?M" "corrected d ?i n" for n
  proof -
    from n(2) obtain m where m: "m \<in> set ?M" "of_type ?i Move_Correction m" "mv_reverses m = Some (mv_id n)"
      by (auto simp: corrected_def)
    with linked [OF m(1)] obtain n' where n': "n' \<in> set ?M" "mv_id n' = mv_id n" "mv_type n' \<in> {Move_Pay_in, Move_Pay_out}"
        "mv_shift n' = mv_shift m"
      by (auto simp: linked_def)
    with keys_ok_eq [OF keys n(1) n'(1)] m(2) show ?thesis by simp
  qed
  have rest: "sum_where ?other mv_amount ?M
      = sum_where (corrected d ?i) mv_amount ?M + sum_where (\<lambda>n. ?other n \<and> \<not> corrected d ?i n) mv_amount ?M"
  proof -
    have "sum_where ?other mv_amount xs
        = sum_where (corrected d ?i) mv_amount xs + sum_where (\<lambda>n. ?other n \<and> \<not> corrected d ?i n) mv_amount xs"
      if "set xs \<subseteq> set ?M" for xs
      using that
    proof (induction xs)
      case (Cons n xs)
      then show ?case using is_other [of n] by (cases "corrected d ?i n") auto
    qed simp
    then show ?thesis by blast
  qed
  have neg: "sum_where P (\<lambda>x. - f x) xs = - sum_where P f xs" for P and f :: "'x \<Rightarrow> int" and xs
    by (induction xs) simp_all
  have "float_of d ?i = sh_float s" using dr s by (simp add: drawer_ok_def shift_ok_def)
  then show ?thesis
    unfolding drawer_content_def current_expected_def sum_by_type pay given undo rest neg
    by (simp add: float_of_def conj_assoc)
qed

text \<open>C10: The cash drawer refines what happened at the desk. Along any run of front-desk commands and other money
  services, the expected cash of every shift is the float it was opened with, plus the cash payments taken
  through it, less the cash refunds handed out of it, plus the pay-ins and less the pay-outs that were not
  corrected; and once a shift is counted, the stored expectation is still this amount and the stored variance is
  the count less it, also after every later command.\<close>

theorem drawer_reconciles:
  assumes "desk_step\<^sup>*\<^sup>* d t" and "desk_ok d" and "s \<in> set (shifts t)"
  shows "current_expected t (sh_id s) = drawer_content t s
    \<and> (sh_state s = Shift_Open \<and> sh_expected s = None
       \<or> sh_state s \<noteq> Shift_Open \<and> sh_expected s = Some (drawer_content t s)
         \<and> (\<exists>k \<ge> 0. sh_counted s = Some k \<and> sh_variance s = Some (k - drawer_content t s)))"
proof -
  have ok: "desk_ok t" by (rule desk.run_keeps [OF assms(1,2)])
  from drawer_balanced [OF ok assms(3)] shift_okD [OF ok assms(3)] show ?thesis
    by (cases "sh_state s = Shift_Open") (simp_all add: shift_ok_def)
qed

text \<open>C12: A counted drawer is final. Whatever runs later, the shift keeps the expected amount, the count and the
  variance it was counted with, no movement is added to it, it never opens again, and once it is closed its row
  does not change at all.\<close>

theorem counted_shift_frozen:
  assumes "desk_step\<^sup>*\<^sup>* d t" and "desk_ok d" and "s \<in> set (shifts d)" and "sh_state s \<noteq> Shift_Open"
  shows "\<exists>u \<in> set (shifts t). sh_id u = sh_id s \<and> sh_state u \<noteq> Shift_Open \<and> sh_expected u = sh_expected s
    \<and> sh_counted u = sh_counted s \<and> sh_variance u = sh_variance s \<and> (sh_state s = Shift_Closed \<longrightarrow> u = s)
    \<and> current_expected t (sh_id s) = current_expected d (sh_id s)"
proof -
  have "desk_grows d t" by (rule desk.run_extends [OF assms(1,2)])
  with assms(3,4) show ?thesis unfolding desk_grows_def same_count_def by blast
qed

text \<open>A cashier has at most one open drawer per property and currency, and every movement lies in a drawer of its
  property and currency, in any reachable state.\<close>

theorem one_open_drawer:
  assumes "desk_step\<^sup>*\<^sup>* d t" and "desk_ok d"
  shows "(\<forall>s \<in> set (shifts t). \<forall>u \<in> set (shifts t).
      sh_state s = Shift_Open \<and> sh_state u = Shift_Open \<and> sh_property s = sh_property u \<and> sh_cashier s = sh_cashier u
      \<and> sh_currency s = sh_currency u \<longrightarrow> s = u)
    \<and> (\<forall>m \<in> set (movements t). \<exists>s \<in> set (shifts t). sh_id s = mv_shift m \<and> sh_currency s = mv_currency m
      \<and> sh_property s = mv_property m)"
  using desk.run_keeps [OF assms] by (simp add: desk_ok_def drawer_ok_def same_drawer_def in_drawer_def)

text \<open>C14: The same terminal transaction is posted at most once. In any reachable state two posted external-terminal
  tenders of one property with the same processor, merchant, terminal and transaction reference are the same row,
  and every posted tender has a payment of its own with its amount and channel.\<close>

theorem terminal_posted_once:
  assumes "desk_step\<^sup>*\<^sup>* d t" and "desk_ok d" and "a \<in> set (tenders t)" and "td_state a = ''posted''"
  shows "(\<exists>p \<in> set (payments (core t)). td_payment a = Some (py_id p) \<and> py_amount p = td_amount a \<and> py_channel p = td_channel a)
    \<and> (\<forall>b \<in> set (tenders t). td_state b = ''posted'' \<longrightarrow>
        (td_payment b = td_payment a \<longrightarrow> b = a)
        \<and> (td_channel a = Ch_External_terminal \<and> td_channel b = Ch_External_terminal \<and> td_property b = td_property a
           \<and> same_identity b a \<longrightarrow> b = a))"
proof -
  have td: "tenders_ok t" using desk.run_keeps [OF assms(1,2)] by (simp add: desk_ok_def)
  with assms(3,4) have p: "\<exists>p \<in> set (payments (core t)). td_payment a = Some (py_id p) \<and> py_amount p = td_amount a \<and> py_channel p = td_channel a"
    by (auto simp: tenders_ok_def tender_ok_def)
  have "b = a" if "b \<in> set (tenders t)" "td_payment b = td_payment a" for b
    using td p that assms(3) unfolding tenders_ok_def by (metis option.distinct(1))
  moreover have "b = a" if "b \<in> set (tenders t)" "td_state b = ''posted''" "td_channel a = Ch_External_terminal"
      "td_channel b = Ch_External_terminal" "td_property b = td_property a" "same_identity b a" for b
  proof -
    have "posted_twin a b" using that by (simp add: posted_twin_def)
    with td assms(3,4) that(1,3) show ?thesis unfolding tenders_ok_def by blast
  qed
  ultimately show ?thesis using p by blast
qed

end
