(* ===== verification/Desk_Facts.thy ===== *)
theory Desk_Facts
  imports Desk
begin

text \<open>
  What single commands of the desk do: a cash payment, a terminal payment that cannot be posted, the count of a
  drawer and the retry of a command; and two things the desk should not do.
\<close>

subsection \<open>Retries\<close>

lemma run_command_valid: "run_command x type k payload body d = Inr r \<Longrightarrow> valid_key (trim k)"
  by (auto simp: run_command_def Let_def split: if_splits)

text \<open>A command that was run is in the log under its type and key.\<close>

lemma run_command_logged:
  assumes run: "run_command x type k payload body d = Inr (t, row)"
    and body: "\<And>u. body d = Inr (u, row) \<Longrightarrow> answers type d u row"
  obtains r where "known_command t type (trim k) = Some r" "fc_checksum r = checksum x payload"
    "fc_model r = row_model row" "fc_result r = row_key row"
  using run
proof (cases rule: run_command_Inr)
  case (again r)
  with stored_row_key [OF again(4)] show thesis by (intro that) simp_all
next
  case (ran u)
  have "\<exists>cs. commands u = commands d @ cs \<and> (\<forall>c \<in> set cs. fc_type c \<noteq> type)"
    using body [OF ran(2)] by (simp add: answers_def)
  with ran(1) have "find (\<lambda>r. fc_type r = type \<and> fc_key r = trim k) (commands u) = None"
    by (auto simp: known_command_def find_None_iff)
  then have "known_command t type (trim k)
      = Some \<lparr>fc_type = type, fc_key = trim k, fc_checksum = checksum x payload, fc_model = row_model row, fc_result = row_key row\<rparr>"
    by (simp add: known_command_def ran(4) find_append)
  then show thesis by (rule that) simp_all
qed

lemma known_command_run:
  assumes "desk_step\<^sup>*\<^sup>* t v" and "desk_ok t" and "known_command t type key = Some r"
  shows "known_command v type key = Some r" and "\<exists>row. stored_row v (fc_model r) (fc_result r) = Inr row"
proof -
  obtain cs where "commands v = commands t @ cs"
    using desk.run_extends [OF assms(1,2)] unfolding desk_grows_def by blast
  with assms(3) show k: "known_command v type key = Some r" by (simp add: known_command_def find_append)
  then have "r \<in> set (commands v)" by (auto simp: known_command_def find_Some_iff)
  with desk.run_keeps [OF assms(1,2)] show "\<exists>row. stored_row v (fc_model r) (fc_result r) = Inr row"
    by (simp add: desk_ok_def commands_ok_def)
qed

text \<open>C13: A front-desk payment is taken at most once per key, and a retry always gets an answer. However much later
  and by whomever a payment request is repeated, the desk answers with the tender of the first run and changes
  nothing; the same key with another request is refused.\<close>

theorem retry_answers_first:
  assumes run: "record_desk_payment x actor i d = Inr (t, row)" and ok: "desk_ok d" and later: "desk_step\<^sup>*\<^sup>* t v"
    and key: "fd_key j = fd_key i"
  shows "(checksum y (input_payload j) = checksum x (input_payload i)
      \<longrightarrow> (\<exists>q. record_desk_payment y other j v = Inr (v, q) \<and> row_model q = row_model row \<and> row_key q = row_key row))
    \<and> (checksum y (input_payload j) \<noteq> checksum x (input_payload i)
      \<longrightarrow> record_desk_payment y other j v = Inl (Validation ''idempotency_key''))"
proof -
  have body: "answers ''RecordFrontDeskPayment'' d u row"
    if "bindE (take_payment x actor i d) (\<lambda>(t, q). Inr (t, Tender_Row q)) = Inr (u, row)" for u
    by (rule take_payment_answers [OF that])
  have okt: "desk_ok t" using record_desk_payment_good(1) [OF run] ok by (simp add: good_def)
  from run obtain r where r: "known_command t ''RecordFrontDeskPayment'' (trim (fd_key i)) = Some r"
      "fc_checksum r = checksum x (input_payload i)" "fc_model r = row_model row" "fc_result r = row_key row"
    unfolding record_desk_payment_def by (rule run_command_logged [OF _ body])
  note v = known_command_run [OF later okt r(1)]
  have valid: "valid_key (trim (fd_key j))"
    using run_command_valid run key unfolding record_desk_payment_def by metis
  note again = run_command_again [OF v(1) [folded key] valid, of y "input_payload j"]
  from v(2) obtain q where q: "stored_row v (row_model row) (row_key row) = Inr q" by (auto simp: r(3,4))
  show ?thesis
    using stored_row_key [OF q] by (auto simp: record_desk_payment_def again r(2-4) q)
qed

subsection \<open>Payments at the desk\<close>

lemma run_command_new:
  assumes "run_command x type k payload body d = Inr (t, row)" and "known_command d type (trim k) = None"
  obtains u c where "body d = Inr (u, row)" "t = u\<lparr>commands := commands u @ [c]\<rparr>"
  using assms by (cases rule: run_command_Inr) auto

lemma record_desk_payment_new:
  assumes "record_desk_payment x actor i d = Inr (t, row)"
    and "known_command d ''RecordFrontDeskPayment'' (trim (fd_key i)) = None"
  obtains u q c where "take_payment x actor i d = Inr (u, q)" "row = Tender_Row q" "t = u\<lparr>commands := commands u @ [c]\<rparr>"
proof -
  from assms obtain u c where "bindE (take_payment x actor i d) (\<lambda>(t, q). Inr (t, Tender_Row q)) = Inr (u, row)"
      "t = u\<lparr>commands := commands u @ [c]\<rparr>"
    unfolding record_desk_payment_def by (rule run_command_new)
  then show thesis by (auto simp: bindE_eq_Inr intro: that)
qed

lemma take_cash_posted:
  assumes "take_payment x actor i d = Inr (u, q)" and "fd_channel i = Ch_Cash"
  shows "td_state q = ''posted''"
  using assms
  by (cases rule: take_payment_Inr)
    (auto elim!: post_tender_Inr create_detail_Inr dest!: insert_tender_Inr(1) simp: base_tender_def)

lemma summary_same_lines:
  "folio_lines t = folio_lines s \<Longrightarrow> fs_balance (summary t r) = fs_balance (summary s r)"
  by (simp add: summary_def own_lines_def)

text \<open>C11: A cash payment moves exactly its amount, in three places at once. It needs an open drawer of the acting cashier
  for the property and currency of the reservation and an amount between one and the balance; then one payment,
  one posted tender and one drawer movement are stored, tied to each other, the expected cash of that drawer
  rises and the balance of the reservation falls by exactly the amount, and every other drawer keeps its cash.\<close>

theorem cash_payment_exact:
  assumes run: "record_desk_payment x actor i d = Inr (t, row)" and cash: "fd_channel i = Ch_Cash" and ok: "desk_ok d"
    and new: "known_command d ''RecordFrontDeskPayment'' (trim (fd_key i)) = None"
    and r: "find_reservation (core d) (fd_reservation i) = Some r"
  shows "\<exists>s p q m. s \<in> set (shifts d) \<and> sh_state s = Shift_Open \<and> sh_cashier s = actor \<and> sh_property s = r_property r
      \<and> sh_currency s = r_currency r
    \<and> 0 < fd_amount i \<and> fd_amount i \<le> fs_balance (summary (core d) r)
    \<and> payments (core t) = payments (core d) @ [p] \<and> py_amount p = fd_amount i \<and> py_reservation p = r_id r
    \<and> tenders t = tenders d @ [q] \<and> row = Tender_Row q \<and> td_state q = ''posted'' \<and> td_payment q = Some (py_id p)
    \<and> movements t = movements d @ [m] \<and> mv_payment m = Some (py_id p) \<and> mv_shift m = sh_id s
    \<and> shifts t = shifts d
    \<and> (\<forall>k. current_expected t k = current_expected d k + (if k = sh_id s then fd_amount i else 0))
    \<and> fs_balance (summary (core t) r) = fs_balance (summary (core d) r) - fd_amount i"
proof -
  from run new obtain u q c where take: "take_payment x actor i d = Inr (u, q)" and row: "row = Tender_Row q"
      and t: "t = u\<lparr>commands := commands u @ [c]\<rparr>"
    by (rule record_desk_payment_new)
  from take cash r obtain s where s: "open_drawer d r actor = Some s" and post: "post_tender x actor r i (Some s) d = Inr (u, q)"
      and pos: "0 < fd_amount i"
    by (cases rule: take_payment_Inr) auto
  from post obtain s1 p d2 d3 where
      p: "record_front_desk (at_request x) (r_id r) (fd_channel i) (fd_amount i) (Some actor) (fd_deposit i) (core d) = Inr (s1, p)"
      and td: "create_detail x actor i ((base_tender x actor r i)\<lparr>td_payment := Some (py_id p)\<rparr>) (d\<lparr>core := s1\<rparr>) = Inr (d2, q)"
      and mv: "\<exists>m. insert_movement (payment_movement x actor r s p i) d2 = Inr (d3, m)"
      and u: "u = tell_posted x q p r i d3"
    by (cases rule: post_tender_Inr) auto
  from mv obtain m where m: "insert_movement (payment_movement x actor r s p i) d2 = Inr (d3, m)" by blast
  from td obtain scoped v as where ins: "insert_tender scoped ((base_tender x actor r i)\<lparr>td_payment := Some (py_id p)\<rparr>) (d\<lparr>core := s1\<rparr>) = Inr (v, q)"
      and d2: "d2 = v\<lparr>audits := as\<rparr>"
    by (rule create_detail_Inr)
  note q = insert_tender_Inr(1,2) [OF ins] and m' = insert_movement_Inr(1,2) [OF m]
  have fresh: "\<forall>y \<in> set (folio_lines (core d)). fl_payment y \<noteq> Some (next_id (core d))"
    using ids_ok_fresh(1) ok by (simp add: books_def desk_ok_def)
  have r': "find_reservation (core d) (r_id r) = Some r" using r by (auto dest: find_row_key)
  note exact = front_desk_effect [OF p fresh r']
  have core_t: "folio_lines (core t) = folio_lines s1" "payments (core t) = payments s1"
    by (simp_all add: t u tell_posted_def m'(2) d2 q(2) take_id_def frame_simps)
  have rows: "tenders t = tenders d @ [q]" "movements t = movements d @ [m]" "shifts t = shifts d"
    by (simp_all add: t u tell_posted_def m'(2) d2 q(2) take_id_def)
  have "mv_payment m = Some (py_id p)" "mv_shift m = sh_id s" "mv_amount m = py_amount p"
    by (simp_all add: m'(1) payment_movement_def)
  moreover have "td_state q = ''posted''" "td_payment q = Some (py_id p)" by (simp_all add: q(1) base_tender_def)
  moreover have "fs_balance (summary (core t) r) = fs_balance (summary s1 r)" by (rule summary_same_lines [OF core_t(1)])
  moreover note open_drawer_Some [OF s] exact rows current_expected_snoc [OF rows(2)]
  ultimately show ?thesis
    using row pos by (intro exI [of _ s] exI [of _ p] exI [of _ q] exI [of _ m]) (simp add: core_t(2))
qed

text \<open>C22: A terminal payment that cannot be identified, or whose transaction is already posted, posts nothing. It is
  stored as a tender without a payment, set aside for a missing identity or as a duplicate of the posted tender,
  and apart from that row, its audit entry and the command nothing changes.\<close>

theorem set_aside_posts_nothing:
  assumes run: "record_desk_payment x actor i d = Inr (t, row)" and terminal: "fd_channel i = Ch_External_terminal"
    and new: "known_command d ''RecordFrontDeskPayment'' (trim (fd_key i)) = None"
    and r: "find_reservation (core d) (fd_reservation i) = Some r"
    and doubt: "missing_identity (base_tender x actor r i) \<or> (\<exists>b \<in> set (tenders d). posted_twin (base_tender x actor r i) b)"
  shows "\<exists>q. row = Tender_Row q \<and> tenders t = tenders d @ [q] \<and> td_payment q = None
    \<and> (if missing_identity (base_tender x actor r i) then td_state q = ''identity_exception'' \<and> td_duplicate_of q = None
       else td_state q = ''duplicate_review'' \<and> (\<exists>b \<in> set (tenders d). posted_twin q b \<and> td_duplicate_of q = Some (td_id b)))
    \<and> core t = (core d)\<lparr>next_id := Suc (fresh d)\<rparr> \<and> movements t = movements d \<and> shifts t = shifts d
    \<and> evidences t = evidences d"
proof -
  from run new obtain u q c where take: "take_payment x actor i d = Inr (u, q)" and row: "row = Tender_Row q"
      and t: "t = u\<lparr>commands := commands u @ [c]\<rparr>"
    by (rule record_desk_payment_new)
  have aside: "tenders t = tenders d @ [q] \<and> q = base\<lparr>td_id := fresh d\<rparr> \<and> core t = (core d)\<lparr>next_id := Suc (fresh d)\<rparr>
      \<and> movements t = movements d \<and> shifts t = shifts d \<and> evidences t = evidences d"
    if "create_detail x actor i base d = Inr (u, q)" for base
  proof -
    from that obtain scoped v as where "insert_tender scoped base d = Inr (v, q)" "u = v\<lparr>audits := as\<rparr>"
      by (rule create_detail_Inr)
    with insert_tender_Inr(1,2) [OF this(1)] show ?thesis by (simp add: t take_id_def)
  qed
  from take r doubt terminal show ?thesis
  proof (cases rule: take_payment_Inr)
    case (exception r')
    with r have "r' = r" by simp
    with aside [OF exception(5)] exception(4) row show ?thesis by (simp add: base_tender_def)
  next
    case (duplicate r' b)
    with r have r': "r' = r" by simp
    note a = aside [OF duplicate(6)]
    have "posted_twin q b" using duplicate(5) a by (simp add: r' posted_twin_def same_identity_def)
    with a duplicate(4,7) row show ?thesis by (auto simp: r' base_tender_def)
  next
    case (posted r')
    with r doubt terminal show ?thesis by auto
  qed simp
qed

subsection \<open>Counting and handing out\<close>

lemma guard_operate_cash_Inr: "guard_operate_cash c actor p = Inr u \<longleftrightarrow> (\<exists>m. request_member c = Some m \<and> mb_active m
    \<and> mb_user m = actor \<and> mb_role m \<in> set operate_cash_roles \<and> can_access_property c p)"
  by (simp add: guard_operate_cash_def assert_role_Inr)

text \<open>C21: Closing a drawer stores the count and compares it with the sum of its movements. It takes the cashier, or an
  administrator or manager who forces it while the cashier is no longer active at the property or the drawer is
  older than the limit; a forced close and a count that is off need a reason; and the drawer is closed at once
  exactly when the variance is within the limit of its property and currency, otherwise it waits for a review.\<close>

theorem close_compares:
  assumes run: "close_shift x actor i tally reason key force d = Inr (t, row)"
    and new: "known_command d ''CloseCashShift'' (trim key) = None"
    and s: "find_row sh_id i (shifts d) = Some s" "sh_state s = Shift_Open"
  shows "\<exists>u. row = Shift_Row u \<and> find_row sh_id i (shifts t) = Some u
    \<and> sh_expected u = Some (current_expected d i) \<and> sh_counted u = Some tally \<and> sh_variance u = Some (tally - current_expected d i)
    \<and> (sh_state u = Shift_Closed \<longleftrightarrow> \<bar>tally - current_expected d i\<bar> \<le> variance_limit x d s)
    \<and> (sh_state u = Shift_Variance_review \<longleftrightarrow> \<bar>tally - current_expected d i\<bar> > variance_limit x d s)
    \<and> (actor = sh_cashier s \<or> force \<and> (\<exists>m. request_member (at_request x) = Some m \<and> mb_role m \<in> {Role_Administrator, Role_Manager})
         \<and> (\<not> cashier_active d s \<or> sh_opened s \<le> now x - max 1 (stale_hours x) * 3600))
    \<and> (force \<or> tally \<noteq> current_expected d i \<longrightarrow> trim (or_default reason []) \<noteq> [])
    \<and> movements t = movements d \<and> core t = core d"
proof -
  from run new obtain v c where body: "close_body x actor i tally reason force d = Inr (v, row)"
      and t: "t = v\<lparr>commands := commands v @ [c]\<rparr>"
    unfolding close_shift_def by (rule run_command_new)
  from body s show ?thesis
  proof (cases rule: close_body_Inr)
    case (closed s')
    with s have s': "s' = s" and i: "sh_id s = i" by (auto dest: find_row_Some)
    let ?u = "closed_shift x actor d tally reason s"
    have row: "row = Shift_Row ?u" "t = (update_shift ?u d)\<lparr>commands := commands v @ [c]\<rparr>"
      using closed(6,7) t by (simp_all add: s')
    have found: "find_row sh_id i (shifts t) = Some ?u"
      using find_row_replace [OF _ s(1), of ?u] by (simp add: row(2) update_shift_def i)
    have state: "sh_state ?u = (if \<bar>tally - current_expected d i\<bar> > variance_limit x d s then Shift_Variance_review else Shift_Closed)"
      by (simp add: closed_shift_def i)
    have who: "actor = sh_cashier s \<or> force \<and> (\<exists>m. request_member (at_request x) = Some m \<and> mb_role m \<in> {Role_Administrator, Role_Manager})
         \<and> (\<not> cashier_active d s \<or> sh_opened s \<le> now x - max 1 (stale_hours x) * 3600)"
      using closed(4) by (auto simp: s' may_force_def stale_before_def split: option.splits)
    have frame: "movements t = movements d" "core t = core d" by (simp_all add: row(2) update_shift_def)
    show ?thesis
      using row(1) found state who frame closed(5)
      by (intro exI [of _ ?u] conjI) (auto simp: i not_less)
  qed simp
qed

lemma refund_drawer_Inr:
  assumes "refund_drawer d actor drawer r p = Inr a"
  shows "a \<in> set (shifts d)" "drawer = Some (sh_id a)" "sh_state a = Shift_Open" "sh_cashier a = actor"
    "sh_currency a = py_currency p"
  using assms by (auto simp: refund_drawer_def bindE_eq_Inr find_or_fail_Inr dest!: find_row_Some split: option.splits if_splits)

lemma assert_evidence_Inr:
  assumes "assert_evidence d evidence q p = Inr u"
  obtains e where "e \<in> set (evidences d)" "evidence = Some (ge_id e)" "usable_evidence e q p"
  using assms by (auto simp: assert_evidence_def bindE_eq_Inr find_or_fail_Inr dest!: find_row_Some split: option.splits if_splits)

lemma refund_dispensed:
  assumes go: "dispense (refund_movement x actor a ch reference key payload) d = Inr d2" and t: "movements t = movements d2"
  shows "\<exists>m \<in> set (movements t). mv_type m = Move_Refund \<and> mv_refund m = Some (ch_id ch)"
    and "(\<exists>m \<in> set (movements d). mv_type m = Move_Refund \<and> mv_refund m = Some (ch_id ch)) \<and> movements t = movements d
         \<or> current_expected t (sh_id a) = current_expected d (sh_id a) - change_amount ch"
    and "changes (core d2) = changes (core d)"
proof -
  let ?goal = "(\<exists>m \<in> set (movements t). mv_type m = Move_Refund \<and> mv_refund m = Some (ch_id ch))
    \<and> ((\<exists>m \<in> set (movements d). mv_type m = Move_Refund \<and> mv_refund m = Some (ch_id ch)) \<and> movements t = movements d
       \<or> current_expected t (sh_id a) = current_expected d (sh_id a) - change_amount ch) \<and> changes (core d2) = changes (core d)"
  have ?goal
  proof (cases "\<exists>n \<in> set (movements d). mv_refund n = Some (ch_id ch) \<and> mv_type n = Move_Refund")
    case True
    with go have "d2 = d" by (simp add: dispense_def refund_movement_def)
    with True t show ?thesis by auto
  next
    case False
    with go obtain n where n: "insert_movement (refund_movement x actor a ch reference key payload) d = Inr (d2, n)"
      unfolding dispense_def by (auto simp: bindE_eq_Inr refund_movement_def)
    note n' = insert_movement_Inr(1,2) [OF n]
    have moved: "movements t = movements d @ [n]" by (simp add: t n'(2) take_id_def)
    have "mv_type n = Move_Refund" "mv_refund n = Some (ch_id ch)" "mv_shift n = sh_id a" "mv_amount n = - change_amount ch"
      by (simp_all add: n'(1) refund_movement_def)
    with moved current_expected_snoc [OF moved] show ?thesis by (auto simp: n'(2) take_id_def)
  qed
  then show "\<exists>m \<in> set (movements t). mv_type m = Move_Refund \<and> mv_refund m = Some (ch_id ch)"
    and "(\<exists>m \<in> set (movements d). mv_type m = Move_Refund \<and> mv_refund m = Some (ch_id ch)) \<and> movements t = movements d
         \<or> current_expected t (sh_id a) = current_expected d (sh_id a) - change_amount ch"
    and "changes (core d2) = changes (core d)" by blast+
qed

text \<open>C20: A refund leaves the desk only with its proof. Completing a manual refund takes an administrator, manager or
  finance member; cash comes out of an open drawer of the acting cashier in the currency of the payment, whose
  expected cash falls by exactly the refund unless that refund was handed out before, and any other channel needs
  approved evidence of this very request with a clean scan.\<close>

theorem refund_needs_proof:
  assumes run: "complete_external x actor k reference key evidence drawer d = Inr (t, row)"
    and new: "known_command d ''CompleteManualExternalRefund'' (trim key) = None" and ok: "desk_ok d"
  shows "\<exists>q p ch. find_row ch_id k (changes (core d)) = Some q \<and> refund_payment (core d) q = Inr p \<and> py_origin p = Origin_Manual
    \<and> row = Change_Row ch \<and> ch \<in> set (changes (core t)) \<and> ch_type ch = ''refund_completed''
    \<and> (\<exists>m. request_member (at_request x) = Some m \<and> mb_active m \<and> mb_user m = actor \<and> mb_role m \<in> set resolve_roles)
    \<and> (if py_channel p = Ch_Cash
       then (\<exists>s \<in> set (shifts d). drawer = Some (sh_id s) \<and> sh_state s = Shift_Open \<and> sh_cashier s = actor
               \<and> sh_currency s = py_currency p
               \<and> (\<exists>m \<in> set (movements t). mv_type m = Move_Refund \<and> mv_refund m = Some (ch_id ch))
               \<and> ((\<exists>m \<in> set (movements d). mv_type m = Move_Refund \<and> mv_refund m = Some (ch_id ch)) \<and> movements t = movements d
                  \<or> current_expected t (sh_id s) = current_expected d (sh_id s) - change_amount ch))
       else movements t = movements d \<and> (\<exists>e \<in> set (evidences d). evidence = Some (ge_id e) \<and> ge_status e = Ev_Approved
               \<and> ge_refund e = Some (ch_id q) \<and> ge_scan e \<in> {''accepted'', ''clean''}))"
proof -
  from run new obtain v c where body: "complete_body x actor k reference key evidence drawer d = Inr (v, row)"
      and t: "t = v\<lparr>commands := commands v @ [c]\<rparr>"
    unfolding complete_external_def by (rule run_command_new)
  from body obtain q r p s ch d2 where q: "find_row ch_id k (changes (core d)) = Some q" and p: "refund_payment (core d) q = Inr p"
      and g: "guard_resolve (at_request x) actor (r_property r) = Inr ()" and o: "py_origin p = Origin_Manual"
      and done': "complete_refund (at_request x) (ch_id q) (trim reference) (Some actor) (core d) = Inr (s, ch)"
      and m: "(py_channel p = Ch_Cash \<and> (\<exists>a. refund_drawer d actor drawer r p = Inr a
        \<and> dispense (refund_movement x actor a ch (trim reference) key (complete_payload k reference evidence drawer)) (d\<lparr>core := s\<rparr>) = Inr d2))
     \<or> (py_channel p \<noteq> Ch_Cash \<and> assert_evidence d evidence q p = Inr () \<and> d2 = d\<lparr>core := s\<rparr>)"
      and v: "v = link_evidence evidence p ch d2" and row: "row = Change_Row ch"
    by (rule complete_body_Inr)
  have books: "books (core d)" using ok by (simp add: desk_ok_def)
  have frame: "movements t = movements d2" "core t = core d2" by (simp_all add: t v link_evidence_def split: option.splits)
  have member: "\<exists>m. request_member (at_request x) = Some m \<and> mb_active m \<and> mb_user m = actor \<and> mb_role m \<in> set resolve_roles"
    using g by (auto simp: guard_resolve_def assert_role_Inr)
  have same: "current_expected (d\<lparr>core := s\<rparr>) k = current_expected d k" for k
    by (rule current_expected_cong) simp
  have cash: "\<exists>a \<in> set (shifts d). drawer = Some (sh_id a) \<and> sh_state a = Shift_Open \<and> sh_cashier a = actor
               \<and> sh_currency a = py_currency p
               \<and> (\<exists>m \<in> set (movements t). mv_type m = Move_Refund \<and> mv_refund m = Some (ch_id ch))
               \<and> ((\<exists>m \<in> set (movements d). mv_type m = Move_Refund \<and> mv_refund m = Some (ch_id ch)) \<and> movements t = movements d
                  \<or> current_expected t (sh_id a) = current_expected d (sh_id a) - change_amount ch) \<and> changes (core d2) = changes s"
    if channel: "py_channel p = Ch_Cash"
  proof -
    from m channel obtain a where a: "refund_drawer d actor drawer r p = Inr a"
        and go: "dispense (refund_movement x actor a ch (trim reference) key (complete_payload k reference evidence drawer)) (d\<lparr>core := s\<rparr>) = Inr d2"
      by auto
    show ?thesis
      using refund_drawer_Inr [OF a] refund_dispensed [OF go frame(1)] by (intro bexI [of _ a]) (simp_all add: same)
  qed
  have other: "movements t = movements d \<and> changes (core d2) = changes s \<and> (\<exists>e \<in> set (evidences d). evidence = Some (ge_id e) \<and> ge_status e = Ev_Approved
               \<and> ge_refund e = Some (ch_id q) \<and> ge_scan e \<in> {''accepted'', ''clean''})" if channel: "py_channel p \<noteq> Ch_Cash"
  proof -
    from m channel have d2: "d2 = d\<lparr>core := s\<rparr>" and e: "assert_evidence d evidence q p = Inr ()" by auto
    from e show ?thesis by (rule assert_evidence_Inr) (auto simp: frame d2 usable_evidence_def)
  qed
  have "changes (core d2) = changes s" using cash other by (cases "py_channel p = Ch_Cash") auto
  with completed_change [OF done' books] have "ch \<in> set (changes (core t)) \<and> ch_type ch = ''refund_completed''" by (simp add: frame)
  with q p o row member cash other show ?thesis
    by (intro exI [of _ q] exI [of _ p] exI [of _ ch]) (simp, blast)
qed

subsection \<open>Examples\<close>

text \<open>One manager at the desk of the small property; keys and references of the examples hold no digits.\<close>

definition demo_desk_ctx :: desk_ctx where
  "demo_desk_ctx = \<lparr>at_request = demo_ctx\<lparr>request_member := Some \<lparr>mb_user = 1, mb_role = Role_Manager, mb_active = True, mb_property = None\<rparr>\<rparr>,
     digest = (\<lambda>_. ''c''), text_hash = (\<lambda>_. ''c''), stale_hours = 24, variance_threshold = 500\<rparr>"

definition demo_desk :: desk where
  "demo_desk = \<lparr>core = demo_db, shifts = [], movements = [], tenders = [], evidences = [], audits = [], commands = [],
     variance_limits = (\<lambda>_. [])\<rparr>"

definition demo_cash :: desk_input where
  "demo_cash = \<lparr>fd_reservation = 6, fd_channel = Ch_Cash, fd_amount = 40000, fd_key = ''cash-key-a'', fd_deposit = None,
     fd_processor = None, fd_merchant = None, fd_terminal = None, fd_transaction = None, fd_authorization = None,
     fd_batch = None, fd_brand = None, fd_last_four = None, fd_note = None, fd_fields = [], fd_justification = None\<rparr>"

definition demo_terminal :: desk_input where
  "demo_terminal = demo_cash\<lparr>fd_channel := Ch_External_terminal, fd_processor := Some ''acme''\<rparr>"

definition demo_shift :: shift where
  "demo_shift = (new_shift demo_desk_ctx 1 1 ''COP'' 500 ''open-key-a'' ''c'')\<lparr>sh_id := 20\<rparr>"

definition demo_open_desk :: desk where
  "demo_open_desk = demo_desk\<lparr>core := demo_db\<lparr>next_id := 22\<rparr>, shifts := [demo_shift],
     movements := [(float_movement demo_desk_ctx 1 demo_shift ''open-key-a'')\<lparr>mv_id := 21\<rparr>]\<rparr>"

lemmas demo_desk_defs = demo_desk_ctx_def demo_desk_def demo_open_desk_def demo_shift_def new_shift_def float_movement_def
  blank_movement_def demo_defs

lemma demo_checksum [simp]: "checksum demo_desk_ctx v = ''c''"
  by (simp add: checksum_def demo_desk_ctx_def)

lemma demo_desk_ok: "desk_ok demo_desk"
  by (simp add: desk_ok_def drawer_ok_def tenders_ok_def commands_ok_def demo_desk_def demo_defs books_defs)

lemma demo_open_desk_ok: "desk_ok demo_open_desk"
  by (simp add: desk_ok_def drawer_ok_def tenders_ok_def commands_ok_def demo_desk_defs books_defs linked_def in_drawer_def
      shift_ok_def float_of_def)

lemma demo_safe: "assert_safe [] (tender_values (base_tender demo_desk_ctx 1 (demo_reservation 6 st) demo_cash)) field [] = Inr ()"
  by (rule digitless_value)
    (simp_all add: tender_values_def base_tender_def demo_cash_def demo_reservation_def normalize_def clean_def or_default_def
      trim_def lower_def upper_def upper_char_def v_opt_def decoded_array_def is_digit_def)

lemma demo_valid: "validate_input (at_request demo_desk_ctx) 1 1 demo_cash = Inr ()"
  by code_simp

lemma demo_front_desk:
  "succeeds_with (\<lambda>(t, p). py_amount p = 40000 \<and> next_id t = 24)
     (record_front_desk (at_request demo_desk_ctx) 6 Ch_Cash 40000 (Some 1) None (core demo_open_desk))"
  by code_simp

lemma demo_keys: "valid_key (trim ''cash-key-a'')" "valid_key (trim ''card-key-a'')" "valid_key (trim ''open-key-a'')"
  by code_simp+

lemma demo_reservation_found: "find_reservation (core demo_open_desk) 6 = Some (demo_reservation 6 R_Confirmed)"
  by (simp add: demo_desk_defs find_row_def)

lemma demo_cash_run: "\<exists>t row. record_desk_payment demo_desk_ctx 1 demo_cash demo_open_desk = Inr (t, row)"
proof -
  let ?x = demo_desk_ctx and ?d = demo_open_desk and ?r = "demo_reservation 6 R_Confirmed"
  have i [simp]: "fd_channel demo_cash = Ch_Cash" "fd_amount demo_cash = 40000" "fd_reservation demo_cash = 6" "fd_deposit demo_cash = None"
      "fd_fields demo_cash = []" "fd_key demo_cash = ''cash-key-a''"
    by (simp_all add: demo_cash_def)
  have r [simp]: "r_property ?r = 1" "r_currency ?r = ''COP''" "r_id ?r = 6" by (simp_all add: demo_reservation_def)
  obtain s p where front: "record_front_desk (at_request ?x) 6 Ch_Cash 40000 (Some 1) None (core ?d) = Inr (s, p)"
      and p: "py_amount p = 40000"
    using demo_front_desk by (auto elim: succeeds_withE)
  have tables: "tenders ?d = []" "commands ?d = []" "shifts ?d = [demo_shift]" "memberships (core ?d) = []"
    by (simp_all add: demo_desk_defs)
  have shift: "sh_property demo_shift = 1" "sh_cashier demo_shift = 1" "sh_currency demo_shift = ''COP''" "sh_state demo_shift = Shift_Open"
    by (simp_all add: demo_desk_defs)
  have guard: "guard_record_tender (at_request ?x) 1 1 = Inr ()"
    by (simp add: guard_record_tender_def assert_role_def record_tender_roles_def can_access_property_def property_scope_def demo_desk_ctx_def)
  have home: "find_or_fail ''properties'' prop_id 1 (properties (core ?d)) = Inr \<lparr>prop_id = 1, prop_active = True\<rparr>"
    by (simp add: find_or_fail_def find_row_def demo_desk_defs)
  define b where "b = (base_tender ?x 1 ?r demo_cash)\<lparr>td_payment := Some (py_id p)\<rparr>"
  have "tender_values b = tender_values (base_tender ?x 1 ?r demo_cash)" by (simp add: b_def tender_values_def)
  then have safe: "assert_safe [] (tender_values b) ''PaymentTenderDetail'' [] = Inr ()" using demo_safe by simp
  have b: "td_state b = ''posted''" "td_payment b = Some (py_id p)" "td_channel b = Ch_Cash"
    by (simp_all add: b_def base_tender_def)
  obtain d2 q where detail: "create_detail ?x 1 demo_cash b (?d\<lparr>core := s\<rparr>) = Inr (d2, q)" and d2: "movements d2 = movements ?d"
    by (simp add: create_detail_def insert_tender_def safe b tables take_id_def Let_def)
  have "\<exists>e m. insert_movement (payment_movement ?x 1 ?r demo_shift p demo_cash) d2 = Inr (e, m)"
    by (simp add: insert_movement_def d2 payment_movement_def p demo_desk_defs Let_def)
  then obtain e m where move: "insert_movement (payment_movement ?x 1 ?r demo_shift p demo_cash) d2 = Inr (e, m)" by blast
  have "post_tender ?x 1 ?r demo_cash (Some demo_shift) ?d = Inr (tell_posted ?x q p ?r demo_cash e, q)"
    by (simp add: post_tender_def on_core_def front detail [unfolded b_def] move del: One_nat_def)
  then have "take_payment ?x 1 demo_cash ?d = Inr (tell_posted ?x q p ?r demo_cash e, q)"
    using demo_reservation_found
    by (simp add: take_payment_def reservation_or_fail_def find_or_fail_def guard demo_valid home [unfolded find_or_fail_def]
        open_drawer_def tables shift Let_def del: One_nat_def)
  then show ?thesis
    by (simp add: record_desk_payment_def run_command_def known_command_def tables demo_keys Let_def del: One_nat_def)
qed

text \<open>A cash drawer can owe money. Only a pay-out is compared with the expected cash: correcting a pay-in after
  its money went out takes the drawer below zero.\<close>

theorem drawer_overdrawn:
  "\<exists>t s. desk_ok demo_desk \<and> desk_step\<^sup>*\<^sup>* demo_desk t \<and> s \<in> set (shifts t) \<and> sh_state s = Shift_Open
     \<and> current_expected t (sh_id s) = - 100"
proof -
  let ?run = "desk_run demo_desk_ctx 1 [Open_shift 1 ''cop'' 0 ''open-key-a'', Move_cash 20 Move_Pay_in 100 ''bank'' ''cash-in-a'' None,
      Move_cash 20 Move_Pay_out 100 ''change'' ''cash-out-a'' None, Move_cash 20 Move_Correction 100 ''wrong'' ''cash-fix-a'' (Some 22)]
      demo_desk"
  have "succeeds_with (\<lambda>t. current_expected t 20 = - 100 \<and> map (\<lambda>s. (sh_id s, sh_state s)) (shifts t) = [(20, Shift_Open)]) ?run"
    by code_simp
  then obtain t where go: "?run = Inr t" and t: "current_expected t 20 = - 100 \<and> map (\<lambda>s. (sh_id s, sh_state s)) (shifts t) = [(20, Shift_Open)]"
    by (rule succeeds_withE)
  from go have run: "desk_step\<^sup>*\<^sup>* demo_desk t" by (rule desk_run_steps)
  from t obtain s where "shifts t = [s]" "sh_id s = 20" "sh_state s = Shift_Open" by auto
  with run t demo_desk_ok show ?thesis by (intro exI [of _ t] exI [of _ s]) simp
qed

text \<open>A justification longer than 160 bytes is always refused, although the resolution of a false card number accepts
  20 to 500 characters.\<close>

theorem long_justification_refused:
  assumes "fd_justification i = Some j" and "160 < length j"
    and "known_command d ''RecordFrontDeskPayment'' (trim (fd_key i)) = None"
  shows "\<exists>e. record_desk_payment x actor i d = Inl e"
proof (cases "record_desk_payment x actor i d")
  case (Inr a)
  then obtain t row where "record_desk_payment x actor i d = Inr (t, row)" by (cases a) simp
  from this assms(3) obtain u q c where take: "take_payment x actor i d = Inr (u, q)" by (rule record_desk_payment_new)
  note run = take [unfolded take_payment_def Let_def run_simps]
  from run obtain c p y where "validate_input c actor p i = Inr y" by blast
  then have "assert_lengths i = Inr ()" by (auto simp: validate_input_def bindE_eq_Inr split: if_splits)
  moreover have "(''luhnFalsePositiveJustification'', j) \<in> set (input_texts i)" using assms(1) by (simp add: input_texts_def)
  ultimately have "length j \<le> 160" by (force simp: assert_lengths_def allE_eq_Inr split: if_splits)
  with assms(2) show ?thesis by simp
qed simp

theorem retry_answers_first_witness:
  "\<exists>t row q. record_desk_payment demo_desk_ctx 1 demo_cash demo_open_desk = Inr (t, row)
     \<and> record_desk_payment demo_desk_ctx 7 demo_cash t = Inr (t, q) \<and> row_key q = row_key row"
proof -
  obtain t row where run: "record_desk_payment demo_desk_ctx 1 demo_cash demo_open_desk = Inr (t, row)"
    using demo_cash_run by blast
  with retry_answers_first [OF run demo_open_desk_ok rtranclp.rtrancl_refl refl, of demo_desk_ctx 7] show ?thesis by auto
qed

theorem cash_payment_exact_witness:
  "\<exists>t row. record_desk_payment demo_desk_ctx 1 demo_cash demo_open_desk = Inr (t, row) \<and> current_expected t 20 = 40500"
proof -
  obtain t row where run: "record_desk_payment demo_desk_ctx 1 demo_cash demo_open_desk = Inr (t, row)"
    using demo_cash_run by blast
  have cash: "fd_channel demo_cash = Ch_Cash" by (simp add: demo_cash_def)
  have new: "known_command demo_open_desk ''RecordFrontDeskPayment'' (trim (fd_key demo_cash)) = None"
    by (simp add: known_command_def demo_desk_defs)
  have r: "find_reservation (core demo_open_desk) (fd_reservation demo_cash) = Some (demo_reservation 6 R_Confirmed)"
    using demo_reservation_found by (simp add: demo_cash_def)
  have start: "current_expected demo_open_desk 20 = 500" "\<forall>s \<in> set (shifts demo_open_desk). sh_id s = 20"
    by (simp_all add: current_expected_def demo_desk_defs)
  from cash_payment_exact [OF run cash demo_open_desk_ok new r] start have "current_expected t 20 = 500 + fd_amount demo_cash"
    by (elim exE conjE) simp
  with run show ?thesis by (auto simp: demo_cash_def)
qed

theorem drawer_reconciles_witness:
  "\<exists>t s. desk_step\<^sup>*\<^sup>* demo_open_desk t \<and> s \<in> set (shifts t) \<and> current_expected t 20 = drawer_content t s"
proof -
  obtain t row where run: "record_desk_payment demo_desk_ctx 1 demo_cash demo_open_desk = Inr (t, row)"
    using demo_cash_run by blast
  then have "run_desk demo_desk_ctx 1 (Take_payment demo_cash) demo_open_desk = Inr t" by simp
  then have step: "desk_step\<^sup>*\<^sup>* demo_open_desk t" unfolding desk_step_def by blast
  have "demo_shift \<in> set (shifts demo_open_desk)" by (simp add: demo_open_desk_def)
  moreover have "desk_grows demo_open_desk t" by (rule desk.run_extends [OF step demo_open_desk_ok])
  ultimately obtain s where s: "s \<in> set (shifts t)" "sh_id s = sh_id demo_shift" unfolding desk_grows_def by blast
  have "sh_id s = 20" using s(2) by (simp add: demo_desk_defs)
  with drawer_reconciles [OF step demo_open_desk_ok s(1)] step s(1) show ?thesis by auto
qed

theorem terminal_posted_once_witness:
  "\<exists>t a p. desk_step\<^sup>*\<^sup>* demo_open_desk t \<and> a \<in> set (tenders t) \<and> p \<in> set (payments (core t)) \<and> td_payment a = Some (py_id p)"
proof -
  obtain t row where run: "record_desk_payment demo_desk_ctx 1 demo_cash demo_open_desk = Inr (t, row)"
    using demo_cash_run by blast
  then have "run_desk demo_desk_ctx 1 (Take_payment demo_cash) demo_open_desk = Inr t" by simp
  then have step: "desk_step\<^sup>*\<^sup>* demo_open_desk t" unfolding desk_step_def by blast
  have new: "known_command demo_open_desk ''RecordFrontDeskPayment'' (trim (fd_key demo_cash)) = None"
    by (simp add: known_command_def demo_desk_defs)
  from run new obtain u q c where "take_payment demo_desk_ctx 1 demo_cash demo_open_desk = Inr (u, q)"
      and t: "t = u\<lparr>commands := commands u @ [c]\<rparr>"
    by (rule record_desk_payment_new)
  then have q: "q \<in> set (tenders t)" "td_state q = ''posted''"
    using take_payment_writes(2) take_cash_posted by (auto simp: demo_cash_def)
  from terminal_posted_once [OF step demo_open_desk_ok q] step q(1) show ?thesis by blast
qed

theorem one_open_drawer_witness:
  "\<exists>s m. s \<in> set (shifts demo_open_desk) \<and> m \<in> set (movements demo_open_desk) \<and> sh_id s = mv_shift m \<and> sh_currency s = mv_currency m"
proof -
  obtain m where "m \<in> set (movements demo_open_desk)" by (auto simp: demo_open_desk_def)
  with one_open_drawer [OF rtranclp.rtrancl_refl demo_open_desk_ok] show ?thesis by blast
qed

theorem counted_shift_frozen_witness:
  "\<exists>d t s u. desk_step\<^sup>*\<^sup>* d t \<and> length (shifts t) = 2 \<and> s \<in> set (shifts d) \<and> u \<in> set (shifts t) \<and> u = s \<and> sh_state u = Shift_Closed"
proof -
  let ?first = "desk_run demo_desk_ctx 1 [Open_shift 1 ''cop'' 0 ''open-key-a'', Close_shift 20 0 None ''count-key-a'' False] demo_desk"
  let ?next = "desk_run demo_desk_ctx 1 [Open_shift 1 ''cop'' 0 ''open-key-b'']"
  have "succeeds_with (\<lambda>d. map sh_state (shifts d) = [Shift_Closed] \<and> succeeds_with (\<lambda>t. length (shifts t) = 2) (?next d)) ?first"
    by code_simp
  then obtain d where d: "?first = Inr d" and p: "map sh_state (shifts d) = [Shift_Closed] \<and> succeeds_with (\<lambda>t. length (shifts t) = 2) (?next d)"
    by (rule succeeds_withE)
  from p obtain t where t: "?next d = Inr t" "length (shifts t) = 2" by (auto elim: succeeds_withE)
  have ok: "desk_ok d" by (rule desk.run_keeps [OF desk_run_steps [OF d] demo_desk_ok])
  from p obtain s where s: "s \<in> set (shifts d)" "sh_state s = Shift_Closed" by auto
  from counted_shift_frozen [OF desk_run_steps [OF t(1)] ok s(1)] s(2) obtain u where "u \<in> set (shifts t)" "u = s" by auto
  with s t desk_run_steps [OF t(1)] show ?thesis by blast
qed

theorem close_compares_witness:
  "\<exists>t u. close_shift demo_desk_ctx 1 20 480 (Some ''short'') ''count-key-a'' False demo_open_desk = Inr (t, Shift_Row u)
     \<and> sh_variance u = Some (- 20) \<and> sh_state u = Shift_Closed"
proof -
  let ?run = "close_shift demo_desk_ctx 1 20 480 (Some ''short'') ''count-key-a'' False demo_open_desk"
  have "succeeds_with (\<lambda>_. True) ?run" by code_simp
  then obtain t row where run: "?run = Inr (t, row)" by (auto elim: succeeds_withE)
  have new: "known_command demo_open_desk ''CloseCashShift'' (trim ''count-key-a'') = None"
    by (simp add: known_command_def demo_desk_defs)
  have s: "find_row sh_id 20 (shifts demo_open_desk) = Some demo_shift" "sh_state demo_shift = Shift_Open"
    by (simp_all add: find_row_def demo_desk_defs)
  have e: "current_expected demo_open_desk 20 = 500" "variance_limit demo_desk_ctx demo_open_desk demo_shift = 500"
    by (simp_all add: current_expected_def variance_limit_def or_default_def demo_desk_defs)
  from close_compares [OF run new s] e show ?thesis
    unfolding run by (elim exE conjE) (simp add: run)
qed

text \<open>A desk with an approved proof for the open refund request of the ledger's example.\<close>

definition demo_proof_desk :: desk where
  "demo_proof_desk = demo_desk\<lparr>core := refund_db\<lparr>payments := [paid_row\<lparr>py_channel := Ch_Bank_transfer\<rparr>]\<rparr>, evidences := [\<lparr>ge_id = 15, ge_reservation = 6, ge_payment = Some 10,
     ge_refund = Some 12, ge_tender = None, ge_scan = ''clean'', ge_status = Ev_Approved, ge_reviewed_by = Some 1,
     ge_reviewed_at = Some 0, ge_decided_at = Some 0, ge_note = None, ge_requested_note = None\<rparr>]\<rparr>"

theorem refund_needs_proof_witness:
  "\<exists>t ch. complete_external demo_desk_ctx 1 12 ''slip'' ''refund-key-a'' (Some 15) None demo_proof_desk = Inr (t, Change_Row ch)
     \<and> ch \<in> set (changes (core t)) \<and> ch_type ch = ''refund_completed''"
proof -
  let ?run = "complete_external demo_desk_ctx 1 12 ''slip'' ''refund-key-a'' (Some 15) None demo_proof_desk"
  have "succeeds_with (\<lambda>_. True) ?run" by code_simp
  then obtain t row where run: "?run = Inr (t, row)" by (auto elim: succeeds_withE)
  have new: "known_command demo_proof_desk ''CompleteManualExternalRefund'' (trim ''refund-key-a'') = None"
    by (simp add: known_command_def demo_proof_desk_def demo_desk_def)
  have ok: "desk_ok demo_proof_desk"
    by (simp add: desk_ok_def drawer_ok_def tenders_ok_def commands_ok_def demo_proof_desk_def demo_desk_def refund_defs books_defs)
  from refund_needs_proof [OF run new ok] obtain ch where "row = Change_Row ch" "ch \<in> set (changes (core t))"
      "ch_type ch = ''refund_completed''"
    by blast
  with run show ?thesis by blast
qed

text \<open>A text the resolution accepts and the request does not.\<close>

definition demo_reason :: string where
  "demo_reason = replicate 170 (CHR ''a'')"

theorem long_justification_refused_witness:
  "\<exists>e. validate_resolution [] [''transaction_reference''] demo_reason = Inr [''transaction_reference'']
     \<and> record_desk_payment demo_desk_ctx 1 (demo_terminal\<lparr>fd_fields := [''transaction_reference''],
          fd_justification := Some demo_reason\<rparr>) demo_desk = Inl e"
proof -
  have plain: "trim demo_reason = demo_reason" "utf8_characters demo_reason = 170"
    by (simp_all add: demo_reason_def trim_def utf8_characters_def php_blank_def)
  have "decoded_array demo_reason = None" by (simp add: decoded_array_def demo_reason_def)
  then have "assert_safe [] (V_Text demo_reason) field [] = Inr ()" for field
    by (intro digitless_value) (simp_all add: demo_reason_def is_digit_def)
  then have "validate_resolution [] [''transaction_reference''] demo_reason = Inr [''transaction_reference'']"
    by (simp add: validate_resolution_def validate_fields_def resolvable_fields_def array_unique_def plain Let_def)
  moreover have "known_command demo_desk ''RecordFrontDeskPayment'' k = None" for k
    by (simp add: known_command_def demo_desk_def)
  moreover have "160 < length demo_reason" by (simp add: demo_reason_def)
  ultimately show ?thesis
    using long_justification_refused [of "demo_terminal\<lparr>fd_fields := [''transaction_reference''], fd_justification := Some demo_reason\<rparr>"
      demo_reason demo_desk demo_desk_ctx 1] by simp
qed

lemma demo_terminal_valid: "validate_input (at_request demo_desk_ctx) 1 1 demo_terminal = Inr ()"
  by code_simp

lemma demo_terminal_run: "\<exists>t row. record_desk_payment demo_desk_ctx 1 demo_terminal demo_desk = Inr (t, row)"
proof -
  let ?x = demo_desk_ctx and ?d = demo_desk and ?r = "demo_reservation 6 R_Confirmed"
  have i [simp]: "fd_channel demo_terminal = Ch_External_terminal" "fd_amount demo_terminal = 40000" "fd_reservation demo_terminal = 6"
      "fd_fields demo_terminal = []" "fd_key demo_terminal = ''cash-key-a''"
    by (simp_all add: demo_terminal_def demo_cash_def)
  have r: "find_reservation (core ?d) 6 = Some ?r" "r_property ?r = 1" by (simp_all add: demo_desk_defs find_row_def)
  have guard: "guard_record_tender (at_request ?x) 1 1 = Inr ()"
    by (simp add: guard_record_tender_def assert_role_def record_tender_roles_def can_access_property_def property_scope_def demo_desk_ctx_def)
  have home: "find_or_fail ''properties'' prop_id 1 (properties (core ?d)) = Inr \<lparr>prop_id = 1, prop_active = True\<rparr>"
    by (simp add: find_or_fail_def find_row_def demo_desk_defs)
  have miss: "missing_identity (base_tender ?x 1 ?r demo_terminal)"
    by (simp add: missing_identity_def base_tender_def demo_terminal_def demo_cash_def normalize_def or_default_def trim_def lower_def)
  define b where "b = (base_tender ?x 1 ?r demo_terminal)\<lparr>td_state := ''identity_exception'', td_review_reason := Some identity_reason\<rparr>"
  have acme: "normalize (Some ''acme'') = Some ''acme''" by code_simp
  have safe: "assert_safe [] (tender_values b) ''PaymentTenderDetail'' [] = Inr ()"
    by (rule digitless_value)
      (simp_all add: b_def tender_values_def base_tender_def demo_terminal_def demo_cash_def demo_reservation_def acme,
       simp_all add: normalize_def clean_def or_default_def trim_def lower_def upper_def upper_char_def v_opt_def decoded_array_def is_digit_def)
  have b: "td_state b = ''identity_exception''" "td_payment b = None" "tenders ?d = []" "commands ?d = []"
    by (simp_all add: b_def base_tender_def demo_desk_def)
  obtain t q where "create_detail ?x 1 demo_terminal b ?d = Inr (t, q)"
    by (simp add: create_detail_def insert_tender_def safe b take_id_def Let_def)
  then have "take_payment ?x 1 demo_terminal ?d = Inr (t, q)"
    using r by (simp add: take_payment_def reservation_or_fail_def find_or_fail_def guard demo_terminal_valid
        home [unfolded find_or_fail_def] miss b_def Let_def del: One_nat_def)
  then show ?thesis
    by (simp add: record_desk_payment_def run_command_def known_command_def b demo_keys Let_def del: One_nat_def)
qed

theorem set_aside_posts_nothing_witness:
  "\<exists>t q. record_desk_payment demo_desk_ctx 1 demo_terminal demo_desk = Inr (t, Tender_Row q) \<and> td_state q = ''identity_exception''
     \<and> payments (core t) = payments (core demo_desk)"
proof -
  obtain t row where run: "record_desk_payment demo_desk_ctx 1 demo_terminal demo_desk = Inr (t, row)"
    using demo_terminal_run by blast
  have miss: "missing_identity (base_tender demo_desk_ctx 1 (demo_reservation 6 R_Confirmed) demo_terminal)"
    by (simp add: missing_identity_def base_tender_def demo_terminal_def demo_cash_def normalize_def or_default_def trim_def lower_def)
  have channel: "fd_channel demo_terminal = Ch_External_terminal" by (simp add: demo_terminal_def)
  have new: "known_command demo_desk ''RecordFrontDeskPayment'' (trim (fd_key demo_terminal)) = None"
    by (simp add: known_command_def demo_desk_def)
  have r: "find_reservation (core demo_desk) (fd_reservation demo_terminal) = Some (demo_reservation 6 R_Confirmed)"
    by (simp add: demo_desk_defs find_row_def demo_terminal_def demo_cash_def)
  from set_aside_posts_nothing [OF run channel new r disjI1 [OF miss]] run miss show ?thesis by auto
qed

end
