(* ===== verification/Site.thy ===== *)
theory Site
  imports Prelude
begin

text \<open>
  The public web site, \<^verbatim>\<open>apps/web\<close>: the four routes of the Next.js application, the layout
  around them and \<^verbatim>\<open>next.config.ts\<close>. A component is the tree of elements its function returns;
  what React and Next make of the tree is theirs and is not modelled. Text is UTF-8, so the few
  characters outside ASCII are named byte strings. The build environment is a parameter \<open>env\<close>, the
  year of the footer one of \<open>root_layout\<close>.

  The theorems are about the documents the site serves: where their links lead, which elements and
  attributes they may contain, that rendered arrays have distinct keys and how a price card is built.

\<close>

subsection \<open>Elements\<close>

text \<open>
  \<open>Tag\<close> is a host element, \<open>Link_to\<close> the \<^verbatim>\<open>Link\<close> component of \<^verbatim>\<open>next/link\<close>, \<open>Fragment\<close> is
  \<^verbatim>\<open><>...</>\<close>, \<open>Many\<close> an array among the children and \<open>Hidden\<close> a child that renders nothing
  (\<open>false\<close> or \<open>undefined\<close>, as \<^verbatim>\<open>cond && element\<close> gives it).
\<close>

datatype jsx =
    Txt string
  | Tag string "(string \<times> string) list" "jsx list"
  | Link_to "(string \<times> string) list" "jsx list"
  | Fragment "jsx list"
  | Many "jsx list"
  | Hidden

type_synonym env = "string \<Rightarrow> string option"

definition from_env :: "env \<Rightarrow> string \<Rightarrow> string \<Rightarrow> string" where
  "from_env env name fallback = (case env name of None \<Rightarrow> fallback | Some v \<Rightarrow> v)"

definition shown :: "bool \<Rightarrow> jsx \<Rightarrow> jsx" where
  "shown b n = (if b then n else Hidden)"

definition starts_with :: "string \<Rightarrow> string \<Rightarrow> bool" where
  "starts_with p s \<longleftrightarrow> take (length p) s = p"

definition em_dash :: string where "em_dash = [CHR 0xE2, CHR 0x80, CHR 0x94]"

definition en_dash :: string where "en_dash = [CHR 0xE2, CHR 0x80, CHR 0x93]"

definition open_quote :: string where "open_quote = [CHR 0xE2, CHR 0x80, CHR 0x9C]"

definition close_quote :: string where "close_quote = [CHR 0xE2, CHR 0x80, CHR 0x9D]"

definition arrow :: string where "arrow = [CHR 0xE2, CHR 0x86, CHR 0x92]"

definition mid_dot :: string where "mid_dot = [CHR 0xC2, CHR 0xB7]"

definition copyright :: string where "copyright = [CHR 0xC2, CHR 0xA9]"

subsection \<open>The home page\<close>

definition home_manage_url :: "env \<Rightarrow> string" where
  "home_manage_url env = from_env env ''NEXT_PUBLIC_MANAGE_URL'' ''http://localhost:8000/manage''"

definition feature_cards :: "(string \<times> string \<times> string) list" where
  "feature_cards =
    [(''01'', ''One reservation book'', ''Replace disconnected room, group, guide, and activity bookings with one reservation and allocation workflow.''),
     (''02'', ''Live operations'', ''Arrivals, departures, housekeeping, kitchen restrictions, guide assignments, and open tasks stay in the same operational picture.''),
     (''03'', ''Money without mystery'', ''Deposits, manual payments, folios, costs, commissions, receivables, and margin use explicit minor-unit accounting.''),
     (''04'', ''Every resource, scheduled'', ''Rooms, guides, horses, vehicles, boats, equipment, blocks, buyouts, and capacity rules share one calendar.''),
     (''05'', ''A guest-ready journey'', ''Secure magic links handle itineraries, pre-arrival details, waivers, payment evidence, folios, and post-stay feedback.''),
     (''06'', ''Built for many lodges'', ''Tenant memberships, property scopes, role permissions, and database-enforced ownership keep each operation isolated.'')]"

definition hero :: "env \<Rightarrow> jsx" where
  "hero env =
    Tag ''section'' [(''className'', ''hero'')] [
      Tag ''div'' [(''className'', ''shell hero-copy'')] [
        Tag ''div'' [(''className'', ''eyebrow'')] [Txt ''Lodge operations, finally connected''],
        Tag ''h1'' [] [Txt ''Run the whole lodge from '', Tag ''span'' [] [Txt ''one calm place.'']],
        Tag ''p'' [(''className'', ''lede'')] [
          Txt (''Inn brings reservations, guest preparation, resources, teams, payments, and reporting together'' @ em_dash @ ''without forcing independent operators into hotel software that does not fit.'')],
        Tag ''div'' [(''className'', ''hero-actions'')] [
          Tag ''a'' [(''className'', ''button''), (''href'', home_manage_url env)] [
            Txt ''Open Inn '',
            Tag ''span'' [(''aria-hidden'', ''true'')] [Txt arrow]],
          Link_to [(''className'', ''button button-secondary''), (''href'', ''/features'')] [
            Txt ''Explore the platform'']]]]"

definition proof_strip :: "jsx" where
  "proof_strip =
    Tag ''section'' [(''className'', ''proof-strip''), (''aria-label'', ''Platform highlights'')] [
      Tag ''div'' [(''className'', ''shell proof-grid'')] [
        Tag ''div'' [(''className'', ''proof-item'')] [
          Tag ''strong'' [] [Txt ''One calendar''],
          Tag ''span'' [] [Txt ''Rooms, guides, activities, and gear'']],
        Tag ''div'' [(''className'', ''proof-item'')] [
          Tag ''strong'' [] [Txt ''One guest record''],
          Tag ''span'' [] [Txt ''Sales history through post-stay care'']],
        Tag ''div'' [(''className'', ''proof-item'')] [
          Tag ''strong'' [] [Txt ''One operations board''],
          Tag ''span'' [] [Txt ''Every role sees the work that matters'']],
        Tag ''div'' [(''className'', ''proof-item'')] [
          Tag ''strong'' [] [Txt ''One source of truth''],
          Tag ''span'' [] [Txt ''Tenant-safe Laravel domain workflows'']]]]"

fun feature_article :: "string \<times> string \<times> string \<Rightarrow> jsx" where
  "feature_article (number, title, description) =
    Tag ''article'' [(''className'', ''feature-card''), (''key'', number)] [
      Tag ''div'' [(''className'', ''number'')] [Txt number],
      Tag ''h3'' [] [Txt title],
      Tag ''p'' [] [Txt description]]"

definition feature_section :: "jsx" where
  "feature_section =
    Tag ''section'' [(''className'', ''section'')] [
      Tag ''div'' [(''className'', ''shell'')] [
        Tag ''div'' [(''className'', ''section-head'')] [
          Tag ''div'' [] [
            Tag ''div'' [(''className'', ''eyebrow'')] [Txt ''The complete operating picture''],
            Tag ''h2'' [] [Txt ''Less tab switching.'', Tag ''br'' [] [], Txt ''More hosting.'']],
          Tag ''p'' [] [
            Txt ''Purpose-built workflows connect the commercial promise to the people, resources, preparation, and money required to deliver it.'']],
        Tag ''div'' [(''className'', ''feature-grid'')] [Many (map feature_article feature_cards)]]]"

definition workspace_section :: "jsx" where
  "workspace_section =
    Tag ''section'' [(''className'', ''section section-dark'')] [
      Tag ''div'' [(''className'', ''shell workspace'')] [
        Tag ''div'' [(''className'', ''workspace-copy'')] [
          Tag ''div'' [(''className'', ''eyebrow'')] [Txt ''The staff workspace''],
          Tag ''h2'' [] [Txt ''Built around the day the lodge is actually having.''],
          Tag ''p'' [] [
            Txt ''The authenticated Inn application runs in Laravel and Filament, so login, roles, tenant switching, workflows, and records share one secure application boundary.''],
          Tag ''ul'' [(''className'', ''check-list'')] [
            Tag ''li'' [] [Txt ''Role-specific calendar and work queues''],
            Tag ''li'' [] [Txt ''Reservation composer with resource conflict checks''],
            Tag ''li'' [] [Txt ''Kitchen, housekeeping, guide, finance, and owner views''],
            Tag ''li'' [] [Txt ''No duplicate frontend authentication or browser API proxy'']]],
        Tag ''div'' [(''className'', ''product-window''), (''aria-label'', ''Illustration of the Inn operations board'')] [
          Tag ''div'' [(''className'', ''window-bar'')] [Tag ''i'' [] [], Tag ''i'' [] [], Tag ''i'' [] []],
          Tag ''div'' [(''className'', ''window-body'')] [
            Tag ''div'' [(''className'', ''window-nav'')] [
              Tag ''strong'' [] [Txt ''Inn''],
              Tag ''span'' [] [Txt ''Operations''],
              Tag ''span'' [] [Txt ''Calendar''],
              Tag ''span'' [] [Txt ''Reservations''],
              Tag ''span'' [] [Txt ''Guests''],
              Tag ''span'' [] [Txt ''Finance'']],
            Tag ''div'' [(''className'', ''window-main'')] [
              Tag ''h3'' [] [Txt ''Today at North Ridge Lodge''],
              Tag ''div'' [(''className'', ''metric-grid'')] [
                Tag ''div'' [(''className'', ''metric'')] [
                  Tag ''b'' [] [Txt ''8''],
                  Tag ''small'' [] [Txt ''Arrivals'']],
                Tag ''div'' [(''className'', ''metric'')] [
                  Tag ''b'' [] [Txt ''5''],
                  Tag ''small'' [] [Txt ''Departures'']],
                Tag ''div'' [(''className'', ''metric'')] [
                  Tag ''b'' [] [Txt ''3''],
                  Tag ''small'' [] [Txt ''Open tasks'']]],
              Tag ''div'' [(''className'', ''schedule-row'')] [
                Tag ''span'' [] [Txt ''08:30''],
                Tag ''b'' [] [Txt ''Laguna trail group''],
                Tag ''span'' [(''className'', ''tag'')] [Txt ''Ready'']],
              Tag ''div'' [(''className'', ''schedule-row'')] [
                Tag ''span'' [] [Txt ''11:00''],
                Tag ''b'' [] [Txt (''Rooms 4'' @ en_dash @ ''8 turnover'')],
                Tag ''span'' [(''className'', ''tag'')] [Txt ''In progress'']],
              Tag ''div'' [(''className'', ''schedule-row'')] [
                Tag ''span'' [] [Txt ''15:20''],
                Tag ''b'' [] [Txt (''Airport arrival '' @ mid_dot @ '' 6 guests'')],
                Tag ''span'' [(''className'', ''tag'')] [Txt ''Assigned'']],
              Tag ''div'' [(''className'', ''schedule-row'')] [
                Tag ''span'' [] [Txt ''18:30''],
                Tag ''b'' [] [Txt ''Dietary prep review''],
                Tag ''span'' [(''className'', ''tag'')] [Txt ''2 alerts'']]]]]]]"

definition story_section :: "jsx" where
  "story_section =
    Tag ''section'' [(''className'', ''section section-muted'')] [
      Tag ''div'' [(''className'', ''shell'')] [
        Tag ''div'' [(''className'', ''section-head'')] [
          Tag ''div'' [] [
            Tag ''div'' [(''className'', ''eyebrow'')] [Txt ''Designed for independent hospitality''],
            Tag ''h2'' [] [Txt ''Your operation is not a generic hotel.'']],
          Tag ''p'' [] [
            Txt ''Inn respects programs, guides, shared resources, remote logistics, group travel, and the high-touch guest care that defines a great lodge.'']],
        Tag ''div'' [(''className'', ''story-grid'')] [
          Tag ''article'' [(''className'', ''story'')] [
            Tag ''blockquote'' [] [
              Txt (open_quote @ ''Every team can work from the same reservation without seeing information their role does not need.'' @ close_quote)],
            Tag ''cite'' [] [Txt ''Role-scoped by design'']],
          Tag ''article'' [(''className'', ''story'')] [
            Tag ''blockquote'' [] [
              Txt (open_quote @ ''The calendar understands a room, a guide, and a boat as resources in the same trip.'' @ close_quote)],
            Tag ''cite'' [] [Txt ''One allocation model'']],
          Tag ''article'' [(''className'', ''story'')] [
            Tag ''blockquote'' [] [
              Txt (open_quote @ ''Guest preparation flows directly into the kitchen and operations day.'' @ close_quote)],
            Tag ''cite'' [] [Txt ''Connected workflows'']]]]]"

definition cta_section :: "env \<Rightarrow> jsx" where
  "cta_section env =
    Tag ''section'' [(''className'', ''section'')] [
      Tag ''div'' [(''className'', ''shell cta'')] [
        Tag ''div'' [] [
          Tag ''h2'' [] [Txt ''Make the next arrival day calmer.''],
          Tag ''p'' [] [Txt ''Sign in to your secure Inn workspace and run the operation from one place.'']],
        Tag ''a'' [(''className'', ''button''), (''href'', home_manage_url env)] [
          Txt (''Open the staff application '' @ arrow)]]]"

definition home :: "env \<Rightarrow> jsx" where
  "home env = Fragment [hero env, proof_strip, feature_section, workspace_section, story_section, cta_section env]"

subsection \<open>The layout\<close>

text \<open>
  \<open>new URL\<close> is the parameter \<open>parse_url\<close>; a text it refuses makes the module throw while it is
  loaded, which is \<open>None\<close>.
\<close>

record 'u layout_metadata =
  lm_title_default :: string
  lm_title_template :: string
  lm_description :: string
  lm_base :: 'u
  lm_graph_title :: string
  lm_graph_description :: string
  lm_graph_type :: string

definition layout_metadata_of :: "(string \<Rightarrow> 'u option) \<Rightarrow> env \<Rightarrow> 'u layout_metadata option" where
  "layout_metadata_of parse_url env =
     (case parse_url (from_env env ''NEXT_PUBLIC_SITE_URL'' ''http://localhost:3000'') of
        None \<Rightarrow> None
      | Some base \<Rightarrow> Some \<lparr>
          lm_title_default = ''Inn '' @ em_dash @ '' Run the whole lodge from one place'',
          lm_title_template = ''%s '' @ mid_dot @ '' Inn'',
          lm_description = ''A modern operating system for independent lodges and outfitters: reservations, resources, guests, operations, payments, and reporting in one place.'',
          lm_base = base,
          lm_graph_title = ''Inn'',
          lm_graph_description = ''One operating system for reservations, guests, resources, and lodge operations.'',
          lm_graph_type = ''website''\<rparr>)"

definition layout_manage_url :: "env \<Rightarrow> string" where
  "layout_manage_url env = from_env env ''NEXT_PUBLIC_MANAGE_URL'' ''http://localhost:8000/manage''"

definition root_layout :: "env \<Rightarrow> int \<Rightarrow> jsx \<Rightarrow> jsx" where
  "root_layout env year children =
    Tag ''html'' [(''lang'', ''en''), (''data-scroll-behavior'', ''smooth'')] [
      Tag ''body'' [] [
        Tag ''header'' [(''className'', ''site-header'')] [
          Tag ''div'' [(''className'', ''shell nav-wrap'')] [
            Link_to [(''className'', ''brand''), (''href'', ''/''), (''aria-label'', ''Inn home'')] [
              Tag ''span'' [(''className'', ''brand-mark''), (''aria-hidden'', ''true'')] [Txt ''I''],
              Tag ''span'' [] [Txt ''Inn'']],
            Tag ''nav'' [(''className'', ''main-nav''), (''aria-label'', ''Main navigation'')] [
              Link_to [(''href'', ''/features'')] [Txt ''Features''],
              Link_to [(''href'', ''/pricing'')] [Txt ''Pricing''],
              Link_to [(''href'', ''/security'')] [Txt ''Security'']],
            Tag ''div'' [(''className'', ''nav-actions'')] [
              Tag ''a'' [(''className'', ''text-link''), (''href'', layout_manage_url env @ ''/login'')] [
                Txt ''Sign in''],
              Tag ''a'' [(''className'', ''button button-small''), (''href'', layout_manage_url env)] [
                Txt ''Open Inn'']]]],
        Tag ''main'' [] [children],
        Tag ''footer'' [(''className'', ''site-footer'')] [
          Tag ''div'' [(''className'', ''shell footer-grid'')] [
            Tag ''div'' [] [
              Link_to [(''className'', ''brand footer-brand''), (''href'', ''/'')] [
                Tag ''span'' [(''className'', ''brand-mark''), (''aria-hidden'', ''true'')] [Txt ''I''],
                Tag ''span'' [] [Txt ''Inn'']],
              Tag ''p'' [] [Txt ''Calm operations for remarkable stays.'']],
            Tag ''div'' [] [
              Tag ''strong'' [] [Txt ''Product''],
              Link_to [(''href'', ''/features'')] [Txt ''Features''],
              Link_to [(''href'', ''/pricing'')] [Txt ''Pricing''],
              Link_to [(''href'', ''/security'')] [Txt ''Security'']],
            Tag ''div'' [] [
              Tag ''strong'' [] [Txt ''Application''],
              Tag ''a'' [(''href'', layout_manage_url env @ ''/login'')] [Txt ''Staff sign in''],
              Tag ''a'' [(''href'', layout_manage_url env)] [Txt ''Manage your lodge'']]],
          Tag ''div'' [(''className'', ''shell footer-bottom'')] [
            Txt (copyright @ '' ''),
            Txt (int_text year),
            Txt '' Inn. Built for independent hospitality.'']]]]"

subsection \<open>Features\<close>

record page_metadata =
  md_title :: string
  md_description :: string

definition features_metadata :: page_metadata where
  "features_metadata = \<lparr>md_title = ''Features'',
     md_description = ''Reservations, resources, guest journeys, operations, finance, and reporting for independent lodges.''\<rparr>"

definition platform_sections :: "(string \<times> string \<times> string list) list" where
  "platform_sections =
    [(''Reservations and sales'', ''From inquiry to checkout'',
        [''Unified reservation composer'', ''Guest and companion profiles'', ''Proposal versions and conversion'', ''Deposits, payments, and folios'', ''Reservation status history'']),
     (''Resources and calendar'', ''Every constraint in one schedule'',
        [''Rooms, guides, vehicles, horses, boats, and equipment'', ''Capacity, overlap, block, and buyout checks'', ''Activities and service occurrences'', ''Guide skills and assignment suggestions'', ''Property-local timezone display'']),
     (''Daily operations'', ''The right work for every role'',
        [''Arrival and departure board'', ''Kitchen dietary preparation'', ''Housekeeping turnovers and stayovers'', ''Guide assignments'', ''Generated and assigned task queues'']),
     (''Guest experience'', ''Preparation without another account'',
        [''One-time secure magic links'', ''Itinerary and lodge details'', ''Pre-arrival contact and travel forms'', ''Versioned document acknowledgement'', ''Payment evidence, folio, and feedback'']),
     (''Finance and reporting'', ''Numbers tied to the stay'',
        [''Booked revenue and cash collected'', ''Receivables and deposit status'', ''Program costs and channel commissions'', ''Native-currency margin'', ''Auditable exports and reconciliation'']),
     (''Tenant administration'', ''One platform, separate operations'',
        [''Membership and property scopes'', ''Owner, manager, sales, operations, guide, kitchen, housekeeping, finance, and viewer roles'', ''Tenant-scoped integrations'', ''Private document workflows'', ''Queue and audit context restoration''])]"

definition list_item :: "string \<Rightarrow> jsx" where
  "list_item item =
    Tag ''li'' [(''key'', item)] [Txt item]"

fun section_article :: "string \<times> string \<times> string list \<Rightarrow> jsx" where
  "section_article (title, heading, items) =
    Tag ''article'' [(''className'', ''detail-card''), (''key'', title)] [
      Tag ''div'' [(''className'', ''eyebrow'')] [Txt title],
      Tag ''h3'' [] [Txt heading],
      Tag ''ul'' [] [Many (map list_item items)]]"

definition features_page :: "jsx" where
  "features_page =
    Fragment [
      Tag ''section'' [(''className'', ''page-hero'')] [
        Tag ''div'' [(''className'', ''shell'')] [
          Tag ''div'' [(''className'', ''eyebrow'')] [Txt ''Platform''],
          Tag ''h1'' [] [Txt ''Every workflow around the stay, connected.''],
          Tag ''p'' [(''className'', ''lede'')] [
            Txt ''Inn replaces fragmented spreadsheets and booking variants with a coherent operating model from first inquiry through post-stay closeout.'']]],
      Tag ''section'' [(''className'', ''section'')] [
        Tag ''div'' [(''className'', ''shell detail-grid'')] [Many (map section_article platform_sections)]]]"

subsection \<open>Pricing\<close>

definition pricing_metadata :: page_metadata where
  "pricing_metadata = \<lparr>md_title = ''Pricing'',
     md_description = ''Straightforward Inn plans for independent lodges and multi-property operators.''\<rparr>"

definition pricing_manage_url :: "env \<Rightarrow> string" where
  "pricing_manage_url env = from_env env ''NEXT_PUBLIC_MANAGE_URL'' ''http://localhost:8000/manage''"

record plan =
  plan_name :: string
  plan_price :: string
  plan_note :: string
  plan_featured :: "bool option"
  plan_items :: "string list"

definition featured :: "plan \<Rightarrow> bool" where
  "featured p \<longleftrightarrow> plan_featured p = Some True"

definition plans :: "plan list" where
  "plans =
    [\<lparr>plan_name = ''Single lodge'', plan_price = ''$249'', plan_note = ''For one property building a connected operation.'',
        plan_featured = None,
        plan_items = [''Unlimited staff roles'', ''Reservations and guest CRM'', ''Calendar and operations'', ''Manual payments and folios'', ''Secure guest portal'']\<rparr>,
     \<lparr>plan_name = ''Growing operation'', plan_price = ''$499'', plan_note = ''For teams coordinating multiple programs and properties.'',
        plan_featured = Some True,
        plan_items = [''Everything in Single lodge'', ''Multiple properties'', ''Advanced resource planning'', ''Automation and communications'', ''Finance and channel reporting'']\<rparr>,
     \<lparr>plan_name = ''Portfolio'', plan_price = ''Custom'', plan_note = ''For operators needing implementation and provider activation.'',
        plan_featured = None,
        plan_items = [''Everything in Growing operation'', ''Migration assistance'', ''Custom retention controls'', ''Provider integration rollout'', ''Acceptance and load-test support'']\<rparr>]"

definition price_card :: "env \<Rightarrow> plan \<Rightarrow> jsx" where
  "price_card env plan =
    Tag ''article'' [(''className'', ''price-card'' @ (if featured plan then '' featured'' else [])), (''key'', plan_name plan)] [
      shown (featured plan) (Tag ''span'' [(''className'', ''eyebrow'')] [Txt ''Most popular'']),
      Tag ''h3'' [] [Txt (plan_name plan)],
      Tag ''div'' [(''className'', ''price'')] [
        Txt (plan_price plan),
        shown (starts_with ''$'' (plan_price plan)) (Tag ''small'' [] [Txt '' / month''])],
      Tag ''p'' [] [Txt (plan_note plan)],
      Tag ''ul'' [] [Many (map list_item (plan_items plan))],
      Tag ''a'' [(''className'', ''button''), (''href'', pricing_manage_url env)] [Txt ''Open Inn'']]"

definition pricing_page :: "env \<Rightarrow> jsx" where
  "pricing_page env =
    Fragment [
      Tag ''section'' [(''className'', ''page-hero'')] [
        Tag ''div'' [(''className'', ''shell'')] [
          Tag ''div'' [(''className'', ''eyebrow'')] [Txt ''Pricing''],
          Tag ''h1'' [] [Txt (''Software should simplify the operation'' @ em_dash @ ''not the invoice.'')],
          Tag ''p'' [(''className'', ''lede'')] [
            Txt ''Choose a starting point, then activate provider integrations only when your team is ready to use them.'']]],
      Tag ''section'' [(''className'', ''section'')] [
        Tag ''div'' [(''className'', ''shell price-grid'')] [Many (map (price_card env) plans)]]]"

subsection \<open>Security\<close>

definition security_metadata :: page_metadata where
  "security_metadata = \<lparr>md_title = ''Security'',
     md_description = ''How Inn isolates tenants, protects guest access, and keeps authenticated workflows in Laravel and Filament.''\<rparr>"

definition security_page :: "jsx" where
  "security_page =
    Fragment [
      Tag ''section'' [(''className'', ''page-hero'')] [
        Tag ''div'' [(''className'', ''shell'')] [
          Tag ''div'' [(''className'', ''eyebrow'')] [Txt ''Security architecture''],
          Tag ''h1'' [] [Txt ''One authenticated boundary. Explicit tenant ownership.''],
          Tag ''p'' [(''className'', ''lede'')] [
            Txt ''The public website contains no staff session, tenant data, API proxy, or protected account pages. Authentication and the entire staff application stay inside Laravel and Filament.'']]],
      Tag ''section'' [(''className'', ''section'')] [
        Tag ''div'' [(''className'', ''shell detail-grid'')] [
          Tag ''article'' [(''className'', ''detail-card'')] [
            Tag ''h3'' [] [Txt ''Tenant isolation''],
            Tag ''p'' [] [
              Txt ''Every tenant-owned record carries a tenant ID. Active membership, model scopes, policies, service checks, and database relationships enforce ownership independently.'']],
          Tag ''article'' [(''className'', ''detail-card'')] [
            Tag ''h3'' [] [Txt ''Laravel authentication''],
            Tag ''p'' [] [
              Txt ''Filament uses encrypted Laravel sessions, CSRF protection, password recovery, account security, and recoverable application-based MFA at the staff application boundary.'']],
          Tag ''article'' [(''className'', ''detail-card'')] [
            Tag ''h3'' [] [Txt ''Guest access''],
            Tag ''p'' [] [
              Txt ''Opaque magic links are hashed at rest and exchanged once. The resulting token stays in the encrypted server-side session and is never rendered into HTML or browser local storage.'']],
          Tag ''article'' [(''className'', ''detail-card'')] [
            Tag ''h3'' [] [Txt ''Operational privacy''],
            Tag ''p'' [] [
              Txt ''Role projections deliberately redact guest identity or dietary details when a role does not need them. Property-scoped memberships narrow the active workspace further.'']],
          Tag ''article'' [(''className'', ''detail-card'')] [
            Tag ''h3'' [] [Txt ''Background work''],
            Tag ''p'' [] [
              Txt ''Queued jobs restore an explicit tenant context. Outbox delivery, retries, audit events, and idempotency controls prevent cross-tenant or duplicate external work.'']],
          Tag ''article'' [(''className'', ''detail-card'')] [
            Tag ''h3'' [] [Txt ''Production responsibility''],
            Tag ''p'' [] [
              Txt ''Production rollout still requires managed secrets, TLS, private object storage, backup restoration drills, monitoring, external security review, and jurisdiction-specific validation.'']]]]]"

subsection \<open>next.config.ts\<close>

text \<open>A value of a configuration file; \<open>Js_ext\<close> is one that third-party code made.\<close>

datatype 'x js =
    Js_str string
  | Js_num int
  | Js_bool bool
  | Js_arr "'x js list"
  | Js_obj "(string \<times> 'x js) list"
  | Js_ext 'x

definition header_entry :: "string \<Rightarrow> string \<Rightarrow> 'x js" where
  "header_entry k v = Js_obj [(''key'', Js_str k), (''value'', Js_str v)]"

definition next_headers :: "'x js" where
  "next_headers = Js_arr [Js_obj [
     (''source'', Js_str ''/:path*''),
     (''headers'', Js_arr [
       header_entry ''X-Content-Type-Options'' ''nosniff'',
       header_entry ''Referrer-Policy'' ''strict-origin-when-cross-origin'',
       header_entry ''X-Frame-Options'' ''DENY'',
       header_entry ''Permissions-Policy'' ''camera=(), microphone=(), geolocation=()''])]]"

text \<open>The configuration object; its \<open>headers\<close> method is the property above. \<open>cwd\<close> is \<^verbatim>\<open>process.cwd()\<close>.\<close>

definition next_config :: "env \<Rightarrow> string \<Rightarrow> (string \<times> 'x js) list" where
  "next_config env cwd = [
     (''allowedDevOrigins'', Js_arr [Js_str ''127.0.0.1'', Js_str ''localhost'']),
     (''distDir'', Js_str (from_env env ''NEXT_DIST_DIR'' ''.next'')),
     (''poweredByHeader'', Js_bool False),
     (''reactStrictMode'', Js_bool True),
     (''turbopack'', Js_obj [(''root'', Js_str cwd)]),
     (''headers'', next_headers)]"

subsection \<open>Questions about a document\<close>

text \<open>The routes are the directories under \<^verbatim>\<open>src/app\<close> that hold a page.\<close>

definition site_pages :: "env \<Rightarrow> (string \<times> jsx) list" where
  "site_pages env = [(''/'', home env), (''/features'', features_page),
     (''/pricing'', pricing_page env), (''/security'', security_page)]"

definition site_routes :: "string list" where
  "site_routes = [''/'', ''/features'', ''/pricing'', ''/security'']"

lemma site_routes_pages: "map fst (site_pages env) = site_routes"
  by (simp add: site_pages_def site_routes_def)

primrec collect :: "(jsx \<Rightarrow> 'a list) \<Rightarrow> jsx \<Rightarrow> 'a list" where
  "collect f (Txt s) = f (Txt s)"
| "collect f (Tag t a cs) = f (Tag t a cs) @ concat (map (collect f) cs)"
| "collect f (Link_to a cs) = f (Link_to a cs) @ concat (map (collect f) cs)"
| "collect f (Fragment cs) = f (Fragment cs) @ concat (map (collect f) cs)"
| "collect f (Many cs) = f (Many cs) @ concat (map (collect f) cs)"
| "collect f Hidden = f Hidden"

definition attr :: "string \<Rightarrow> (string \<times> string) list \<Rightarrow> string list" where
  "attr k a = (case map_of a k of None \<Rightarrow> [] | Some v \<Rightarrow> [v])"

fun own_attrs :: "jsx \<Rightarrow> (string \<times> string) list" where
  "own_attrs (Tag _ a _) = a"
| "own_attrs (Link_to a _) = a"
| "own_attrs _ = []"

fun own_tag :: "jsx \<Rightarrow> string list" where
  "own_tag (Tag t _ _) = [t]"
| "own_tag _ = []"

fun own_keys :: "jsx \<Rightarrow> string list list list" where
  "own_keys (Many cs) = [map (\<lambda>n. attr ''key'' (own_attrs n)) cs]"
| "own_keys _ = []"

definition hrefs :: "jsx \<Rightarrow> string list" where
  "hrefs = collect (\<lambda>n. attr ''href'' (own_attrs n))"

definition tags :: "jsx \<Rightarrow> string list" where
  "tags = collect own_tag"

definition attribute_names :: "jsx \<Rightarrow> string list" where
  "attribute_names = collect (\<lambda>n. map fst (own_attrs n))"

text \<open>The keys of every array the document renders, one list per array.\<close>

definition array_keys :: "jsx \<Rightarrow> string list list list" where
  "array_keys = collect own_keys"

lemma shown_simps [simp]: "shown True n = n" "shown False n = Hidden"
  by (simp_all add: shown_def)

lemmas site_queries = hrefs_def tags_def attribute_names_def array_keys_def attr_def

lemmas home_defs = home_def hero_def proof_strip_def feature_section_def workspace_section_def
  story_section_def cta_section_def feature_cards_def

lemmas features_defs = features_page_def list_item_def platform_sections_def

lemmas pricing_defs = pricing_page_def price_card_def list_item_def plans_def featured_def starts_with_def

lemma manage_urls_agree:
  "home_manage_url env = layout_manage_url env" "pricing_manage_url env = layout_manage_url env"
  by (simp_all add: home_manage_url_def layout_manage_url_def pricing_manage_url_def)

lemma home_hrefs: "hrefs (home env) = [layout_manage_url env, ''/features'', layout_manage_url env]"
  by (simp add: home_defs site_queries manage_urls_agree)

lemma features_hrefs: "hrefs features_page = []"
  by (simp add: features_defs site_queries)

lemma pricing_hrefs: "hrefs (pricing_page env) = replicate 3 (layout_manage_url env)"
  by (simp add: pricing_defs site_queries manage_urls_agree numeral_3_eq_3)

lemma security_hrefs: "hrefs security_page = []"
  by (simp add: security_page_def site_queries)

lemma layout_hrefs:
  "hrefs (root_layout env year page) =
     [''/'', ''/features'', ''/pricing'', ''/security'', layout_manage_url env @ ''/login'', layout_manage_url env]
     @ hrefs page @ [''/'', ''/features'', ''/pricing'', ''/security'', layout_manage_url env @ ''/login'', layout_manage_url env]"
  by (simp add: root_layout_def site_queries)

definition document_tags :: "string set" where
  "document_tags = {''html'', ''body'', ''header'', ''main'', ''footer'', ''nav'', ''section'', ''article'', ''div'',
     ''span'', ''strong'', ''b'', ''i'', ''small'', ''p'', ''h1'', ''h2'', ''h3'', ''br'', ''ul'', ''li'', ''a'',
     ''blockquote'', ''cite''}"

definition document_attributes :: "string set" where
  "document_attributes = {''className'', ''href'', ''key'', ''lang'', ''data-scroll-behavior'', ''aria-label'', ''aria-hidden''}"

lemma home_tags: "set (tags (home env)) \<subseteq> document_tags \<and> count_list (tags (home env)) ''h1'' = 1"
  by (simp add: home_defs tags_def document_tags_def)

lemma features_tags: "set (tags features_page) \<subseteq> document_tags \<and> count_list (tags features_page) ''h1'' = 1"
  by (simp add: features_defs tags_def document_tags_def)

lemma pricing_tags: "set (tags (pricing_page env)) \<subseteq> document_tags \<and> count_list (tags (pricing_page env)) ''h1'' = 1"
  by (simp add: pricing_defs tags_def document_tags_def)

lemma security_tags: "set (tags security_page) \<subseteq> document_tags \<and> count_list (tags security_page) ''h1'' = 1"
  by (simp add: security_page_def tags_def document_tags_def)

lemma layout_tags:
  "set (tags (root_layout env year page)) \<subseteq> document_tags \<union> set (tags page)"
  "count_list (tags (root_layout env year page)) ''h1'' = count_list (tags page) ''h1''"
  by (simp_all add: root_layout_def tags_def document_tags_def subset_insertI2)

lemma home_attributes: "set (attribute_names (home env)) \<subseteq> document_attributes"
  by (simp add: home_defs attribute_names_def document_attributes_def)

lemma features_attributes: "set (attribute_names features_page) \<subseteq> document_attributes"
  by (simp add: features_defs attribute_names_def document_attributes_def)

lemma pricing_attributes: "set (attribute_names (pricing_page env)) \<subseteq> document_attributes"
  by (simp add: pricing_defs attribute_names_def document_attributes_def)

lemma security_attributes: "set (attribute_names security_page) \<subseteq> document_attributes"
  by (simp add: security_page_def attribute_names_def document_attributes_def)

lemma layout_attributes:
  "set (attribute_names (root_layout env year page)) \<subseteq> document_attributes \<union> set (attribute_names page)"
  by (simp add: root_layout_def attribute_names_def document_attributes_def subset_insertI2)

lemma page_keys:
  "array_keys (home env) = [[[''01''], [''02''], [''03''], [''04''], [''05''], [''06'']]]"
  "list_all (\<lambda>ks. distinct ks \<and> [] \<notin> set ks) (array_keys features_page)"
  "list_all (\<lambda>ks. distinct ks \<and> [] \<notin> set ks) (array_keys (pricing_page env))"
  "array_keys security_page = []"
  "array_keys (root_layout env year page) = array_keys page"
  by (simp_all add: home_defs features_defs pricing_defs security_page_def root_layout_def site_queries)

subsection \<open>Properties\<close>

text \<open>On every page of the site, for every build environment, the links of the served document lead
  to exactly the four public routes, to the staff application and to its login page: the navigation
  reaches every page, no internal link is dead and none leads to a protected workspace.\<close>

theorem site_navigation:
  "list_all (\<lambda>(route, page). set (hrefs (root_layout env year page))
       = set site_routes \<union> {layout_manage_url env, layout_manage_url env @ ''/login''}) (site_pages env)"
  unfolding site_pages_def
  by (simp add: layout_hrefs home_hrefs features_hrefs pricing_hrefs security_hrefs site_routes_def insert_commute)

text \<open>The site is static text: whatever the environment, a served document has only the listed
  structural elements and attributes, so no form, input, script or event handler, and exactly one
  first-level heading.\<close>

theorem site_is_static:
  "list_all (\<lambda>(route, page). set (tags (root_layout env year page)) \<subseteq> document_tags
       \<and> set (attribute_names (root_layout env year page)) \<subseteq> document_attributes
       \<and> count_list (tags (root_layout env year page)) ''h1'' = 1) (site_pages env)"
  using home_tags [of env] features_tags pricing_tags [of env] security_tags
    home_attributes [of env] features_attributes pricing_attributes [of env] security_attributes
    layout_tags(1) [of env year] layout_attributes [of env year]
  unfolding site_pages_def by (simp add: layout_tags(2)) blast

text \<open>Every array a page renders gives each of its elements a key, and the keys of one array are
  distinct, as React needs to keep its elements apart.\<close>

theorem array_keys_distinct:
  "list_all (\<lambda>(route, page). list_all (\<lambda>ks. distinct ks \<and> [] \<notin> set ks)
       (array_keys (root_layout env year page))) (site_pages env)"
  unfolding site_pages_def by (simp add: page_keys)

text \<open>A price card, for any plan: its only link is the staff application; the monthly suffix is
  shown exactly when the price starts with a dollar sign, the \<open>Most popular\<close> badge and the
  \<open>featured\<close> class exactly when the plan is marked as featured; and the card lists the plan's items
  in their order.\<close>

theorem price_card_exact:
  "hrefs (price_card env p) = [layout_manage_url env]
   \<and> (''small'' \<in> set (tags (price_card env p)) \<longleftrightarrow> take 1 (plan_price p) = ''$'')
   \<and> (''span'' \<in> set (tags (price_card env p)) \<longleftrightarrow> plan_featured p = Some True)
   \<and> attr ''className'' (own_attrs (price_card env p))
       = [if plan_featured p = Some True then ''price-card featured'' else ''price-card'']
   \<and> array_keys (price_card env p) = [map (\<lambda>item. [item]) (plan_items p)]"
proof -
  have items: "concat (map (collect (\<lambda>n. attr ''href'' (own_attrs n)) \<circ> list_item) xs) = []"
    "set (concat (map (collect own_tag \<circ> list_item) xs)) \<subseteq> {''li''}"
    "concat (map (collect own_keys \<circ> list_item) xs) = []" for xs
    by (induction xs) (simp_all add: list_item_def attr_def)
  have "hrefs (price_card env p) = [layout_manage_url env]"
    using items(1) by (simp add: price_card_def hrefs_def attr_def manage_urls_agree shown_def)
  moreover have "set (tags (price_card env p)) = {''article'', ''h3'', ''div'', ''p'', ''ul'', ''a''}
      \<union> (if featured p then {''span''} else {}) \<union> (if starts_with ''$'' (plan_price p) then {''small''} else {})
      \<union> set (concat (map (collect own_tag \<circ> list_item) (plan_items p)))"
    by (auto simp: price_card_def tags_def shown_def)
  moreover have "array_keys (price_card env p) = [map (\<lambda>item. [item]) (plan_items p)]"
    using items(3) by (simp add: price_card_def array_keys_def shown_def list_item_def attr_def comp_def)
  ultimately show ?thesis
    using items(2) [of "plan_items p"]
    by (auto simp: starts_with_def featured_def price_card_def attr_def)
qed

end
