(* ===== verification/Harness.thy ===== *)
theory Harness
  imports Site
begin

text \<open>
  The tool configuration of the JavaScript workspaces and the sign-in of the end-to-end tests:
  the two Playwright configurations, \<^verbatim>\<open>eslint.config.mjs\<close>, \<^verbatim>\<open>vite.config.js\<close>,
  \<^verbatim>\<open>e2e-client/global-setup.ts\<close> and \<^verbatim>\<open>e2e-client/helpers/auth.ts\<close>. Playwright, Vite, ESLint and
  their plugins are third-party code: plugins, presets and device descriptions are arguments of the
  configurations, and the browser is the record \<open>playwright\<close> of the calls the two test files make.
  The theorems relate the files to each other: the server the tests start is the one they visit, the
  session file the setup writes is the one the tests load, a port comes out of the environment as it went in, and the setup
  leaves a browser open only when opening the page or closing the browser throws.
\<close>

subsection \<open>Number\<close>

text \<open>
  \<^verbatim>\<open>Number\<close> of a string, for the texts an environment variable holds: blank text is 0, an optional
  sign and at most 15 digits an integer, other text without any character a numeral may contain not a
  number. The remaining numerals (fractions, exponents, other bases, more digits, \<open>Infinity\<close>) are
  outside the model, which is \<open>None\<close>.
\<close>

datatype js_number = Js_nan | Js_int int

definition js_blank :: "char \<Rightarrow> bool" where
  "js_blank ch \<longleftrightarrow> ch \<in> {CHR 0x20, CHR 0x09, CHR 0x0A, CHR 0x0B, CHR 0x0C, CHR 0x0D}"

definition js_trim :: "string \<Rightarrow> string" where
  "js_trim s = rev (dropWhile js_blank (rev (dropWhile js_blank s)))"

definition digit_value :: "char \<Rightarrow> int" where
  "digit_value ch = int (of_char ch :: nat) - 48"

definition is_digit :: "char \<Rightarrow> bool" where
  "is_digit ch \<longleftrightarrow> 0 \<le> digit_value ch \<and> digit_value ch \<le> 9"

definition digits_value :: "string \<Rightarrow> int" where
  "digits_value ds = foldl (\<lambda>n ch. 10 * n + digit_value ch) 0 ds"

definition unsigned_part :: "string \<Rightarrow> string" where
  "unsigned_part t = (case t of [] \<Rightarrow> [] | ch # r \<Rightarrow> if ch \<in> {CHR ''-'', CHR ''+''} then r else t)"

definition may_be_numeral :: "char \<Rightarrow> bool" where
  "may_be_numeral ch \<longleftrightarrow> is_digit ch \<or> ch \<in> set ''+-.eExXoObBabcdfACDFInity'' \<or> 128 \<le> (of_char ch :: nat)"

definition to_number :: "string \<Rightarrow> js_number option" where
  "to_number s =
     (let t = js_trim s; ds = unsigned_part t in
      if t = [] then Some (Js_int 0)
      else if ds \<noteq> [] \<and> list_all is_digit ds
      then if length ds \<le> 15
           then Some (Js_int (if take 1 t = ''-'' then - digits_value ds else digits_value ds)) else None
      else if list_all may_be_numeral t then None
      else Some Js_nan)"

definition number_text :: "js_number \<Rightarrow> string" where
  "number_text n = (case n of Js_nan \<Rightarrow> ''NaN'' | Js_int k \<Rightarrow> int_text k)"

subsection \<open>playwright.config.ts\<close>

type_synonym 'x devices = "string \<Rightarrow> (string \<times> 'x js) list"

definition public_port :: "env \<Rightarrow> js_number option" where
  "public_port env = (case env ''PLAYWRIGHT_PORT'' of None \<Rightarrow> Some (Js_int 3107) | Some v \<Rightarrow> to_number v)"

definition public_base_url :: "js_number \<Rightarrow> string" where
  "public_base_url port = ''http://127.0.0.1:'' @ number_text port"

definition public_config :: "'x devices \<Rightarrow> env \<Rightarrow> (string \<times> 'x js) list option" where
  "public_config devices env = (case public_port env of
     None \<Rightarrow> None
   | Some port \<Rightarrow> Some [
       (''testDir'', Js_str ''./e2e''),
       (''fullyParallel'', Js_bool True),
       (''reporter'', Js_str ''line''),
       (''use'', Js_obj [
         (''baseURL'', Js_str (public_base_url port)),
         (''trace'', Js_str ''retain-on-failure'')]),
       (''webServer'', Js_obj [
         (''command'', Js_str (''npm run dev -- --hostname 127.0.0.1 --port '' @ number_text port)),
         (''url'', Js_str (public_base_url port)),
         (''reuseExistingServer'', Js_bool False),
         (''timeout'', Js_num 120000)]),
       (''projects'', Js_arr [
         Js_obj [(''name'', Js_str ''chromium''), (''use'', Js_obj (devices ''Desktop Chrome''))],
         Js_obj [(''name'', Js_str ''mobile''), (''use'', Js_obj (devices ''Pixel 7''))]])])"

subsection \<open>playwright.client.config.ts\<close>

text \<open>\<open>process.env.CI ? 1 : 0\<close>: an unset or empty variable is falsy.\<close>

definition set_in :: "env \<Rightarrow> string \<Rightarrow> bool" where
  "set_in env name = (case env name of None \<Rightarrow> False | Some v \<Rightarrow> v \<noteq> [])"

definition client_config :: "'x devices \<Rightarrow> env \<Rightarrow> (string \<times> 'x js) list" where
  "client_config devices env = [
     (''testDir'', Js_str ''./e2e-client''),
     (''globalSetup'', Js_str ''./e2e-client/global-setup.ts''),
     (''fullyParallel'', Js_bool False),
     (''workers'', Js_num 1),
     (''reporter'', Js_str ''line''),
     (''retries'', Js_num (if set_in env ''CI'' then 1 else 0)),
     (''use'', Js_obj [
       (''baseURL'', Js_str (from_env env ''INN_API_URL'' ''http://127.0.0.1:8000'')),
       (''storageState'', Js_str (from_env env ''INN_PLAYWRIGHT_AUTH_STATE'' ''/tmp/inn-playwright-client-auth.json'')),
       (''trace'', Js_str ''retain-on-failure''),
       (''screenshot'', Js_str ''only-on-failure'')]),
     (''projects'', Js_arr [Js_obj [(''name'', Js_str ''chromium''), (''use'', Js_obj (devices ''Desktop Chrome''))]])]"

subsection \<open>eslint.config.mjs and vite.config.js\<close>

definition eslint_config :: "'x js list \<Rightarrow> 'x js list \<Rightarrow> (string list \<Rightarrow> 'x js) \<Rightarrow> 'x js list" where
  "eslint_config next_vitals next_ts global_ignores = next_vitals @ next_ts @
     [global_ignores [''.next/**'', ''.next-e2e/**'', ''out/**'', ''build/**'', ''next-env.d.ts'']]"

definition vite_config ::
  "((string \<times> 'x js) list \<Rightarrow> 'x) \<Rightarrow> (string \<Rightarrow> (string \<times> 'x js) list \<Rightarrow> 'x) \<Rightarrow> 'x \<Rightarrow> (string \<times> 'x js) list" where
  "vite_config laravel bunny tailwindcss = [
     (''plugins'', Js_arr [
       Js_ext (laravel [
         (''input'', Js_arr [Js_str ''resources/css/app.css'', Js_str ''resources/js/app.js'',
            Js_str ''resources/css/filament/admin/theme.css'']),
         (''refresh'', Js_bool True),
         (''fonts'', Js_arr [Js_ext (bunny ''Instrument Sans'' [
            (''optimizedFallbacks'', Js_bool False),
            (''weights'', Js_arr [Js_num 400, Js_num 500, Js_num 600])])])]),
       Js_ext tailwindcss]),
     (''server'', Js_obj [(''watch'', Js_obj [(''ignored'', Js_arr [Js_str ''**/storage/framework/views/**''])])])]"

subsection \<open>Calls that may throw\<close>

text \<open>
  An awaited call changes the world \<open>'w\<close> and returns or throws an \<open>'e\<close>; what it did before throwing
  stays. \<open>finally_io\<close> is \<^verbatim>\<open>try ... finally\<close>: the final block runs in either case and what it throws
  replaces the outcome.
\<close>

type_synonym ('w, 'e, 'a) io = "'w \<Rightarrow> ('e + 'a) \<times> 'w"

definition bind_io :: "('w, 'e, 'a) io \<Rightarrow> ('a \<Rightarrow> ('w, 'e, 'b) io) \<Rightarrow> ('w, 'e, 'b) io" where
  "bind_io m f w = (case m w of (Inl e, w1) \<Rightarrow> (Inl e, w1) | (Inr x, w1) \<Rightarrow> f x w1)"

definition finally_io :: "('w, 'e, 'a) io \<Rightarrow> ('w, 'e, unit) io \<Rightarrow> ('w, 'e, 'a) io" where
  "finally_io m fin w = (case m w of (r, w1) \<Rightarrow>
     (case fin w1 of (Inl e, w2) \<Rightarrow> (Inl e, w2) | (Inr _, w2) \<Rightarrow> (r, w2)))"

definition when_io :: "bool \<Rightarrow> ('w, 'e, unit) io \<Rightarrow> ('w, 'e, unit) io" where
  "when_io b m w = (if b then m w else (Inr (), w))"

record ('w, 'e, 'b, 'p) playwright =
  launch :: "('w, 'e, 'b) io"
  new_page :: "'b \<Rightarrow> string option \<Rightarrow> ('w, 'e, 'p) io"
  close_browser :: "'b \<Rightarrow> ('w, 'e, unit) io"
  save_state :: "'p \<Rightarrow> string \<Rightarrow> ('w, 'e, unit) io"
  goto :: "'p \<Rightarrow> string \<Rightarrow> ('w, 'e, unit) io"
  page_url :: "'p \<Rightarrow> 'w \<Rightarrow> string"
  fill_label :: "'p \<Rightarrow> string \<Rightarrow> string \<Rightarrow> ('w, 'e, unit) io"
  fill_selector :: "'p \<Rightarrow> string \<Rightarrow> string \<Rightarrow> ('w, 'e, unit) io"
  click_role :: "'p \<Rightarrow> string \<Rightarrow> string \<Rightarrow> ('w, 'e, unit) io"
  expect_not_url :: "'p \<Rightarrow> string \<Rightarrow> ('w, 'e, unit) io"
  expect_visible :: "'p \<Rightarrow> string \<Rightarrow> ('w, 'e, unit) io"

fun text_includes :: "string \<Rightarrow> string \<Rightarrow> bool" where
  "text_includes [] p = (p = [])"
| "text_includes (x # xs) p = (starts_with p (x # xs) \<or> text_includes xs p)"

subsection \<open>helpers/auth.ts and global-setup.ts\<close>

text \<open>An argument left out, or \<open>undefined\<close>, takes its default.\<close>

definition login_pattern :: string where
  "login_pattern = ''/'' @ [CHR 0x5C] @ ''/manage'' @ [CHR 0x5C] @ ''/login/''"

definition sign_in ::
  "('w, 'e, 'b, 'p) playwright \<Rightarrow> env \<Rightarrow> 'p \<Rightarrow> string option \<Rightarrow> string option \<Rightarrow> ('w, 'e, unit) io" where
  "sign_in pw env page email_arg password_arg =
     (let email = (case email_arg of Some v \<Rightarrow> v | None \<Rightarrow> from_env env ''INN_UAT_EMAIL'' ''admin@example.com'');
          password = (case password_arg of Some v \<Rightarrow> v | None \<Rightarrow> from_env env ''INN_UAT_PASSWORD'' ''password'') in
      bind_io (goto pw page ''/manage/workspace/demo-lodge'') (\<lambda>_.
      bind_io (\<lambda>w. when_io (text_includes (page_url pw page w) ''/manage/login'')
        (bind_io (fill_label pw page ''Email address'' email) (\<lambda>_.
         bind_io (fill_selector pw page ''input[type=\"password\"]'' password) (\<lambda>_.
         bind_io (click_role pw page ''button'' ''/sign in/i'') (\<lambda>_.
         expect_not_url pw page login_pattern)))) w) (\<lambda>_.
      expect_visible pw page ''main'')))"

text \<open>\<open>projects\<close> are the \<open>use.baseURL\<close> of the configured projects.\<close>

definition global_setup ::
  "('w, 'e, 'b, 'p) playwright \<Rightarrow> env \<Rightarrow> string option list \<Rightarrow> ('w, 'e, unit) io" where
  "global_setup pw env projects =
     (let base_url = (case projects of [] \<Rightarrow> None | use # _ \<Rightarrow> use);
          storage_state_path = from_env env ''INN_PLAYWRIGHT_AUTH_STATE'' ''/tmp/inn-playwright-client-auth.json'' in
      bind_io (launch pw) (\<lambda>browser.
      bind_io (new_page pw browser base_url) (\<lambda>page.
      finally_io
        (bind_io (sign_in pw env page None None) (\<lambda>_. save_state pw page storage_state_path))
        (close_browser pw browser))))"

subsection \<open>Values of a configuration\<close>

fun js_path :: "string list \<Rightarrow> 'x js \<Rightarrow> 'x js option" where
  "js_path [] v = Some v"
| "js_path (k # ks) (Js_obj entries) = (case map_of entries k of None \<Rightarrow> None | Some v \<Rightarrow> js_path ks v)"
| "js_path (k # ks) _ = None"

subsection \<open>Decimal text and Number\<close>

lemma decimal_digit_props:
  "digit_value (decimal_digit n) = int (n mod 10)" "\<not> js_blank (decimal_digit n)"
  "decimal_digit n \<notin> {CHR ''-'', CHR ''+''}"
proof -
  have "n mod 10 \<in> {0, 1, 2, 3, 4, 5, 6, 7, 8, 9}" by (simp; presburger)
  then show "digit_value (decimal_digit n) = int (n mod 10)" "\<not> js_blank (decimal_digit n)"
    "decimal_digit n \<notin> {CHR ''-'', CHR ''+''}"
    by (auto simp: decimal_digit_def digit_value_def js_blank_def)
qed

declare decimal.simps [simp del]

lemma decimal_chars:
  "decimal n \<noteq> []" "ch \<in> set (decimal n) \<Longrightarrow> \<exists>k. ch = decimal_digit k"
proof -
  show "decimal n \<noteq> []" by (subst decimal.simps) simp
  show "ch \<in> set (decimal n) \<Longrightarrow> \<exists>k. ch = decimal_digit k"
    by (induction n rule: decimal.induct) (subst (asm) (2) decimal.simps, auto split: if_splits)
qed

lemma digits_value_decimal: "digits_value (decimal n) = int n"
proof (induction n rule: decimal.induct)
  case (1 n)
  show ?case
  proof (cases "n < 10")
    case True
    then show ?thesis by (subst decimal.simps) (simp add: digits_value_def decimal_digit_props)
  next
    case False
    then have "digits_value (decimal n) = 10 * digits_value (decimal (n div 10)) + int (n mod 10)"
      by (subst decimal.simps) (simp add: digits_value_def decimal_digit_props)
    also have "\<dots> = int (10 * (n div 10) + n mod 10)"
      unfolding 1 [OF False] of_nat_add of_nat_mult by (simp only: of_nat_numeral)
    finally show ?thesis by (simp only: mult_div_mod_eq)
  qed
qed

lemma length_decimal: "n < 10 ^ Suc k \<Longrightarrow> length (decimal n) \<le> Suc k"
proof (induction k arbitrary: n)
  case 0
  then show ?case by (subst decimal.simps) simp
next
  case (Suc k)
  then have "length (decimal (n div 10)) \<le> Suc k" by (intro Suc.IH) (simp add: less_mult_imp_div_less)
  then show ?case by (subst decimal.simps) simp
qed

lemma dropWhile_none: "(\<And>x. x \<in> set xs \<Longrightarrow> \<not> P x) \<Longrightarrow> dropWhile P xs = xs"
  by (cases xs) simp_all

lemma js_trim_decimal: "js_trim (decimal n) = decimal n"
proof -
  have "\<not> js_blank ch" if "ch \<in> set (decimal n)" for ch
    using decimal_chars(2) [OF that] decimal_digit_props(2) by blast
  then have "dropWhile js_blank (decimal n) = decimal n" "dropWhile js_blank (rev (decimal n)) = rev (decimal n)"
    by (intro dropWhile_none; simp)+
  then show ?thesis by (simp add: js_trim_def)
qed

lemma unsigned_decimal: "unsigned_part (decimal n) = decimal n" "take 1 (decimal n) \<noteq> ''-''"
proof -
  obtain ch r where d: "decimal n = ch # r" using decimal_chars(1) [of n] by (cases "decimal n") auto
  then obtain k where "ch = decimal_digit k" using decimal_chars(2) [of ch n] by auto
  with decimal_digit_props(3) [of k] d
  show "unsigned_part (decimal n) = decimal n" "take 1 (decimal n) \<noteq> ''-''"
    by (simp_all add: unsigned_part_def)
qed

lemma to_number_decimal: "n < 10 ^ 15 \<Longrightarrow> to_number (decimal n) = Some (Js_int (int n))"
proof -
  assume "n < 10 ^ 15"
  then have "length (decimal n) \<le> 15" using length_decimal [of n 14] by simp
  moreover have "list_all is_digit (decimal n)"
    unfolding list_all_iff
    using decimal_chars(2) decimal_digit_props(1) by (fastforce simp: is_digit_def)
  ultimately show ?thesis
    using decimal_chars(1) [of n] unsigned_decimal [of n]
    by (simp add: to_number_def js_trim_decimal Let_def digits_value_decimal)
qed

subsection \<open>Properties\<close>

text \<open>The public end-to-end tests visit the server they start: for every environment the server
  command listens on the port of the address that is polled and visited, on the loopback interface,
  and a server that already runs there is never reused.\<close>

theorem tests_visit_their_server:
  assumes "public_config devices env = Some cfg"
  shows "\<exists>port. js_path [''use'', ''baseURL''] (Js_obj cfg) = Some (Js_str (''http://127.0.0.1:'' @ port))
    \<and> js_path [''webServer'', ''url''] (Js_obj cfg) = Some (Js_str (''http://127.0.0.1:'' @ port))
    \<and> js_path [''webServer'', ''command''] (Js_obj cfg)
        = Some (Js_str (''npm run dev -- --hostname 127.0.0.1 --port '' @ port))
    \<and> js_path [''webServer'', ''reuseExistingServer''] (Js_obj cfg) = Some (Js_bool False)"
proof -
  obtain n where "public_port env = Some n" using assms by (auto simp: public_config_def split: option.splits)
  with assms show ?thesis
    by (intro exI [of _ "number_text n"]) (auto simp: public_config_def public_base_url_def)
qed

theorem tests_visit_their_server_witness:
  "\<exists>(cfg :: (string \<times> unit js) list) port. public_config (\<lambda>_. []) (\<lambda>_. None) = Some cfg
     \<and> js_path [''use'', ''baseURL''] (Js_obj cfg) = Some (Js_str (''http://127.0.0.1:'' @ port))
     \<and> port = ''3107''"
proof -
  obtain cfg :: "(string \<times> unit js) list" where cfg: "public_config (\<lambda>_. []) (\<lambda>_. None) = Some cfg"
    by (simp add: public_config_def public_port_def)
  have "int_text 3107 = ''3107''"
    by (simp add: int_text_def decimal.simps decimal_digit_def)
  then have base: "js_path [''use'', ''baseURL''] (Js_obj cfg) = Some (Js_str (''http://127.0.0.1:'' @ ''3107''))"
    using cfg by (auto simp: public_config_def public_port_def public_base_url_def number_text_def)
  obtain port where port: "js_path [''use'', ''baseURL''] (Js_obj cfg) = Some (Js_str (''http://127.0.0.1:'' @ port))"
    using tests_visit_their_server [OF cfg] by blast
  with base have "port = ''3107''" by simp
  with port cfg show ?thesis by blast
qed

text \<open>C40: A port number survives its way through the environment. The decimal text of every number below
  \<open>10^15\<close> in \<open>PLAYWRIGHT_PORT\<close> is read as that number and printed as the same text in all three places: the address the tests
  visit, the address that is polled until the server answers, and the port the server is started with.\<close>

theorem port_roundtrip:
  assumes "n < 10 ^ 15" and "env ''PLAYWRIGHT_PORT'' = Some (decimal n)"
  shows "public_port env = Some (Js_int (int n))
    \<and> (\<exists>cfg. public_config devices env = Some cfg
        \<and> js_path [''use'', ''baseURL''] (Js_obj cfg) = Some (Js_str (''http://127.0.0.1:'' @ decimal n))
        \<and> js_path [''webServer'', ''url''] (Js_obj cfg) = Some (Js_str (''http://127.0.0.1:'' @ decimal n))
        \<and> js_path [''webServer'', ''command''] (Js_obj cfg)
            = Some (Js_str (''npm run dev -- --hostname 127.0.0.1 --port '' @ decimal n)))"
proof -
  have port: "public_port env = Some (Js_int (int n))" using assms by (simp add: public_port_def to_number_decimal)
  moreover have "number_text (Js_int (int n)) = decimal n" by (simp add: number_text_def int_text_def)
  ultimately show ?thesis by (simp add: public_config_def public_base_url_def)
qed

theorem port_roundtrip_witness:
  "public_port (\<lambda>_. Some ''8080'') = Some (Js_int 8080)
   \<and> (\<exists>cfg :: (string \<times> unit js) list. public_config (\<lambda>_. []) (\<lambda>_. Some ''8080'') = Some cfg
        \<and> js_path [''webServer'', ''url''] (Js_obj cfg) = Some (Js_str ''http://127.0.0.1:8080''))"
proof -
  have "decimal 8080 = ''8080''" by (simp add: decimal.simps decimal_digit_def)
  then show ?thesis using port_roundtrip [of 8080 "\<lambda>_. Some ''8080''" "\<lambda>_. [] :: (string \<times> unit js) list"] by auto
qed

text \<open>The sign-in helper returns only when the workspace is visible, and it enters credentials only
  on the login page: without the login address it goes straight to the final check, with it the
  address must have changed before.\<close>

theorem sign_in_outcome:
  assumes "sign_in pw env page email password w = (Inr (), w')"
  shows "\<exists>w1 w2. goto pw page ''/manage/workspace/demo-lodge'' w = (Inr (), w1)
    \<and> (if text_includes (page_url pw page w1) ''/manage/login''
       then \<exists>w0. expect_not_url pw page login_pattern w0 = (Inr (), w2) else w2 = w1)
    \<and> expect_visible pw page ''main'' w2 = (Inr (), w')"
  using assms
  by (fastforce simp: sign_in_def bind_io_def when_io_def Let_def split: prod.splits sum.splits if_splits)

text \<open>A browser that records its calls; it shows the login page until the button was clicked.\<close>

definition log_call :: "string \<Rightarrow> (string list, string, unit) io" where
  "log_call event log = (Inr (), log @ [event])"

definition recorder :: "(string list, string, unit, unit) playwright" where
  "recorder = \<lparr>launch = log_call ''launch'', new_page = \<lambda>_ _. log_call ''page'', close_browser = \<lambda>_. log_call ''close'',
     save_state = \<lambda>_. log_call, goto = \<lambda>_. log_call,
     page_url = \<lambda>_ log. if ''button'' \<in> set log then ''/manage'' else ''/manage/login'',
     fill_label = \<lambda>_ _. log_call, fill_selector = \<lambda>_ _. log_call, click_role = \<lambda>_ role _. log_call role,
     expect_not_url = \<lambda>_ _. log_call ''left login'', expect_visible = \<lambda>_. log_call\<rparr>"

lemmas recorder_defs = recorder_def log_call_def bind_io_def finally_io_def when_io_def sign_in_def
  from_env_def starts_with_def

lemma recorder_sign_in:
  "sign_in recorder (\<lambda>_. None) () None None log = (Inr (),
     log @ ''/manage/workspace/demo-lodge'' # (if ''button'' \<in> set log then []
       else [''admin@example.com'', ''password'', ''button'', ''left login'']) @ [''main''])"
  by (simp add: recorder_defs)

theorem sign_in_outcome_witness:
  "expect_visible recorder () ''main'' [''/manage/workspace/demo-lodge'', ''admin@example.com'', ''password'', ''button'', ''left login'']
     = (Inr (), snd (sign_in recorder (\<lambda>_. None) () None None []))"
  using sign_in_outcome [OF recorder_sign_in [of "[]"]] by (simp add: recorder_sign_in recorder_defs)

text \<open>
  What the setup does to the browsers that are open, for any browser library that behaves as documented:
  \<open>browsers w\<close> are the open ones, work on a page neither opens nor closes one, and closing one closes that one.
\<close>

definition leaves :: "('w \<Rightarrow> 'b set) \<Rightarrow> ('w, 'e, 'a) io \<Rightarrow> bool" where
  "leaves browsers m \<longleftrightarrow> (\<forall>w. browsers (snd (m w)) = browsers w)"

definition page_work_leaves :: "('w \<Rightarrow> 'b set) \<Rightarrow> ('w, 'e, 'b, 'p) playwright \<Rightarrow> bool" where
  "page_work_leaves browsers pw \<longleftrightarrow> (\<forall>b u. leaves browsers (new_page pw b u))
     \<and> (\<forall>p t. leaves browsers (save_state pw p t) \<and> leaves browsers (goto pw p t) \<and> leaves browsers (expect_not_url pw p t)
          \<and> leaves browsers (expect_visible pw p t))
     \<and> (\<forall>p t v. leaves browsers (fill_label pw p t v) \<and> leaves browsers (fill_selector pw p t v) \<and> leaves browsers (click_role pw p t v))"

definition closes :: "('w \<Rightarrow> 'b set) \<Rightarrow> ('w, 'e, 'b, 'p) playwright \<Rightarrow> bool" where
  "closes browsers pw \<longleftrightarrow> (\<forall>b w. browsers (snd (close_browser pw b w)) =
     (case fst (close_browser pw b w) of Inl _ \<Rightarrow> browsers w | Inr _ \<Rightarrow> browsers w - {b}))"

lemma leavesD: "leaves browsers m \<Longrightarrow> m w = (r, w') \<Longrightarrow> browsers w' = browsers w"
  unfolding leaves_def by (metis snd_conv)

lemma new_page_leaves: "page_work_leaves browsers pw \<Longrightarrow> new_page pw b u w = (r, w') \<Longrightarrow> browsers w' = browsers w"
  by (rule leavesD [where m = "new_page pw b u"]) (simp_all add: page_work_leaves_def)

lemma closesD:
  "closes browsers pw \<Longrightarrow> close_browser pw b w = (y, w') \<Longrightarrow>
     browsers w' = (case y of Inl _ \<Rightarrow> browsers w | Inr _ \<Rightarrow> browsers w - {b})"
  unfolding closes_def by (metis fst_conv snd_conv)

lemma leaves_bind:
  assumes "leaves browsers m" and "\<And>x. leaves browsers (f x)"
  shows "leaves browsers (bind_io m f)"
proof -
  have "browsers (snd (bind_io m f w)) = browsers w" for w
  proof -
    obtain r w1 where m: "m w = (r, w1)" by (cases "m w")
    then have "browsers w1 = browsers w" using leavesD [OF assms(1)] by blast
    then show ?thesis using assms(2) m by (cases r) (simp_all add: bind_io_def leaves_def)
  qed
  then show ?thesis by (simp add: leaves_def)
qed

lemma leaves_when: "leaves browsers m \<Longrightarrow> leaves browsers (\<lambda>w. when_io (P w) m w)"
  by (simp add: leaves_def when_io_def)

lemma sign_in_leaves: "page_work_leaves browsers pw \<Longrightarrow> leaves browsers (sign_in pw env page email password)"
  by (auto simp: sign_in_def Let_def page_work_leaves_def intro!: leaves_bind leaves_when)

text \<open>C39: The global setup leaks a browser in two cases only. Whatever fails on the way, it ends with the browsers open that were open
  before, unless opening the page or closing the browser itself threw; then it reports a failure and may leave the one it
  launched. When opening the page throws, it does leave it. When the sign-in throws and closing works, the browser is
  closed and the error of the sign-in is the one reported.\<close>

theorem setup_closes_browser:
  assumes "page_work_leaves browsers pw" and "closes browsers pw"
    and "launch pw w = (Inr b, w1)" and "b \<notin> browsers w" and "browsers w1 = insert b (browsers w)"
    and "page = new_page pw b (case projects of [] \<Rightarrow> None | use # _ \<Rightarrow> use) w1"
    and "global_setup pw env projects w = (r, w')"
  shows "(browsers w' = browsers w \<or> (browsers w' = insert b (browsers w) \<and> (\<exists>e. r = Inl e)
        \<and> ((\<exists>e. fst page = Inl e) \<or> (\<exists>w3 e. fst (close_browser pw b w3) = Inl e))))
    \<and> (\<forall>e. fst page = Inl e \<longrightarrow> r = Inl e \<and> browsers w' = insert b (browsers w))
    \<and> (\<forall>p w2 e w3. page = (Inr p, w2) \<and> sign_in pw env p None None w2 = (Inl e, w3) \<and> fst (close_browser pw b w3) = Inr () \<longrightarrow>
         r = Inl e \<and> browsers w' = browsers w)"
proof (cases page)
  case (Pair q w2)
  then have opened: "new_page pw b (case projects of [] \<Rightarrow> None | use # _ \<Rightarrow> use) w1 = (q, w2)" using assms(6) by simp
  have w2: "browsers w2 = insert b (browsers w)"
    using new_page_leaves [OF assms(1) opened] assms(5) by simp
  show ?thesis
  proof (cases q)
    case (Inl e)
    then have "r = Inl e" "w' = w2"
      using assms(3,7) opened by (simp_all add: global_setup_def Let_def bind_io_def)
    with Pair Inl w2 show ?thesis by auto
  next
    case (Inr p)
    let ?body = "bind_io (sign_in pw env p None None)
      (\<lambda>_. save_state pw p (from_env env ''INN_PLAYWRIGHT_AUTH_STATE'' ''/tmp/inn-playwright-client-auth.json''))"
    obtain x w3 where body: "?body w2 = (x, w3)" by (cases "?body w2")
    obtain y w4 where close: "close_browser pw b w3 = (y, w4)" by (cases "close_browser pw b w3")
    have out: "r = (case y of Inl e \<Rightarrow> Inl e | Inr _ \<Rightarrow> x)" "w' = w4"
      using assms(3,7) opened Inr body close
      by (auto simp: global_setup_def Let_def bind_io_def [of "launch pw"] bind_io_def [of "new_page pw b u" for u] finally_io_def
          split: sum.splits)
    have "leaves browsers ?body"
      using assms(1) by (intro leaves_bind sign_in_leaves) (simp_all add: page_work_leaves_def)
    then have w3: "browsers w3 = insert b (browsers w)" using leavesD [where browsers = browsers and m = ?body and w = w2, OF _ body] w2 by simp
    have w4: "browsers w4 = (case y of Inl _ \<Rightarrow> insert b (browsers w) | Inr _ \<Rightarrow> browsers w)"
      using closesD [OF assms(2) close] assms(4) w3 by (cases y) simp_all
    have sign: "x = Inl e \<and> w3 = w5" if "sign_in pw env p None None w2 = (Inl e, w5)" for e w5
      using body that by (simp add: bind_io_def)
    have page: "page = (Inr p, w2)" using Pair Inr by simp
    show ?thesis
    proof (cases y)
      case (Inl e)
      then have "r = Inl e" "browsers w' = insert b (browsers w)" "fst (close_browser pw b w3) = Inl e"
        using out w4 close by simp_all
      then show ?thesis using sign by (auto simp: page)
    next
      case (Inr u)
      then have "r = x" "browsers w' = browsers w" using out w4 by simp_all
      then show ?thesis using sign by (auto simp: page)
    qed
  qed
qed

text \<open>A browser library whose call named \<open>x\<close> throws; the world is whether the one browser is open, and the calls.\<close>

definition call :: "string \<Rightarrow> string \<Rightarrow> (bool \<times> string list, string, unit) io" where
  "call x event w = (if event = x then (Inl x, w) else (Inr (), (fst w, snd w @ [event])))"

definition failing :: "string \<Rightarrow> (bool \<times> string list, string, unit, unit) playwright" where
  "failing x = \<lparr>launch = \<lambda>w. (Inr (), (True, snd w)), new_page = \<lambda>_ _. call x ''page'',
     close_browser = \<lambda>_ w. (Inr (), (False, snd w)), save_state = \<lambda>_ _. call x ''save'', goto = \<lambda>_ _. call x ''goto'',
     page_url = \<lambda>_ _. ''/manage/login'', fill_label = \<lambda>_ _ _. call x ''email'', fill_selector = \<lambda>_ _ _. call x ''password'',
     click_role = \<lambda>_ _ _. call x ''click'', expect_not_url = \<lambda>_ _. call x ''left'', expect_visible = \<lambda>_ _. call x ''main''\<rparr>"

definition open_browsers :: "bool \<times> string list \<Rightarrow> unit set" where
  "open_browsers w = (if fst w then {()} else {})"

theorem setup_closes_browser_witness:
  "(\<exists>log. global_setup (failing ''password'') (\<lambda>_. None) [] (False, []) = (Inl ''password'', (False, log)))
   \<and> (\<exists>log. global_setup (failing ''page'') (\<lambda>_. None) [] (False, []) = (Inl ''page'', (True, log)))"
proof -
  have work: "page_work_leaves open_browsers (failing x)" "closes open_browsers (failing x)"
    "launch (failing x) (False, []) = (Inr (), (True, []))" for x
    by (auto simp: page_work_leaves_def closes_def leaves_def failing_def call_def open_browsers_def)
  have start: "() \<notin> open_browsers (False, [])" "open_browsers (True, []) = insert () (open_browsers (False, []))"
    by (simp_all add: open_browsers_def)
  note outcome = setup_closes_browser [OF work start refl]
  have page: "new_page (failing ''password'') () u (True, []) = (Inr (), (True, [''page'']))"
    "fst (new_page (failing ''page'') () u (True, [])) = Inl ''page''" for u
    by (simp_all add: failing_def call_def)
  have sign: "sign_in (failing ''password'') (\<lambda>_. None) () None None (True, [''page'']) = (Inl ''password'', (True, [''page'', ''goto'', ''email'']))"
    by (simp add: sign_in_def Let_def bind_io_def when_io_def failing_def call_def starts_with_def)
  have shut: "fst (close_browser (failing ''password'') () v) = Inr ()" for v by (simp add: failing_def)
  obtain r v log r' v' log' where
    run: "global_setup (failing ''password'') (\<lambda>_. None) [] (False, []) = (r, (v, log))"
      "global_setup (failing ''page'') (\<lambda>_. None) [] (False, []) = (r', (v', log'))"
    by (metis prod.collapse)
  have "r = Inl ''password'' \<and> open_browsers (v, log) = open_browsers (False, [])"
    using outcome [OF run(1)] page(1) sign shut by blast
  moreover have "r' = Inl ''page'' \<and> open_browsers (v', log') = insert () (open_browsers (False, []))"
    using outcome [OF run(2)] page(2) by blast
  ultimately show ?thesis using run by (auto simp: open_browsers_def split: if_splits)
qed

text \<open>The session file: when the setup succeeds it has signed in and then saved the session in the
  very file the client tests load, for every environment.\<close>

theorem stored_session_is_loaded:
  assumes "global_setup pw env projects w = (Inr (), w')"
  shows "\<exists>page path w2 w3 w4. sign_in pw env page None None w2 = (Inr (), w3)
    \<and> save_state pw page path w3 = (Inr (), w4)
    \<and> js_path [''use'', ''storageState''] (Js_obj (client_config devices env)) = Some (Js_str path)"
  using assms
  by (fastforce simp: global_setup_def client_config_def Let_def bind_io_def finally_io_def
      split: prod.splits sum.splits)

theorem stored_session_is_loaded_witness:
  "\<exists>page path w2 w3 w4. sign_in recorder (\<lambda>_. None) page None None w2 = (Inr (), w3)
    \<and> save_state recorder page path w3 = (Inr (), w4)
    \<and> js_path [''use'', ''storageState''] (Js_obj (client_config (\<lambda>_. []) (\<lambda>_. None))) = Some (Js_str path)"
proof -
  have "\<exists>w'. global_setup recorder (\<lambda>_. None) [] [] = (Inr (), w')"
    by (simp add: global_setup_def bind_io_def [of "sign_in pw env p e q" for pw env p e q] Let_def
        bind_io_def [of "launch pw" for pw] bind_io_def [of "new_page pw b u" for pw b u] finally_io_def
        recorder_sign_in) (simp add: recorder_defs)
  then show ?thesis using stored_session_is_loaded [of recorder "\<lambda>_. None" "[]" "[]"] by blast
qed

end
