(* ===== verification/Spec2Isabelle.thy ===== *)
theory Spec2Isabelle
  imports Enums Capacity Settlement Assignments Rate_Rules Tax_Rounding Stay_Search Sale_Runs Desk_Facts Harness
begin

text \<open>
  Lodge Ops is a property-management system: a Laravel API (\<^verbatim>\<open>apps/api\<close>) that keeps reservations,
  resources, folios, payments, promotions and operational tasks of a lodge, and a small Next.js site
  (\<^verbatim>\<open>apps/web\<close>) that presents it. The program's logic lives in the services of
  \<^verbatim>\<open>apps/api/app/Services\<close>: each one runs in a database transaction, locks the rows it reads, checks
  guards, and either throws (the transaction is rolled back) or writes rows and a message to the outbox.

  How a service is modelled. A table is the list of its rows (\<^theory_text>\<open>Schema\<close>, record \<^theory_text>\<open>db\<close>); an operation
  takes the database and the request (\<^theory_text>\<open>ctx\<close>: clock, user, membership, calendar) and returns a failure or
  the changed database with its result (\<^theory_text>\<open>'a action\<close>); every \<^verbatim>\<open>throw\<close> and early return of the code is a
  branch. A failure leaves no state, which is the rollback. Row locks serialise the transactions, so
  interleavings of requests are sequences of operations; the run theorems quantify over all of them.
  Money is in integer minor units; where the code uses 64-bit \<^verbatim>\<open>intdiv\<close>, an \<^verbatim>\<open>int\<close> return type or a float, the
  range check and the rounding are written out (\<^theory_text>\<open>Prelude\<close>, \<^theory_text>\<open>Money\<close>).

  The theories, in the order of their imports:

  \<^item> \<^theory_text>\<open>Prelude\<close>: failures and results, \<^verbatim>\<open>foreach\<close> loops that may throw, PHP integers, tables, intervals,
    and the locales \<^theory_text>\<open>append_log\<close> (a table that only grows), \<^theory_text>\<open>guarded_run\<close> (steps that keep an
    invariant) and \<^theory_text>\<open>growing_run\<close> (steps that also take nothing back), interpreted by the ledger, the bookings,
    the sale, the money commands and the front desk.
  \<^item> \<^theory_text>\<open>Enums\<close>: \<^verbatim>\<open>app/Enums\<close>, the stored values, the reservation state machine and the permission predicates.
  \<^item> \<^theory_text>\<open>Money\<close>: \<^verbatim>\<open>MoneyCalculator\<close>, \<^verbatim>\<open>CancellationFeeCalculator\<close>, \<^verbatim>\<open>CommissionService\<close> and the rounding of
    \<^verbatim>\<open>BookingQuoteService\<close>, with half-even rounding by IEEE doubles compared with exact rounding.
  \<^item> \<^theory_text>\<open>Schema\<close>: the rows of \<^verbatim>\<open>app/Models\<close>, the database, the outbox, fresh keys, and a small example property.
  \<^item> \<^theory_text>\<open>Availability\<close> and \<^theory_text>\<open>Capacity\<close>: \<^verbatim>\<open>AvailabilityService\<close>; what a passed check guarantees.
  \<^item> \<^theory_text>\<open>Folio\<close>: \<^verbatim>\<open>FolioService\<close>, the append-only ledger; runs of its commands.
  \<^item> \<^theory_text>\<open>Deposits\<close>: \<^verbatim>\<open>DepositService\<close> and \<^verbatim>\<open>ReservationPaymentScheduleService\<close>.
  \<^item> \<^theory_text>\<open>Promotions\<close>: \<^verbatim>\<open>CommercialPromotionService\<close>; limits and budgets along runs. The two hash functions are
    parameters.
  \<^item> \<^theory_text>\<open>Tasks\<close>: \<^verbatim>\<open>TaskLifecycleService\<close> and its access rules; the event log replays to the task's status.
  \<^item> \<^theory_text>\<open>Stay\<close> and \<^theory_text>\<open>Reservation\<close>: the hook of \<^verbatim>\<open>Allocation\<close>, the change log, program requirements, provisioning,
    and the workflows of \<^verbatim>\<open>ReservationService\<close> and \<^verbatim>\<open>CloseReservationWithPolicy\<close>.
  \<^item> \<^theory_text>\<open>Booking_Safety\<close>: runs of the reservation workflows as an inductive step relation, and the invariant that
    no resource is double-booked. \<^theory_text>\<open>Closure\<close>: what closing and confirming do to every table.
  \<^item> \<^theory_text>\<open>Assignments\<close>: \<^verbatim>\<open>AllocationWorkflowService\<close> and \<^verbatim>\<open>ReallocateResource\<close>; the same invariant along runs that
    mix staff changes with the workflows, and where a checked-in reservation leaves it.
  \<^item> \<^theory_text>\<open>Pricing\<close> and \<^theory_text>\<open>Quoting\<close>: \<^verbatim>\<open>AvailabilityQuery\<close> and \<^verbatim>\<open>BookingQuoteService::preview\<close>, from the search for
    a place to the priced offer, over a tariff (plans, rules, services, taxes, policies) that is an argument. \<^theory_text>\<open>Quote_Sums\<close>:
    the lines of an offer add up. \<^theory_text>\<open>Tax_Rounding\<close>: what rounding line by line costs in every mode, and which quotes it refuses. \<^theory_text>\<open>Rate_Rules\<close>:
    \<^verbatim>\<open>RatePlanPublicationValidator\<close> against the search of the governing rule. \<^theory_text>\<open>Stay_Search\<close>: the search against
    the check of a booking.
  \<^item> \<^theory_text>\<open>Quotes\<close>: the stored quote with its checksum, \<^verbatim>\<open>CommitBookingQuote\<close> and \<^verbatim>\<open>AmendReservation\<close>, over a state
    (record \<^theory_text>\<open>sales\<close>) that adds the tables of quotes, guests and stay guests to \<^theory_text>\<open>db\<close>. \<^theory_text>\<open>Quote_Effects\<close> and
    \<^theory_text>\<open>Amendments\<close>: what a commit and an amendment change in each table. \<^theory_text>\<open>Offers_Kept\<close>: the stay workflows leave prices
    and booked lines alone. \<^theory_text>\<open>Sales\<close> and \<^theory_text>\<open>Sale_Runs\<close>: runs that mix quotes, commits, amendments, the stay workflows and
    time, with the invariant \<^theory_text>\<open>sales_ok\<close> and what no step takes back.
  \<^item> \<^theory_text>\<open>Payments\<close> and \<^theory_text>\<open>Refunds\<close>: \<^verbatim>\<open>PaymentService\<close>, \<^verbatim>\<open>RequestRefund\<close>, \<^verbatim>\<open>CompleteRefund\<close> and the correction.
    \<^theory_text>\<open>Books\<close>: runs of their commands and the invariant that the ledger and the payments describe the same
    money. \<^theory_text>\<open>Settlement\<close>: the refund requirement a closure records.
  \<^item> \<^theory_text>\<open>Php_Text\<close>: the text functions of PHP the guards call, \<^verbatim>\<open>preg_match\<close> as a backtracking matcher and
    \<^verbatim>\<open>json_decode\<close> as a tokenizer and a stack machine. \<^theory_text>\<open>Card_Data\<close>: \<^verbatim>\<open>SensitivePaymentDataGuard\<close>; which card
    numbers it refuses, and which it misses.
  \<^item> \<^theory_text>\<open>Commands\<close>: the frame of a front-desk command, \<^verbatim>\<open>FinancialCommandExecutor\<close>, \<^verbatim>\<open>FrontDeskPaymentGuard\<close> and
    \<^verbatim>\<open>CanonicalJson\<close>, over a database that adds the drawer, tenders, evidence and the command log to \<^theory_text>\<open>db\<close>
    (record \<^theory_text>\<open>desk\<close>). \<^theory_text>\<open>Cash_Shifts\<close>: the four commands of the cash drawer. \<^theory_text>\<open>Front_Desk\<close>: payments, the review
    of set-aside tenders, refunds outside the program and their evidence.
  \<^item> \<^theory_text>\<open>Growth\<close>: what the money services never lose. \<^theory_text>\<open>Drawer\<close>: the invariant of the desk (\<^theory_text>\<open>desk_ok\<close>) and what no
    command takes back (\<^theory_text>\<open>desk_grows\<close>). \<^theory_text>\<open>Desk_Writes\<close>: the writes to each table keep both. \<^theory_text>\<open>Desk_Cash\<close> and
    \<^theory_text>\<open>Desk_Money\<close>: so do the bodies of the commands. \<^theory_text>\<open>Desk\<close>: runs of all commands mixed with the other money
    services, the content of a drawer as a refinement of what happened, and what no later command changes.
    \<^theory_text>\<open>Desk_Facts\<close>: exact effects of single commands, retries, and two weaknesses.
  \<^item> \<^theory_text>\<open>Site\<close> and \<^theory_text>\<open>Harness\<close>: the pages of \<^verbatim>\<open>apps/web\<close> as the element trees their components return, the tool
    configurations as JavaScript values, and the two scripts of the browser tests over an effect type whose
    primitives (Playwright) are parameters with documented behaviour as hypotheses.

  What the lemmas show. Each operation has an inversion rule (its name ends in \<^verbatim>\<open>_Inr\<close>): what held before and
  what changed, if it succeeded. Frame rules say which tables it leaves alone. On these rest the
  invariants of runs (double booking, sold as quoted, promotion limits, task logs, the append-only folio, the
  books), the exact effect of single operations, and the errors. The findings of the manifest name the theorems that
  exhibit them.

  Bounds and fuel. Nothing here runs out of fuel: recursion is structural, over finite tables, or on text that
  gets shorter (the matcher, the decoder, the scan of nested texts). The scan is also given with a bound on the depth of its
  calls (\<^theory_text>\<open>strings_upto\<close>), and \<^theory_text>\<open>Card_Data\<close> proves the weight of the value to be enough. Integers
  that the code keeps within 64 bits are checked where the code would throw; sums of amounts are taken
  unbounded, as the database does.

  Parameters: the hashes of promotion codes, of a quote, of a canonical request and of a reference (the model only compares
  them), the calendar of a property, the configuration of the front desk, and Playwright. Text is a list of
  bytes; lower case is taken on ASCII, where the code uses \<^verbatim>\<open>mb_strtolower\<close> on tender aliases. The unique
  indexes and checks of the desk's tables are the PostgreSQL ones; column widths are left out. The saving hook
  that scans every tenant model is applied to tender rows only. The saving hook of \<^verbatim>\<open>Reservation\<close> (its program belongs to its
  property) is applied where a program is written, in a booking and an amendment; the other updates of a reservation write
  neither column, and their hook is left out. \<^verbatim>\<open>half_even\<close> rounds as PHP 8.4 does, without the pre-rounding of earlier versions.
  The input of a task update gives a field or leaves it out; an explicit null is not an input of the model.

  Not modelled: tenancy (one tenant is fixed), authorisation of requests, validation of request shapes,
  deadlock retries, translation and text of messages, queues after commit, file storage and documents,
  payment providers and e-mail, read-only projections, the admin screens, and the vendored JavaScript
  bundles under \<^verbatim>\<open>apps/api/public\<close>. Payment requests and direct booking talk to a payment provider and to the
  public booking site and are left out, as are settlement reports, checklists, proposals, the guest portal and
  integrations. The runs of the sale do not include staff assignments and payments: assignments and payments have
  runs of their own (\<^theory_text>\<open>Assignments\<close>, \<^theory_text>\<open>Books\<close>).
\<close>

end
